(* ===== verification/Prelude.thy ===== *)
theory Prelude
  imports Main "HOL-Library.Word"
begin

text \<open>
  Shared ground of the development: the C integer types as words, \<open>size_t\<close>
  arithmetic with its wrap-around written out on naturals, the little-endian byte
  order of the wire format, C strings held in byte buffers, and the collections of
  facts the component theories feed to their proof methods.
\<close>

unbundle bit_operations_syntax

section \<open>Types and fact collections\<close>

type_synonym byte = "8 word"
type_synonym u32 = "32 word"
type_synonym u64 = "64 word"

named_theorems keeps_rules
  "introduction rules: an invariant survives an operation and no access is out of bounds"
named_theorems takes_rules
  "introduction rules: an operation consumes exactly the given bytes"
named_theorems agree_rules
  "introduction rules: two operations agree on every reader up to a size"
named_theorems null_rules
  "introduction rules: a call without output parameter stays without one"
named_theorems paired_rules
  "introduction rules: the calls with and without output parameter take the same path"
named_theorems wire_simps
  "rewrite rules that put written and encoded bytes into normal form"

section \<open>Arithmetic on \<open>size_t\<close>\<close>

text \<open>
  A \<open>size_t\<close> value is a natural number below \<open>2 ^ 64\<close>. Sums and differences of such
  values are reduced modulo \<open>2 ^ 64\<close>, as C does for unsigned operands.
\<close>

definition size_add :: "nat \<Rightarrow> nat \<Rightarrow> nat" where
  "size_add a b = (a + b) mod 2 ^ 64"

definition size_sub :: "nat \<Rightarrow> nat \<Rightarrow> nat" where
  "size_sub a b = (a + (2 ^ 64 - b mod 2 ^ 64)) mod 2 ^ 64"

lemma size_add_small: "a + b < 2 ^ 64 \<Longrightarrow> size_add a b = a + b"
  by (simp add: size_add_def)

lemma size_sub_small:
  assumes "b \<le> a" "a < 2 ^ 64"
  shows "size_sub a b = a - b"
proof -
  have "a + (2 ^ 64 - b mod 2 ^ 64) = (a - b) + 2 ^ 64"
    using assms by simp
  then have "size_sub a b = (a - b) mod 2 ^ 64"
    unfolding size_sub_def by (simp only: mod_add_self2)
  then show ?thesis using assms by simp
qed

lemma size_sub_wrap:
  assumes "a < b" "b < 2 ^ 64"
  shows "size_sub a b = 2 ^ 64 - (b - a)"
  unfolding size_sub_def using assms by simp

text \<open>The rounding idiom \<open>(x + m) & ~m\<close> for a mask \<open>m = 2 ^ k - 1\<close>.\<close>

definition align_mask :: "nat \<Rightarrow> nat \<Rightarrow> nat" where
  "align_mask x m = unat ((word_of_nat x + word_of_nat m :: u64) AND NOT (word_of_nat m))"

lemma and_not_mask_word: "(w :: 'a::len word) AND NOT (mask k) = push_bit k (drop_bit k w)"
  by (rule bit_word_eqI) (auto simp: bit_simps)

lemma align_mask_eq:
  assumes "x + (2 ^ k - 1) < 2 ^ 64"
  shows "align_mask x (2 ^ k - 1) = 2 ^ k * ((x + (2 ^ k - 1)) div 2 ^ k)"
proof -
  let ?y = "x + (2 ^ k - 1)"
  have "(word_of_nat (2 ^ k - 1) :: u64) = mask k"
    by (simp add: mask_eq_exp_minus_1 of_nat_diff)
  then have "align_mask x (2 ^ k - 1) = unat (push_bit k (drop_bit k (word_of_nat ?y :: u64)))"
    unfolding align_mask_def by (simp only: and_not_mask_word[symmetric] of_nat_add)
  also have "\<dots> = take_bit 64 (push_bit k (drop_bit k (take_bit 64 ?y)))"
    by (simp add: unsigned_push_bit_eq unsigned_drop_bit_eq unsigned_of_nat)
  also have "\<dots> = take_bit 64 (2 ^ k * (?y div 2 ^ k))"
    using assms by (simp add: take_bit_nat_eq_self push_bit_eq_mult drop_bit_eq_div mult.commute)
  also have "\<dots> = 2 ^ k * (?y div 2 ^ k)"
    using assms by (intro take_bit_nat_eq_self) (metis le_less_trans times_div_less_eq_dividend)
  finally show ?thesis .
qed

lemma align4_eq: "x + 3 < 2 ^ 64 \<Longrightarrow> align_mask x 3 = 4 * ((x + 3) div 4)"
  using align_mask_eq[of x 2] by simp

lemma align16_eq: "x + 15 < 2 ^ 64 \<Longrightarrow> align_mask x 15 = 16 * ((x + 15) div 16)"
  using align_mask_eq[of x 4] by simp

text \<open>Padding a length to a multiple of four.\<close>

lemma pad4_eq: "n + (4 - n mod 4) mod 4 = 4 * ((n + 3) div 4)" for n :: nat
proof -
  define q r where "q = n div 4" and "r = n mod 4"
  have n: "n = 4 * q + r" and r: "r < 4" by (simp_all add: q_def r_def)
  have d: "(n + 3) div 4 = q + (r + 3) div 4" by (simp add: n)
  from r consider "r = 0" | "r = 1" | "r = 2" | "r = 3" by linarith
  then have "r + (4 - r) mod 4 = 4 * ((r + 3) div 4)" by cases simp_all
  then have "4 * q + r + (4 - r) mod 4 = 4 * (q + (r + 3) div 4)" by simp
  then show ?thesis by (simp only: d r_def[symmetric] n[symmetric])
qed

section \<open>Little-endian byte order\<close>

text \<open>
  \<open>le_bytes n v\<close> are the low \<open>n\<close> bytes of \<open>v\<close>, least significant first: byte \<open>i\<close> is
  \<open>(unsigned char)(v >> (8 * i))\<close>. \<open>le_word\<close> is the loop
  \<open>val |= data[pos + i] << (8 * i)\<close>.
\<close>

definition le_bytes :: "nat \<Rightarrow> 'a::len word \<Rightarrow> byte list" where
  "le_bytes n v = map (\<lambda>i. ucast (drop_bit (8 * i) v)) [0..<n]"

definition le_word :: "byte list \<Rightarrow> 'a::len word" where
  "le_word bs = fold (\<lambda>i v. v OR push_bit (8 * i) (ucast (bs ! i))) [0..<length bs] 0"

lemma length_le_bytes [simp]: "length (le_bytes n v) = n"
  by (simp add: le_bytes_def)

lemma bit_shifted_byte:
  "bit (push_bit (8 * k) (ucast (b :: byte)) :: 'a::len word) n
    = (n < LENGTH('a) \<and> n div 8 = k \<and> bit b (n mod 8))"
proof (cases "8 * k \<le> n")
  case True
  define m where "m = n - 8 * k"
  have n: "n = 8 * k + m" using True by (simp add: m_def)
  show ?thesis
  proof (cases "m < 8")
    case True
    then show ?thesis by (auto simp: n bit_simps)
  next
    case False
    then have "n div 8 \<noteq> k" by (simp add: n)
    moreover have "\<not> bit b m" using False bit_imp_le_length[of b m] by auto
    ultimately show ?thesis by (auto simp: n bit_simps)
  qed
next
  case False
  then have "n div 8 \<noteq> k" by auto
  with False show ?thesis by (auto simp: bit_simps)
qed

lemma bit_le_word_loop:
  "bit (fold (\<lambda>i v. v OR push_bit (8 * i) (ucast (bs ! i))) [0..<k] (0 :: 'a::len word)) n
   = (n < LENGTH('a) \<and> n div 8 < k \<and> bit (bs ! (n div 8) :: byte) (n mod 8))"
  by (induction k) (auto simp: bit_or_iff bit_shifted_byte less_Suc_eq)

lemma bit_le_word:
  "bit (le_word bs :: 'a::len word) n
   = (n < LENGTH('a) \<and> n div 8 < length bs \<and> bit (bs ! (n div 8)) (n mod 8))"
  by (simp add: le_word_def bit_le_word_loop)

lemma le_word_le_bytes: "LENGTH('a) \<le> 8 * n \<Longrightarrow> le_word (le_bytes n v) = (v :: 'a::len word)"
  by (rule bit_word_eqI) (auto simp: bit_le_word le_bytes_def bit_simps)

lemma le_bytes_le_word:
  assumes "length bs = n" "8 * n \<le> LENGTH('a)"
  shows "le_bytes n (le_word bs :: 'a::len word) = bs"
proof (rule nth_equalityI)
  fix i assume "i < length (le_bytes n (le_word bs :: 'a word))"
  with assms show "le_bytes n (le_word bs :: 'a word) ! i = bs ! i"
    by (intro bit_word_eqI) (auto simp: bit_le_word le_bytes_def bit_simps)
qed (use assms in simp)

lemma le_word_le_bytes32 [simp]: "le_word (le_bytes 4 v) = (v :: u32)"
  by (rule le_word_le_bytes) simp

lemma le_word_le_bytes64 [simp]: "le_word (le_bytes 8 v) = (v :: u64)"
  by (rule le_word_le_bytes) simp

text \<open>Three bytes in little-endian order carry any value below \<open>2 ^ 24\<close>.\<close>

lemma le_word24:
  assumes "n < 2 ^ 24"
  shows "unat (le_word (le_bytes 3 (word_of_nat n :: u64)) :: u64) = n"
proof -
  have "(le_word (le_bytes 3 (word_of_nat n :: u64)) :: u64) = word_of_nat n"
  proof (rule bit_word_eqI)
    fix i assume "i < LENGTH(64)"
    have "\<not> bit n i" if "24 \<le> i"
    proof -
      have "n < 2 ^ i" using assms that by (meson le_trans less_le_trans one_le_numeral power_increasing)
      then show ?thesis by (simp add: bit_iff_odd)
    qed
    moreover have "i div 8 < 3 \<longleftrightarrow> \<not> 24 \<le> i" by auto
    ultimately show "bit (le_word (le_bytes 3 (word_of_nat n :: u64)) :: u64) i = bit (word_of_nat n :: u64) i"
      using \<open>i < LENGTH(64)\<close> by (cases "24 \<le> i") (auto simp: bit_le_word le_bytes_def bit_simps)
  qed
  then show ?thesis using assms by (simp add: unat_of_nat)
qed

lemma le_word_bound: "unat (le_word bs :: 'a::len word) < 2 ^ (8 * length bs)"
proof -
  have "take_bit (8 * length bs) (le_word bs :: 'a word) = le_word bs"
    by (rule bit_word_eqI) (auto simp: bit_simps bit_le_word)
  then have "unat (le_word bs :: 'a word) = take_bit (8 * length bs) (unat (le_word bs :: 'a word))"
    by (metis unsigned_take_bit_eq)
  then show ?thesis by (metis take_bit_nat_less_exp)
qed

section \<open>C strings and fixed-size buffers\<close>

text \<open>
  \<open>cstr bs\<close> is the string that \<open>strlen\<close> and friends see in the bytes \<open>bs\<close> followed
  by a terminator: everything before the first zero byte. \<open>clip cap s\<close> is what a
  \<open>char[cap]\<close> buffer holds after the copy idiom
  \<open>if (n >= cap) n = cap - 1; memcpy(out, s, n); out[n] = 0\<close>.
\<close>

definition cstr :: "byte list \<Rightarrow> byte list" where
  "cstr bs = takeWhile (\<lambda>b. b \<noteq> 0) bs"

definition clip :: "nat \<Rightarrow> byte list \<Rightarrow> byte list" where
  "clip cap s = take (cap - 1) s"

lemma length_clip [simp]: "length (clip cap s) = min (length s) (cap - 1)"
  by (simp add: clip_def)

lemma cstr_no_zero: "0 \<notin> set (cstr bs)"
  unfolding cstr_def by (auto dest: set_takeWhileD)

lemma cstr_id: "0 \<notin> set bs \<Longrightarrow> cstr bs = bs"
  unfolding cstr_def by (rule takeWhile_eq_all_conv[THEN iffD2]) auto

lemma clip_id: "length s < cap \<Longrightarrow> clip cap s = s"
  by (simp add: clip_def)

end
