(* ===== verification/C_Monad.thy ===== *)
theory C_Monad
  imports Prelude
begin

text \<open>
  C functions that mutate a state and return 0 or -1, as state-passing functions.
  The combinators follow the statement forms the sources use: sequencing with an
  early \<open>return -1\<close>, counted loops and \<open>switch\<close> on a constructor id. A small
  Hoare calculus says that an operation keeps an invariant and never leaves the
  modelled memory; a second one compares two operations on all states up to a bound.
\<close>

section \<open>Outcomes and combinators\<close>

text \<open>
  \<open>Ok v\<close> is a normal return, \<open>Fail\<close> is \<open>return -1\<close>. \<open>Oob\<close> marks an access outside
  the buffer (undefined behaviour in C) and \<open>Fuel\<close> a recursion deeper than the bound
  a definition was given; the safety theorems show that neither of them occurs. For the
  network \<open>Fuel\<close> is also a blocking call that has not been answered yet. The state is kept
  on every outcome, as C keeps it.
\<close>

datatype 'a outcome = Ok 'a | Fail | Oob | Fuel

type_synonym ('s, 'a) cfun = "'s \<Rightarrow> 'a outcome \<times> 's"

definition ret :: "'a \<Rightarrow> ('s, 'a) cfun" where
  "ret x s = (Ok x, s)"

definition fail :: "('s, 'a) cfun" where
  "fail s = (Fail, s)"

definition bind :: "('s, 'a) cfun \<Rightarrow> ('a \<Rightarrow> ('s, 'b) cfun) \<Rightarrow> ('s, 'b) cfun" where
  "bind m f s = (case m s of
     (Ok x, s') \<Rightarrow> f x s'
   | (Fail, s') \<Rightarrow> (Fail, s')
   | (Oob, s') \<Rightarrow> (Oob, s')
   | (Fuel, s') \<Rightarrow> (Fuel, s'))"

abbreviation skip :: "('s, unit) cfun" where
  "skip \<equiv> ret ()"

text \<open>A block of statements, each of which may return early.\<close>

primrec seqs :: "('s, unit) cfun list \<Rightarrow> ('s, unit) cfun" where
  "seqs [] = skip"
| "seqs (m # ms) = bind m (\<lambda>_. seqs ms)"

text \<open>The loop \<open>for (i = 0; i < n; i++) if (body != 0) return -1;\<close>\<close>

primrec times :: "nat \<Rightarrow> ('s, unit) cfun \<Rightarrow> ('s, unit) cfun" where
  "times 0 m = skip"
| "times (Suc n) m = bind m (\<lambda>_. times n m)"

text \<open>
  A \<open>switch\<close> whose cases all return and whose default logs and returns -1. Each case
  lists the labels that share its body.
\<close>

primrec switch :: "'k \<Rightarrow> ('k list \<times> ('s, 'a) cfun) list \<Rightarrow> ('s, 'a) cfun" where
  "switch k [] = fail"
| "switch k (c # cs) = (if k \<in> set (fst c) then snd c else switch k cs)"

text \<open>The conditional \<open>if (flags & (1u << i)) body\<close>.\<close>

definition when_bit :: "u32 \<Rightarrow> nat \<Rightarrow> ('s, unit) cfun \<Rightarrow> ('s, unit) cfun" where
  "when_bit flags i m = (if bit flags i then m else skip)"

text \<open>
  An operation on the first component of a state with an output parameter, and a write
  through the output pointer. \<open>None\<close> is the pointer \<open>NULL\<close>.
\<close>

definition on_fst :: "('s, 'a) cfun \<Rightarrow> ('s \<times> 'o, 'a) cfun" where
  "on_fst m so = (case m (fst so) of (res, s') \<Rightarrow> (res, (s', snd so)))"

definition put_out :: "('o \<Rightarrow> 'o) \<Rightarrow> ('s \<times> 'o option, unit) cfun" where
  "put_out f so = (Ok (), (fst so, map_option f (snd so)))"

definition has_out :: "('s \<times> 'o option, bool) cfun" where
  "has_out so = (Ok (snd so \<noteq> None), so)"

text \<open>A call with a \<open>NULL\<close> output parameter.\<close>

definition no_out :: "('s \<times> 'o option, 'a) cfun \<Rightarrow> ('s, 'a) cfun" where
  "no_out m s = (case m (s, None) of (res, (s', _)) \<Rightarrow> (res, s'))"

lemma bind_ret [simp]: "bind (ret x) f = f x"
  by (rule ext) (simp add: bind_def ret_def)

lemma bind_fail [simp]: "bind fail f = fail"
  by (rule ext) (simp add: bind_def fail_def)

lemma bind_assoc: "bind (bind m f) g = bind m (\<lambda>x. bind (f x) g)"
  by (rule ext) (simp add: bind_def split: prod.splits outcome.splits)

lemma on_fst_bind: "on_fst (bind m f) = bind (on_fst m) (\<lambda>x. on_fst (f x))"
  by (rule ext) (simp add: bind_def on_fst_def split: prod.splits outcome.splits)

lemma on_fst_ret: "on_fst (ret x) = ret x" "on_fst fail = fail"
  by (simp_all add: fun_eq_iff on_fst_def ret_def fail_def)

lemma times_numeral [simp]: "times (numeral k) m = bind m (\<lambda>_. times (pred_numeral k) m)"
  by (simp add: numeral_eq_Suc)

lemma bind_OkI: "m s = (Ok x, s') \<Longrightarrow> bind m f s = f x s'"
  by (simp add: bind_def)

lemma bind_FailI: "m s = (Fail, s') \<Longrightarrow> bind m f s = (Fail, s')"
  by (simp add: bind_def)

section \<open>Keeping an invariant\<close>

definition no_fault :: "'a outcome \<Rightarrow> bool" where
  "no_fault res = (res \<noteq> Oob \<and> res \<noteq> Fuel)"

lemma no_fault_simps [simp]:
  "no_fault (Ok x)" "no_fault Fail" "\<not> no_fault Oob" "\<not> no_fault Fuel"
  by (simp_all add: no_fault_def)

definition keeps :: "('s \<Rightarrow> bool) \<Rightarrow> ('s, 'a) cfun \<Rightarrow> bool" where
  "keeps I m = (\<forall>s. I s \<longrightarrow> no_fault (fst (m s)) \<and> I (snd (m s)))"

lemma keepsI: "(\<And>s. I s \<Longrightarrow> no_fault (fst (m s)) \<and> I (snd (m s))) \<Longrightarrow> keeps I m"
  by (simp add: keeps_def)

lemma keepsD: "keeps I m \<Longrightarrow> I s \<Longrightarrow> m s = (res, s') \<Longrightarrow> no_fault res \<and> I s'"
  unfolding keeps_def by (metis fst_conv snd_conv)

lemma keeps_ret [keeps_rules]: "keeps I (ret x)"
  by (simp add: keeps_def ret_def)

lemma keeps_fail [keeps_rules]: "keeps I fail"
  by (simp add: keeps_def fail_def)

lemma keeps_bind [keeps_rules]:
  assumes "keeps I m" "\<And>x. keeps I (f x)"
  shows "keeps I (bind m f)"
proof (rule keepsI)
  fix s assume "I s"
  obtain res s' where m: "m s = (res, s')" by fastforce
  note keepsD[OF assms(1) \<open>I s\<close> m]
  with assms(2) m show "no_fault (fst (bind m f s)) \<and> I (snd (bind m f s))"
    by (cases res) (simp_all add: bind_def keeps_def)
qed

lemma keeps_if [keeps_rules]:
  "(b \<Longrightarrow> keeps I m) \<Longrightarrow> (\<not> b \<Longrightarrow> keeps I n) \<Longrightarrow> keeps I (if b then m else n)"
  by simp

lemma keeps_seqs_Nil [keeps_rules]: "keeps I (seqs [])"
  by (simp add: keeps_ret)

lemma keeps_seqs_Cons [keeps_rules]:
  "keeps I m \<Longrightarrow> keeps I (seqs ms) \<Longrightarrow> keeps I (seqs (m # ms))"
  by (simp add: keeps_bind)

lemma keeps_times [keeps_rules]: "keeps I m \<Longrightarrow> keeps I (times n m)"
  by (induction n) (simp_all add: keeps_ret keeps_bind)

lemma keeps_switch_Nil [keeps_rules]: "keeps I (switch k [])"
  by (simp add: keeps_fail)

lemma keeps_switch_Cons [keeps_rules]:
  "keeps I m \<Longrightarrow> keeps I (switch k cs) \<Longrightarrow> keeps I (switch k ((ks, m) # cs))"
  by simp

lemma keeps_when_bit [keeps_rules]: "keeps I m \<Longrightarrow> keeps I (when_bit flags i m)"
  by (simp add: when_bit_def keeps_ret)

text \<open>States with an output parameter: the pointed-to value satisfies \<open>J\<close>.\<close>

definition with_out :: "('s \<Rightarrow> bool) \<Rightarrow> ('o \<Rightarrow> bool) \<Rightarrow> 's \<times> 'o option \<Rightarrow> bool" where
  "with_out I J so = (I (fst so) \<and> pred_option J (snd so))"

lemma keeps_on_fst [keeps_rules]: "keeps I m \<Longrightarrow> keeps (with_out I J) (on_fst m)"
  by (simp add: keeps_def on_fst_def with_out_def split_beta)

lemma keeps_put_out [keeps_rules]:
  "(\<And>x. J x \<Longrightarrow> J (f x)) \<Longrightarrow> keeps (with_out I J) (put_out f)"
  by (simp add: keeps_def put_out_def with_out_def option.pred_set option.set_map)

lemma keeps_has_out [keeps_rules]: "keeps J has_out"
  by (simp add: keeps_def has_out_def)

lemma keeps_prod [keeps_rules]: "(\<And>x y. keeps J (f x y)) \<Longrightarrow> keeps J (case p of (x, y) \<Rightarrow> f x y)"
  by (simp add: split_beta)

lemma keeps_no_out:
  assumes "keeps (with_out I J) m"
  shows "keeps I (no_out m)"
proof (rule keepsI)
  fix s assume "I s"
  then have "with_out I J (s, None)" by (simp add: with_out_def)
  moreover obtain res s' o' where m: "m (s, None) = (res, (s', o'))" by (metis surj_pair)
  ultimately have "no_fault res \<and> with_out I J (s', o')" by (metis assms keepsD)
  then show "no_fault (fst (no_out m s)) \<and> I (snd (no_out m s))"
    by (simp add: no_out_def m with_out_def)
qed

section \<open>Calls without an output parameter\<close>

text \<open>
  An operation called with \<open>NULL\<close> keeps it \<open>NULL\<close>; then \<open>no_out\<close> commutes with the
  combinators and a skipping variant can be read as a plain operation.
\<close>

definition null_stays :: "('s \<times> 'o option, 'a) cfun \<Rightarrow> bool" where
  "null_stays m = (\<forall>s. snd (snd (m (s, None))) = None)"

lemma no_out_bind:
  assumes "null_stays m"
  shows "no_out (bind m f) = bind (no_out m) (\<lambda>x. no_out (f x))"
proof (rule ext)
  fix s
  obtain res s' where "m (s, None) = (res, (s', None))"
    using assms unfolding null_stays_def by (metis prod.collapse)
  then show "no_out (bind m f) s = bind (no_out m) (\<lambda>x. no_out (f x)) s"
    by (cases res) (simp_all add: no_out_def bind_def)
qed

lemma null_stays_bind:
  assumes "null_stays m" "\<And>x. null_stays (f x)"
  shows "null_stays (bind m f)"
  unfolding null_stays_def
proof
  fix s
  obtain res s' where "m (s, None) = (res, (s', None))"
    using assms(1) unfolding null_stays_def by (metis prod.collapse)
  then show "snd (snd (bind m f (s, None))) = None"
    using assms(2) by (cases res) (simp_all add: bind_def null_stays_def)
qed

lemma null_stays_basic [null_rules]:
  "null_stays (on_fst m)" "null_stays (put_out g)" "null_stays has_out"
  "null_stays (ret x)" "null_stays fail"
  by (simp_all add: null_stays_def on_fst_def put_out_def has_out_def ret_def fail_def split_beta)

lemma null_stays_combine [null_rules]:
  "null_stays m \<Longrightarrow> (\<And>x. null_stays (f x)) \<Longrightarrow> null_stays (bind m f)"
  "null_stays (seqs [])"
  "null_stays n \<Longrightarrow> null_stays (seqs ns) \<Longrightarrow> null_stays (seqs (n # ns))"
  "(b \<Longrightarrow> null_stays n) \<Longrightarrow> (\<not> b \<Longrightarrow> null_stays n') \<Longrightarrow> null_stays (if b then n else n')"
  "null_stays n \<Longrightarrow> null_stays (when_bit flags i n)"
  "null_stays (switch k [])"
  "null_stays m \<Longrightarrow> null_stays (switch k cs) \<Longrightarrow> null_stays (switch k ((ks, m) # cs))"
  by (simp_all add: null_stays_bind null_stays_basic when_bit_def)

lemma null_stays_times [null_rules]: "null_stays m \<Longrightarrow> null_stays (times n m)"
  by (induction n) (simp_all add: null_stays_basic null_stays_bind)

lemma null_stays_case [null_rules]:
  "(\<And>x y. null_stays (f x y)) \<Longrightarrow> null_stays (case p of (x, y) \<Rightarrow> f x y)"
  "null_stays m \<Longrightarrow> (\<And>x. null_stays (g x)) \<Longrightarrow> null_stays (case v of None \<Rightarrow> m | Some x \<Rightarrow> g x)"
  by (simp_all add: split_beta split: option.split)

lemma no_out_basic [simp]:
  "no_out (on_fst m) = m" "no_out (put_out g) = skip" "no_out has_out = ret False"
  "no_out (ret x) = ret x" "no_out fail = fail"
  by (simp_all add: fun_eq_iff no_out_def on_fst_def put_out_def has_out_def ret_def fail_def
      split_beta)

lemma no_out_combine:
  "no_out (seqs []) = skip"
  "null_stays n \<Longrightarrow> no_out (seqs (n # ns)) = bind (no_out n) (\<lambda>_. no_out (seqs ns))"
  "no_out (if b then n else n') = (if b then no_out n else no_out n')"
  "no_out (when_bit flags i n) = when_bit flags i (no_out n)"
  by (simp_all add: no_out_bind when_bit_def)

section \<open>The same path with and without output\<close>

text \<open>
  \<open>paired J m n\<close>: run with an output parameter, \<open>m\<close> has the outcome that \<open>n\<close> has
  without one, and after a normal return both have moved the state equally.
\<close>

definition same_run :: "'a outcome \<times> 's \<times> 'o option \<Rightarrow> 'a outcome \<times> 's \<times> 'o option \<Rightarrow> bool" where
  "same_run p q = (fst p = fst q \<and> (\<forall>x. fst p = Ok x \<longrightarrow>
     fst (snd p) = fst (snd q) \<and> snd (snd p) \<noteq> None \<and> snd (snd q) = None))"

definition paired ::
  "('s \<Rightarrow> bool) \<Rightarrow> ('s \<times> 'o option, 'a) cfun \<Rightarrow> ('s \<times> 'o option, 'a) cfun \<Rightarrow> bool" where
  "paired J m n = (\<forall>s v. J s \<longrightarrow> same_run (m (s, Some v)) (n (s, None)))"

lemma pairedD: "paired J m n \<Longrightarrow> J s \<Longrightarrow> same_run (m (s, Some v)) (n (s, None))"
  unfolding paired_def by simp

lemma paired_basic [paired_rules]:
  "paired J (on_fst m) (on_fst m)" "paired J (put_out f) (put_out g)"
  "paired J (ret x) (ret x)" "paired J fail fail"
  by (simp_all add: paired_def same_run_def on_fst_def put_out_def ret_def fail_def split_beta)

lemma paired_bind [paired_rules]:
  assumes "paired J m n" "\<And>x. paired J (f x) (g x)" "keeps (with_out J (\<lambda>_. False)) n"
  shows "paired J (bind m f) (bind n g)"
  unfolding paired_def
proof (intro allI impI)
  fix s v assume s: "J s"
  obtain a s1 o1 where m: "m (s, Some v) = (a, (s1, o1))" by (metis surj_pair)
  obtain b s2 o2 where n: "n (s, None) = (b, (s2, o2))" by (metis surj_pair)
  have run: "same_run (a, (s1, o1)) (b, (s2, o2))"
    using pairedD[OF assms(1) s, of v] unfolding m n .
  have "with_out J (\<lambda>_. False) (s, None)" using s by (simp add: with_out_def)
  from keepsD[OF assms(3) this n] have "J s2" by (simp add: with_out_def)
  show "same_run (bind m f (s, Some v)) (bind n g (s, None))"
  proof (cases a)
    case (Ok y)
    then obtain v' where o: "b = Ok y" "s1 = s2" "o1 = Some v'" "o2 = None"
      using run by (auto simp: same_run_def)
    have "bind m f (s, Some v) = f y (s2, Some v')" "bind n g (s, None) = g y (s2, None)"
      by (simp_all add: bind_def m n Ok o)
    then show ?thesis using pairedD[OF assms(2) \<open>J s2\<close>] by (simp only:)
  qed (use run in \<open>simp_all add: bind_def m n same_run_def split: outcome.splits\<close>)
qed

lemma keeps_null_put_out: "keeps (with_out J (\<lambda>_. False)) (put_out f)"
  by (rule keeps_put_out)

lemma bind_put_out_skip [simp]: "bind (put_out f) ret = put_out f"
  by (simp add: fun_eq_iff bind_def put_out_def ret_def)

lemma paired_has_out:
  "paired J (f True) (g False) \<Longrightarrow> paired J (bind has_out f) (bind has_out g)"
  by (simp add: paired_def bind_def has_out_def same_run_def)

lemma paired_combine [paired_rules]:
  "paired J (seqs []) (seqs [])"
  "paired J m m' \<Longrightarrow> paired J (seqs ms) (seqs ms') \<Longrightarrow> keeps (with_out J (\<lambda>_. False)) m' \<Longrightarrow>
    paired J (seqs (m # ms)) (seqs (m' # ms'))"
  "(b \<Longrightarrow> paired J m m') \<Longrightarrow> (\<not> b \<Longrightarrow> paired J n n') \<Longrightarrow>
    paired J (if b then m else n) (if b then m' else n')"
  "paired J m m' \<Longrightarrow> paired J (when_bit flags i m) (when_bit flags i m')"
  "paired J (switch k []) (switch k [])"
  "paired J m m' \<Longrightarrow> paired J (switch k cs) (switch k cs') \<Longrightarrow>
    paired J (switch k ((ks, m) # cs)) (switch k ((ks, m') # cs'))"
  by (simp_all add: paired_basic paired_bind when_bit_def)

lemma paired_times [paired_rules]:
  "paired J m m' \<Longrightarrow> keeps (with_out J (\<lambda>_. False)) m' \<Longrightarrow> paired J (times n m) (times n m')"
  by (induction n) (simp_all add: paired_basic paired_bind)

section \<open>Agreement up to a bound\<close>

text \<open>
  \<open>agree I m n\<close>: from every state that satisfies \<open>I\<close> the two operations give the same
  result. It is the congruence used to unfold a recursion by one level.
\<close>

definition agree :: "('s \<Rightarrow> bool) \<Rightarrow> ('s, 'a) cfun \<Rightarrow> ('s, 'a) cfun \<Rightarrow> bool" where
  "agree I m n = (\<forall>s. I s \<longrightarrow> m s = n s)"

lemma agree_refl [agree_rules]: "agree I m m"
  by (simp add: agree_def)

lemma agree_bind:
  assumes "keeps I m" "agree I m m'" "\<And>x. agree I (f x) (f' x)"
  shows "agree I (bind m f) (bind m' f')"
  unfolding agree_def
proof (intro allI impI)
  fix s assume "I s"
  obtain res s' where m: "m s = (res, s')" by fastforce
  have "I s'" using keepsD[OF assms(1) \<open>I s\<close> m] by simp
  moreover have "m' s = (res, s')" using assms(2) m \<open>I s\<close> by (simp add: agree_def)
  ultimately show "bind m f s = bind m' f' s"
    using m assms(3) by (cases res) (simp_all add: bind_def agree_def)
qed

lemma agree_seqs_Cons:
  "keeps I m \<Longrightarrow> agree I m m' \<Longrightarrow> agree I (seqs ms) (seqs ms') \<Longrightarrow>
   agree I (seqs (m # ms)) (seqs (m' # ms'))"
  by (simp add: agree_bind)

lemma agree_seqs_single: "agree I m m' \<Longrightarrow> agree I (seqs [m]) (seqs [m'])"
  by (simp add: agree_def bind_def)

lemma agree_times:
  "keeps I m \<Longrightarrow> agree I m m' \<Longrightarrow> agree I (times n m) (times n m')"
  by (induction n) (simp_all add: agree_refl agree_bind)

lemma agree_switch_Cons:
  "agree I m m' \<Longrightarrow> agree I (switch k cs) (switch k cs') \<Longrightarrow>
   agree I (switch k ((ks, m) # cs)) (switch k ((ks, m') # cs'))"
  by simp

lemma agree_when_bit:
  "agree I m m' \<Longrightarrow> agree I (when_bit flags i m) (when_bit flags i m')"
  by (simp add: when_bit_def agree_refl)

lemma agree_if:
  "(b \<Longrightarrow> agree I m m') \<Longrightarrow> (\<not> b \<Longrightarrow> agree I n n') \<Longrightarrow>
   agree I (if b then m else n) (if b then m' else n')"
  by simp

lemmas agree_congs = agree_if agree_bind agree_seqs_single agree_seqs_Cons agree_times agree_switch_Cons agree_when_bit

end
