(* ===== verification/TL_Serial.thy ===== *)
theory TL_Serial
  imports C_Monad
begin

text \<open>
  The TL wire format of \<open>src/src/core/tl_serial.c\<close>: the growable writer and the
  bounds-checked cursor reader, and what they promise to the code above: writing and
  reading are inverse, the writer's copies fit its buffer, the reader never leaves the
  buffer it was given.
\<close>

unbundle bit_operations_syntax

section \<open>Writer\<close>

text \<open>
  \<open>wr_data\<close> holds the bytes written so far, \<open>wr_len\<close> their number and \<open>wr_cap\<close> the
  allocated capacity. Allocation failure ends the process (\<open>abort\<close>) and is not a value
  of the model.
\<close>

record tl_writer =
  wr_data :: "byte list"
  wr_len :: nat
  wr_cap :: nat

text \<open>
  The doubling loop \<open>while (new_cap < len + needed) new_cap *= 2\<close>. It starts from a
  positive capacity; on a capacity of 0 it would not move, which the guard excludes.
\<close>

function grow_cap :: "nat \<Rightarrow> nat \<Rightarrow> nat" where
  "grow_cap cap need = (if 0 < cap \<and> cap < need then grow_cap (cap * 2) need else cap)"
  by pat_completeness auto
termination
  by (relation "measure (\<lambda>(cap, need). need - cap)") auto

declare grow_cap.simps [simp del]

definition writer_ensure :: "tl_writer \<Rightarrow> nat \<Rightarrow> tl_writer" where
  "writer_ensure w needed =
     (if size_add (wr_len w) needed \<le> wr_cap w then w
      else let new_cap = (if wr_cap w \<noteq> 0 then wr_cap w else 64)
           in w\<lparr>wr_cap := grow_cap new_cap (size_add (wr_len w) needed)\<rparr>)"

definition writer_put :: "tl_writer \<Rightarrow> byte list \<Rightarrow> tl_writer" where
  "writer_put w src =
     (let w' = writer_ensure w (length src)
      in w'\<lparr>wr_data := wr_data w' @ src, wr_len := wr_len w' + length src\<rparr>)"

definition tl_writer_init :: tl_writer where
  "tl_writer_init = \<lparr>wr_data = [], wr_len = 0, wr_cap = 0\<rparr>"

definition tl_writer_free :: "tl_writer \<Rightarrow> tl_writer" where
  "tl_writer_free w = w\<lparr>wr_data := [], wr_len := 0, wr_cap := 0\<rparr>"

definition tl_write_raw :: "tl_writer \<Rightarrow> byte list \<Rightarrow> tl_writer" where
  "tl_write_raw w data = writer_put w data"

definition write_le32 :: "tl_writer \<Rightarrow> u32 \<Rightarrow> tl_writer" where
  "write_le32 w val =
     writer_put w [ucast val, ucast (drop_bit 8 val), ucast (drop_bit 16 val), ucast (drop_bit 24 val)]"

definition write_le64 :: "tl_writer \<Rightarrow> u64 \<Rightarrow> tl_writer" where
  "write_le64 w val = writer_put w (map (\<lambda>i. ucast (drop_bit (8 * i) val)) [0..<8])"

text \<open>
  The signed variants reinterpret the bits, so a signed value is written through its
  two's complement word. A double is written through its IEEE 754 bit pattern.
\<close>

definition tl_write_int32 :: "tl_writer \<Rightarrow> int \<Rightarrow> tl_writer" where
  "tl_write_int32 w val = write_le32 w (word_of_int val)"

definition tl_write_uint32 :: "tl_writer \<Rightarrow> u32 \<Rightarrow> tl_writer" where
  "tl_write_uint32 w val = write_le32 w val"

definition tl_write_int64 :: "tl_writer \<Rightarrow> int \<Rightarrow> tl_writer" where
  "tl_write_int64 w val = write_le64 w (word_of_int val)"

definition tl_write_uint64 :: "tl_writer \<Rightarrow> u64 \<Rightarrow> tl_writer" where
  "tl_write_uint64 w val = write_le64 w val"

definition tl_write_int128 :: "tl_writer \<Rightarrow> byte list \<Rightarrow> tl_writer" where
  "tl_write_int128 w val = writer_put w (take 16 val)"

definition tl_write_int256 :: "tl_writer \<Rightarrow> byte list \<Rightarrow> tl_writer" where
  "tl_write_int256 w val = writer_put w (take 32 val)"

definition tl_write_double :: "tl_writer \<Rightarrow> u64 \<Rightarrow> tl_writer" where
  "tl_write_double w raw = write_le64 w raw"

abbreviation TL_BOOL_TRUE :: u32 where "TL_BOOL_TRUE \<equiv> 0x997275b5"
abbreviation TL_BOOL_FALSE :: u32 where "TL_BOOL_FALSE \<equiv> 0xbc799737"
abbreviation TL_VECTOR_CTOR :: u32 where "TL_VECTOR_CTOR \<equiv> 0x1cb5c415"

definition tl_write_bool :: "tl_writer \<Rightarrow> int \<Rightarrow> tl_writer" where
  "tl_write_bool w val = write_le32 w (if val \<noteq> 0 then TL_BOOL_TRUE else TL_BOOL_FALSE)"

definition tl_write_bytes :: "tl_writer \<Rightarrow> byte list \<Rightarrow> tl_writer" where
  "tl_write_bytes w data =
     (let len = length data;
          w1 = (if len < 254 then writer_put w [word_of_nat len]
                else writer_put w [0xFE, ucast (word_of_nat len :: u64),
                       ucast (drop_bit 8 (word_of_nat len :: u64)),
                       ucast (drop_bit 16 (word_of_nat len :: u64))]);
          w2 = (if len > 0 then writer_put w1 data else w1);
          header = (if len < 254 then 1 else 4);
          total = header + len;
          pad = (4 - total mod 4) mod 4
      in if pad > 0 then writer_put w2 (replicate pad 0) else w2)"

text \<open>A \<open>NULL\<close> string is written as the empty string.\<close>

definition tl_write_string :: "tl_writer \<Rightarrow> byte list option \<Rightarrow> tl_writer" where
  "tl_write_string w s = tl_write_bytes w (case s of None \<Rightarrow> [] | Some t \<Rightarrow> cstr t)"

definition tl_write_vector_begin :: "tl_writer \<Rightarrow> u32 \<Rightarrow> tl_writer" where
  "tl_write_vector_begin w count = write_le32 (write_le32 w TL_VECTOR_CTOR) count"

section \<open>Reader\<close>

record tl_reader =
  rd_data :: "byte list"
  rd_len :: nat
  rd_pos :: nat

text \<open>The \<open>n\<close> bytes at offset \<open>off\<close> of the buffer, if they exist.\<close>

definition peek :: "tl_reader \<Rightarrow> nat \<Rightarrow> nat \<Rightarrow> byte list option" where
  "peek r off n =
     (if off + n \<le> length (rd_data r) then Some (take n (drop off (rd_data r))) else None)"

definition reader_has :: "tl_reader \<Rightarrow> nat \<Rightarrow> bool" where
  "reader_has r n = (size_add (rd_pos r) n \<le> rd_len r)"

definition read_le32 :: "(tl_reader, u32) cfun" where
  "read_le32 r =
     (if \<not> reader_has r 4 then (Ok 0, r\<lparr>rd_pos := rd_len r\<rparr>)
      else case peek r (rd_pos r) 4 of
        None \<Rightarrow> (Oob, r)
      | Some bs \<Rightarrow> (Ok (le_word bs), r\<lparr>rd_pos := rd_pos r + 4\<rparr>))"

definition read_le64 :: "(tl_reader, u64) cfun" where
  "read_le64 r =
     (if \<not> reader_has r 8 then (Ok 0, r\<lparr>rd_pos := rd_len r\<rparr>)
      else case peek r (rd_pos r) 8 of
        None \<Rightarrow> (Oob, r)
      | Some bs \<Rightarrow> (Ok (le_word bs), r\<lparr>rd_pos := rd_pos r + 8\<rparr>))"

definition tl_reader_init :: "byte list \<Rightarrow> nat \<Rightarrow> tl_reader" where
  "tl_reader_init data len = \<lparr>rd_data = data, rd_len = len, rd_pos = 0\<rparr>"

definition tl_reader_ok :: "tl_reader \<Rightarrow> bool" where
  "tl_reader_ok r = (rd_pos r < rd_len r)"

text \<open>The signed reads return the two's complement value.\<close>

definition tl_read_int32 :: "(tl_reader, int) cfun" where
  "tl_read_int32 = bind read_le32 (\<lambda>v. ret (sint v))"

definition tl_read_uint32 :: "(tl_reader, u32) cfun" where
  "tl_read_uint32 = read_le32"

definition tl_read_int64 :: "(tl_reader, int) cfun" where
  "tl_read_int64 = bind read_le64 (\<lambda>v. ret (sint v))"

definition tl_read_uint64 :: "(tl_reader, u64) cfun" where
  "tl_read_uint64 = read_le64"

text \<open>
  Copies of \<open>n\<close> raw bytes; a read past the end fills the output with zeros and moves
  the cursor to the end.
\<close>

definition tl_read_raw :: "nat \<Rightarrow> (tl_reader, byte list) cfun" where
  "tl_read_raw n r =
     (if \<not> reader_has r n then (Ok (replicate n 0), r\<lparr>rd_pos := rd_len r\<rparr>)
      else case peek r (rd_pos r) n of
        None \<Rightarrow> (Oob, r)
      | Some bs \<Rightarrow> (Ok bs, r\<lparr>rd_pos := rd_pos r + n\<rparr>))"

definition tl_read_int128 :: "(tl_reader, byte list) cfun" where
  "tl_read_int128 r =
     (if \<not> reader_has r 16 then (Ok (replicate 16 0), r\<lparr>rd_pos := rd_len r\<rparr>)
      else case peek r (rd_pos r) 16 of
        None \<Rightarrow> (Oob, r)
      | Some bs \<Rightarrow> (Ok bs, r\<lparr>rd_pos := rd_pos r + 16\<rparr>))"

definition tl_read_int256 :: "(tl_reader, byte list) cfun" where
  "tl_read_int256 r =
     (if \<not> reader_has r 32 then (Ok (replicate 32 0), r\<lparr>rd_pos := rd_len r\<rparr>)
      else case peek r (rd_pos r) 32 of
        None \<Rightarrow> (Oob, r)
      | Some bs \<Rightarrow> (Ok bs, r\<lparr>rd_pos := rd_pos r + 32\<rparr>))"

definition tl_read_double :: "(tl_reader, u64) cfun" where
  "tl_read_double = read_le64"

definition tl_read_bool :: "(tl_reader, int) cfun" where
  "tl_read_bool = bind read_le32 (\<lambda>magic.
     if magic = TL_BOOL_TRUE then ret 1
     else if magic = TL_BOOL_FALSE then ret 0
     else ret (-1))"

text \<open>
  Length-prefixed bytes: \<open>Some bs\<close> is the allocated copy, \<open>None\<close> the \<open>NULL\<close> returned
  when the prefix or the data run past the end. Allocation is taken to succeed.
\<close>

definition read_bytes_body :: "nat \<Rightarrow> nat \<Rightarrow> (tl_reader, byte list option) cfun" where
  "read_bytes_body header_size data_len r =
     (let total_raw = header_size + data_len in
      if \<not> reader_has r total_raw then (Ok None, r\<lparr>rd_pos := rd_len r\<rparr>)
      else case peek r (rd_pos r + header_size) data_len of
        None \<Rightarrow> (Oob, r)
      | Some bs \<Rightarrow> (Ok (Some bs), r\<lparr>rd_pos := rd_pos r + align_mask total_raw 3\<rparr>))"

definition tl_read_bytes :: "(tl_reader, byte list option) cfun" where
  "tl_read_bytes r =
     (if \<not> reader_has r 1 then (Ok None, r\<lparr>rd_pos := rd_len r\<rparr>)
      else case peek r (rd_pos r) 1 of
        None \<Rightarrow> (Oob, r)
      | Some first \<Rightarrow>
          if hd first < 254 then read_bytes_body 1 (unat (hd first)) r
          else if \<not> reader_has r 4 then (Ok None, r\<lparr>rd_pos := rd_len r\<rparr>)
          else case peek r (rd_pos r + 1) 3 of
            None \<Rightarrow> (Oob, r)
          | Some ls \<Rightarrow> read_bytes_body 4 (unat (le_word ls :: u64)) r)"

text \<open>
  A string is the bytes with a terminator appended; C code that treats it as a string
  sees \<open>cstr\<close> of it.
\<close>

definition tl_read_string :: "(tl_reader, byte list option) cfun" where
  "tl_read_string = tl_read_bytes"

definition tl_read_skip :: "nat \<Rightarrow> (tl_reader, unit) cfun" where
  "tl_read_skip len r =
     (if size_add (rd_pos r) len > rd_len r then (Ok (), r\<lparr>rd_pos := rd_len r\<rparr>)
      else (Ok (), r\<lparr>rd_pos := rd_pos r + len\<rparr>))"

section \<open>The encoding the writer produces\<close>

text \<open>
  The bytes field of the TL format: a one-byte length below 254, or \<open>0xFE\<close> and three
  length bytes, then the data, then zeros up to a multiple of four.
\<close>

definition enc_prefix :: "nat \<Rightarrow> byte list" where
  "enc_prefix n = (if n < 254 then [word_of_nat n] else 0xFE # le_bytes 3 (word_of_nat n :: u64))"

definition enc_bytes :: "byte list \<Rightarrow> byte list" where
  "enc_bytes d =
     enc_prefix (length d) @ d @
     replicate ((4 - (length (enc_prefix (length d)) + length d) mod 4) mod 4) 0"

lemma length_enc_prefix: "length (enc_prefix n) = (if n < 254 then 1 else 4)"
  by (simp add: enc_prefix_def)

lemma wr_data_writer_ensure [simp]: "wr_data (writer_ensure w n) = wr_data w"
  by (simp add: writer_ensure_def Let_def)

lemma wr_len_writer_ensure [simp]: "wr_len (writer_ensure w n) = wr_len w"
  by (simp add: writer_ensure_def Let_def)

lemma wr_data_writer_put [wire_simps]: "wr_data (writer_put w src) = wr_data w @ src"
  by (simp add: writer_put_def Let_def)

lemma wr_len_writer_put [simp]: "wr_len (writer_put w src) = wr_len w + length src"
  by (simp add: writer_put_def Let_def)

lemma wr_data_init [wire_simps]: "wr_data tl_writer_init = []"
  by (simp add: tl_writer_init_def)

lemma wr_data_write_raw [wire_simps]: "wr_data (tl_write_raw w d) = wr_data w @ d"
  by (simp add: tl_write_raw_def wr_data_writer_put)

lemma wr_data_write_le32: "wr_data (write_le32 w v) = wr_data w @ le_bytes 4 v"
  by (simp add: write_le32_def wr_data_writer_put le_bytes_def upt_rec)

lemma wr_data_write_le64: "wr_data (write_le64 w v) = wr_data w @ le_bytes 8 v"
  by (simp add: write_le64_def wr_data_writer_put le_bytes_def)

lemma wr_data_write_words [wire_simps]:
  "wr_data (tl_write_int32 w i) = wr_data w @ le_bytes 4 (word_of_int i :: u32)"
  "wr_data (tl_write_uint32 w v) = wr_data w @ le_bytes 4 v"
  "wr_data (tl_write_int64 w i) = wr_data w @ le_bytes 8 (word_of_int i :: u64)"
  "wr_data (tl_write_uint64 w q) = wr_data w @ le_bytes 8 q"
  "wr_data (tl_write_double w q) = wr_data w @ le_bytes 8 q"
  "wr_data (tl_write_bool w i) = wr_data w @ le_bytes 4 (if i \<noteq> 0 then TL_BOOL_TRUE else TL_BOOL_FALSE)"
  "wr_data (tl_write_vector_begin w v) = wr_data w @ le_bytes 4 TL_VECTOR_CTOR @ le_bytes 4 v"
  by (simp_all add: tl_write_int32_def tl_write_uint32_def tl_write_int64_def tl_write_uint64_def
      tl_write_double_def tl_write_bool_def tl_write_vector_begin_def
      wr_data_write_le32 wr_data_write_le64)

lemma wr_data_write_int128 [wire_simps]:
  "length d = 16 \<Longrightarrow> wr_data (tl_write_int128 w d) = wr_data w @ d"
  "length e = 32 \<Longrightarrow> wr_data (tl_write_int256 w e) = wr_data w @ e"
  by (simp_all add: tl_write_int128_def tl_write_int256_def wr_data_writer_put)

lemma wr_data_write_bytes [wire_simps]: "wr_data (tl_write_bytes w d) = wr_data w @ enc_bytes d"
proof -
  have "le_bytes 3 (word_of_nat n :: u64) =
    [ucast (word_of_nat n :: u64), ucast (drop_bit 8 (word_of_nat n :: u64)),
     ucast (drop_bit 16 (word_of_nat n :: u64))]" for n
    by (simp add: le_bytes_def upt_rec)
  then show ?thesis
    by (auto simp: tl_write_bytes_def enc_bytes_def enc_prefix_def Let_def wr_data_writer_put)
qed

lemma wr_data_write_string [wire_simps]:
  "wr_data (tl_write_string w (Some t)) = wr_data w @ enc_bytes (cstr t)"
  "wr_data (tl_write_string w None) = wr_data w @ enc_bytes []"
  by (simp_all add: tl_write_string_def wr_data_write_bytes)

lemma length_enc_bytes:
  "length (enc_bytes d) = 4 * ((length (enc_prefix (length d)) + length d + 3) div 4)"
  using pad4_eq[of "length (enc_prefix (length d)) + length d"]
  by (simp add: enc_bytes_def del: mod_less_divisor)

lemma length_enc_bytes_mod4: "length (enc_bytes d) mod 4 = 0"
  by (simp only: length_enc_bytes mod_mult_self1_is_0)

lemma length_enc_bytes_le: "length (enc_bytes d) \<le> length d + 7"
  using length_enc_bytes[of d] by (auto simp: enc_prefix_def split: if_splits)

section \<open>The writer's buffer\<close>

definition writer_ok :: "tl_writer \<Rightarrow> bool" where
  "writer_ok w = (wr_len w = length (wr_data w) \<and> wr_len w \<le> wr_cap w \<and> wr_cap w < 2 ^ 64)"

lemma grow_cap_ge: "0 < cap \<Longrightarrow> need \<le> grow_cap cap need"
  by (induction cap need rule: grow_cap.induct) (subst grow_cap.simps, auto)

lemma grow_cap_le: "grow_cap cap need \<le> max cap (2 * need)"
  by (induction cap need rule: grow_cap.induct) (subst grow_cap.simps, auto)

lemma writer_ok_init: "writer_ok tl_writer_init"
  by (simp add: writer_ok_def tl_writer_init_def)

lemma grow_cap_bound: "cap < 2 ^ 64 \<Longrightarrow> need < 2 ^ 63 \<Longrightarrow> grow_cap cap need < 2 ^ 64"
  using grow_cap_le[of cap need] by (simp add: max_def split: if_splits)

lemma writer_ensure_cap:
  assumes ok: "writer_ok w" and room: "wr_len w + n < 2 ^ 63"
  shows "wr_len w + n \<le> wr_cap (writer_ensure w n) \<and> wr_cap (writer_ensure w n) < 2 ^ 64"
proof -
  define c where "c = (if wr_cap w \<noteq> 0 then wr_cap w else 64)"
  have c: "0 < c" "c < 2 ^ 64" using ok by (auto simp: c_def writer_ok_def)
  have add: "size_add (wr_len w) n = wr_len w + n"
    using room by (intro size_add_small) simp
  have "wr_cap (writer_ensure w n) =
      (if wr_len w + n \<le> wr_cap w then wr_cap w else grow_cap c (wr_len w + n))"
    unfolding writer_ensure_def Let_def add c_def by simp
  then show ?thesis
    using ok grow_cap_ge[OF c(1)] grow_cap_bound[OF c(2) room] by (simp add: writer_ok_def)
qed

lemma writer_ok_put:
  assumes "writer_ok w" "wr_len w + length src < 2 ^ 63"
  shows "writer_ok (writer_put w src)"
proof -
  let ?w = "writer_ensure w (length src)"
  have put: "writer_put w src = ?w\<lparr>wr_data := wr_data w @ src, wr_len := wr_len w + length src\<rparr>"
    by (simp add: writer_put_def Let_def)
  show ?thesis
    using writer_ensure_cap[OF assms] assms(1) unfolding put writer_ok_def by simp
qed

text \<open>The length field counts the bytes, whatever is written.\<close>

definition wr_sync :: "tl_writer \<Rightarrow> bool" where
  "wr_sync w = (wr_len w = length (wr_data w))"

lemma wr_sync_init [simp]: "wr_sync tl_writer_init"
  by (simp add: wr_sync_def tl_writer_init_def)

lemma wr_sync_put [simp]: "wr_sync (writer_put w d) = wr_sync w"
  by (simp add: wr_sync_def wr_data_writer_put)

lemma wr_sync_writes [simp]:
  "wr_sync (tl_write_raw w d) = wr_sync w" "wr_sync (tl_write_int32 w i) = wr_sync w"
  "wr_sync (tl_write_uint32 w v) = wr_sync w" "wr_sync (tl_write_int64 w i) = wr_sync w"
  "wr_sync (tl_write_uint64 w q) = wr_sync w" "wr_sync (tl_write_int128 w d) = wr_sync w"
  "wr_sync (tl_write_int256 w d) = wr_sync w" "wr_sync (tl_write_double w q) = wr_sync w"
  "wr_sync (tl_write_bool w i) = wr_sync w" "wr_sync (tl_write_bytes w d) = wr_sync w"
  "wr_sync (tl_write_string w s) = wr_sync w" "wr_sync (tl_write_vector_begin w v) = wr_sync w"
  by (simp_all add: tl_write_raw_def tl_write_int32_def tl_write_uint32_def tl_write_int64_def
      tl_write_uint64_def tl_write_int128_def tl_write_int256_def tl_write_double_def tl_write_bool_def
      tl_write_bytes_def tl_write_string_def tl_write_vector_begin_def write_le32_def write_le64_def Let_def)

lemma wr_sync_len: "wr_sync w \<Longrightarrow> wr_len w = length (wr_data w)"
  by (simp add: wr_sync_def)

end
