(* ===== verification/TL_Contract.thy ===== *)
theory TL_Contract
  imports TL_Serial
begin

text \<open>
  What the reader of \<^theory_text>\<open>TL_Serial\<close> promises to the code that walks TL objects with
  it, as the interface \<open>reader_contract\<close>. The contract is interpreted twice on the
  reader itself: for memory safety on arbitrary buffers, and for 4-byte alignment on
  aligned buffers.
\<close>

section \<open>Reader invariants\<close>

text \<open>
  \<open>rd_wf\<close>: the length field is the buffer's length and the cursor is at most three
  bytes past it. The cursor can be past the end: \<open>tl_read_bytes\<close> checks the data of a
  string against the end but not the padding it then skips.
\<close>

definition rd_wf :: "tl_reader \<Rightarrow> bool" where
  "rd_wf r = (rd_len r = length (rd_data r) \<and> rd_len r < 2 ^ 62 \<and> rd_pos r \<le> rd_len r + 3)"

text \<open>
  \<open>rd_aligned\<close>: length and cursor are multiples of four. This is the state of a reader
  over a transport frame or a container body, whose sizes are multiples of four.
\<close>

definition rd_aligned :: "tl_reader \<Rightarrow> bool" where
  "rd_aligned r = (rd_len r = length (rd_data r) \<and> rd_len r < 2 ^ 62 \<and> rd_pos r \<le> rd_len r
     \<and> rd_len r mod 4 = 0 \<and> rd_pos r mod 4 = 0)"

definition remaining :: "tl_reader \<Rightarrow> nat" where
  "remaining r = rd_len r - rd_pos r"

definition within :: "(tl_reader \<Rightarrow> bool) \<Rightarrow> nat \<Rightarrow> tl_reader \<Rightarrow> bool" where
  "within I k r = (I r \<and> remaining r \<le> k)"

lemma rd_aligned_wf: "rd_aligned r \<Longrightarrow> rd_wf r"
  by (simp add: rd_aligned_def rd_wf_def)

lemma reader_has_iff:
  assumes "rd_wf r" "n < 2 ^ 63"
  shows "reader_has r n = (rd_pos r + n \<le> rd_len r)"
proof -
  have "rd_pos r + n < 2 ^ 64" using assms by (simp add: rd_wf_def)
  then show ?thesis by (simp add: reader_has_def size_add_small)
qed

lemma peek_has: "rd_wf r \<Longrightarrow> off + n \<le> rd_len r \<Longrightarrow> peek r off n = Some (take n (drop off (rd_data r)))"
  by (simp add: peek_def rd_wf_def)

lemma read_le32_wf:
  assumes "rd_wf r"
  shows "read_le32 r = (if rd_pos r + 4 \<le> rd_len r
    then (Ok (le_word (take 4 (drop (rd_pos r) (rd_data r)))), r\<lparr>rd_pos := rd_pos r + 4\<rparr>)
    else (Ok 0, r\<lparr>rd_pos := rd_len r\<rparr>))"
  using assms by (simp add: read_le32_def reader_has_iff peek_has)

lemma read_le64_wf:
  assumes "rd_wf r"
  shows "read_le64 r = (if rd_pos r + 8 \<le> rd_len r
    then (Ok (le_word (take 8 (drop (rd_pos r) (rd_data r)))), r\<lparr>rd_pos := rd_pos r + 8\<rparr>)
    else (Ok 0, r\<lparr>rd_pos := rd_len r\<rparr>))"
  using assms by (simp add: read_le64_def reader_has_iff peek_has)

text \<open>The advance of a successful bytes read: the padded size of prefix and data.\<close>

lemma read_bytes_body_wf:
  assumes "rd_wf r" "h + n < 2 ^ 60"
  shows "read_bytes_body h n r = (if rd_pos r + (h + n) \<le> rd_len r
    then (Ok (Some (take n (drop (rd_pos r + h) (rd_data r)))),
          r\<lparr>rd_pos := rd_pos r + 4 * ((h + n + 3) div 4)\<rparr>)
    else (Ok None, r\<lparr>rd_pos := rd_len r\<rparr>))"
  using assms
  by (simp add: read_bytes_body_def Let_def reader_has_iff peek_has align4_eq add.assoc)

definition bytes_result :: "tl_reader \<Rightarrow> byte list option outcome \<times> tl_reader \<Rightarrow> bool" where
  "bytes_result r out = (out = (Ok None, r\<lparr>rd_pos := rd_len r\<rparr>) \<or>
    (\<exists>h n. (h = 1 \<or> h = 4) \<and> n < 2 ^ 24 \<and> rd_pos r + (h + n) \<le> rd_len r \<and>
       out = (Ok (Some (take n (drop (rd_pos r + h) (rd_data r)))),
          r\<lparr>rd_pos := rd_pos r + 4 * ((h + n + 3) div 4)\<rparr>)))"

lemma read_bytes_body_result:
  assumes "rd_wf r" "n < 2 ^ 24" "h = 1 \<or> h = 4"
  shows "bytes_result r (read_bytes_body h n r)"
proof -
  have "h + n < 2 ^ 60" using assms(2,3) by auto
  note body = read_bytes_body_wf[OF assms(1) this]
  show ?thesis
  proof (cases "rd_pos r + (h + n) \<le> rd_len r")
    case True
    then show ?thesis using assms(2,3) unfolding bytes_result_def body if_P[OF True] by blast
  next
    case False
    then show ?thesis unfolding bytes_result_def body by simp
  qed
qed

lemma tl_read_bytes_result:
  assumes "rd_wf r"
  shows "bytes_result r (tl_read_bytes r)"
proof (cases "rd_pos r + 1 \<le> rd_len r")
  case False
  with assms show ?thesis by (simp add: tl_read_bytes_def reader_has_iff bytes_result_def)
next
  case True
  define b where "b = hd (take 1 (drop (rd_pos r) (rd_data r)))"
  have start: "tl_read_bytes r = (if b < 254 then read_bytes_body 1 (unat b) r
     else if \<not> reader_has r 4 then (Ok None, r\<lparr>rd_pos := rd_len r\<rparr>)
     else case peek r (rd_pos r + 1) 3 of None \<Rightarrow> (Oob, r)
       | Some ls \<Rightarrow> read_bytes_body 4 (unat (le_word ls :: u64)) r)"
    using True assms by (simp add: tl_read_bytes_def reader_has_iff peek_has b_def)
  define ls where "ls = take 3 (drop (rd_pos r + 1) (rd_data r))"
  have "unat b < 2 ^ LENGTH(8)" by (rule unsigned_less)
  then have b24: "unat b < 2 ^ 24" by simp
  have "(2::nat) ^ (8 * length ls) \<le> 2 ^ 24"
    by (rule power_increasing) (simp_all add: ls_def)
  with le_word_bound[of ls] have l24: "unat (le_word ls :: u64) < 2 ^ 24"
    by (rule less_le_trans)
  have "peek r (rd_pos r + 1) 3 = Some ls" if "rd_pos r + 4 \<le> rd_len r"
    using that assms by (simp add: peek_has ls_def)
  then consider "tl_read_bytes r = read_bytes_body 1 (unat b) r"
    | "tl_read_bytes r = (Ok None, r\<lparr>rd_pos := rd_len r\<rparr>)"
    | "tl_read_bytes r = read_bytes_body 4 (unat (le_word ls :: u64)) r"
    using start assms by (auto simp: reader_has_iff split: if_splits)
  then show ?thesis
  proof cases
    case 1
    show ?thesis unfolding 1 by (rule read_bytes_body_result) (use assms b24 in simp_all)
  next
    case 2
    then show ?thesis by (simp add: bytes_result_def)
  next
    case 3
    show ?thesis unfolding 3 by (rule read_bytes_body_result) (use assms l24 in simp_all)
  qed
qed

text \<open>
  No read of a well-formed reader faults, and none gives bytes back: what remains to be
  read never grows.
\<close>

lemma read_wf_step:
  assumes "rd_wf r"
  shows "no_fault (fst (read_le32 r)) \<and> remaining (snd (read_le32 r)) \<le> remaining r"
    and "no_fault (fst (read_le64 r)) \<and> remaining (snd (read_le64 r)) \<le> remaining r"
    and "no_fault (fst (tl_read_bytes r)) \<and> remaining (snd (tl_read_bytes r)) \<le> remaining r"
  using tl_read_bytes_result[OF assms]
  by (auto simp: read_le32_wf[OF assms] read_le64_wf[OF assms] remaining_def bytes_result_def)

lemma rd_wf_preserved:
  assumes "rd_wf r"
  shows "rd_wf (snd (read_le32 r))" "rd_wf (snd (read_le64 r))" "rd_wf (snd (tl_read_bytes r))"
  using tl_read_bytes_result[OF assms] assms
  by (auto simp: read_le32_wf[OF assms] read_le64_wf[OF assms] rd_wf_def bytes_result_def)

lemma rd_data_preserved:
  assumes "rd_wf r"
  shows "rd_data (snd (read_le32 r)) = rd_data r" "rd_data (snd (read_le64 r)) = rd_data r"
    "rd_data (snd (tl_read_bytes r)) = rd_data r"
  using tl_read_bytes_result[OF assms]
  by (auto simp: read_le32_wf[OF assms] read_le64_wf[OF assms] bytes_result_def)

lemma rd_aligned_preserved:
  assumes "rd_aligned r"
  shows "rd_aligned (snd (read_le32 r))" "rd_aligned (snd (read_le64 r))"
    "rd_aligned (snd (tl_read_bytes r))"
proof -
  note wf = rd_aligned_wf[OF assms]
  have pos: "rd_pos r mod 4 = 0" and len: "rd_len r mod 4 = 0"
    using assms unfolding rd_aligned_def by blast+
  have add: "(rd_pos r + 4) mod 4 = 0" "(rd_pos r + 8) mod 4 = 0"
    using pos mod_add_eq[of "rd_pos r" 4 8] by (simp_all only: mod_add_self2) simp
  show "rd_aligned (snd (read_le32 r))" "rd_aligned (snd (read_le64 r))"
    using assms pos len add
    unfolding rd_aligned_def read_le32_wf[OF wf] read_le64_wf[OF wf] by simp_all
  have round: "p + 4 * ((t + 3) div 4) \<le> l" if le: "p + t \<le> l" and p: "p mod 4 = 0" and l: "l mod 4 = 0"
    for p t l :: nat
  proof -
    obtain p' l' where "p = 4 * p'" "l = 4 * l'" using p l by (metis mod_0_imp_dvd dvdE)
    with le have "t \<le> 4 * (l' - p')" "p' \<le> l'" by simp_all
    then have "(t + 3) div 4 \<le> l' - p'" by linarith
    with \<open>p' \<le> l'\<close> have "4 * p' + 4 * ((t + 3) div 4) \<le> 4 * l'" by linarith
    with \<open>p = 4 * p'\<close> \<open>l = 4 * l'\<close> show ?thesis by simp
  qed
  from tl_read_bytes_result[OF wf]
  consider "tl_read_bytes r = (Ok None, r\<lparr>rd_pos := rd_len r\<rparr>)"
    | h n v where "rd_pos r + (h + n) \<le> rd_len r"
        "tl_read_bytes r = (v, r\<lparr>rd_pos := rd_pos r + 4 * ((h + n + 3) div 4)\<rparr>)"
    unfolding bytes_result_def by blast
  then show "rd_aligned (snd (tl_read_bytes r))"
  proof cases
    case 1
    with assms len show ?thesis unfolding rd_aligned_def by simp
  next
    case (2 h n v)
    with round[OF 2(1) pos len] assms pos len show ?thesis unfolding rd_aligned_def by simp
  qed
qed

section \<open>The reader's contract\<close>

text \<open>
  An invariant of readers that implies well-formedness and survives the three reading
  primitives; a rewind after a failed read restores the state before it (\<open>rewind_id\<close>). Everything the object walkers do is
  built from these, so whatever satisfies the contract survives every walker.
\<close>

locale reader_contract =
  fixes I :: "tl_reader \<Rightarrow> bool"
  assumes wf: "I r \<Longrightarrow> rd_wf r"
    and read32: "I r \<Longrightarrow> I (snd (read_le32 r))"
    and read64: "I r \<Longrightarrow> I (snd (read_le64 r))"
    and read_bytes: "I r \<Longrightarrow> I (snd (tl_read_bytes r))"

definition mem_inv :: "byte list \<Rightarrow> tl_reader \<Rightarrow> bool" where
  "mem_inv d r = (rd_wf r \<and> rd_data r = d)"

definition align_inv :: "byte list \<Rightarrow> tl_reader \<Rightarrow> bool" where
  "align_inv d r = (rd_aligned r \<and> rd_data r = d)"

lemma rewind_id:
  assumes "rd_wf r" "tl_read_bytes r = (Ok None, r')"
  shows "r'\<lparr>rd_pos := rd_pos r\<rparr> = r"
  using tl_read_bytes_result[OF assms(1)] assms(2) by (auto simp: bytes_result_def)

interpretation mem: reader_contract "mem_inv d" for d
  by unfold_locales (simp_all add: mem_inv_def rd_wf_preserved rd_data_preserved)

interpretation al: reader_contract "align_inv d" for d
  by unfold_locales
    (simp_all add: align_inv_def rd_aligned_preserved rd_data_preserved rd_aligned_wf)

end
