(* ===== verification/TL_Walk.thy ===== *)
theory TL_Walk
  imports TL_Contract
begin

text \<open>
  The statement idioms of \<open>src/src/core/tl_skip.c\<close> as combinators over the reader, their
  rules in the reader's contract, bounded recursion with its unfolding equation, and
  the \<open>takes\<close> calculus for exact consumption of encoded objects.
\<close>

section \<open>Idioms\<close>

type_synonym walker = "(tl_reader, unit) cfun"

text \<open>\<open>r->len - r->pos\<close>, an unsigned difference that wraps when the cursor is past the end.\<close>

definition avail :: "tl_reader \<Rightarrow> nat" where
  "avail r = size_sub (rd_len r) (rd_pos r)"

text \<open>\<open>if (r->len - r->pos < n) return -1;\<close>\<close>

definition need :: "nat \<Rightarrow> walker" where
  "need n r = (if avail r < n then (Fail, r) else (Ok (), r))"

text \<open>\<open>if (!tl_reader_ok(r)) return -1;\<close>\<close>

definition reader_ok :: walker where
  "reader_ok r = (if \<not> tl_reader_ok r then (Fail, r) else (Ok (), r))"

text \<open>\<open>if (!tl_reader_ok(r) || r->len - r->pos < n) return -1;\<close>\<close>

definition need_ok :: "nat \<Rightarrow> walker" where
  "need_ok n r = (if \<not> tl_reader_ok r \<or> avail r < n then (Fail, r) else (Ok (), r))"

text \<open>
  The opening of a walker: the check above, then
  \<open>uint32_t crc = tl_read_uint32(r);\<close> and the code that uses \<open>crc\<close>.
\<close>

definition ctor :: "nat \<Rightarrow> (u32 \<Rightarrow> walker) \<Rightarrow> walker" where
  "ctor n f = bind (need_ok n) (\<lambda>_. bind tl_read_uint32 f)"

text \<open>Reads whose value is discarded.\<close>

definition int32 :: walker where
  "int32 = bind tl_read_int32 (\<lambda>_. skip)"

definition uint32 :: walker where
  "uint32 = bind tl_read_uint32 (\<lambda>_. skip)"

definition int64 :: walker where
  "int64 = bind tl_read_int64 (\<lambda>_. skip)"

definition double :: walker where
  "double = bind tl_read_double (\<lambda>_. skip)"

text \<open>A read of a constructor id or flags word that the following code depends on.\<close>

definition with_u32 :: "(u32 \<Rightarrow> walker) \<Rightarrow> walker" where
  "with_u32 f = bind tl_read_uint32 f"

text \<open>\<open>if (tl_read_uint32(r) != c) return -1;\<close>\<close>

definition expect :: "u32 \<Rightarrow> walker" where
  "expect c = with_u32 (\<lambda>v. if v \<noteq> c then fail else skip)"

text \<open>
  The vector block: eight bytes present, the vector constructor, the count, and one
  call of the element walker per element.
\<close>

definition vector :: "walker \<Rightarrow> walker" where
  "vector m = seqs [need 8, expect TL_VECTOR_CTOR, with_u32 (\<lambda>n. times (unat n) m)]"

text \<open>The vector block of fixed-size elements, whose total size is checked up front.\<close>

definition vector_fixed :: "nat \<Rightarrow> walker \<Rightarrow> walker" where
  "vector_fixed w m = seqs [need 8, expect TL_VECTOR_CTOR,
     with_u32 (\<lambda>n. seqs [need (unat n * w), times (unat n) m])]"

text \<open>The same block where the reader itself is checked as well.\<close>

definition vector_ok :: "walker \<Rightarrow> walker" where
  "vector_ok m = seqs [need_ok 8, expect TL_VECTOR_CTOR, with_u32 (\<lambda>n. times (unat n) m)]"

text \<open>Checked reads: \<open>if (r->len - r->pos < w) return -1;\<close> and then the read.\<close>

definition need_int32 :: walker where
  "need_int32 = seqs [need 4, int32]"

definition need_int64 :: walker where
  "need_int64 = seqs [need 8, int64]"

definition need_flags :: "(u32 \<Rightarrow> walker) \<Rightarrow> walker" where
  "need_flags f = seqs [need 4, with_u32 f]"

text \<open>Walkers that fill an output parameter, and their opening.\<close>

type_synonym 'o out_walker = "(tl_reader \<times> 'o option, unit) cfun"

definition ctor_out :: "nat \<Rightarrow> (u32 \<Rightarrow> 'o out_walker) \<Rightarrow> 'o out_walker" where
  "ctor_out n f = bind (on_fst (need_ok n)) (\<lambda>_. bind (on_fst tl_read_uint32) f)"

text \<open>
  A string read that puts the cursor back on failure:
  \<open>before = r->pos; s = tl_read_string(r); if (!s) { r->pos = before; return -1; }\<close>
\<close>

definition read_string_rewind :: "(tl_reader, byte list) cfun" where
  "read_string_rewind r = (case tl_read_string r of
     (Ok (Some s), r') \<Rightarrow> (Ok s, r')
   | (Ok None, r') \<Rightarrow> (Fail, r'\<lparr>rd_pos := rd_pos r\<rparr>)
   | (Fail, r') \<Rightarrow> (Fail, r') | (Oob, r') \<Rightarrow> (Oob, r') | (Fuel, r') \<Rightarrow> (Fuel, r'))"

text \<open>
  A walker that calls itself. The C recursion has no bound of its own; the model's bound
  is one more than the buffer's length, and the equation \<open>recurse_unfold\<close> below shows
  that it is never met: the definition satisfies the C recursion equation.
\<close>

primrec fueled :: "nat \<Rightarrow> (walker \<Rightarrow> walker) \<Rightarrow> walker" where
  "fueled 0 F = (\<lambda>r. (Fuel, r))"
| "fueled (Suc n) F = F (fueled n F)"

definition recurse :: "(walker \<Rightarrow> walker) \<Rightarrow> walker" where
  "recurse F r = fueled (Suc (rd_len r)) F r"

section \<open>Rules that hold for every invariant\<close>

lemma keeps_need [keeps_rules]: "keeps J (need n)"
  by (simp add: keeps_def need_def)

lemma keeps_reader_ok [keeps_rules]: "keeps J reader_ok"
  by (simp add: keeps_def reader_ok_def)

lemma keeps_need_ok [keeps_rules]: "keeps J (need_ok n)"
  by (simp add: keeps_def need_ok_def)

lemma keeps_option [keeps_rules]:
  "keeps J m \<Longrightarrow> (\<And>x. keeps J (f x)) \<Longrightarrow> keeps J (case v of None \<Rightarrow> m | Some x \<Rightarrow> f x)"
  by (cases v) simp_all

lemma within_mono: "within I j r \<Longrightarrow> j \<le> k \<Longrightarrow> within I k r"
  by (simp add: within_def)

lemma within_tight: "I r \<Longrightarrow> within I (remaining r) r"
  by (simp add: within_def)

section \<open>Walking under the contract\<close>

context reader_contract
begin

lemma keeps_read_le32 [keeps_rules]: "keeps (within I k) read_le32"
  using wf read32 read_wf_step(1) by (force simp: keeps_def within_def)

lemma keeps_read_le64 [keeps_rules]: "keeps (within I k) read_le64"
  using wf read64 read_wf_step(2) by (force simp: keeps_def within_def)

lemma keeps_tl_read_bytes [keeps_rules]: "keeps (within I k) tl_read_bytes"
  using wf read_bytes read_wf_step(3) by (force simp: keeps_def within_def)

lemma keeps_tl_reads [keeps_rules]:
  "keeps (within I k) tl_read_int32" "keeps (within I k) tl_read_uint32"
  "keeps (within I k) tl_read_int64" "keeps (within I k) tl_read_uint64"
  "keeps (within I k) tl_read_double" "keeps (within I k) tl_read_string"
  unfolding tl_read_int32_def tl_read_uint32_def tl_read_int64_def tl_read_uint64_def
    tl_read_double_def tl_read_string_def
  by (intro keeps_rules)+

lemma keeps_discards [keeps_rules]:
  "keeps (within I k) int32" "keeps (within I k) uint32"
  "keeps (within I k) int64" "keeps (within I k) double"
  unfolding int32_def uint32_def int64_def double_def by (intro keeps_rules)+

lemma keeps_with_u32 [keeps_rules]:
  "(\<And>v. keeps (within I k) (f v)) \<Longrightarrow> keeps (within I k) (with_u32 f)"
  unfolding with_u32_def by (intro keeps_rules)

lemma keeps_expect [keeps_rules]: "keeps (within I k) (expect c)"
  unfolding expect_def by (intro keeps_rules)

lemma keeps_vector [keeps_rules]: "keeps (within I k) m \<Longrightarrow> keeps (within I k) (vector m)"
  unfolding vector_def by (intro keeps_rules)

lemma keeps_vector_fixed [keeps_rules]:
  "keeps (within I k) m \<Longrightarrow> keeps (within I k) (vector_fixed w m)"
  unfolding vector_fixed_def by (intro keeps_rules)

lemma keeps_vector_ok [keeps_rules]: "keeps (within I k) m \<Longrightarrow> keeps (within I k) (vector_ok m)"
  unfolding vector_ok_def by (intro keeps_rules)

lemma keeps_needs [keeps_rules]:
  "keeps (within I k) need_int32" "keeps (within I k) need_int64"
  unfolding need_int32_def need_int64_def by (intro keeps_rules)+

lemma keeps_need_flags [keeps_rules]:
  "(\<And>v. keeps (within I k) (f v)) \<Longrightarrow> keeps (within I k) (need_flags f)"
  unfolding need_flags_def by (intro keeps_rules)

lemma keeps_read_string_rewind [keeps_rules]: "keeps (within I k) read_string_rewind"
proof (rule keepsI)
  fix r assume r: "within I k r"
  then have "I r" "rd_wf r" using wf by (simp_all add: within_def)
  obtain res r' where read: "tl_read_bytes r = (res, r')" by fastforce
  have res: "no_fault res" "within I k r'"
    using keepsD[OF keeps_tl_read_bytes r read] by simp_all
  have "within I k (r'\<lparr>rd_pos := rd_pos r\<rparr>)" if "res = Ok None"
    using rewind_id[OF \<open>rd_wf r\<close>, of r'] read that r by simp
  with res show "no_fault (fst (read_string_rewind r)) \<and> within I k (snd (read_string_rewind r))"
    by (auto simp: read_string_rewind_def tl_read_string_def read split: outcome.splits option.splits)
qed

lemma keeps_ctor_out [keeps_rules]:
  "(\<And>c. keeps (with_out (within I k) J) (f c)) \<Longrightarrow> keeps (with_out (within I k) J) (ctor_out n f)"
  unfolding ctor_out_def by (intro keeps_rules)

text \<open>
  Opening an object uses up input: the code after the constructor id runs on a strictly
  smaller remainder.
\<close>

lemma ctor_step:
  assumes "within I k r"
  shows "(\<forall>f. ctor n f r = (Fail, r)) \<or>
    (\<exists>c r'. 0 < k \<and> within I (k - 1) r' \<and> (\<forall>f. ctor n f r = f c r'))"
proof (cases "\<not> tl_reader_ok r \<or> avail r < n")
  case True
  then show ?thesis by (simp add: ctor_def bind_def need_ok_def)
next
  case False
  then have step: "ctor n f r = bind read_le32 f r" for f
    by (simp add: ctor_def bind_def need_ok_def tl_read_uint32_def)
  have less: "rd_pos r < rd_len r" using False by (simp add: tl_reader_ok_def)
  have "I r" "rd_wf r" "remaining r \<le> k" using assms wf by (simp_all add: within_def)
  obtain c r' where c: "read_le32 r = (Ok c, r')" and less': "remaining r' < remaining r"
    using read_le32_wf[OF \<open>rd_wf r\<close>] less by (auto simp: remaining_def split: if_splits)
  have "within I (k - 1) r'"
    using read32[OF \<open>I r\<close>] \<open>remaining r \<le> k\<close> less' by (simp add: c within_def)
  moreover have "0 < k" using less' \<open>remaining r \<le> k\<close> by simp
  moreover have "ctor n f r = f c r'" for f
    using step bind_OkI[of read_le32 r c r' f] c by simp
  ultimately show ?thesis by blast
qed

lemma keeps_ctor [keeps_rules]:
  assumes "\<And>c. 0 < k \<Longrightarrow> keeps (within I (k - 1)) (f c)"
  shows "keeps (within I k) (ctor n f)"
proof (rule keepsI)
  fix r assume r: "within I k r"
  from ctor_step[OF r, of n] show
    "no_fault (fst (ctor n f r)) \<and> within I k (snd (ctor n f r))"
  proof
    assume "\<forall>f. ctor n f r = (Fail, r)"
    then show ?thesis using r by simp
  next
    assume "\<exists>c r'. 0 < k \<and> within I (k - 1) r' \<and> (\<forall>f. ctor n f r = f c r')"
    then obtain c r' where "0 < k" "within I (k - 1) r'" and eq: "ctor n f r = f c r'" by blast
    then show ?thesis
      using assms[of c] within_mono[of I "k - 1" _ k] unfolding eq keeps_def by simp
  qed
qed

lemma agree_ctor:
  assumes "\<And>c. 0 < k \<Longrightarrow> agree (within I (k - 1)) (f c) (f' c)"
  shows "agree (within I k) (ctor n f) (ctor n f')"
  unfolding agree_def
proof (intro allI impI)
  fix r assume r: "within I k r"
  from ctor_step[OF r, of n] show "ctor n f r = ctor n f' r"
  proof
    assume "\<exists>c r'. 0 < k \<and> within I (k - 1) r' \<and> (\<forall>f. ctor n f r = f c r')"
    then obtain c r' where "0 < k" "within I (k - 1) r'" "\<And>f. ctor n f r = f c r'" by blast
    then show ?thesis using assms[of c] by (simp add: agree_def)
  qed simp
qed

lemma agree_with_u32:
  "(\<And>v. agree (within I k) (f v) (f' v)) \<Longrightarrow> agree (within I k) (with_u32 f) (with_u32 f')"
  unfolding with_u32_def by (intro agree_bind agree_refl keeps_rules)

lemma agree_vector:
  "keeps (within I k) m \<Longrightarrow> agree (within I k) m m' \<Longrightarrow> agree (within I k) (vector m) (vector m')"
  unfolding vector_def
  by (intro agree_seqs_Cons agree_refl agree_with_u32 agree_times keeps_rules)

lemma agree_vector_ok:
  "keeps (within I k) m \<Longrightarrow> agree (within I k) m m' \<Longrightarrow> agree (within I k) (vector_ok m) (vector_ok m')"
  unfolding vector_ok_def
  by (intro agree_seqs_Cons agree_refl agree_with_u32 agree_times keeps_rules)

lemma agree_need_flags:
  "(\<And>v. agree (within I k) (f v) (f' v)) \<Longrightarrow> agree (within I k) (need_flags f) (need_flags f')"
  unfolding need_flags_def
  by (intro agree_seqs_single agree_seqs_Cons agree_refl agree_with_u32 keeps_rules)

lemmas agree_walk = agree_ctor agree_with_u32 agree_vector agree_vector_ok agree_need_flags

end

section \<open>Bounded recursion is the C recursion\<close>

text \<open>
  A recursion scheme is guarded when its recursive calls run on a smaller remainder: it
  keeps the invariant, and depends on the called walker, only below the bound.
\<close>

definition guarded :: "(tl_reader \<Rightarrow> bool) \<Rightarrow> (walker \<Rightarrow> walker) \<Rightarrow> bool" where
  "guarded I F = (\<forall>k rec. (\<forall>j<k. keeps (within I j) rec) \<longrightarrow>
     keeps (within I k) (F rec) \<and>
     (\<forall>rec'. (\<forall>j<k. agree (within I j) rec rec') \<longrightarrow> agree (within I k) (F rec) (F rec')))"

lemma guardedI:
  assumes "\<And>k rec. (\<And>j. j < k \<Longrightarrow> keeps (within I j) rec) \<Longrightarrow> keeps (within I k) (F rec)"
    and "\<And>k rec rec'. (\<And>j. j < k \<Longrightarrow> keeps (within I j) rec) \<Longrightarrow>
      (\<And>j. j < k \<Longrightarrow> agree (within I j) rec rec') \<Longrightarrow> agree (within I k) (F rec) (F rec')"
  shows "guarded I F"
  using assms unfolding guarded_def by blast

lemma guarded_keeps:
  assumes "guarded I F" "\<forall>j<k. keeps (within I j) rec"
  shows "keeps (within I k) (F rec)"
  using mp[OF spec[OF spec[OF assms(1)[unfolded guarded_def]]] assms(2)] by (rule conjunct1)

lemma guarded_agree:
  assumes "guarded I F" "\<forall>j<k. keeps (within I j) rec" "\<forall>j<k. agree (within I j) rec rec'"
  shows "agree (within I k) (F rec) (F rec')"
  by (rule mp[OF spec[OF conjunct2[OF mp[OF spec[OF spec[OF assms(1)[unfolded guarded_def]]]
    assms(2)]]] assms(3)])

lemma keeps_fueled: "guarded I F \<Longrightarrow> k < n \<Longrightarrow> keeps (within I k) (fueled n F)"
proof (induction n arbitrary: k)
  case (Suc n)
  have "\<forall>j<k. keeps (within I j) (fueled n F)" using Suc by simp
  from guarded_keeps[OF Suc.prems(1) this] show ?case by simp
qed simp

lemma agree_fueled:
  "guarded I F \<Longrightarrow> k < n \<Longrightarrow> k < m \<Longrightarrow> agree (within I k) (fueled n F) (fueled m F)"
proof (induction n arbitrary: k m)
  case (Suc n)
  obtain m' where m: "m = Suc m'" using Suc.prems(3) by (cases m) auto
  have "\<forall>j<k. keeps (within I j) (fueled n F)"
  proof (intro allI impI)
    fix j assume "j < k"
    then show "keeps (within I j) (fueled n F)"
      using Suc.prems(2) by (intro keeps_fueled[OF Suc.prems(1)]) simp
  qed
  moreover have "\<forall>j<k. agree (within I j) (fueled n F) (fueled m' F)"
  proof (intro allI impI)
    fix j assume "j < k"
    then show "agree (within I j) (fueled n F) (fueled m' F)"
      using Suc.prems(2,3) m by (intro Suc.IH[OF Suc.prems(1)]) simp_all
  qed
  ultimately show ?case
    unfolding m fueled.simps by (rule guarded_agree[OF Suc.prems(1)])
qed simp

lemma within_remaining: "within I k r \<Longrightarrow> within I (remaining r) r"
  by (simp add: within_def)

lemma remaining_le_len: "remaining r \<le> rd_len r"
  by (simp add: remaining_def)

lemma agree_recurse:
  assumes "guarded I F" "k < n"
  shows "agree (within I k) (fueled n F) (recurse F)"
  unfolding agree_def
proof (intro allI impI)
  fix r assume r: "within I k r"
  then have "remaining r < n" using assms(2) by (simp add: within_def)
  moreover have "remaining r < Suc (rd_len r)" by (simp add: remaining_le_len le_imp_less_Suc)
  ultimately have "agree (within I (remaining r)) (fueled n F) (fueled (Suc (rd_len r)) F)"
    by (rule agree_fueled[OF assms(1)])
  then show "fueled n F r = recurse F r"
    using within_remaining[OF r] unfolding agree_def recurse_def by simp
qed

lemma keeps_recurse:
  assumes "guarded I F"
  shows "keeps (within I k) (recurse F)"
proof (rule keepsI)
  fix r assume r: "within I k r"
  have "keeps (within I (remaining r)) (fueled (Suc (rd_len r)) F)"
    using remaining_le_len[of r] by (intro keeps_fueled[OF assms]) simp
  then have "no_fault (fst (recurse F r)) \<and> within I (remaining r) (snd (recurse F r))"
    using within_remaining[OF r] unfolding keeps_def recurse_def by simp
  moreover have "remaining r \<le> k" using r by (simp add: within_def)
  ultimately show "no_fault (fst (recurse F r)) \<and> within I k (snd (recurse F r))"
    by (simp add: within_def)
qed

text \<open>The recursion equation of the C function, with no bound left in it.\<close>

lemma recurse_unfold:
  assumes "guarded I F" "I r"
  shows "recurse F r = F (recurse F) r"
proof -
  let ?k = "remaining r" and ?n = "rd_len r"
  have le: "?k < Suc ?n" using remaining_le_len[of r] by simp
  have keep: "\<forall>j<?k. keeps (within I j) (fueled (Suc ?n) F)"
    using le by (intro allI impI keeps_fueled[OF assms(1)]) simp
  have agr: "\<forall>j<?k. agree (within I j) (fueled (Suc ?n) F) (recurse F)"
    using le by (intro allI impI agree_recurse[OF assms(1)]) simp
  have r: "within I ?k r" using assms(2) by (simp add: within_def)
  have "agree (within I ?k) (fueled (Suc (Suc ?n)) F) (F (recurse F))"
    using guarded_agree[OF assms(1) keep agr] by (simp only: fueled.simps)
  note this[unfolded agree_def, rule_format, OF r]
  moreover have "agree (within I ?k) (fueled (Suc (Suc ?n)) F) (fueled (Suc ?n) F)"
    by (rule agree_fueled[OF assms(1) less_SucI[OF le] le])
  note this[unfolded agree_def, rule_format, OF r]
  ultimately show ?thesis unfolding recurse_def by (simp only:)
qed

end
