(* ===== verification/TL_Takes.thy ===== *)
theory TL_Takes
  imports TL_Walk
begin

text \<open>
  Exact consumption. \<open>takes m bs v\<close> says that, wherever the bytes \<open>bs\<close> stand in a
  buffer and whatever follows them, \<open>m\<close> started at their first byte returns \<open>v\<close> and
  leaves the cursor on the byte after their last one. The rules follow the combinators,
  so a walker's proof is the same intro-chain as its definition.
\<close>

section \<open>Readers at a position\<close>

definition rd_at :: "byte list \<Rightarrow> byte list \<Rightarrow> tl_reader" where
  "rd_at pre post = \<lparr>rd_data = pre @ post, rd_len = length pre + length post, rd_pos = length pre\<rparr>"

definition takes :: "(tl_reader, 'a) cfun \<Rightarrow> byte list \<Rightarrow> 'a \<Rightarrow> bool" where
  "takes m bs v = (\<forall>pre post. length pre + length bs + length post < 2 ^ 62 \<longrightarrow>
     m (rd_at pre (bs @ post)) = (Ok v, rd_at (pre @ bs) post))"

lemma rd_at_sel [simp]:
  "rd_data (rd_at pre post) = pre @ post" "rd_len (rd_at pre post) = length pre + length post"
  "rd_pos (rd_at pre post) = length pre"
  by (simp_all add: rd_at_def)

lemma rd_at_wf: "length pre + length post < 2 ^ 62 \<Longrightarrow> rd_wf (rd_at pre post)"
  by (simp add: rd_wf_def)

lemma rd_at_step: "(rd_at pre (bs @ post))\<lparr>rd_pos := length pre + length bs\<rparr> = rd_at (pre @ bs) post"
  by (simp add: rd_at_def)

lemma rd_at_init: "tl_reader_init d (length d) = rd_at [] d"
  by (simp add: tl_reader_init_def rd_at_def)

lemma avail_rd_at:
  "length pre + length post < 2 ^ 62 \<Longrightarrow> avail (rd_at pre post) = length post"
  by (simp add: avail_def size_sub_small)

lemma takesI:
  "(\<And>pre post. length pre + length bs + length post < 2 ^ 62 \<Longrightarrow>
     m (rd_at pre (bs @ post)) = (Ok v, rd_at (pre @ bs) post)) \<Longrightarrow> takes m bs v"
  by (simp add: takes_def)

lemma takesD:
  "takes m bs v \<Longrightarrow> length pre + length bs + length post < 2 ^ 62 \<Longrightarrow>
   m (rd_at pre (bs @ post)) = (Ok v, rd_at (pre @ bs) post)"
  by (simp add: takes_def)

text \<open>What a reader over a whole buffer gives.\<close>

lemma takes_init:
  assumes "takes m bs v" "length bs + length post < 2 ^ 62"
  shows "m (tl_reader_init (bs @ post) (length (bs @ post))) = (Ok v, rd_at bs post)"
  using takesD[OF assms(1), of "[]" post] assms(2) unfolding rd_at_init by simp

section \<open>Rules for the combinators\<close>

lemma takes_ret [takes_rules]: "takes (ret v) [] v"
  by (simp add: takes_def ret_def)

lemma takes_bind:
  assumes "takes m bs x" "takes (f x) cs y"
  shows "takes (bind m f) (bs @ cs) y"
proof (rule takesI)
  fix pre post :: "byte list" assume len: "length pre + length (bs @ cs) + length post < 2 ^ 62"
  have "m (rd_at pre (bs @ cs @ post)) = (Ok x, rd_at (pre @ bs) (cs @ post))"
    using len by (intro takesD[OF assms(1)]) simp
  moreover have "f x (rd_at (pre @ bs) (cs @ post)) = (Ok y, rd_at ((pre @ bs) @ cs) post)"
    using len by (intro takesD[OF assms(2)]) simp
  ultimately show "bind m f (rd_at pre ((bs @ cs) @ post)) = (Ok y, rd_at (pre @ bs @ cs) post)"
    by (simp add: bind_def)
qed

lemma takes_bind_ret: "takes m bs x \<Longrightarrow> takes (bind m (\<lambda>x. ret (f x))) bs (f x)"
  using takes_bind[of m bs x "\<lambda>x. ret (f x)" "[]" "f x", OF _ takes_ret] by simp

lemma takes_discard: "takes m bs x \<Longrightarrow> takes (bind m (\<lambda>_. skip)) bs ()"
  by (rule takes_bind_ret)

lemma takes_seqs_Nil [takes_rules]: "takes (seqs []) [] ()"
  by (simp add: takes_ret)

lemma takes_seqs_Cons:
  "takes m bs () \<Longrightarrow> takes (seqs ms) cs () \<Longrightarrow> takes (seqs (m # ms)) (bs @ cs) ()"
  by (simp add: takes_bind)

lemma takes_seqs_single: "takes m bs () \<Longrightarrow> takes (seqs [m]) bs ()"
  using takes_seqs_Cons[OF _ takes_seqs_Nil] by simp

lemma takes_seqs_last: "takes m bs () \<Longrightarrow> takes (seqs ms) [] () \<Longrightarrow> takes (seqs (m # ms)) bs ()"
  using takes_seqs_Cons[of m bs ms "[]"] by simp

lemma takes_when_bit:
  "(bit flags i \<Longrightarrow> takes m bs ()) \<Longrightarrow> takes (when_bit flags i m) (if bit flags i then bs else []) ()"
  by (simp add: when_bit_def takes_ret)

lemma takes_times:
  "(\<And>x. x \<in> set xs \<Longrightarrow> takes m (enc x) ()) \<Longrightarrow> takes (times (length xs) m) (concat (map enc xs)) ()"
  by (induction xs) (simp_all add: takes_ret takes_bind)

section \<open>Guards\<close>

lemma need_rd_at:
  "n \<le> length post \<Longrightarrow> length pre + length post < 2 ^ 62 \<Longrightarrow>
   need n (rd_at pre post) = (Ok (), rd_at pre post)"
  by (simp add: need_def avail_rd_at)

lemma need_ok_rd_at:
  "n \<le> length post \<Longrightarrow> 0 < length post \<Longrightarrow> length pre + length post < 2 ^ 62 \<Longrightarrow>
   need_ok n (rd_at pre post) = (Ok (), rd_at pre post)"
  by (simp add: need_ok_def avail_rd_at tl_reader_ok_def)

lemma takes_guarded:
  assumes "takes (m ()) bs v"
    and "\<And>pre post. length pre + length bs + length post < 2 ^ 62 \<Longrightarrow>
      g (rd_at pre (bs @ post)) = (Ok (), rd_at pre (bs @ post))"
  shows "takes (bind g m) bs v"
proof (rule takesI)
  fix pre post :: "byte list" assume len: "length pre + length bs + length post < 2 ^ 62"
  show "bind g m (rd_at pre (bs @ post)) = (Ok v, rd_at (pre @ bs) post)"
    using assms(2)[OF len] takesD[OF assms(1) len] by (simp add: bind_def)
qed

lemma takes_need: "n \<le> length bs \<Longrightarrow> takes (seqs ms) bs () \<Longrightarrow> takes (seqs (need n # ms)) bs ()"
  by (simp, rule takes_guarded) (simp_all add: need_rd_at)

lemma takes_need_ok:
  "n \<le> length bs \<Longrightarrow> 0 < length bs \<Longrightarrow> takes (seqs ms) bs () \<Longrightarrow> takes (seqs (need_ok n # ms)) bs ()"
  by (simp, rule takes_guarded) (simp_all add: need_ok_rd_at)

section \<open>Reads\<close>

lemma takes_read_le32: "takes read_le32 (le_bytes 4 v) v"
proof (rule takesI)
  fix pre post :: "byte list" assume "length pre + length (le_bytes 4 v) + length post < 2 ^ 62"
  then show "read_le32 (rd_at pre (le_bytes 4 v @ post)) = (Ok v, rd_at (pre @ le_bytes 4 v) post)"
    using rd_at_step[of pre "le_bytes 4 v" post] by (simp add: read_le32_wf rd_at_wf)
qed

lemma takes_read_le64: "takes read_le64 (le_bytes 8 v) v"
proof (rule takesI)
  fix pre post :: "byte list" assume "length pre + length (le_bytes 8 v) + length post < 2 ^ 62"
  then show "read_le64 (rd_at pre (le_bytes 8 v @ post)) = (Ok v, rd_at (pre @ le_bytes 8 v) post)"
    using rd_at_step[of pre "le_bytes 8 v" post] by (simp add: read_le64_wf rd_at_wf)
qed

lemma rd_at_take:
  "take (length c) (drop (length pre + length b) (rd_data (rd_at pre ((b @ c @ e) @ post)))) = c"
  by simp

lemma read_bytes_body_at:
  fixes pre post h d z :: "byte list"
  assumes "length pre + length (h @ d @ z) + length post < 2 ^ 62" "length h + length d < 2 ^ 60"
    and z: "length (h @ d @ z) = 4 * ((length h + length d + 3) div 4)"
  shows "read_bytes_body (length h) (length d) (rd_at pre ((h @ d @ z) @ post)) =
    (Ok (Some d), rd_at (pre @ h @ d @ z) post)"
proof -
  let ?r = "rd_at pre ((h @ d @ z) @ post)"
  have "rd_wf ?r" using assms(1) by (intro rd_at_wf) simp
  moreover have "rd_pos ?r + (length h + length d) \<le> rd_len ?r" by simp
  moreover have "take (length d) (drop (rd_pos ?r + length h) (rd_data ?r)) = d"
    unfolding rd_at_sel(3) by (rule rd_at_take)
  moreover have "?r\<lparr>rd_pos := rd_pos ?r + 4 * ((length h + length d + 3) div 4)\<rparr> =
      rd_at (pre @ h @ d @ z) post"
    unfolding z[symmetric] rd_at_sel(3) by (rule rd_at_step)
  ultimately show ?thesis using read_bytes_body_wf[of ?r "length h" "length d"] assms(2) by simp
qed

lemma takes_read_bytes:
  assumes "length d < 2 ^ 24"
  shows "takes tl_read_bytes (enc_bytes d) (Some d)"
proof (rule takesI)
  fix pre post :: "byte list"
  assume len: "length pre + length (enc_bytes d) + length post < 2 ^ 62"
  define h where "h = enc_prefix (length d)"
  define z :: "byte list" where
    "z = replicate ((4 - (length h + length d) mod 4) mod 4) 0"
  have enc: "enc_bytes d = h @ d @ z" by (simp add: enc_bytes_def h_def z_def)
  have h: "length h = 1 \<or> length h = 4" by (simp add: h_def length_enc_prefix)
  let ?r = "rd_at pre ((h @ d @ z) @ post)"
  have wf: "rd_wf ?r" using len by (intro rd_at_wf) (simp add: enc)
  have body: "read_bytes_body (length h) (length d) ?r = (Ok (Some d), rd_at (pre @ h @ d @ z) post)"
    using len assms h length_enc_bytes[of d] unfolding enc h_def[symmetric]
    by (intro read_bytes_body_at) auto
  have "tl_read_bytes ?r = read_bytes_body (length h) (length d) ?r"
  proof (cases "length d < 254")
    case True
    then have hd: "h = [word_of_nat (length d)]" by (simp add: h_def enc_prefix_def)
    have b: "unat (word_of_nat (length d) :: byte) = length d"
      using True by (simp add: unat_of_nat)
    have "(word_of_nat (length d) :: byte) < 254"
      using True b by (simp add: word_less_nat_alt)
    then show ?thesis using wf b by (simp add: tl_read_bytes_def reader_has_iff peek_has hd)
  next
    case False
    then have hd: "h = 0xFE # le_bytes 3 (word_of_nat (length d) :: u64)"
      by (simp add: h_def enc_prefix_def)
    show ?thesis using wf assms
      by (simp add: tl_read_bytes_def reader_has_iff peek_has hd le_word24)
  qed
  with body show "tl_read_bytes (rd_at pre (enc_bytes d @ post)) = (Ok (Some d), rd_at (pre @ enc_bytes d) post)"
    by (simp add: enc)
qed

lemma takes_reads [takes_rules]:
  "takes tl_read_uint32 (le_bytes 4 v) v"
  "takes tl_read_int32 (le_bytes 4 v) (sint v)"
  "takes tl_read_uint64 (le_bytes 8 q) q"
  "takes tl_read_int64 (le_bytes 8 q) (sint q)"
  "takes tl_read_double (le_bytes 8 q) q"
  unfolding tl_read_uint32_def tl_read_int32_def tl_read_uint64_def tl_read_int64_def
    tl_read_double_def
  by (rule takes_read_le32 takes_read_le64 takes_bind_ret)+

lemma takes_read_string [takes_rules]:
  "length d < 2 ^ 24 \<Longrightarrow> takes tl_read_string (enc_bytes d) (Some d)"
  unfolding tl_read_string_def by (rule takes_read_bytes)

lemma takes_read_bool:
  "takes tl_read_bool (le_bytes 4 v)
     (if v = TL_BOOL_TRUE then 1 else if v = TL_BOOL_FALSE then 0 else -1)"
proof -
  let ?f = "\<lambda>v::u32. if v = TL_BOOL_TRUE then (1::int) else if v = TL_BOOL_FALSE then 0 else -1"
  have "tl_read_bool = bind read_le32 (\<lambda>v. ret (?f v))"
    unfolding tl_read_bool_def by (intro arg_cong[where f = "bind read_le32"] ext) simp
  moreover have "takes (bind read_le32 (\<lambda>v. ret (?f v))) (le_bytes 4 v) (?f v)"
    by (rule takes_bind_ret[where f = ?f, OF takes_read_le32])
  ultimately show ?thesis by (simp only:)
qed

lemma takes_read_raw:
  assumes "length d < 2 ^ 62"
  shows "takes (tl_read_raw (length d)) d d"
proof (rule takesI)
  fix pre post :: "byte list" assume "length pre + length d + length post < 2 ^ 62"
  then show "tl_read_raw (length d) (rd_at pre (d @ post)) = (Ok d, rd_at (pre @ d) post)"
    using rd_at_step[of pre d post]
    by (simp add: tl_read_raw_def reader_has_iff rd_at_wf peek_has)
qed

lemma takes_discards [takes_rules]:
  fixes v :: u32 and q :: u64
  shows "takes int32 (le_bytes 4 v) ()" "takes uint32 (le_bytes 4 v) ()"
  "takes int64 (le_bytes 8 q) ()" "takes double (le_bytes 8 q) ()"
  unfolding int32_def uint32_def int64_def double_def
  by (rule takes_discard takes_reads)+

lemma takes_with_u32: "takes (f v) bs () \<Longrightarrow> takes (with_u32 f) (le_bytes 4 v @ bs) ()"
  unfolding with_u32_def by (rule takes_bind[OF takes_reads(1)])

lemma takes_expect [takes_rules]: "takes (expect c) (le_bytes 4 c) ()"
  using takes_with_u32[of "\<lambda>v. if v \<noteq> c then fail else skip" c "[]"]
  by (simp add: expect_def takes_ret)

lemma takes_ctor:
  assumes "n \<le> 4 + length bs" "takes (f c) bs ()"
  shows "takes (ctor n f) (le_bytes 4 c @ bs) ()"
  unfolding ctor_def
proof (rule takes_guarded)
  show "takes (bind tl_read_uint32 f) (le_bytes 4 c @ bs) ()"
    using assms(2) by (rule takes_bind[OF takes_reads(1)])
next
  fix pre post :: "byte list"
  assume "length pre + length (le_bytes 4 c @ bs) + length post < 2 ^ 62"
  then show "need_ok n (rd_at pre ((le_bytes 4 c @ bs) @ post)) =
      (Ok (), rd_at pre ((le_bytes 4 c @ bs) @ post))"
    using assms(1) by (intro need_ok_rd_at) simp_all
qed

text \<open>Vectors of encoded elements.\<close>

definition enc_vector :: "('a \<Rightarrow> byte list) \<Rightarrow> 'a list \<Rightarrow> byte list" where
  "enc_vector enc xs = le_bytes 4 TL_VECTOR_CTOR @ le_bytes 4 (word_of_nat (length xs) :: u32) @
     concat (map enc xs)"

lemma takes_count:
  assumes "length xs < 2 ^ 32" "\<And>x. x \<in> set xs \<Longrightarrow> takes m (enc x) ()"
  shows "takes (with_u32 (\<lambda>n. times (unat n) m))
    (le_bytes 4 (word_of_nat (length xs) :: u32) @ concat (map enc xs)) ()"
  using takes_times[of xs m enc, OF assms(2)] assms(1)
  by (intro takes_with_u32) (simp add: unat_of_nat)

lemma takes_vector:
  assumes "length xs < 2 ^ 32" "\<And>x. x \<in> set xs \<Longrightarrow> takes m (enc x) ()"
  shows "takes (vector m) (enc_vector enc xs) ()"
  unfolding vector_def enc_vector_def
  by (intro takes_need takes_seqs_single takes_seqs_Cons takes_expect takes_count)
    (use assms in simp_all)

lemma takes_vector_fixed:
  assumes "length xs < 2 ^ 32" "\<And>x. x \<in> set xs \<Longrightarrow> takes m (enc x) () \<and> length (enc x) = w"
  shows "takes (vector_fixed w m) (enc_vector enc xs) ()"
proof -
  have "length (concat (map enc xs)) = length xs * w"
    using assms(2) by (induction xs) auto
  then show ?thesis
    unfolding vector_fixed_def enc_vector_def
    using assms takes_times[of xs m enc]
    by (intro takes_need takes_seqs_single takes_seqs_Cons takes_expect takes_with_u32)
      (simp_all add: unat_of_nat)
qed

lemma takes_vector_ok:
  assumes "length xs < 2 ^ 32" "\<And>x. x \<in> set xs \<Longrightarrow> takes m (enc x) ()"
  shows "takes (vector_ok m) (enc_vector enc xs) ()"
  unfolding vector_ok_def enc_vector_def
  by (intro takes_need_ok takes_seqs_single takes_seqs_Cons takes_expect takes_count)
    (use assms in simp_all)

lemma takes_needs [takes_rules]:
  fixes v :: u32 and q :: u64
  shows "takes need_int32 (le_bytes 4 v) ()" "takes need_int64 (le_bytes 8 q) ()"
  unfolding need_int32_def need_int64_def
  by (rule takes_need; simp add: takes_seqs_single[simplified] takes_discards)+

lemma takes_need_flags: "takes (f v) bs () \<Longrightarrow> takes (need_flags f) (le_bytes 4 v @ bs) ()"
  unfolding need_flags_def by (intro takes_need takes_seqs_single takes_with_u32) simp_all

section \<open>Exact consumption with an output parameter\<close>

definition takes_out :: "(tl_reader \<times> 'o option, unit) cfun \<Rightarrow> byte list \<Rightarrow> 'o option \<Rightarrow> 'o option \<Rightarrow> bool" where
  "takes_out m bs v v' = (\<forall>pre post. length pre + length bs + length post < 2 ^ 62 \<longrightarrow>
     m (rd_at pre (bs @ post), v) = (Ok (), (rd_at (pre @ bs) post, v')))"

lemma takes_outD:
  "takes_out m bs v v' \<Longrightarrow> length pre + length bs + length post < 2 ^ 62 \<Longrightarrow>
   m (rd_at pre (bs @ post), v) = (Ok (), (rd_at (pre @ bs) post, v'))"
  by (simp add: takes_out_def)

lemma takes_out_on_fst: "takes m bs () \<Longrightarrow> takes_out (on_fst m) bs v v"
  by (simp add: takes_out_def takes_def on_fst_def)

lemma takes_out_put: "takes_out (put_out f) [] v (map_option f v)"
  by (simp add: takes_out_def put_out_def)

lemma takes_out_skip: "takes_out skip [] v v"
  by (simp add: takes_out_def ret_def)

lemma takes_out_read:
  assumes "takes m bs x" "takes_out (f x) cs v v'"
  shows "takes_out (bind (on_fst m) f) (bs @ cs) v v'"
  unfolding takes_out_def
proof (intro allI impI)
  fix pre post :: "byte list" assume len: "length pre + length (bs @ cs) + length post < 2 ^ 62"
  have "m (rd_at pre (bs @ cs @ post)) = (Ok x, rd_at (pre @ bs) (cs @ post))"
    using len by (intro takesD[OF assms(1)]) simp
  moreover have "f x (rd_at (pre @ bs) (cs @ post), v) = (Ok (), (rd_at ((pre @ bs) @ cs) post, v'))"
    using len by (intro takes_outD[OF assms(2)]) simp
  ultimately show "bind (on_fst m) f (rd_at pre ((bs @ cs) @ post), v) =
      (Ok (), (rd_at (pre @ bs @ cs) post, v'))"
    by (simp add: bind_def on_fst_def)
qed

lemma takes_out_store:
  "takes m bs x \<Longrightarrow> f x = put_out g \<Longrightarrow> takes_out (bind (on_fst m) f) bs v (map_option g v)"
  using takes_out_read[of m bs x f "[]" v "map_option g v"] takes_out_put[of g v] by simp

lemma takes_out_u32:
  "takes_out (f c) cs v v' \<Longrightarrow> takes_out (bind (on_fst tl_read_uint32) f) (le_bytes 4 c @ cs) v v'"
  by (rule takes_out_read[OF takes_reads(1)])

lemma takes_out_bind:
  assumes "takes_out m bs v v'" "takes_out (f ()) cs v' v''"
  shows "takes_out (bind m f) (bs @ cs) v v''"
  unfolding takes_out_def
proof (intro allI impI)
  fix pre post :: "byte list" assume len: "length pre + length (bs @ cs) + length post < 2 ^ 62"
  have "m (rd_at pre (bs @ cs @ post), v) = (Ok (), (rd_at (pre @ bs) (cs @ post), v'))"
    using len by (intro takes_outD[OF assms(1)]) simp
  moreover have "f () (rd_at (pre @ bs) (cs @ post), v') = (Ok (), (rd_at ((pre @ bs) @ cs) post, v''))"
    using len by (intro takes_outD[OF assms(2)]) simp
  ultimately show "bind m f (rd_at pre ((bs @ cs) @ post), v) =
      (Ok (), (rd_at (pre @ bs @ cs) post, v''))"
    by (simp add: bind_def)
qed

lemma takes_out_seqs_single: "takes_out m bs v v' \<Longrightarrow> takes_out (seqs [m]) bs v v'"
  using takes_out_bind[of m bs v v' "\<lambda>_. skip" "[]" v', OF _ takes_out_skip] by simp

lemma takes_out_seqs_Cons:
  "takes_out m bs v v' \<Longrightarrow> takes_out (seqs ms) cs v' v'' \<Longrightarrow> takes_out (seqs (m # ms)) (bs @ cs) v v''"
  by (simp add: takes_out_bind)

lemma takes_out_put_seqs:
  "takes_out (seqs ms) bs (map_option f v) v' \<Longrightarrow> takes_out (seqs (put_out f # ms)) bs v v'"
  using takes_out_seqs_Cons[OF takes_out_put, of ms bs f v v'] by simp

lemma takes_out_has: "takes_out (f (v \<noteq> None)) bs v v' \<Longrightarrow> takes_out (bind has_out f) bs v v'"
  by (simp add: takes_out_def bind_def has_out_def)

lemma takes_out_when_bit:
  "(bit flags i \<Longrightarrow> takes_out m bs v (map_option g v)) \<Longrightarrow>
   takes_out (when_bit flags i m) (if bit flags i then bs else []) v
     (map_option (if bit flags i then g else id) v)"
  by (simp add: when_bit_def takes_out_skip option.map_id)

lemma takes_out_when_fst:
  "(bit flags i \<Longrightarrow> takes m bs ()) \<Longrightarrow>
   takes_out (when_bit flags i (on_fst m)) (if bit flags i then bs else []) v v"
  by (simp add: when_bit_def takes_out_skip takes_out_on_fst)

lemma takes_out_need:
  "n \<le> length bs \<Longrightarrow> takes_out (seqs ms) bs v v' \<Longrightarrow> takes_out (seqs (on_fst (need n) # ms)) bs v v'"
  by (simp add: takes_out_def bind_def on_fst_def need_rd_at)

lemma takes_out_need1:
  "n \<le> length b \<Longrightarrow> takes_out (seqs ms) (b @ bs) v v' \<Longrightarrow>
   takes_out (seqs (on_fst (need n) # ms)) (b @ bs) v v'"
  by (rule takes_out_need) simp_all

lemma takes_out_need2:
  "n \<le> length a + length b \<Longrightarrow> takes_out (seqs ms) (a @ b @ bs) v v' \<Longrightarrow>
   takes_out (seqs (on_fst (need n) # ms)) (a @ b @ bs) v v'"
  by (rule takes_out_need) simp_all

lemma map_option_not_None: "v \<noteq> None \<Longrightarrow> map_option f v \<noteq> None"
  by simp

lemmas not_None_intros = map_option_not_None option.discI[OF refl]

lemma takes_out_ctor:
  assumes "n \<le> 4 + length bs" "takes_out (f c) bs v v'"
  shows "takes_out (ctor_out n f) (le_bytes 4 c @ bs) v v'"
proof -
  have "takes_out (bind (on_fst tl_read_uint32) f) (le_bytes 4 c @ bs) v v'"
    using assms(2) by (rule takes_out_read[OF takes_reads(1)])
  then show ?thesis
    using assms(1) by (simp add: takes_out_def ctor_out_def bind_def on_fst_def need_ok_rd_at)
qed

lemmas takes_out_intros = takes_out_u32 takes_out_put_seqs takes_out_seqs_single
  takes_out_seqs_Cons takes_out_has takes_out_when_fst takes_out_when_bit takes_out_on_fst

end
