(* ===== verification/TL_Laws.thy ===== *)
theory TL_Laws
  imports TL_Takes
begin

text \<open>
  The laws of the serializer: any sequence of fields that the writer puts on the wire is
  what the reader gets back, field by field, and the writer's copies always fit the
  buffer it has allocated.
\<close>

section \<open>Messages as sequences of fields\<close>

text \<open>One constructor per pair of write and read operations of the serializer.\<close>

datatype tl_field =
    FInt32 int | FUint32 u32 | FInt64 int | FUint64 u64
  | FInt128 "byte list" | FInt256 "byte list" | FRaw "byte list"
  | FDouble u64 | FBool bool | FBytes "byte list" | FString "byte list"

fun write_field :: "tl_field \<Rightarrow> tl_writer \<Rightarrow> tl_writer" where
  "write_field (FInt32 i) w = tl_write_int32 w i"
| "write_field (FUint32 v) w = tl_write_uint32 w v"
| "write_field (FInt64 i) w = tl_write_int64 w i"
| "write_field (FUint64 v) w = tl_write_uint64 w v"
| "write_field (FInt128 d) w = tl_write_int128 w d"
| "write_field (FInt256 d) w = tl_write_int256 w d"
| "write_field (FRaw d) w = tl_write_raw w d"
| "write_field (FDouble v) w = tl_write_double w v"
| "write_field (FBool b) w = tl_write_bool w (if b then 1 else 0)"
| "write_field (FBytes d) w = tl_write_bytes w d"
| "write_field (FString s) w = tl_write_string w (Some s)"

text \<open>
  Reading a field of the same kind back: the result is compared as a value, a bytes read
  that returned \<open>NULL\<close> and a Bool read that returned -1 count as failures.
\<close>

fun read_field :: "tl_field \<Rightarrow> (tl_reader, tl_field) cfun" where
  "read_field (FInt32 _) = bind tl_read_int32 (\<lambda>i. ret (FInt32 i))"
| "read_field (FUint32 _) = bind tl_read_uint32 (\<lambda>v. ret (FUint32 v))"
| "read_field (FInt64 _) = bind tl_read_int64 (\<lambda>i. ret (FInt64 i))"
| "read_field (FUint64 _) = bind tl_read_uint64 (\<lambda>v. ret (FUint64 v))"
| "read_field (FInt128 _) = bind tl_read_int128 (\<lambda>d. ret (FInt128 d))"
| "read_field (FInt256 _) = bind tl_read_int256 (\<lambda>d. ret (FInt256 d))"
| "read_field (FRaw d) = bind (tl_read_raw (length d)) (\<lambda>d. ret (FRaw d))"
| "read_field (FDouble _) = bind tl_read_double (\<lambda>v. ret (FDouble v))"
| "read_field (FBool _) = bind tl_read_bool (\<lambda>i. if i < 0 then fail else ret (FBool (i \<noteq> 0)))"
| "read_field (FBytes _) = bind tl_read_bytes (\<lambda>d. case d of None \<Rightarrow> fail | Some d \<Rightarrow> ret (FBytes d))"
| "read_field (FString _) = bind tl_read_string (\<lambda>d. case d of None \<Rightarrow> fail | Some d \<Rightarrow> ret (FString d))"

primrec read_fields :: "tl_field list \<Rightarrow> (tl_reader, tl_field list) cfun" where
  "read_fields [] = ret []"
| "read_fields (f # fs) = bind (read_field f) (\<lambda>v. bind (read_fields fs) (\<lambda>vs. ret (v # vs)))"

text \<open>The values the types of the C parameters allow, and strings below 16 MiB.\<close>

fun field_ok :: "tl_field \<Rightarrow> bool" where
  "field_ok (FInt32 i) = (- (2 ^ 31) \<le> i \<and> i < 2 ^ 31)"
| "field_ok (FInt64 i) = (- (2 ^ 63) \<le> i \<and> i < 2 ^ 63)"
| "field_ok (FInt128 d) = (length d = 16)"
| "field_ok (FInt256 d) = (length d = 32)"
| "field_ok (FBytes d) = (length d < 2 ^ 24)"
| "field_ok (FString s) = (length s < 2 ^ 24 \<and> 0 \<notin> set s)"
| "field_ok (FRaw d) = (length d < 2 ^ 62)"
| "field_ok _ = True"

section \<open>Round trip\<close>

definition field_bytes :: "tl_field \<Rightarrow> byte list" where
  "field_bytes f = wr_data (write_field f tl_writer_init)"

lemma write_field_data: "wr_data (write_field f w) = wr_data w @ field_bytes f"
  by (cases f) (simp_all add: field_bytes_def wire_simps tl_write_int128_def tl_write_int256_def)

lemma write_fields_data:
  "wr_data (fold write_field fs w) = wr_data w @ concat (map field_bytes fs)"
  by (induction fs arbitrary: w) (simp_all add: write_field_data)

lemma sint_of_int32: "- (2 ^ 31) \<le> i \<Longrightarrow> i < 2 ^ 31 \<Longrightarrow> sint (word_of_int i :: u32) = i"
  by (simp add: signed_of_int signed_take_bit_int_eq_self)

lemma sint_of_int64: "- (2 ^ 63) \<le> i \<Longrightarrow> i < 2 ^ 63 \<Longrightarrow> sint (word_of_int i :: u64) = i"
  by (simp add: signed_of_int signed_take_bit_int_eq_self)

lemma tl_read_int128_raw: "tl_read_int128 = tl_read_raw 16" "tl_read_int256 = tl_read_raw 32"
  by (simp_all add: fun_eq_iff tl_read_int128_def tl_read_int256_def tl_read_raw_def)

lemma takes_read_field:
  assumes "field_ok f"
  shows "takes (read_field f) (field_bytes f) f"
proof (cases f)
  case (FInt32 i)
  with assms takes_bind_ret[OF takes_reads(2)[of "word_of_int i"], of FInt32] show ?thesis
    by (simp add: field_bytes_def wire_simps sint_of_int32)
next
  case (FInt64 i)
  with assms takes_bind_ret[OF takes_reads(4)[of "word_of_int i"], of FInt64] show ?thesis
    by (simp add: field_bytes_def wire_simps sint_of_int64)
next
  case (FInt128 d)
  with assms takes_bind_ret[OF takes_read_raw[of d], of FInt128] show ?thesis
    by (simp add: field_bytes_def wire_simps tl_read_int128_raw)
next
  case (FInt256 d)
  with assms takes_bind_ret[OF takes_read_raw[of d], of FInt256] show ?thesis
    by (simp add: field_bytes_def wire_simps tl_read_int128_raw)
next
  case (FRaw d)
  with assms takes_bind_ret[OF takes_read_raw[of d], of FRaw] show ?thesis
    by (simp add: field_bytes_def wire_simps)
next
  case (FBool b)
  have "takes (read_field f) (le_bytes 4 (if b then TL_BOOL_TRUE else TL_BOOL_FALSE) @ []) f"
    unfolding FBool read_field.simps by (rule takes_bind[OF takes_read_bool]) (simp add: takes_ret)
  then show ?thesis by (cases b) (simp_all add: FBool field_bytes_def wire_simps)
next
  case (FBytes d)
  have "takes (read_field f) (enc_bytes d @ []) f"
    unfolding FBytes read_field.simps using assms FBytes
    by (intro takes_bind[OF takes_read_bytes]) (simp_all add: takes_ret)
  then show ?thesis by (simp add: FBytes field_bytes_def wire_simps)
next
  case (FString s)
  have "takes (read_field f) (enc_bytes s @ []) f"
    unfolding FString read_field.simps using assms FString
    by (intro takes_bind[OF takes_read_string]) (simp_all add: takes_ret)
  then show ?thesis using assms by (simp add: FString field_bytes_def wire_simps cstr_id)
qed (simp_all add: field_bytes_def wire_simps takes_bind_ret takes_reads)

lemma takes_read_fields:
  "list_all field_ok fs \<Longrightarrow> takes (read_fields fs) (concat (map field_bytes fs)) fs"
proof (induction fs)
  case (Cons f fs)
  have "takes (bind (read_fields fs) (\<lambda>vs. ret (f # vs))) (concat (map field_bytes fs)) (f # fs)"
    using Cons by (intro takes_bind_ret) simp
  with takes_read_field[of f] Cons.prems show ?case by (simp add: takes_bind)
qed (simp add: takes_ret)

text \<open>
  C5. A sequence of fields that the format can hold comes back: the reader over the written
  bytes returns the same sequence and ends exactly at the end of the buffer. The format holds
  integers in the range of their type, nonces of 16 and 32 bytes, byte strings shorter than
  16 MiB (of a longer one the writer cuts the length to 24 bits), text of that length without
  a zero byte, and less than 2^62 bytes in all.
\<close>

theorem write_read_round_trip:
  assumes "list_all field_ok fs"
    and "data = wr_data (fold write_field fs tl_writer_init)" "length data < 2 ^ 62"
  shows "read_fields fs (tl_reader_init data (length data)) =
    (Ok fs, \<lparr>rd_data = data, rd_len = length data, rd_pos = length data\<rparr>)"
proof -
  have "data = concat (map field_bytes fs)" using assms(2) by (simp add: write_fields_data wr_data_init)
  then show ?thesis
    using takes_init[OF takes_read_fields[OF assms(1)], of "[]"] assms(3) by (simp add: rd_at_def)
qed

definition sample_fields :: "tl_field list" where
  "sample_fields = [FUint32 0xdeadbeef, FInt64 (-2), FString [65, 66, 67], FBool True, FBytes [1, 2]]"

lemma sample_fields_length: "length (wr_data (fold write_field sample_fields tl_writer_init)) = 24"
  by (simp add: sample_fields_def wire_simps length_enc_bytes length_enc_prefix cstr_def)

theorem write_read_round_trip_witness:
  "let data = wr_data (fold write_field sample_fields tl_writer_init)
   in length data = 24 \<and> read_fields sample_fields (tl_reader_init data 24) =
     (Ok sample_fields, \<lparr>rd_data = data, rd_len = 24, rd_pos = 24\<rparr>)"
proof -
  have ok: "list_all field_ok sample_fields" by (simp add: sample_fields_def)
  have "length (wr_data (fold write_field sample_fields tl_writer_init)) < 2 ^ 62"
    unfolding sample_fields_length by simp
  from write_read_round_trip[OF ok refl this] show ?thesis
    unfolding Let_def sample_fields_length by simp
qed

section \<open>The writer's buffer\<close>

text \<open>The bytes a field adds, and that every write operation keeps the buffer in bounds.\<close>

lemma writer_ok_write_bytes:
  assumes "writer_ok w" "wr_len w + length d + 8 < 2 ^ 63"
  shows "writer_ok (tl_write_bytes w d)"
proof -
  let ?w1 = "if length d < 254 then writer_put w [word_of_nat (length d)]
    else writer_put w [0xFE, ucast (word_of_nat (length d) :: u64),
      ucast (drop_bit 8 (word_of_nat (length d) :: u64)),
      ucast (drop_bit 16 (word_of_nat (length d) :: u64))]"
  have w1: "writer_ok ?w1" "wr_len ?w1 \<le> wr_len w + 4"
    using assms by (auto intro!: writer_ok_put)
  have w2: "writer_ok (if length d > 0 then writer_put ?w1 d else ?w1)"
    "wr_len (if length d > 0 then writer_put ?w1 d else ?w1) \<le> wr_len w + 4 + length d"
    using assms w1 by (auto intro!: writer_ok_put)
  have "k < 4" if "k = (4 - t mod 4) mod 4" for k t :: nat using that by simp
  with w2 assms show ?thesis
    unfolding tl_write_bytes_def Let_def by (auto intro!: writer_ok_put)
qed

lemma writer_ok_write_field:
  assumes "writer_ok w" "wr_len w + length (field_bytes f) + 8 < 2 ^ 63"
  shows "writer_ok (write_field f w)"
proof -
  have bytes: "writer_ok (tl_write_bytes w d)" if "length d \<le> length (field_bytes f)" for d
    using assms that by (intro writer_ok_write_bytes) simp_all
  have "length (field_bytes (FBytes d)) = length (enc_bytes d)" for d
    by (simp add: field_bytes_def wire_simps)
  moreover have "length d \<le> length (enc_bytes d)" for d :: "byte list"
    by (simp add: enc_bytes_def)
  moreover have "length (field_bytes (FString s)) = length (enc_bytes (cstr s))" for s
    by (simp add: field_bytes_def wire_simps)
  ultimately show ?thesis
    using bytes assms
    by (cases f) (auto simp: tl_write_string_def tl_write_int32_def tl_write_uint32_def
        tl_write_int64_def tl_write_uint64_def tl_write_int128_def tl_write_int256_def
        tl_write_raw_def tl_write_double_def tl_write_bool_def write_le32_def write_le64_def
        field_bytes_def wr_data_writer_put wr_data_init intro!: writer_ok_put)
qed

lemma writer_ok_write_fields:
  "writer_ok w \<Longrightarrow> length (wr_data (fold write_field fs w)) + 8 < 2 ^ 63 \<Longrightarrow>
   writer_ok (fold write_field fs w)"
proof (induction fs arbitrary: w)
  case (Cons f fs)
  have "wr_len w + length (field_bytes f) + 8 < 2 ^ 63"
    using Cons.prems by (simp add: write_fields_data write_field_data writer_ok_def)
  then show ?case using Cons by (simp add: writer_ok_write_field)
qed simp

text \<open>
  C13. However many fields are written, the writer's length is the number of bytes it
  holds and never exceeds its capacity, and the capacity, doubled as often as needed,
  still fits a \<open>size_t\<close>: no copy of \<open>writer_put\<close> leaves the allocation.
\<close>

theorem writer_in_bounds:
  assumes "w = fold write_field fs tl_writer_init" "length (wr_data w) + 8 < 2 ^ 63"
  shows "wr_len w = length (wr_data w) \<and> wr_len w \<le> wr_cap w \<and> wr_cap w < 2 ^ 64"
  using writer_ok_write_fields[OF writer_ok_init, of fs] assms by (simp add: writer_ok_def)

theorem writer_in_bounds_witness:
  "wr_len (fold write_field sample_fields tl_writer_init) = 24 \<and>
   24 \<le> wr_cap (fold write_field sample_fields tl_writer_init)"
  using writer_in_bounds[OF refl, of sample_fields] unfolding sample_fields_length by simp

end
