(* ===== verification/TL_Ids.thy ===== *)
theory TL_Ids
  imports TL_Serial
begin

text \<open>
  The constructor ids of the TL schema, as \<open>src/src/core/tl_registry.h\<close> and
  \<open>src/src/core/tl_skip.c\<close> define them.
\<close>

abbreviation (input) TL_rpc_result :: u32 where "TL_rpc_result \<equiv> 0xf35c6d01"
abbreviation (input) TL_rpc_error :: u32 where "TL_rpc_error \<equiv> 0x2144ca19"
abbreviation (input) TL_gzip_packed :: u32 where "TL_gzip_packed \<equiv> 0x3072cfa1"
abbreviation (input) TL_msg_container :: u32 where "TL_msg_container \<equiv> 0x73f1f8dc"
abbreviation (input) TL_msg_copy :: u32 where "TL_msg_copy \<equiv> 0xe06046b2"
abbreviation (input) TL_msgs_ack :: u32 where "TL_msgs_ack \<equiv> 0x62d6b459"
abbreviation (input) TL_bad_msg_notification :: u32 where "TL_bad_msg_notification \<equiv> 0xa7eff811"
abbreviation (input) TL_bad_server_salt :: u32 where "TL_bad_server_salt \<equiv> 0xedab447b"
abbreviation (input) TL_new_session_created :: u32 where "TL_new_session_created \<equiv> 0x9ec20908"
abbreviation (input) TL_pong :: u32 where "TL_pong \<equiv> 0x347773c5"
abbreviation (input) TL_future_salts :: u32 where "TL_future_salts \<equiv> 0xae500895"
abbreviation (input) TL_msgs_state_req :: u32 where "TL_msgs_state_req \<equiv> 0xda69fb52"
abbreviation (input) TL_msgs_state_info :: u32 where "TL_msgs_state_info \<equiv> 0x04deb57d"
abbreviation (input) TL_msgs_all_info :: u32 where "TL_msgs_all_info \<equiv> 0x8cc0d131"
abbreviation (input) TL_msg_detailed_info :: u32 where "TL_msg_detailed_info \<equiv> 0x276d3ec6"
abbreviation (input) TL_msg_new_detailed_info :: u32 where "TL_msg_new_detailed_info \<equiv> 0x809db6df"
abbreviation (input) TL_destroy_session_ok :: u32 where "TL_destroy_session_ok \<equiv> 0xe22045fc"
abbreviation (input) TL_destroy_session_none :: u32 where "TL_destroy_session_none \<equiv> 0x62d350c9"
abbreviation (input) TL_resPQ :: u32 where "TL_resPQ \<equiv> 0x05162463"
abbreviation (input) TL_server_DH_params_ok :: u32 where "TL_server_DH_params_ok \<equiv> 0xd0e8075c"
abbreviation (input) TL_server_DH_params_fail :: u32 where "TL_server_DH_params_fail \<equiv> 0x79cb045d"
abbreviation (input) TL_dh_gen_ok :: u32 where "TL_dh_gen_ok \<equiv> 0x3bcbf734"
abbreviation (input) TL_dh_gen_retry :: u32 where "TL_dh_gen_retry \<equiv> 0x46dc1fb9"
abbreviation (input) TL_dh_gen_fail :: u32 where "TL_dh_gen_fail \<equiv> 0xa69dae02"
abbreviation (input) TL_auth_sentCode :: u32 where "TL_auth_sentCode \<equiv> 0x5e002502"
abbreviation (input) TL_auth_authorization :: u32 where "TL_auth_authorization \<equiv> 0x2ea2c0d4"
abbreviation (input) TL_auth_authorizationSignUpRequired :: u32 where "TL_auth_authorizationSignUpRequired \<equiv> 0x44747e9a"
abbreviation (input) TL_auth_exportAuthorization :: u32 where "TL_auth_exportAuthorization \<equiv> 0xe5bfffcd"
abbreviation (input) TL_auth_exportedAuthorization :: u32 where "TL_auth_exportedAuthorization \<equiv> 0xb434e2b8"
abbreviation (input) TL_auth_importAuthorization :: u32 where "TL_auth_importAuthorization \<equiv> 0xa57a7dad"
abbreviation (input) TL_account_password :: u32 where "TL_account_password \<equiv> 0x957b50fb"
abbreviation (input) TL_passwordKdfAlgoSHA256SHA256PBKDF2HMACSHA512iter100000SHA256ModPow :: u32 where "TL_passwordKdfAlgoSHA256SHA256PBKDF2HMACSHA512iter100000SHA256ModPow \<equiv> 0x3a912d4a"
abbreviation (input) TL_passwordKdfAlgoUnknown :: u32 where "TL_passwordKdfAlgoUnknown \<equiv> 0xd45ab096"
abbreviation (input) TL_inputCheckPasswordSRP :: u32 where "TL_inputCheckPasswordSRP \<equiv> 0xd27ff082"
abbreviation (input) TL_inputCheckPasswordEmpty :: u32 where "TL_inputCheckPasswordEmpty \<equiv> 0x9880f658"
abbreviation (input) TL_securePasswordKdfAlgoUnknown :: u32 where "TL_securePasswordKdfAlgoUnknown \<equiv> 0x4a8537a5"
abbreviation (input) TL_user :: u32 where "TL_user \<equiv> 0x3ff6ecb0"
abbreviation (input) TL_user2 :: u32 where "TL_user2 \<equiv> 0x83314fca"
abbreviation (input) TL_userEmpty :: u32 where "TL_userEmpty \<equiv> 0xd3bc4b7a"
abbreviation (input) TL_userFull :: u32 where "TL_userFull \<equiv> 0x93eadb53"
abbreviation (input) TL_chat :: u32 where "TL_chat \<equiv> 0x41cbf256"
abbreviation (input) TL_chatEmpty :: u32 where "TL_chatEmpty \<equiv> 0x29562865"
abbreviation (input) TL_chatForbidden :: u32 where "TL_chatForbidden \<equiv> 0x6592a1a7"
abbreviation (input) TL_channel :: u32 where "TL_channel \<equiv> 0x0aadfc8f"
abbreviation (input) TL_channelForbidden :: u32 where "TL_channelForbidden \<equiv> 0x17d493d5"
abbreviation (input) TL_message :: u32 where "TL_message \<equiv> 0x94345242"
abbreviation (input) TL_messageEmpty :: u32 where "TL_messageEmpty \<equiv> 0x90a6ca84"
abbreviation (input) TL_messageService :: u32 where "TL_messageService \<equiv> 0x2b085862"
abbreviation (input) TL_messages_dialogs :: u32 where "TL_messages_dialogs \<equiv> 0x15ba6c40"
abbreviation (input) TL_messages_dialogsSlice :: u32 where "TL_messages_dialogsSlice \<equiv> 0x71e094f3"
abbreviation (input) TL_messages_dialogsNotModified :: u32 where "TL_messages_dialogsNotModified \<equiv> 0xf0e3e596"
abbreviation (input) TL_messages_messages :: u32 where "TL_messages_messages \<equiv> 0x8c718e87"
abbreviation (input) TL_messages_messagesSlice :: u32 where "TL_messages_messagesSlice \<equiv> 0x3a54685e"
abbreviation (input) TL_messages_channelMessages :: u32 where "TL_messages_channelMessages \<equiv> 0xc776ba4e"
abbreviation (input) TL_messages_affectedHistory :: u32 where "TL_messages_affectedHistory \<equiv> 0xb45c69d1"
abbreviation (input) TL_messages_affectedMessages :: u32 where "TL_messages_affectedMessages \<equiv> 0x84d19185"
abbreviation (input) TL_messageMediaEmpty :: u32 where "TL_messageMediaEmpty \<equiv> 0x3ded6320"
abbreviation (input) TL_messageMediaPhoto :: u32 where "TL_messageMediaPhoto \<equiv> 0x695150d7"
abbreviation (input) TL_messageMediaDocument :: u32 where "TL_messageMediaDocument \<equiv> 0x4cf4d72d"
abbreviation (input) TL_messageMediaGeo :: u32 where "TL_messageMediaGeo \<equiv> 0x56e0d474"
abbreviation (input) TL_messageMediaContact :: u32 where "TL_messageMediaContact \<equiv> 0x70322949"
abbreviation (input) TL_messageMediaWebPage :: u32 where "TL_messageMediaWebPage \<equiv> 0xddf8c26e"
abbreviation (input) TL_document :: u32 where "TL_document \<equiv> 0x8fd4c4d8"
abbreviation (input) TL_documentEmpty :: u32 where "TL_documentEmpty \<equiv> 0x36f8c871"
abbreviation (input) TL_photo :: u32 where "TL_photo \<equiv> 0xfb197a65"
abbreviation (input) TL_photoEmpty :: u32 where "TL_photoEmpty \<equiv> 0x2331b22d"
abbreviation (input) TL_photoSize :: u32 where "TL_photoSize \<equiv> 0x75c78e60"
abbreviation (input) TL_photoSizeProgressive :: u32 where "TL_photoSizeProgressive \<equiv> 0xfa3efb95"
abbreviation (input) TL_contacts_contacts :: u32 where "TL_contacts_contacts \<equiv> 0xeae87e42"
abbreviation (input) TL_contacts_contactsNotModified :: u32 where "TL_contacts_contactsNotModified \<equiv> 0xb74ba9d2"
abbreviation (input) TL_contacts_resolvedPeer :: u32 where "TL_contacts_resolvedPeer \<equiv> 0x7f077ad9"
abbreviation (input) TL_updates_state :: u32 where "TL_updates_state \<equiv> 0xa56c2a3e"
abbreviation (input) TL_updates_difference :: u32 where "TL_updates_difference \<equiv> 0x00f49d63"
abbreviation (input) TL_updates_differenceEmpty :: u32 where "TL_updates_differenceEmpty \<equiv> 0x5d75a138"
abbreviation (input) TL_updates_differenceSlice :: u32 where "TL_updates_differenceSlice \<equiv> 0xa8fb1981"
abbreviation (input) TL_updateShort :: u32 where "TL_updateShort \<equiv> 0x78d4dec1"
abbreviation (input) TL_updates :: u32 where "TL_updates \<equiv> 0x74ae4240"
abbreviation (input) TL_updatesCombined :: u32 where "TL_updatesCombined \<equiv> 0x725b04c3"
abbreviation (input) TL_updateNewMessage :: u32 where "TL_updateNewMessage \<equiv> 0x1f2b0afd"
abbreviation (input) TL_updateReadHistoryInbox :: u32 where "TL_updateReadHistoryInbox \<equiv> 0x9c974fdf"
abbreviation (input) TL_updateReadHistoryOutbox :: u32 where "TL_updateReadHistoryOutbox \<equiv> 0x2f2f21bf"
abbreviation (input) TL_peerUser :: u32 where "TL_peerUser \<equiv> 0x59511722"
abbreviation (input) TL_peerChat :: u32 where "TL_peerChat \<equiv> 0x36c6019a"
abbreviation (input) TL_peerChannel :: u32 where "TL_peerChannel \<equiv> 0xa2a5371e"
abbreviation (input) TL_inputPeerUser :: u32 where "TL_inputPeerUser \<equiv> 0xdde8a54c"
abbreviation (input) TL_inputPeerChat :: u32 where "TL_inputPeerChat \<equiv> 0x35a95cb9"
abbreviation (input) TL_inputPeerChannel :: u32 where "TL_inputPeerChannel \<equiv> 0x27bcbbfc"
abbreviation (input) TL_inputPeerSelf :: u32 where "TL_inputPeerSelf \<equiv> 0x7da07ec9"
abbreviation (input) TL_inputPeerEmpty :: u32 where "TL_inputPeerEmpty \<equiv> 0x7f3b18ea"
abbreviation (input) TL_config :: u32 where "TL_config \<equiv> 0xcc1a241e"
abbreviation (input) TL_dcOption :: u32 where "TL_dcOption \<equiv> 0x18b7a10d"
abbreviation (input) TL_nearestDc :: u32 where "TL_nearestDc \<equiv> 0x8e1a1775"
abbreviation (input) TL_boolTrue :: u32 where "TL_boolTrue \<equiv> 0x997275b5"
abbreviation (input) TL_boolFalse :: u32 where "TL_boolFalse \<equiv> 0xbc799737"
abbreviation (input) TL_vector :: u32 where "TL_vector \<equiv> 0x1cb5c415"
abbreviation (input) CRC_peerNotifySettings :: u32 where "CRC_peerNotifySettings \<equiv> 0xa83b0426"
abbreviation (input) CRC_peerNotifySettings2 :: u32 where "CRC_peerNotifySettings2 \<equiv> 0x99622c0c"
abbreviation (input) CRC_notificationSoundDefault :: u32 where "CRC_notificationSoundDefault \<equiv> 0x97e8bebe"
abbreviation (input) CRC_notificationSoundNone :: u32 where "CRC_notificationSoundNone \<equiv> 0x6f0c34df"
abbreviation (input) CRC_notificationSoundLocal :: u32 where "CRC_notificationSoundLocal \<equiv> 0x830b9ae4"
abbreviation (input) CRC_notificationSoundRingtone :: u32 where "CRC_notificationSoundRingtone \<equiv> 0xff6c8049"
abbreviation (input) CRC_draftMessage :: u32 where "CRC_draftMessage \<equiv> 0x3fccf7ef"
abbreviation (input) CRC_draftMessageEmpty :: u32 where "CRC_draftMessageEmpty \<equiv> 0x1b0c841a"
abbreviation (input) CRC_messageEntityUnknown :: u32 where "CRC_messageEntityUnknown \<equiv> 0xbb92ba95"
abbreviation (input) CRC_messageEntityMention :: u32 where "CRC_messageEntityMention \<equiv> 0xfa04579d"
abbreviation (input) CRC_messageEntityHashtag :: u32 where "CRC_messageEntityHashtag \<equiv> 0x6f635b0d"
abbreviation (input) CRC_messageEntityBotCommand :: u32 where "CRC_messageEntityBotCommand \<equiv> 0x6cef8ac7"
abbreviation (input) CRC_messageEntityUrl :: u32 where "CRC_messageEntityUrl \<equiv> 0x6ed02538"
abbreviation (input) CRC_messageEntityEmail :: u32 where "CRC_messageEntityEmail \<equiv> 0x64e475c2"
abbreviation (input) CRC_messageEntityBold :: u32 where "CRC_messageEntityBold \<equiv> 0xbd610bc9"
abbreviation (input) CRC_messageEntityItalic :: u32 where "CRC_messageEntityItalic \<equiv> 0x826f8b60"
abbreviation (input) CRC_messageEntityCode :: u32 where "CRC_messageEntityCode \<equiv> 0x28a20571"
abbreviation (input) CRC_messageEntityPre :: u32 where "CRC_messageEntityPre \<equiv> 0x73924be0"
abbreviation (input) CRC_messageEntityTextUrl :: u32 where "CRC_messageEntityTextUrl \<equiv> 0x76a6d327"
abbreviation (input) CRC_messageEntityMentionName :: u32 where "CRC_messageEntityMentionName \<equiv> 0xdc7b1140"
abbreviation (input) CRC_messageEntityPhone :: u32 where "CRC_messageEntityPhone \<equiv> 0x9b69e34b"
abbreviation (input) CRC_messageEntityCashtag :: u32 where "CRC_messageEntityCashtag \<equiv> 0x4c4e743f"
abbreviation (input) CRC_messageEntityUnderline :: u32 where "CRC_messageEntityUnderline \<equiv> 0x9c4e7e8b"
abbreviation (input) CRC_messageEntityStrike :: u32 where "CRC_messageEntityStrike \<equiv> 0xbf0693d4"
abbreviation (input) CRC_messageEntityBlockquote :: u32 where "CRC_messageEntityBlockquote \<equiv> 0xf1ccaaac"
abbreviation (input) CRC_messageEntityBankCard :: u32 where "CRC_messageEntityBankCard \<equiv> 0x761e6af4"
abbreviation (input) CRC_messageEntitySpoiler :: u32 where "CRC_messageEntitySpoiler \<equiv> 0x32ca960f"
abbreviation (input) CRC_messageEntityCustomEmoji :: u32 where "CRC_messageEntityCustomEmoji \<equiv> 0xc8cf05f8"
abbreviation (input) CRC_messageFwdHeader :: u32 where "CRC_messageFwdHeader \<equiv> 0x4e4df4bb"
abbreviation (input) CRC_messageReplyHeader :: u32 where "CRC_messageReplyHeader \<equiv> 0xafbc09db"
abbreviation (input) CRC_messageReplyStoryHeader :: u32 where "CRC_messageReplyStoryHeader \<equiv> 0x0e5af939"
abbreviation (input) CRC_photoSizeEmpty :: u32 where "CRC_photoSizeEmpty \<equiv> 0x0e17e23c"
abbreviation (input) CRC_photoSize :: u32 where "CRC_photoSize \<equiv> 0x75c78e60"
abbreviation (input) CRC_photoCachedSize :: u32 where "CRC_photoCachedSize \<equiv> 0x021e1ad6"
abbreviation (input) CRC_photoStrippedSize :: u32 where "CRC_photoStrippedSize \<equiv> 0xe0b0bc2e"
abbreviation (input) CRC_photoSizeProgressive :: u32 where "CRC_photoSizeProgressive \<equiv> 0xfa3efb95"
abbreviation (input) CRC_photoPathSize :: u32 where "CRC_photoPathSize \<equiv> 0xd8214d41"
abbreviation (input) CRC_photo :: u32 where "CRC_photo \<equiv> 0xfb197a65"
abbreviation (input) CRC_photoEmpty :: u32 where "CRC_photoEmpty \<equiv> 0x2331b22d"
abbreviation (input) CRC_document :: u32 where "CRC_document \<equiv> 0x8fd4c4d8"
abbreviation (input) CRC_documentEmpty :: u32 where "CRC_documentEmpty \<equiv> 0x36f8c871"
abbreviation (input) CRC_geoPointEmpty :: u32 where "CRC_geoPointEmpty \<equiv> 0x1117dd5f"
abbreviation (input) CRC_geoPoint :: u32 where "CRC_geoPoint \<equiv> 0xb2a2f663"
abbreviation (input) CRC_messageMediaEmpty :: u32 where "CRC_messageMediaEmpty \<equiv> 0x3ded6320"
abbreviation (input) CRC_messageMediaPhoto :: u32 where "CRC_messageMediaPhoto \<equiv> 0x695150d7"
abbreviation (input) CRC_messageMediaDocument :: u32 where "CRC_messageMediaDocument \<equiv> 0x4cf4d72d"
abbreviation (input) CRC_messageMediaGeo :: u32 where "CRC_messageMediaGeo \<equiv> 0x56e0d474"
abbreviation (input) CRC_messageMediaContact :: u32 where "CRC_messageMediaContact \<equiv> 0x70322949"
abbreviation (input) CRC_messageMediaUnsupported :: u32 where "CRC_messageMediaUnsupported \<equiv> 0x9f84f49e"
abbreviation (input) CRC_messageMediaVenue :: u32 where "CRC_messageMediaVenue \<equiv> 0x2ec0533f"
abbreviation (input) CRC_messageMediaGeoLive :: u32 where "CRC_messageMediaGeoLive \<equiv> 0xb940c666"
abbreviation (input) CRC_messageMediaDice :: u32 where "CRC_messageMediaDice \<equiv> 0x3f7ee58b"
abbreviation (input) CRC_messageMediaWebPage :: u32 where "CRC_messageMediaWebPage \<equiv> 0xddf8c26e"
abbreviation (input) CRC_messageMediaPoll :: u32 where "CRC_messageMediaPoll \<equiv> 0x4bd6e798"
abbreviation (input) CRC_messageMediaInvoice :: u32 where "CRC_messageMediaInvoice \<equiv> 0xf6a548d3"
abbreviation (input) CRC_messageMediaStory :: u32 where "CRC_messageMediaStory \<equiv> 0x68cb6283"
abbreviation (input) CRC_messageMediaGiveaway :: u32 where "CRC_messageMediaGiveaway \<equiv> 0xaa073bee"
abbreviation (input) CRC_messageMediaGame :: u32 where "CRC_messageMediaGame \<equiv> 0xfdb19008"
abbreviation (input) CRC_messageMediaPaidMedia :: u32 where "CRC_messageMediaPaidMedia \<equiv> 0xa8852491"
abbreviation (input) CRC_game :: u32 where "CRC_game \<equiv> 0xbdf9653b"
abbreviation (input) CRC_messageExtendedMediaPreview :: u32 where "CRC_messageExtendedMediaPreview \<equiv> 0xad628cc8"
abbreviation (input) CRC_messageExtendedMedia :: u32 where "CRC_messageExtendedMedia \<equiv> 0xee479c64"
abbreviation (input) CRC_webDocument :: u32 where "CRC_webDocument \<equiv> 0x1c570ed1"
abbreviation (input) CRC_webDocumentNoProxy :: u32 where "CRC_webDocumentNoProxy \<equiv> 0xf9c8bcc6"
abbreviation (input) CRC_storyItemDeleted :: u32 where "CRC_storyItemDeleted \<equiv> 0x51e6ee4f"
abbreviation (input) CRC_storyItemSkipped :: u32 where "CRC_storyItemSkipped \<equiv> 0xffadc913"
abbreviation (input) CRC_storyItem :: u32 where "CRC_storyItem \<equiv> 0x79b26a24"
abbreviation (input) CRC_storyFwdHeader :: u32 where "CRC_storyFwdHeader \<equiv> 0xb826e150"
abbreviation (input) CRC_mediaAreaCoordinates :: u32 where "CRC_mediaAreaCoordinates \<equiv> 0x03d1ea4e"
abbreviation (input) CRC_geoPointAddress :: u32 where "CRC_geoPointAddress \<equiv> 0xde4c5d93"
abbreviation (input) CRC_mediaAreaVenue :: u32 where "CRC_mediaAreaVenue \<equiv> 0xbe82db9c"
abbreviation (input) CRC_mediaAreaGeoPoint :: u32 where "CRC_mediaAreaGeoPoint \<equiv> 0xdf8b3b22"
abbreviation (input) CRC_mediaAreaSuggestedReaction :: u32 where "CRC_mediaAreaSuggestedReaction \<equiv> 0x14455871"
abbreviation (input) CRC_mediaAreaChannelPost :: u32 where "CRC_mediaAreaChannelPost \<equiv> 0x770416af"
abbreviation (input) CRC_mediaAreaUrl :: u32 where "CRC_mediaAreaUrl \<equiv> 0x37381085"
abbreviation (input) CRC_mediaAreaWeather :: u32 where "CRC_mediaAreaWeather \<equiv> 0x49a6549c"
abbreviation (input) CRC_mediaAreaStarGift :: u32 where "CRC_mediaAreaStarGift \<equiv> 0x5787686d"
abbreviation (input) CRC_privacyValueAllowContacts :: u32 where "CRC_privacyValueAllowContacts \<equiv> 0xfffe1bac"
abbreviation (input) CRC_privacyValueAllowAll :: u32 where "CRC_privacyValueAllowAll \<equiv> 0x65427b82"
abbreviation (input) CRC_privacyValueAllowUsers :: u32 where "CRC_privacyValueAllowUsers \<equiv> 0xb8905fb2"
abbreviation (input) CRC_privacyValueDisallowContacts :: u32 where "CRC_privacyValueDisallowContacts \<equiv> 0xf888fa1a"
abbreviation (input) CRC_privacyValueDisallowAll :: u32 where "CRC_privacyValueDisallowAll \<equiv> 0x8b73e763"
abbreviation (input) CRC_privacyValueDisallowUsers :: u32 where "CRC_privacyValueDisallowUsers \<equiv> 0xe4621141"
abbreviation (input) CRC_privacyValueAllowChatParticipants :: u32 where "CRC_privacyValueAllowChatParticipants \<equiv> 0x6b134e8e"
abbreviation (input) CRC_privacyValueDisallowChatParticipants :: u32 where "CRC_privacyValueDisallowChatParticipants \<equiv> 0x41c87565"
abbreviation (input) CRC_privacyValueAllowCloseFriends :: u32 where "CRC_privacyValueAllowCloseFriends \<equiv> 0xf7e8d89b"
abbreviation (input) CRC_privacyValueAllowPremium :: u32 where "CRC_privacyValueAllowPremium \<equiv> 0xece9814b"
abbreviation (input) CRC_privacyValueAllowBots :: u32 where "CRC_privacyValueAllowBots \<equiv> 0x21461b5d"
abbreviation (input) CRC_privacyValueDisallowBots :: u32 where "CRC_privacyValueDisallowBots \<equiv> 0xf6a5f82f"
abbreviation (input) CRC_storyViews :: u32 where "CRC_storyViews \<equiv> 0x8d595cd6"
abbreviation (input) CRC_webPage :: u32 where "CRC_webPage \<equiv> 0xe89c45b2"
abbreviation (input) CRC_webPageEmpty :: u32 where "CRC_webPageEmpty \<equiv> 0xeb1477e8"
abbreviation (input) CRC_webPagePending :: u32 where "CRC_webPagePending \<equiv> 0xb0d13e47"
abbreviation (input) CRC_webPageNotModified :: u32 where "CRC_webPageNotModified \<equiv> 0x7311ca11"
abbreviation (input) CRC_webPageAttributeTheme :: u32 where "CRC_webPageAttributeTheme \<equiv> 0x54b56617"
abbreviation (input) CRC_webPageAttributeStory :: u32 where "CRC_webPageAttributeStory \<equiv> 0x2e94c3e7"
abbreviation (input) CRC_webPageAttributeStickerSet :: u32 where "CRC_webPageAttributeStickerSet \<equiv> 0x50cc03d3"
abbreviation (input) CRC_page :: u32 where "CRC_page \<equiv> 0x98657f0d"
abbreviation (input) CRC_pageBlockUnsupported :: u32 where "CRC_pageBlockUnsupported \<equiv> 0x13567e8a"
abbreviation (input) CRC_pageBlockTitle :: u32 where "CRC_pageBlockTitle \<equiv> 0x70abc3fd"
abbreviation (input) CRC_pageBlockSubtitle :: u32 where "CRC_pageBlockSubtitle \<equiv> 0x8ffa9a1f"
abbreviation (input) CRC_pageBlockHeader :: u32 where "CRC_pageBlockHeader \<equiv> 0xbfd064ec"
abbreviation (input) CRC_pageBlockSubheader :: u32 where "CRC_pageBlockSubheader \<equiv> 0xf12bb6e1"
abbreviation (input) CRC_pageBlockKicker :: u32 where "CRC_pageBlockKicker \<equiv> 0x1e148390"
abbreviation (input) CRC_pageBlockParagraph :: u32 where "CRC_pageBlockParagraph \<equiv> 0x467a0766"
abbreviation (input) CRC_pageBlockPreformatted :: u32 where "CRC_pageBlockPreformatted \<equiv> 0xc070d93e"
abbreviation (input) CRC_pageBlockFooter :: u32 where "CRC_pageBlockFooter \<equiv> 0x48870999"
abbreviation (input) CRC_pageBlockDivider :: u32 where "CRC_pageBlockDivider \<equiv> 0xdb20b188"
abbreviation (input) CRC_pageBlockAnchor :: u32 where "CRC_pageBlockAnchor \<equiv> 0xce0d37b0"
abbreviation (input) CRC_pageBlockAuthorDate :: u32 where "CRC_pageBlockAuthorDate \<equiv> 0xbaafe5e0"
abbreviation (input) CRC_pageBlockBlockquote :: u32 where "CRC_pageBlockBlockquote \<equiv> 0x263d7c26"
abbreviation (input) CRC_pageBlockPullquote :: u32 where "CRC_pageBlockPullquote \<equiv> 0x4f4456d5"
abbreviation (input) CRC_pageBlockPhoto :: u32 where "CRC_pageBlockPhoto \<equiv> 0x1759c560"
abbreviation (input) CRC_pageBlockVideo :: u32 where "CRC_pageBlockVideo \<equiv> 0x7c8fe7b6"
abbreviation (input) CRC_pageBlockAudio :: u32 where "CRC_pageBlockAudio \<equiv> 0x804361ea"
abbreviation (input) CRC_pageBlockCover :: u32 where "CRC_pageBlockCover \<equiv> 0x39f23300"
abbreviation (input) CRC_pageBlockChannel :: u32 where "CRC_pageBlockChannel \<equiv> 0xef1751b5"
abbreviation (input) CRC_pageBlockMap :: u32 where "CRC_pageBlockMap \<equiv> 0xa44f3ef6"
abbreviation (input) CRC_pageBlockList :: u32 where "CRC_pageBlockList \<equiv> 0xe4e88011"
abbreviation (input) CRC_pageBlockOrderedList :: u32 where "CRC_pageBlockOrderedList \<equiv> 0x9a8ae1e1"
abbreviation (input) CRC_pageBlockCollage :: u32 where "CRC_pageBlockCollage \<equiv> 0x65a0fa4d"
abbreviation (input) CRC_pageBlockSlideshow :: u32 where "CRC_pageBlockSlideshow \<equiv> 0x031f9590"
abbreviation (input) CRC_pageBlockDetails :: u32 where "CRC_pageBlockDetails \<equiv> 0x76768bed"
abbreviation (input) CRC_pageBlockRelatedArticles :: u32 where "CRC_pageBlockRelatedArticles \<equiv> 0x16115a96"
abbreviation (input) CRC_pageBlockTable :: u32 where "CRC_pageBlockTable \<equiv> 0xbf4dea82"
abbreviation (input) CRC_pageBlockEmbed :: u32 where "CRC_pageBlockEmbed \<equiv> 0xa8718dc5"
abbreviation (input) CRC_pageBlockEmbedPost :: u32 where "CRC_pageBlockEmbedPost \<equiv> 0xf259a80b"
abbreviation (input) CRC_pageCaption :: u32 where "CRC_pageCaption \<equiv> 0x6f747657"
abbreviation (input) CRC_pageListItemText :: u32 where "CRC_pageListItemText \<equiv> 0xb92fb6cd"
abbreviation (input) CRC_pageListItemBlocks :: u32 where "CRC_pageListItemBlocks \<equiv> 0x25e073fc"
abbreviation (input) CRC_pageListOrderedItemText :: u32 where "CRC_pageListOrderedItemText \<equiv> 0x5e068047"
abbreviation (input) CRC_pageListOrderedItemBlocks :: u32 where "CRC_pageListOrderedItemBlocks \<equiv> 0x98dd8936"
abbreviation (input) CRC_pageTableRow :: u32 where "CRC_pageTableRow \<equiv> 0xe0c0c5e5"
abbreviation (input) CRC_pageTableCell :: u32 where "CRC_pageTableCell \<equiv> 0x34566b6a"
abbreviation (input) CRC_pageRelatedArticle :: u32 where "CRC_pageRelatedArticle \<equiv> 0xb390dc08"
abbreviation (input) CRC_textEmpty :: u32 where "CRC_textEmpty \<equiv> 0xdc3d824f"
abbreviation (input) CRC_textPlain :: u32 where "CRC_textPlain \<equiv> 0x744694e0"
abbreviation (input) CRC_textBold :: u32 where "CRC_textBold \<equiv> 0x6724abc4"
abbreviation (input) CRC_textItalic :: u32 where "CRC_textItalic \<equiv> 0xd912a59c"
abbreviation (input) CRC_textUnderline :: u32 where "CRC_textUnderline \<equiv> 0xc12622c4"
abbreviation (input) CRC_textStrike :: u32 where "CRC_textStrike \<equiv> 0x9bf8bb95"
abbreviation (input) CRC_textFixed :: u32 where "CRC_textFixed \<equiv> 0x6c3f19b9"
abbreviation (input) CRC_textUrl :: u32 where "CRC_textUrl \<equiv> 0x3c2884c1"
abbreviation (input) CRC_textEmail :: u32 where "CRC_textEmail \<equiv> 0xde5a0dd6"
abbreviation (input) CRC_textConcat :: u32 where "CRC_textConcat \<equiv> 0x7e6260d7"
abbreviation (input) CRC_textSubscript :: u32 where "CRC_textSubscript \<equiv> 0xed6a8504"
abbreviation (input) CRC_textSuperscript :: u32 where "CRC_textSuperscript \<equiv> 0xc7fb5e01"
abbreviation (input) CRC_textMarked :: u32 where "CRC_textMarked \<equiv> 0x034b27f6"
abbreviation (input) CRC_textPhone :: u32 where "CRC_textPhone \<equiv> 0x1ccb966a"
abbreviation (input) CRC_textImage :: u32 where "CRC_textImage \<equiv> 0x081ccf4f"
abbreviation (input) CRC_textAnchor :: u32 where "CRC_textAnchor \<equiv> 0x35553762"
abbreviation (input) CRC_poll :: u32 where "CRC_poll \<equiv> 0x58747131"
abbreviation (input) CRC_pollAnswer :: u32 where "CRC_pollAnswer \<equiv> 0x6ca9c2e9"
abbreviation (input) CRC_pollResults :: u32 where "CRC_pollResults \<equiv> 0x7adc669d"
abbreviation (input) CRC_pollAnswerVoters :: u32 where "CRC_pollAnswerVoters \<equiv> 0x3b6ddad2"
abbreviation (input) CRC_textWithEntities_poll :: u32 where "CRC_textWithEntities_poll \<equiv> 0x751f3146"
abbreviation (input) CRC_chatPhotoEmpty :: u32 where "CRC_chatPhotoEmpty \<equiv> 0x37c1011c"
abbreviation (input) CRC_chatPhoto :: u32 where "CRC_chatPhoto \<equiv> 0x1c6e1c11"
abbreviation (input) CRC_userProfilePhotoEmpty :: u32 where "CRC_userProfilePhotoEmpty \<equiv> 0x4f11bae1"
abbreviation (input) CRC_userProfilePhoto :: u32 where "CRC_userProfilePhoto \<equiv> 0x82d1f706"
abbreviation (input) CRC_userStatusEmpty :: u32 where "CRC_userStatusEmpty \<equiv> 0x09d05049"
abbreviation (input) CRC_userStatusOnline :: u32 where "CRC_userStatusOnline \<equiv> 0xedb93949"
abbreviation (input) CRC_userStatusOffline :: u32 where "CRC_userStatusOffline \<equiv> 0x008c703f"
abbreviation (input) CRC_userStatusRecently :: u32 where "CRC_userStatusRecently \<equiv> 0x7b197dc8"
abbreviation (input) CRC_userStatusLastWeek :: u32 where "CRC_userStatusLastWeek \<equiv> 0x541a1d1a"
abbreviation (input) CRC_userStatusLastMonth :: u32 where "CRC_userStatusLastMonth \<equiv> 0x65899e67"
abbreviation (input) CRC_restrictionReason :: u32 where "CRC_restrictionReason \<equiv> 0xd072acb4"
abbreviation (input) CRC_username :: u32 where "CRC_username \<equiv> 0xb4073647"
abbreviation (input) CRC_peerColor :: u32 where "CRC_peerColor \<equiv> 0xb54b5acf"
abbreviation (input) CRC_emojiStatusEmpty :: u32 where "CRC_emojiStatusEmpty \<equiv> 0x2de11aae"
abbreviation (input) CRC_emojiStatus :: u32 where "CRC_emojiStatus \<equiv> 0x929b619d"
abbreviation (input) CRC_emojiStatusUntil :: u32 where "CRC_emojiStatusUntil \<equiv> 0xfa30a8c7"
abbreviation (input) CRC_chatAdminRights :: u32 where "CRC_chatAdminRights \<equiv> 0x5fb224d5"
abbreviation (input) CRC_chatBannedRights :: u32 where "CRC_chatBannedRights \<equiv> 0x9f120418"
abbreviation (input) CRC_replyKeyboardHide :: u32 where "CRC_replyKeyboardHide \<equiv> 0xa03e5b85"
abbreviation (input) CRC_replyKeyboardForceReply :: u32 where "CRC_replyKeyboardForceReply \<equiv> 0x86b40b08"
abbreviation (input) CRC_replyKeyboardMarkup :: u32 where "CRC_replyKeyboardMarkup \<equiv> 0x85dd99d1"
abbreviation (input) CRC_replyInlineMarkup :: u32 where "CRC_replyInlineMarkup \<equiv> 0x48a30254"
abbreviation (input) CRC_keyboardButtonRow :: u32 where "CRC_keyboardButtonRow \<equiv> 0x77608b83"
abbreviation (input) CRC_keyboardButton :: u32 where "CRC_keyboardButton \<equiv> 0xa2fa4880"
abbreviation (input) CRC_keyboardButtonUrl :: u32 where "CRC_keyboardButtonUrl \<equiv> 0x258aff05"
abbreviation (input) CRC_keyboardButtonCallback :: u32 where "CRC_keyboardButtonCallback \<equiv> 0x35bbdb6b"
abbreviation (input) CRC_keyboardButtonRequestPhone :: u32 where "CRC_keyboardButtonRequestPhone \<equiv> 0xb16a6c29"
abbreviation (input) CRC_keyboardButtonRequestGeoLoc :: u32 where "CRC_keyboardButtonRequestGeoLoc \<equiv> 0xfc796b3f"
abbreviation (input) CRC_keyboardButtonSwitchInline :: u32 where "CRC_keyboardButtonSwitchInline \<equiv> 0x93b9fbb5"
abbreviation (input) CRC_keyboardButtonGame :: u32 where "CRC_keyboardButtonGame \<equiv> 0x50f41ccf"
abbreviation (input) CRC_keyboardButtonBuy :: u32 where "CRC_keyboardButtonBuy \<equiv> 0xafd93fbb"
abbreviation (input) CRC_keyboardButtonUrlAuth :: u32 where "CRC_keyboardButtonUrlAuth \<equiv> 0x10b78d29"
abbreviation (input) CRC_keyboardButtonRequestPoll :: u32 where "CRC_keyboardButtonRequestPoll \<equiv> 0xbbc7515d"
abbreviation (input) CRC_keyboardButtonUserProfile :: u32 where "CRC_keyboardButtonUserProfile \<equiv> 0x308660c1"
abbreviation (input) CRC_keyboardButtonWebView :: u32 where "CRC_keyboardButtonWebView \<equiv> 0x13767230"
abbreviation (input) CRC_keyboardButtonSimpleWebView :: u32 where "CRC_keyboardButtonSimpleWebView \<equiv> 0xa0c0505c"
abbreviation (input) CRC_messageReplies :: u32 where "CRC_messageReplies \<equiv> 0x83d60fc2"
abbreviation (input) CRC_factCheck :: u32 where "CRC_factCheck \<equiv> 0xb89bfccf"
abbreviation (input) CRC_textWithEntities :: u32 where "CRC_textWithEntities \<equiv> 0x751f3146"
abbreviation (input) CRC_messageReactions :: u32 where "CRC_messageReactions \<equiv> 0x4f2b9479"
abbreviation (input) CRC_reactionCount :: u32 where "CRC_reactionCount \<equiv> 0xa3d1cb80"
abbreviation (input) CRC_reactionEmpty :: u32 where "CRC_reactionEmpty \<equiv> 0x79f5d419"
abbreviation (input) CRC_reactionEmoji :: u32 where "CRC_reactionEmoji \<equiv> 0x1b2286b8"
abbreviation (input) CRC_reactionCustomEmoji :: u32 where "CRC_reactionCustomEmoji \<equiv> 0x8935fc73"
abbreviation (input) CRC_reactionPaid :: u32 where "CRC_reactionPaid \<equiv> 0x523da4eb"
abbreviation (input) CRC_messagePeerReaction :: u32 where "CRC_messagePeerReaction \<equiv> 0xb156fe9d"
abbreviation (input) CRC_messageReactor :: u32 where "CRC_messageReactor \<equiv> 0xedd1b4ad"
abbreviation (input) CRC_inputChannelEmpty :: u32 where "CRC_inputChannelEmpty \<equiv> 0xee8c1e86"
abbreviation (input) CRC_inputChannel :: u32 where "CRC_inputChannel \<equiv> 0xf35aec28"
abbreviation (input) CRC_inputChannelFromMessage :: u32 where "CRC_inputChannelFromMessage \<equiv> 0x5b934f9d"
abbreviation (input) CRC_inputPeerEmpty :: u32 where "CRC_inputPeerEmpty \<equiv> 0x7f3b18ea"
abbreviation (input) CRC_inputPeerSelf :: u32 where "CRC_inputPeerSelf \<equiv> 0x7da07ec9"
abbreviation (input) CRC_inputPeerUser :: u32 where "CRC_inputPeerUser \<equiv> 0x7b8e7de6"
abbreviation (input) CRC_inputPeerChat :: u32 where "CRC_inputPeerChat \<equiv> 0x35a95cb9"
abbreviation (input) CRC_inputPeerChannel :: u32 where "CRC_inputPeerChannel \<equiv> 0x27bcbbfc"
abbreviation (input) CRC_inputPeerUserFromMessage :: u32 where "CRC_inputPeerUserFromMessage \<equiv> 0xa87b0a1c"
abbreviation (input) CRC_inputPeerChannelFromMessage :: u32 where "CRC_inputPeerChannelFromMessage \<equiv> 0xbd2a0840"
abbreviation (input) CRC_inputReplyToMessage :: u32 where "CRC_inputReplyToMessage \<equiv> 0x3faad5f0"
abbreviation (input) CRC_inputReplyToStory :: u32 where "CRC_inputReplyToStory \<equiv> 0x7e2a9a7b"
abbreviation (input) CRC_inputPhotoEmpty :: u32 where "CRC_inputPhotoEmpty \<equiv> 0x1cd7bf0d"
abbreviation (input) CRC_inputPhoto :: u32 where "CRC_inputPhoto \<equiv> 0x3bb3b94a"
abbreviation (input) CRC_inputDocumentEmpty :: u32 where "CRC_inputDocumentEmpty \<equiv> 0x72f0eafa"
abbreviation (input) CRC_inputDocument :: u32 where "CRC_inputDocument \<equiv> 0x1abfb575"
abbreviation (input) CRC_inputGeoPointEmpty :: u32 where "CRC_inputGeoPointEmpty \<equiv> 0xe4c123d6"
abbreviation (input) CRC_inputGeoPoint :: u32 where "CRC_inputGeoPoint \<equiv> 0xf3b7acc9"
abbreviation (input) CRC_inputMediaEmpty :: u32 where "CRC_inputMediaEmpty \<equiv> 0x9664f57f"
abbreviation (input) CRC_inputMediaUploadedPhoto :: u32 where "CRC_inputMediaUploadedPhoto \<equiv> 0x1e287d04"
abbreviation (input) CRC_inputMediaPhoto :: u32 where "CRC_inputMediaPhoto \<equiv> 0xb3ba0635"
abbreviation (input) CRC_inputMediaGeoPoint :: u32 where "CRC_inputMediaGeoPoint \<equiv> 0xf9c44144"
abbreviation (input) CRC_inputMediaContact :: u32 where "CRC_inputMediaContact \<equiv> 0xf8ab7dfb"
abbreviation (input) CRC_inputMediaUploadedDocument :: u32 where "CRC_inputMediaUploadedDocument \<equiv> 0x5b38c6c1"
abbreviation (input) CRC_inputMediaDocument :: u32 where "CRC_inputMediaDocument \<equiv> 0x33473058"
abbreviation (input) CRC_inputMediaVenue :: u32 where "CRC_inputMediaVenue \<equiv> 0xc13d1c11"
abbreviation (input) CRC_inputMediaGeoLive :: u32 where "CRC_inputMediaGeoLive \<equiv> 0x971fa843"
abbreviation (input) CRC_inputMediaGame :: u32 where "CRC_inputMediaGame \<equiv> 0xd33f43f3"
abbreviation (input) CRC_inputMediaInvoice :: u32 where "CRC_inputMediaInvoice \<equiv> 0x8eb5a6d5"
abbreviation (input) CRC_inputMediaDice :: u32 where "CRC_inputMediaDice \<equiv> 0xe66fbf7b"
abbreviation (input) CRC_inputMediaStory :: u32 where "CRC_inputMediaStory \<equiv> 0x89fdd778"
abbreviation (input) CRC_inputMediaWebPage :: u32 where "CRC_inputMediaWebPage \<equiv> 0xc21b8849"
abbreviation (input) CRC_inputMediaPoll :: u32 where "CRC_inputMediaPoll \<equiv> 0x261e868f"
abbreviation (input) CRC_inputMediaPaidMedia :: u32 where "CRC_inputMediaPaidMedia \<equiv> 0x6519cb78"
abbreviation (input) CRC_inputMediaPhotoExternal :: u32 where "CRC_inputMediaPhotoExternal \<equiv> 0xe5bbfe1a"
abbreviation (input) CRC_inputMediaDocumentExternal :: u32 where "CRC_inputMediaDocumentExternal \<equiv> 0xfb52dc99"
abbreviation (input) CRC_inputFile :: u32 where "CRC_inputFile \<equiv> 0xf52ff27f"
abbreviation (input) CRC_inputFileBig :: u32 where "CRC_inputFileBig \<equiv> 0xfa4f0bb5"
abbreviation (input) CRC_inputGameID :: u32 where "CRC_inputGameID \<equiv> 0x032c3e77"
abbreviation (input) CRC_inputGameShortName :: u32 where "CRC_inputGameShortName \<equiv> 0xc331e80a"
abbreviation (input) CRC_inputUserEmpty :: u32 where "CRC_inputUserEmpty \<equiv> 0xb98886cf"
abbreviation (input) CRC_inputUserSelf :: u32 where "CRC_inputUserSelf \<equiv> 0xf7c1b13f"
abbreviation (input) CRC_inputUser :: u32 where "CRC_inputUser \<equiv> 0xf21158c6"
abbreviation (input) CRC_inputUserFromMessage :: u32 where "CRC_inputUserFromMessage \<equiv> 0x1da448e2"
abbreviation (input) CRC_themeSettings :: u32 where "CRC_themeSettings \<equiv> 0xfa58b6d4"
abbreviation (input) CRC_baseThemeClassic :: u32 where "CRC_baseThemeClassic \<equiv> 0xc3a12462"
abbreviation (input) CRC_baseThemeDay :: u32 where "CRC_baseThemeDay \<equiv> 0xfbd81688"
abbreviation (input) CRC_baseThemeDark :: u32 where "CRC_baseThemeDark \<equiv> 0xb7b31ea8"
abbreviation (input) CRC_baseThemeTinted :: u32 where "CRC_baseThemeTinted \<equiv> 0x6d5f77ee"
abbreviation (input) CRC_baseThemeArctic :: u32 where "CRC_baseThemeArctic \<equiv> 0x5b11125a"
abbreviation (input) CRC_wallPaper :: u32 where "CRC_wallPaper \<equiv> 0xa437c3ed"
abbreviation (input) CRC_wallPaperNoFile :: u32 where "CRC_wallPaperNoFile \<equiv> 0xe0804116"
abbreviation (input) CRC_wallPaperSettings :: u32 where "CRC_wallPaperSettings \<equiv> 0x372efcd0"
abbreviation (input) CRC_inlineQueryPeerTypeSameBotPM :: u32 where "CRC_inlineQueryPeerTypeSameBotPM \<equiv> 0x3081ed9d"
abbreviation (input) CRC_inlineQueryPeerTypePM :: u32 where "CRC_inlineQueryPeerTypePM \<equiv> 0x833c0fac"
abbreviation (input) CRC_inlineQueryPeerTypeChat :: u32 where "CRC_inlineQueryPeerTypeChat \<equiv> 0xd766c50a"
abbreviation (input) CRC_inlineQueryPeerTypeMegagroup :: u32 where "CRC_inlineQueryPeerTypeMegagroup \<equiv> 0x5bc52d1a"
abbreviation (input) CRC_inlineQueryPeerTypeBroadcast :: u32 where "CRC_inlineQueryPeerTypeBroadcast \<equiv> 0x6d1ded88"
abbreviation (input) CRC_inlineQueryPeerTypeBotPM :: u32 where "CRC_inlineQueryPeerTypeBotPM \<equiv> 0xe3b2a56a"
abbreviation (input) CRC_documentAttributeImageSize :: u32 where "CRC_documentAttributeImageSize \<equiv> 0x6c37c15c"
abbreviation (input) CRC_documentAttributeAnimated :: u32 where "CRC_documentAttributeAnimated \<equiv> 0x11b58939"
abbreviation (input) CRC_documentAttributeHasStickers :: u32 where "CRC_documentAttributeHasStickers \<equiv> 0x9801d2f7"
abbreviation (input) CRC_documentAttributeFilename :: u32 where "CRC_documentAttributeFilename \<equiv> 0x15590068"
abbreviation (input) CRC_documentAttributeVideo :: u32 where "CRC_documentAttributeVideo \<equiv> 0x43c57c48"
abbreviation (input) CRC_documentAttributeAudio :: u32 where "CRC_documentAttributeAudio \<equiv> 0x9852f9c6"
abbreviation (input) CRC_documentAttributeSticker :: u32 where "CRC_documentAttributeSticker \<equiv> 0x6319d612"
abbreviation (input) CRC_documentAttributeCustomEmoji :: u32 where "CRC_documentAttributeCustomEmoji \<equiv> 0xfd149899"
abbreviation (input) CRC_inputStickerSetEmpty :: u32 where "CRC_inputStickerSetEmpty \<equiv> 0xffb62b95"
abbreviation (input) CRC_inputStickerSetID :: u32 where "CRC_inputStickerSetID \<equiv> 0x9de7a269"
abbreviation (input) CRC_inputStickerSetShortName :: u32 where "CRC_inputStickerSetShortName \<equiv> 0x861cc8a0"
abbreviation (input) CRC_inputStickerSetAnimatedEmoji :: u32 where "CRC_inputStickerSetAnimatedEmoji \<equiv> 0x028703c8"
abbreviation (input) CRC_inputStickerSetDice :: u32 where "CRC_inputStickerSetDice \<equiv> 0xe67f520e"
abbreviation (input) CRC_inputStickerSetAnimatedEmojiAnimations :: u32 where "CRC_inputStickerSetAnimatedEmojiAnimations \<equiv> 0x0cde3739"
abbreviation (input) CRC_inputStickerSetPremiumGifts :: u32 where "CRC_inputStickerSetPremiumGifts \<equiv> 0xc88b3b02"
abbreviation (input) CRC_inputStickerSetEmojiGenericAnimations :: u32 where "CRC_inputStickerSetEmojiGenericAnimations \<equiv> 0x04c4d4ce"
abbreviation (input) CRC_inputStickerSetEmojiDefaultStatuses :: u32 where "CRC_inputStickerSetEmojiDefaultStatuses \<equiv> 0x29d0f5ee"
abbreviation (input) CRC_inputStickerSetEmojiDefaultTopicIcons :: u32 where "CRC_inputStickerSetEmojiDefaultTopicIcons \<equiv> 0x44c1f8e9"
abbreviation (input) CRC_inputStickerSetEmojiChannelDefaultStatuses :: u32 where "CRC_inputStickerSetEmojiChannelDefaultStatuses \<equiv> 0x49748553"
abbreviation (input) CRC_maskCoords :: u32 where "CRC_maskCoords \<equiv> 0xaed6dbb2"
abbreviation (input) CRC_videoSize :: u32 where "CRC_videoSize \<equiv> 0xde33b094"
abbreviation (input) CRC_videoSizeEmojiMarkup :: u32 where "CRC_videoSizeEmojiMarkup \<equiv> 0xf85c413c"
abbreviation (input) CRC_videoSizeStickerMarkup :: u32 where "CRC_videoSizeStickerMarkup \<equiv> 0x0da082fe"

end
