(* ===== verification/TL_Skip_Base.thy ===== *)
theory TL_Skip_Base
  imports TL_Takes TL_Ids
begin

text \<open>
  The first group of walkers of \<open>src/src/core/tl_skip.c\<close>: primitives, peers, notification
  settings, message entities, polls, and the input objects of drafts. Every walker is
  followed, in the reader's contract, by the lemma that it keeps the contract.
\<close>

section \<open>Primitives, peers and notification settings\<close>

definition tl_skip_bool :: walker where
  "tl_skip_bool = seqs [need_ok 4, uint32]"

definition tl_skip_string :: walker where
  "tl_skip_string = seqs [reader_ok,
     bind tl_read_string (\<lambda>s. case s of None \<Rightarrow> fail | Some _ \<Rightarrow> skip)]"

definition tl_skip_peer :: walker where
  "tl_skip_peer = ctor 12 (\<lambda>crc. seqs [int64,
     switch crc [([TL_peerUser, TL_peerChat, TL_peerChannel], skip)]])"

definition tl_skip_notification_sound :: walker where
  "tl_skip_notification_sound = ctor 4 (\<lambda>crc. switch crc
     [([CRC_notificationSoundDefault, CRC_notificationSoundNone], skip),
      ([CRC_notificationSoundRingtone], seqs [need 8, int64]),
      ([CRC_notificationSoundLocal], seqs [tl_skip_string, tl_skip_string])])"

definition tl_skip_peer_notify_settings :: walker where
  "tl_skip_peer_notify_settings = ctor 8 (\<lambda>crc.
     if crc \<noteq> CRC_peerNotifySettings \<and> crc \<noteq> CRC_peerNotifySettings2 then fail
     else with_u32 (\<lambda>flags. seqs
       [when_bit flags 0 tl_skip_bool,
        when_bit flags 1 tl_skip_bool,
        when_bit flags 2 need_int32,
        when_bit flags 3 tl_skip_notification_sound,
        when_bit flags 4 tl_skip_notification_sound,
        when_bit flags 5 tl_skip_notification_sound,
        when_bit flags 6 tl_skip_bool,
        when_bit flags 7 tl_skip_bool,
        when_bit flags 8 tl_skip_notification_sound,
        when_bit flags 9 tl_skip_notification_sound,
        when_bit flags 10 tl_skip_notification_sound]))"

section \<open>Message entities and polls\<close>

definition tl_skip_message_entity :: walker where
  "tl_skip_message_entity = ctor 4 (\<lambda>crc. switch crc
     [([CRC_messageEntityUnknown, CRC_messageEntityMention, CRC_messageEntityHashtag,
        CRC_messageEntityBotCommand, CRC_messageEntityUrl, CRC_messageEntityEmail,
        CRC_messageEntityBold, CRC_messageEntityItalic, CRC_messageEntityCode,
        CRC_messageEntityPhone, CRC_messageEntityCashtag, CRC_messageEntityUnderline,
        CRC_messageEntityStrike, CRC_messageEntityBankCard, CRC_messageEntitySpoiler],
        seqs [need 8, int32, int32]),
      ([CRC_messageEntityPre], seqs [need 8, int32, int32, tl_skip_string]),
      ([CRC_messageEntityTextUrl], seqs [need 8, int32, int32, tl_skip_string]),
      ([CRC_messageEntityMentionName], seqs [need 16, int32, int32, int64]),
      ([CRC_messageEntityCustomEmoji], seqs [need 16, int32, int32, int64]),
      ([CRC_messageEntityBlockquote], seqs [need 12, uint32, int32, int32])])"

definition tl_skip_message_entities_vector :: walker where
  "tl_skip_message_entities_vector = vector_ok tl_skip_message_entity"

definition skip_text_with_entities :: walker where
  "skip_text_with_entities = ctor 4 (\<lambda>crc.
     if crc \<noteq> CRC_textWithEntities_poll then fail
     else seqs [tl_skip_string, tl_skip_message_entities_vector])"

definition skip_poll :: walker where
  "skip_poll = ctor 4 (\<lambda>crc. if crc \<noteq> CRC_poll then fail
     else seqs [need 12, with_u32 (\<lambda>flags. seqs
       [int64,
        skip_text_with_entities,
        vector (seqs [need 4, expect CRC_pollAnswer, skip_text_with_entities, tl_skip_string]),
        when_bit flags 4 need_int32,
        when_bit flags 5 need_int32])])"

section \<open>Input objects of drafts\<close>

definition skip_input_peer_body :: "walker \<Rightarrow> walker" where
  "skip_input_peer_body skip_input_peer = ctor 4 (\<lambda>crc. switch crc
     [([CRC_inputPeerEmpty, CRC_inputPeerSelf], skip),
      ([CRC_inputPeerUser, CRC_inputPeerChannel], seqs [need 16, int64, int64]),
      ([CRC_inputPeerChat], seqs [need 8, int64]),
      ([CRC_inputPeerUserFromMessage, CRC_inputPeerChannelFromMessage],
        seqs [skip_input_peer, need 12, int32, int64])])"

definition skip_input_peer :: walker where
  "skip_input_peer = recurse skip_input_peer_body"

definition skip_input_geo_point :: walker where
  "skip_input_geo_point = ctor 4 (\<lambda>crc.
     if crc = CRC_inputGeoPointEmpty then skip
     else if crc \<noteq> CRC_inputGeoPoint then fail
     else need_flags (\<lambda>flags. seqs [need 16, double, double, when_bit flags 0 need_int32]))"

definition skip_input_photo :: walker where
  "skip_input_photo = ctor 4 (\<lambda>crc.
     if crc = CRC_inputPhotoEmpty then seqs [need 8, int64]
     else if crc \<noteq> CRC_inputPhoto then fail
     else seqs [need 16, int64, int64, tl_skip_string])"

definition skip_input_document :: walker where
  "skip_input_document = ctor 4 (\<lambda>crc.
     if crc = CRC_inputDocumentEmpty then seqs [need 8, int64]
     else if crc \<noteq> CRC_inputDocument then fail
     else seqs [need 16, int64, int64, tl_skip_string])"

definition skip_input_user :: walker where
  "skip_input_user = ctor 4 (\<lambda>crc. switch crc
     [([CRC_inputUserEmpty, CRC_inputUserSelf], skip),
      ([CRC_inputUser], seqs [need 16, int64, int64]),
      ([CRC_inputUserFromMessage], seqs [skip_input_peer, need 12, int32, int64])])"

definition skip_input_game :: walker where
  "skip_input_game = ctor 4 (\<lambda>crc.
     if crc = CRC_inputGameID then seqs [need 16, int64, int64]
     else if crc = CRC_inputGameShortName then seqs [skip_input_user, tl_skip_string]
     else fail)"

definition skip_input_media_body :: "walker \<Rightarrow> walker" where
  "skip_input_media_body skip_input_media = ctor 4 (\<lambda>crc. switch crc
     [([CRC_inputMediaEmpty], skip),
      ([CRC_inputMediaPhoto], need_flags (\<lambda>flags. seqs
        [skip_input_photo, when_bit flags 0 need_int32])),
      ([CRC_inputMediaGeoPoint], skip_input_geo_point),
      ([CRC_inputMediaContact], times 4 tl_skip_string),
      ([CRC_inputMediaDocument], need_flags (\<lambda>flags. seqs
        [skip_input_document, when_bit flags 0 need_int32, when_bit flags 1 tl_skip_string])),
      ([CRC_inputMediaVenue], seqs [skip_input_geo_point, times 5 tl_skip_string]),
      ([CRC_inputMediaGeoLive], need_flags (\<lambda>flags. seqs
        [skip_input_geo_point, when_bit flags 2 need_int32, need 4, int32,
         when_bit flags 3 need_int32])),
      ([CRC_inputMediaGame], skip_input_game),
      ([CRC_inputMediaDice], tl_skip_string),
      ([CRC_inputMediaStory], seqs [skip_input_peer, need 4, int32]),
      ([CRC_inputMediaWebPage], need_flags (\<lambda>flags. seqs
        [tl_skip_string, when_bit flags 4 tl_skip_string])),
      ([CRC_inputMediaPoll], need_flags (\<lambda>flags. seqs
        [skip_poll,
         when_bit flags 0 (vector tl_skip_string),
         when_bit flags 1 tl_skip_string,
         when_bit flags 2 tl_skip_message_entities_vector])),
      ([CRC_inputMediaPaidMedia], seqs [need 8, int64, vector skip_input_media]),
      ([CRC_inputMediaPhotoExternal], need_flags (\<lambda>flags. seqs
        [tl_skip_string, when_bit flags 0 need_int32])),
      ([CRC_inputMediaDocumentExternal], need_flags (\<lambda>flags. seqs
        [tl_skip_string, when_bit flags 0 need_int32])),
      ([CRC_inputMediaUploadedPhoto, CRC_inputMediaUploadedDocument, CRC_inputMediaInvoice], fail)])"

definition skip_input_media :: walker where
  "skip_input_media = recurse skip_input_media_body"

definition skip_input_reply_to :: walker where
  "skip_input_reply_to = ctor 4 (\<lambda>crc.
     if crc = CRC_inputReplyToMessage then seqs [need 8, with_u32 (\<lambda>flags. seqs
       [int32,
        when_bit flags 0 need_int32,
        when_bit flags 1 skip_input_peer,
        when_bit flags 2 tl_skip_string,
        when_bit flags 3 tl_skip_message_entities_vector,
        when_bit flags 4 need_int32])]
     else if crc = CRC_inputReplyToStory then seqs [skip_input_peer, need 4, int32]
     else fail)"

definition tl_skip_draft_message :: walker where
  "tl_skip_draft_message = ctor 4 (\<lambda>crc.
     if crc = CRC_draftMessageEmpty then need_flags (\<lambda>flags. when_bit flags 0 need_int32)
     else if crc = CRC_draftMessage then need_flags (\<lambda>flags. seqs
       [when_bit flags 4 skip_input_reply_to,
        tl_skip_string,
        when_bit flags 3 tl_skip_message_entities_vector,
        when_bit flags 5 skip_input_media,
        need 4, int32])
     else fail)"

section \<open>Under the reader's contract\<close>

context reader_contract
begin

lemma keeps_skip_prims [keeps_rules]:
  "keeps (within I k) tl_skip_bool" "keeps (within I k) tl_skip_string"
  unfolding tl_skip_bool_def tl_skip_string_def by (intro keeps_rules)+

lemma keeps_skip_peer [keeps_rules]: "keeps (within I k) tl_skip_peer"
  unfolding tl_skip_peer_def by (intro keeps_rules)

lemma keeps_skip_notification_sound [keeps_rules]: "keeps (within I k) tl_skip_notification_sound"
  unfolding tl_skip_notification_sound_def by (intro keeps_rules)

lemma keeps_skip_notify [keeps_rules]: "keeps (within I k) tl_skip_peer_notify_settings"
  unfolding tl_skip_peer_notify_settings_def by (intro keeps_rules)

lemma keeps_skip_entity [keeps_rules]: "keeps (within I k) tl_skip_message_entity"
  unfolding tl_skip_message_entity_def by (intro keeps_rules)

lemma keeps_skip_entities [keeps_rules]: "keeps (within I k) tl_skip_message_entities_vector"
  unfolding tl_skip_message_entities_vector_def by (intro keeps_rules)

lemma keeps_skip_text_with_entities [keeps_rules]: "keeps (within I k) skip_text_with_entities"
  unfolding skip_text_with_entities_def by (intro keeps_rules)

lemma keeps_skip_poll [keeps_rules]: "keeps (within I k) skip_poll"
  unfolding skip_poll_def by (intro keeps_rules)

lemma guarded_input_peer: "guarded I skip_input_peer_body"
  by (rule guardedI; unfold skip_input_peer_body_def;
      (intro agree_refl agree_congs agree_walk keeps_rules; simp))

lemma keeps_skip_input_peer [keeps_rules]: "keeps (within I k) skip_input_peer"
  unfolding skip_input_peer_def by (rule keeps_recurse[OF guarded_input_peer])

lemma keeps_skip_input_refs [keeps_rules]:
  "keeps (within I k) skip_input_geo_point" "keeps (within I k) skip_input_photo"
  "keeps (within I k) skip_input_document" "keeps (within I k) skip_input_user"
  unfolding skip_input_geo_point_def skip_input_photo_def skip_input_document_def
    skip_input_user_def
  by (intro keeps_rules)+

lemma keeps_skip_input_game [keeps_rules]: "keeps (within I k) skip_input_game"
  unfolding skip_input_game_def by (intro keeps_rules)

lemma guarded_input_media: "guarded I skip_input_media_body"
  by (rule guardedI; unfold skip_input_media_body_def;
      (intro agree_refl agree_congs agree_walk keeps_rules; simp))

lemma keeps_skip_input_media [keeps_rules]: "keeps (within I k) skip_input_media"
  unfolding skip_input_media_def by (rule keeps_recurse[OF guarded_input_media])

lemma keeps_skip_input_reply_to [keeps_rules]: "keeps (within I k) skip_input_reply_to"
  unfolding skip_input_reply_to_def by (intro keeps_rules)

lemma keeps_skip_draft_message [keeps_rules]: "keeps (within I k) tl_skip_draft_message"
  unfolding tl_skip_draft_message_def by (intro keeps_rules)

end

end
