(* ===== verification/TL_Skip_Reply.thy ===== *)
theory TL_Skip_Reply
  imports TL_Skip_Base
begin

text \<open>
  The walkers of \<open>src/src/core/tl_skip.c\<close> for what hangs off a message: reply markup,
  reactions, reply counters, fact checks and forward headers.
\<close>

section \<open>Reply markup\<close>

definition skip_inline_query_peer_type_vector :: walker where
  "skip_inline_query_peer_type_vector = vector_ok (need_flags (\<lambda>crc. switch crc
     [([CRC_inlineQueryPeerTypeSameBotPM, CRC_inlineQueryPeerTypePM, CRC_inlineQueryPeerTypeChat,
        CRC_inlineQueryPeerTypeMegagroup, CRC_inlineQueryPeerTypeBroadcast,
        CRC_inlineQueryPeerTypeBotPM], skip)]))"

definition skip_keyboard_button :: walker where
  "skip_keyboard_button = ctor 4 (\<lambda>crc. switch crc
     [([CRC_keyboardButton, CRC_keyboardButtonRequestPhone, CRC_keyboardButtonRequestGeoLoc,
        CRC_keyboardButtonGame, CRC_keyboardButtonBuy], tl_skip_string),
      ([CRC_keyboardButtonUrl], seqs [tl_skip_string, tl_skip_string]),
      ([CRC_keyboardButtonCallback], seqs [need 4, uint32, tl_skip_string, tl_skip_string]),
      ([CRC_keyboardButtonSwitchInline], need_flags (\<lambda>flags. seqs
        [tl_skip_string, tl_skip_string,
         when_bit flags 1 skip_inline_query_peer_type_vector])),
      ([CRC_keyboardButtonUrlAuth], need_flags (\<lambda>flags. seqs
        [tl_skip_string, when_bit flags 0 tl_skip_string, tl_skip_string, need 4, int32])),
      ([CRC_keyboardButtonRequestPoll], need_flags (\<lambda>flags. seqs
        [when_bit flags 0 (seqs [need 4, uint32]), tl_skip_string])),
      ([CRC_keyboardButtonUserProfile], seqs [tl_skip_string, need 8, int64]),
      ([CRC_keyboardButtonWebView, CRC_keyboardButtonSimpleWebView],
        seqs [tl_skip_string, tl_skip_string])])"

definition skip_keyboard_button_row :: walker where
  "skip_keyboard_button_row = ctor 4 (\<lambda>crc.
     if crc \<noteq> CRC_keyboardButtonRow then fail else vector skip_keyboard_button)"

definition skip_button_row_vector :: walker where
  "skip_button_row_vector = vector_ok skip_keyboard_button_row"

definition tl_skip_reply_markup :: walker where
  "tl_skip_reply_markup = ctor 4 (\<lambda>crc. switch crc
     [([CRC_replyKeyboardHide, CRC_replyKeyboardForceReply], need_flags (\<lambda>flags.
        if crc = CRC_replyKeyboardForceReply \<and> bit flags 3 then tl_skip_string else skip)),
      ([CRC_replyKeyboardMarkup], need_flags (\<lambda>flags. seqs
        [skip_button_row_vector, when_bit flags 3 tl_skip_string])),
      ([CRC_replyInlineMarkup], skip_button_row_vector)])"

section \<open>Reactions\<close>

definition skip_reaction :: walker where
  "skip_reaction = ctor 4 (\<lambda>crc. switch crc
     [([CRC_reactionEmpty, CRC_reactionPaid], skip),
      ([CRC_reactionEmoji], tl_skip_string),
      ([CRC_reactionCustomEmoji], seqs [need 8, int64])])"

definition skip_reaction_count :: walker where
  "skip_reaction_count = ctor 4 (\<lambda>crc. if crc \<noteq> CRC_reactionCount then fail
     else need_flags (\<lambda>flags. seqs
       [when_bit flags 0 need_int32, skip_reaction, need 4, int32]))"

definition skip_message_peer_reaction :: walker where
  "skip_message_peer_reaction = ctor 4 (\<lambda>crc. if crc \<noteq> CRC_messagePeerReaction then fail
     else seqs [need 4, uint32, skip_reaction, need 4, int32, tl_skip_peer])"

definition skip_message_reactor :: walker where
  "skip_message_reactor = ctor 4 (\<lambda>crc. if crc \<noteq> CRC_messageReactor then fail
     else need_flags (\<lambda>flags. seqs
       [when_bit flags 3 tl_skip_peer, need 8, int32, int32]))"

definition tl_skip_message_reactions :: walker where
  "tl_skip_message_reactions = ctor 4 (\<lambda>crc. if crc \<noteq> CRC_messageReactions then fail
     else need_flags (\<lambda>flags. seqs
       [vector skip_reaction_count,
        when_bit flags 1 (vector skip_message_peer_reaction),
        when_bit flags 2 (vector skip_message_reactor)]))"

section \<open>Replies, fact checks and forward headers\<close>

definition tl_skip_message_replies :: walker where
  "tl_skip_message_replies = ctor 4 (\<lambda>crc. if crc \<noteq> CRC_messageReplies then fail
     else seqs [need 12, with_u32 (\<lambda>flags. seqs
       [int32, int32,
        when_bit flags 1 (vector tl_skip_peer),
        when_bit flags 0 need_int64,
        when_bit flags 2 need_int32,
        when_bit flags 3 need_int32])])"

definition tl_skip_factcheck :: walker where
  "tl_skip_factcheck = ctor 4 (\<lambda>crc. if crc \<noteq> CRC_factCheck then fail
     else need_flags (\<lambda>flags. seqs
       [when_bit flags 1 (seqs
          [tl_skip_string, need 4, expect CRC_textWithEntities, tl_skip_string,
           tl_skip_message_entities_vector]),
        need 8, int64]))"

definition tl_skip_message_fwd_header :: walker where
  "tl_skip_message_fwd_header = ctor 8 (\<lambda>crc. if crc \<noteq> CRC_messageFwdHeader then fail
     else with_u32 (\<lambda>flags. seqs
       [when_bit flags 0 tl_skip_peer,
        when_bit flags 5 tl_skip_string,
        need 4, int32,
        when_bit flags 2 need_int32,
        when_bit flags 3 tl_skip_string,
        when_bit flags 4 (seqs [tl_skip_peer, need 4, int32]),
        when_bit flags 8 tl_skip_peer,
        when_bit flags 9 tl_skip_string,
        when_bit flags 10 need_int32,
        when_bit flags 6 tl_skip_string]))"

section \<open>Under the reader's contract\<close>

context reader_contract
begin

lemma keeps_skip_inline_query [keeps_rules]: "keeps (within I k) skip_inline_query_peer_type_vector"
  unfolding skip_inline_query_peer_type_vector_def by (intro keeps_rules)

lemma keeps_skip_button [keeps_rules]: "keeps (within I k) skip_keyboard_button"
  unfolding skip_keyboard_button_def by (intro keeps_rules)

lemma keeps_skip_button_rows [keeps_rules]: "keeps (within I k) skip_button_row_vector"
  unfolding skip_button_row_vector_def skip_keyboard_button_row_def by (intro keeps_rules)

lemma keeps_skip_reply_markup [keeps_rules]: "keeps (within I k) tl_skip_reply_markup"
  unfolding tl_skip_reply_markup_def by (intro keeps_rules)

lemma keeps_skip_reaction [keeps_rules]: "keeps (within I k) skip_reaction"
  unfolding skip_reaction_def by (intro keeps_rules)

lemma keeps_skip_reactions [keeps_rules]: "keeps (within I k) tl_skip_message_reactions"
  unfolding tl_skip_message_reactions_def skip_reaction_count_def skip_message_peer_reaction_def
    skip_message_reactor_def
  by (intro keeps_rules)

lemma keeps_skip_replies [keeps_rules]: "keeps (within I k) tl_skip_message_replies"
  unfolding tl_skip_message_replies_def by (intro keeps_rules)

lemma keeps_skip_factcheck [keeps_rules]: "keeps (within I k) tl_skip_factcheck"
  unfolding tl_skip_factcheck_def by (intro keeps_rules)

lemma keeps_skip_fwd_header [keeps_rules]: "keeps (within I k) tl_skip_message_fwd_header"
  unfolding tl_skip_message_fwd_header_def by (intro keeps_rules)

end

end
