(* ===== verification/TL_Skip_Photo.thy ===== *)
theory TL_Skip_Photo
  imports TL_Skip_Reply
begin

text \<open>
  Photos and documents of \<open>src/src/core/tl_skip.c\<close>, with the metadata they leave in a
  \<open>MediaInfo\<close>. A fixed-size \<open>char\<close> buffer is modelled by the string it holds and
  \<open>file_reference\<close> by its first \<open>file_reference_len\<close> bytes; the invariant \<open>media_ok\<close>
  says that each of them fits its array.
\<close>

section \<open>Media metadata\<close>

datatype media_kind =
    MEDIA_NONE | MEDIA_EMPTY | MEDIA_UNSUPPORTED | MEDIA_PHOTO | MEDIA_DOCUMENT | MEDIA_GEO
  | MEDIA_CONTACT | MEDIA_VENUE | MEDIA_GEO_LIVE | MEDIA_DICE | MEDIA_WEBPAGE | MEDIA_POLL
  | MEDIA_INVOICE | MEDIA_STORY | MEDIA_GIVEAWAY | MEDIA_GAME | MEDIA_PAID | MEDIA_OTHER

record media_info =
  kind :: media_kind
  photo_id :: int
  document_id :: int
  dc_id :: int
  access_hash :: int
  file_reference :: "byte list"
  thumb_type :: "byte list"
  document_size :: int
  document_mime :: "byte list"
  document_filename :: "byte list"

definition media_ok :: "media_info \<Rightarrow> bool" where
  "media_ok m = (length (file_reference m) \<le> 128 \<and> length (thumb_type m) < 8 \<and>
     length (document_mime m) < 64 \<and> length (document_filename m) < 128)"

section \<open>Photo sizes\<close>

definition tl_skip_photo_size :: walker where
  "tl_skip_photo_size = ctor 4 (\<lambda>crc. switch crc
     [([CRC_photoSizeEmpty], tl_skip_string),
      ([CRC_photoSize], seqs [tl_skip_string, need 12, int32, int32, int32]),
      ([CRC_photoCachedSize], seqs [tl_skip_string, need 8, int32, int32, tl_skip_string]),
      ([CRC_photoStrippedSize, CRC_photoPathSize], seqs [tl_skip_string, tl_skip_string]),
      ([CRC_photoSizeProgressive], seqs
        [tl_skip_string, need 8, int32, int32, vector_fixed 4 int32])])"

definition tl_skip_photo_size_vector :: walker where
  "tl_skip_photo_size_vector = vector_ok tl_skip_photo_size"

text \<open>
  One iteration of \<open>walk_photo_size_vector\<close>: the captured type label and the score of
  the entry. A product of two 32-bit dimensions always fits the 64-bit \<open>long\<close>.
\<close>

definition dimensions :: "(int \<Rightarrow> (tl_reader, int) cfun) \<Rightarrow> (tl_reader, int) cfun" where
  "dimensions f = bind tl_read_int32 (\<lambda>w. bind tl_read_int32 (\<lambda>h. f (w * h)))"

definition walk_photo_size :: "(tl_reader, byte list \<times> int) cfun" where
  "walk_photo_size = bind (need_ok 4) (\<lambda>_. bind tl_read_uint32 (\<lambda>crc.
     bind tl_read_string (\<lambda>s. case s of None \<Rightarrow> fail | Some s \<Rightarrow>
     bind (switch crc
       [([CRC_photoSizeEmpty], ret (-1)),
        ([CRC_photoSize], bind (need 12) (\<lambda>_.
           dimensions (\<lambda>score. bind int32 (\<lambda>_. ret score)))),
        ([CRC_photoCachedSize], bind (need 8) (\<lambda>_.
           dimensions (\<lambda>score. bind tl_skip_string (\<lambda>_. ret score)))),
        ([CRC_photoStrippedSize, CRC_photoPathSize], bind tl_skip_string (\<lambda>_. ret 0)),
        ([CRC_photoSizeProgressive], bind (need 8) (\<lambda>_.
           dimensions (\<lambda>score. bind (vector_fixed 4 int32) (\<lambda>_. ret score))))])
       (\<lambda>score. ret (clip 8 (cstr s), score)))))"

primrec walk_photo_sizes :: "nat \<Rightarrow> int \<Rightarrow> media_info out_walker" where
  "walk_photo_sizes 0 best_score = skip"
| "walk_photo_sizes (Suc n) best_score = bind (on_fst walk_photo_size) (\<lambda>(type_buf, score).
     bind has_out (\<lambda>out.
       if score > best_score \<and> out
       then bind (put_out (\<lambda>m. m\<lparr>thumb_type := clip 8 type_buf\<rparr>)) (\<lambda>_. walk_photo_sizes n score)
       else walk_photo_sizes n best_score))"

definition walk_photo_size_vector :: "media_info out_walker" where
  "walk_photo_size_vector = bind (on_fst (need_ok 8)) (\<lambda>_. bind (on_fst (expect TL_vector)) (\<lambda>_.
     bind (on_fst tl_read_uint32) (\<lambda>count.
     bind (put_out (\<lambda>m. m\<lparr>thumb_type := []\<rparr>)) (\<lambda>_. walk_photo_sizes (unat count) (-1)))))"

section \<open>Video sizes and sticker sets\<close>

definition skip_input_sticker_set :: walker where
  "skip_input_sticker_set = ctor 4 (\<lambda>crc. switch crc
     [([CRC_inputStickerSetEmpty, CRC_inputStickerSetAnimatedEmoji,
        CRC_inputStickerSetAnimatedEmojiAnimations, CRC_inputStickerSetPremiumGifts,
        CRC_inputStickerSetEmojiGenericAnimations, CRC_inputStickerSetEmojiDefaultStatuses,
        CRC_inputStickerSetEmojiDefaultTopicIcons,
        CRC_inputStickerSetEmojiChannelDefaultStatuses], skip),
      ([CRC_inputStickerSetID], seqs [need 16, int64, int64]),
      ([CRC_inputStickerSetShortName], tl_skip_string),
      ([CRC_inputStickerSetDice], tl_skip_string)])"

definition skip_mask_coords :: walker where
  "skip_mask_coords = ctor 4 (\<lambda>crc. if crc \<noteq> CRC_maskCoords then fail
     else seqs [need (4 + 3 * 8), int32, double, double, double])"

definition skip_video_size :: walker where
  "skip_video_size = ctor 4 (\<lambda>crc. switch crc
     [([CRC_videoSize], need_flags (\<lambda>flags. seqs
        [tl_skip_string, need 12, int32, int32, int32,
         when_bit flags 0 (seqs [need 8, double])])),
      ([CRC_videoSizeEmojiMarkup], seqs [need 8, int64, vector_fixed 4 int32]),
      ([CRC_videoSizeStickerMarkup], seqs
        [skip_input_sticker_set, need 8, int64, vector_fixed 4 int32])])"

definition skip_video_size_vector :: walker where
  "skip_video_size_vector = vector_ok skip_video_size"

section \<open>Photos\<close>

text \<open>
  The \<open>file_reference\<close> block. \<open>tl_read_bytes\<close> reports length 0 with \<open>NULL\<close>, so the
  check \<open>!fr && fr_len != 0\<close> of the source never fires and the empty reference is stored.
\<close>

definition store_file_reference :: "media_info out_walker" where
  "store_file_reference = bind (on_fst tl_read_bytes) (\<lambda>fr.
     put_out (\<lambda>m. m\<lparr>file_reference := take 128 (case fr of None \<Rightarrow> [] | Some d \<Rightarrow> d)\<rparr>))"

definition photo_full :: "media_info out_walker" where
  "photo_full = ctor_out 4 (\<lambda>crc.
     if crc = CRC_photoEmpty then seqs [on_fst (need 8),
       bind (on_fst tl_read_int64) (\<lambda>i. put_out (\<lambda>m. m\<lparr>photo_id := i\<rparr>))]
     else if crc \<noteq> CRC_photo then fail
     else seqs [on_fst (need 4), bind (on_fst tl_read_uint32) (\<lambda>flags. seqs
       [on_fst (need 16),
        bind (on_fst tl_read_int64) (\<lambda>i. bind (on_fst tl_read_int64) (\<lambda>access.
          put_out (\<lambda>m. m\<lparr>photo_id := i, access_hash := access\<rparr>))),
        store_file_reference,
        on_fst (need 4), on_fst int32,
        walk_photo_size_vector,
        when_bit flags 1 (on_fst skip_video_size_vector),
        on_fst (need 4),
        bind (on_fst tl_read_int32) (\<lambda>dc. put_out (\<lambda>m. m\<lparr>dc_id := dc\<rparr>))])])"

definition tl_skip_photo :: walker where
  "tl_skip_photo = no_out photo_full"

section \<open>Documents\<close>

definition skip_document_attribute :: "media_info out_walker" where
  "skip_document_attribute = ctor_out 4 (\<lambda>crc. switch crc
     [([CRC_documentAttributeImageSize], on_fst (seqs [need 8, int32, int32])),
      ([CRC_documentAttributeAnimated, CRC_documentAttributeHasStickers], skip),
      ([CRC_documentAttributeFilename], bind (on_fst read_string_rewind) (\<lambda>s.
        put_out (\<lambda>m. m\<lparr>document_filename := clip 128 (cstr s)\<rparr>))),
      ([CRC_documentAttributeVideo], on_fst (need_flags (\<lambda>flags. seqs
        [need (8 + 4 + 4), double, int32, int32,
         when_bit flags 2 need_int32,
         when_bit flags 4 (seqs [need 8, double]),
         when_bit flags 5 tl_skip_string]))),
      ([CRC_documentAttributeAudio], on_fst (seqs [need 8, with_u32 (\<lambda>flags. seqs
        [int32,
         when_bit flags 0 tl_skip_string,
         when_bit flags 1 tl_skip_string,
         when_bit flags 2 tl_skip_string])])),
      ([CRC_documentAttributeSticker], on_fst (need_flags (\<lambda>flags. seqs
        [tl_skip_string, skip_input_sticker_set, when_bit flags 0 skip_mask_coords]))),
      ([CRC_documentAttributeCustomEmoji], on_fst (seqs
        [need 4, uint32, tl_skip_string, skip_input_sticker_set]))])"

definition document_inner :: "media_info out_walker" where
  "document_inner = ctor_out 4 (\<lambda>crc.
     if crc = CRC_documentEmpty then seqs [on_fst (need 8),
       bind (on_fst tl_read_int64) (\<lambda>i. put_out (\<lambda>m. m\<lparr>document_id := i\<rparr>))]
     else if crc \<noteq> CRC_document then fail
     else seqs [on_fst (need 4), bind (on_fst tl_read_uint32) (\<lambda>flags. seqs
       [on_fst (need 16),
        bind (on_fst tl_read_int64) (\<lambda>i. bind (on_fst tl_read_int64) (\<lambda>access.
          put_out (\<lambda>m. m\<lparr>document_id := i, access_hash := access\<rparr>))),
        store_file_reference,
        on_fst (need 4), on_fst int32,
        bind (on_fst read_string_rewind) (\<lambda>mime.
          put_out (\<lambda>m. m\<lparr>document_mime := clip 64 (cstr mime)\<rparr>)),
        on_fst (need 8),
        bind (on_fst tl_read_int64) (\<lambda>n. put_out (\<lambda>m. m\<lparr>document_size := n\<rparr>)),
        when_bit flags 0 (on_fst tl_skip_photo_size_vector),
        when_bit flags 1 (on_fst skip_video_size_vector),
        on_fst (need 4),
        bind (on_fst tl_read_int32) (\<lambda>dc. put_out (\<lambda>m. m\<lparr>dc_id := dc\<rparr>)),
        on_fst (need 8), on_fst (expect TL_vector),
        bind (on_fst tl_read_uint32) (\<lambda>n_attrs. times (unat n_attrs) skip_document_attribute)])])"

definition tl_skip_document :: walker where
  "tl_skip_document = no_out document_inner"

section \<open>Under the reader's contract\<close>

context reader_contract
begin

lemma keeps_skip_photo_size [keeps_rules]: "keeps (within I k) tl_skip_photo_size"
  unfolding tl_skip_photo_size_def by (intro keeps_rules)

lemma keeps_skip_photo_size_vector [keeps_rules]: "keeps (within I k) tl_skip_photo_size_vector"
  unfolding tl_skip_photo_size_vector_def by (intro keeps_rules)

lemma keeps_walk_photo_size [keeps_rules]: "keeps (within I k) walk_photo_size"
  unfolding walk_photo_size_def dimensions_def by (intro keeps_rules)

lemma keeps_walk_photo_sizes [keeps_rules]:
  "keeps (with_out (within I k) media_ok) (walk_photo_sizes n best)"
proof (induction n arbitrary: best)
  case (Suc n)
  show ?case unfolding walk_photo_sizes.simps
    by (intro keeps_rules Suc.IH) (simp add: media_ok_def)
qed (simp add: keeps_ret)

lemma keeps_walk_photo_size_vector [keeps_rules]:
  "keeps (with_out (within I k) media_ok) walk_photo_size_vector"
  unfolding walk_photo_size_vector_def by (intro keeps_rules) (simp add: media_ok_def)

lemma keeps_skip_sticker_set [keeps_rules]:
  "keeps (within I k) skip_input_sticker_set" "keeps (within I k) skip_mask_coords"
  unfolding skip_input_sticker_set_def skip_mask_coords_def by (intro keeps_rules)+

lemma keeps_skip_video_size_vector [keeps_rules]: "keeps (within I k) skip_video_size_vector"
  unfolding skip_video_size_vector_def skip_video_size_def by (intro keeps_rules)

lemma keeps_store_file_reference [keeps_rules]:
  "keeps (with_out (within I k) media_ok) store_file_reference"
  unfolding store_file_reference_def by (intro keeps_rules) (simp add: media_ok_def)

lemma keeps_photo_full [keeps_rules]: "keeps (with_out (within I k) media_ok) photo_full"
  unfolding photo_full_def by (intro keeps_rules) (simp_all add: media_ok_def)

lemma keeps_skip_photo [keeps_rules]: "keeps (within I k) tl_skip_photo"
  unfolding tl_skip_photo_def by (rule keeps_no_out[OF keeps_photo_full])

lemma keeps_skip_document_attribute [keeps_rules]:
  "keeps (with_out (within I k) media_ok) skip_document_attribute"
  unfolding skip_document_attribute_def by (intro keeps_rules) (simp add: media_ok_def)

lemma keeps_document_inner [keeps_rules]: "keeps (with_out (within I k) media_ok) document_inner"
  unfolding document_inner_def by (intro keeps_rules) (simp_all add: media_ok_def)

lemma keeps_skip_document [keeps_rules]: "keeps (within I k) tl_skip_document"
  unfolding tl_skip_document_def by (rule keeps_no_out[OF keeps_document_inner])

end

end
