(* ===== verification/TL_Skip_Chat.thy ===== *)
theory TL_Skip_Chat
  imports TL_Skip_Photo
begin

text \<open>
  Chats and users of \<open>src/src/core/tl_skip.c\<close>, as walkers and as extractors that fill a
  \<open>ChatSummary\<close> or \<open>UserSummary\<close>.
\<close>

section \<open>Strings into fixed buffers\<close>

text \<open>
  \<open>read_string_into\<close> always leaves a string in the buffer; the first component is its
  return code. Every caller passes a buffer of positive size.
\<close>

definition read_string_into :: "nat \<Rightarrow> (tl_reader, int \<times> byte list) cfun" where
  "read_string_into out_cap = bind tl_read_string (\<lambda>s.
     case s of None \<Rightarrow> ret (-1, []) | Some s \<Rightarrow> ret (0, clip out_cap (cstr s)))"

definition str_append :: "byte list \<Rightarrow> nat \<Rightarrow> byte list \<Rightarrow> byte list" where
  "str_append dst dst_cap src =
     (if dst_cap = 0 then dst
      else if length dst \<ge> dst_cap - 1 then dst
      else dst @ take (dst_cap - 1 - length dst) src)"

lemma length_str_append: "length dst < cap \<Longrightarrow> length (str_append dst cap src) < cap"
  by (auto simp: str_append_def)

section \<open>Parts of chats and users\<close>

definition tl_skip_chat_photo :: walker where
  "tl_skip_chat_photo = ctor 4 (\<lambda>crc.
     if crc = CRC_chatPhotoEmpty then skip
     else if crc \<noteq> CRC_chatPhoto then fail
     else need_flags (\<lambda>flags. seqs
       [need 8, int64, when_bit flags 1 tl_skip_string, need 4, int32]))"

definition tl_skip_user_profile_photo :: walker where
  "tl_skip_user_profile_photo = ctor 4 (\<lambda>crc.
     if crc = CRC_userProfilePhotoEmpty then skip
     else if crc \<noteq> CRC_userProfilePhoto then fail
     else need_flags (\<lambda>flags. seqs
       [need 8, int64, when_bit flags 1 tl_skip_string, need 4, int32]))"

definition tl_skip_user_status :: walker where
  "tl_skip_user_status = ctor 4 (\<lambda>crc. switch crc
     [([CRC_userStatusEmpty], skip),
      ([CRC_userStatusOnline, CRC_userStatusOffline, CRC_userStatusRecently,
        CRC_userStatusLastWeek, CRC_userStatusLastMonth], seqs [need 4, int32])])"

definition tl_skip_restriction_reason_vector :: walker where
  "tl_skip_restriction_reason_vector = vector_ok (seqs
     [need 4, expect CRC_restrictionReason, tl_skip_string, tl_skip_string, tl_skip_string])"

definition tl_skip_username_vector :: walker where
  "tl_skip_username_vector = vector_ok (seqs
     [need 8, expect CRC_username, uint32, tl_skip_string])"

definition tl_skip_peer_color :: walker where
  "tl_skip_peer_color = ctor 8 (\<lambda>crc. if crc \<noteq> CRC_peerColor then fail
     else with_u32 (\<lambda>flags. seqs [when_bit flags 0 need_int32, when_bit flags 1 need_int64]))"

definition tl_skip_emoji_status :: walker where
  "tl_skip_emoji_status = ctor 4 (\<lambda>crc. switch crc
     [([CRC_emojiStatusEmpty], skip),
      ([CRC_emojiStatus], seqs [need 8, int64]),
      ([CRC_emojiStatusUntil], seqs [need 12, int64, int32])])"

definition skip_chat_admin_rights :: walker where
  "skip_chat_admin_rights = ctor 8 (\<lambda>crc. if crc \<noteq> CRC_chatAdminRights then fail else uint32)"

definition skip_chat_banned_rights :: walker where
  "skip_chat_banned_rights = ctor 12 (\<lambda>crc. if crc \<noteq> CRC_chatBannedRights then fail
     else seqs [uint32, int32])"

section \<open>Chats\<close>

record chat_summary =
  cs_id :: int
  cs_access_hash :: int
  cs_have_access_hash :: int
  cs_title :: "byte list"

definition chat_ok :: "chat_summary \<Rightarrow> bool" where
  "chat_ok c = (length (cs_title c) < 128)"

text \<open>\<open>if (out) read_string_into(title) else tl_skip_string\<close>\<close>

definition chat_title :: "chat_summary out_walker" where
  "chat_title = bind has_out (\<lambda>out.
     if out then bind (on_fst (read_string_into 128)) (\<lambda>(rc, s).
       bind (put_out (\<lambda>c. c\<lparr>cs_title := s\<rparr>)) (\<lambda>_. if rc \<noteq> 0 then fail else skip))
     else on_fst tl_skip_string)"

definition chat_id :: "chat_summary out_walker" where
  "chat_id = bind (on_fst tl_read_int64) (\<lambda>i. put_out (\<lambda>c. c\<lparr>cs_id := i\<rparr>))"

definition chat_access_hash :: "chat_summary out_walker" where
  "chat_access_hash = bind (on_fst tl_read_int64) (\<lambda>h.
     put_out (\<lambda>c. c\<lparr>cs_access_hash := h, cs_have_access_hash := 1\<rparr>))"

text \<open>The optional \<open>migrated_to\<close> of a basic group.\<close>

definition skip_input_channel :: walker where
  "skip_input_channel = need_flags (\<lambda>ic_crc.
     if ic_crc = CRC_inputChannelEmpty then skip
     else if ic_crc = CRC_inputChannel \<or> ic_crc = CRC_inputChannelFromMessage
       then seqs [need 16, int64, int64]
     else fail)"

definition extract_chat_basic :: "chat_summary out_walker" where
  "extract_chat_basic = seqs [on_fst (need 4), bind (on_fst tl_read_uint32) (\<lambda>flags. seqs
     [when_bit flags 6 (on_fst skip_input_channel),
      on_fst (need 8), chat_id,
      chat_title,
      on_fst tl_skip_chat_photo,
      on_fst (need 12), on_fst int32, on_fst int32, on_fst int32,
      when_bit flags 14 (on_fst skip_chat_admin_rights),
      when_bit flags 18 (on_fst skip_chat_banned_rights)])]"

definition extract_channel_forbidden :: "chat_summary out_walker" where
  "extract_channel_forbidden = seqs [on_fst (need 4), bind (on_fst tl_read_uint32) (\<lambda>flags. seqs
     [on_fst (need 16), chat_id, chat_access_hash,
      chat_title,
      when_bit flags 16 (on_fst need_int32)])]"

definition extract_channel :: "chat_summary out_walker" where
  "extract_channel = seqs [on_fst (need 8), bind (on_fst tl_read_uint32) (\<lambda>flags.
     bind (on_fst tl_read_uint32) (\<lambda>flags2. seqs
     [on_fst (need 8), chat_id,
      when_bit flags 13 (seqs [on_fst (need 8), chat_access_hash]),
      chat_title,
      when_bit flags 6 (on_fst tl_skip_string),
      on_fst tl_skip_chat_photo,
      on_fst (need 4), on_fst int32,
      when_bit flags 9 (on_fst tl_skip_restriction_reason_vector),
      when_bit flags 14 (on_fst skip_chat_admin_rights),
      when_bit flags 15 (on_fst skip_chat_banned_rights),
      when_bit flags 18 (on_fst skip_chat_banned_rights),
      when_bit flags 17 (on_fst need_int32),
      when_bit flags2 0 (on_fst tl_skip_username_vector),
      when_bit flags2 4 (on_fst need_int32),
      when_bit flags2 7 (on_fst tl_skip_peer_color),
      when_bit flags2 8 (on_fst tl_skip_peer_color),
      when_bit flags2 9 (on_fst tl_skip_emoji_status),
      when_bit flags2 10 (on_fst need_int32),
      when_bit flags2 11 (on_fst need_int32)]))]"

definition extract_chat_inner :: "chat_summary out_walker" where
  "extract_chat_inner = seqs
     [put_out (\<lambda>c. c\<lparr>cs_id := 0, cs_access_hash := 0, cs_have_access_hash := 0, cs_title := []\<rparr>),
      ctor_out 4 (\<lambda>crc.
        if crc = TL_chatEmpty then seqs [on_fst (need 8), chat_id]
        else if crc = TL_chatForbidden then seqs [on_fst (need 8), chat_id, chat_title]
        else if crc = TL_chat then extract_chat_basic
        else if crc = TL_channelForbidden then extract_channel_forbidden
        else if crc = TL_channel then extract_channel
        else fail)]"

definition tl_skip_chat :: walker where
  "tl_skip_chat = no_out extract_chat_inner"

definition tl_extract_chat :: "chat_summary out_walker" where
  "tl_extract_chat = extract_chat_inner"

section \<open>Users\<close>

record user_summary =
  us_id :: int
  us_access_hash :: int
  us_have_access_hash :: int
  us_name :: "byte list"
  us_username :: "byte list"

definition user_ok :: "user_summary \<Rightarrow> bool" where
  "user_ok u = (length (us_name u) < 128 \<and> length (us_username u) < 64)"

definition user_first_name :: "user_summary out_walker" where
  "user_first_name = bind has_out (\<lambda>out.
     if out then bind (on_fst (read_string_into 96)) (\<lambda>(rc, first).
       if rc \<noteq> 0 then fail
       else put_out (\<lambda>u. u\<lparr>us_name := str_append (us_name u) 128 first\<rparr>))
     else on_fst tl_skip_string)"

definition append_last_name :: "byte list \<Rightarrow> byte list \<Rightarrow> byte list" where
  "append_last_name ln nm =
     (if ln = [] then nm
      else let nm = (if nm \<noteq> [] then str_append nm 128 [32] else nm)
           in str_append nm 128 ln)"

definition user_last_name :: "user_summary out_walker" where
  "user_last_name = bind has_out (\<lambda>out.
     if out then bind (on_fst (read_string_into 96)) (\<lambda>(rc, ln).
       if rc \<noteq> 0 then fail
       else put_out (\<lambda>u. u\<lparr>us_name := append_last_name ln (us_name u)\<rparr>))
     else on_fst tl_skip_string)"

definition user_username :: "user_summary out_walker" where
  "user_username = bind has_out (\<lambda>out.
     if out then bind (on_fst (read_string_into 64)) (\<lambda>(rc, s).
       bind (put_out (\<lambda>u. u\<lparr>us_username := s\<rparr>)) (\<lambda>_. if rc \<noteq> 0 then fail else skip))
     else on_fst tl_skip_string)"

definition user_id :: "user_summary out_walker" where
  "user_id = bind (on_fst tl_read_int64) (\<lambda>i. put_out (\<lambda>u. u\<lparr>us_id := i\<rparr>))"

definition user_access_hash :: "user_summary out_walker" where
  "user_access_hash = bind (on_fst tl_read_int64) (\<lambda>h.
     put_out (\<lambda>u. u\<lparr>us_access_hash := h, us_have_access_hash := 1\<rparr>))"

definition extract_user_full :: "user_summary out_walker" where
  "extract_user_full = seqs [on_fst (need 8), bind (on_fst tl_read_uint32) (\<lambda>flags.
     bind (on_fst tl_read_uint32) (\<lambda>flags2. seqs
     [on_fst (need 8), user_id,
      when_bit flags 0 (seqs [on_fst (need 8), user_access_hash]),
      when_bit flags 1 user_first_name,
      when_bit flags 2 user_last_name,
      when_bit flags 3 user_username,
      when_bit flags 4 (on_fst tl_skip_string),
      when_bit flags 5 (on_fst tl_skip_user_profile_photo),
      when_bit flags 6 (on_fst tl_skip_user_status),
      when_bit flags 14 (on_fst need_int32),
      when_bit flags 18 (on_fst tl_skip_restriction_reason_vector),
      when_bit flags 19 (on_fst tl_skip_string),
      when_bit flags 22 (on_fst tl_skip_string),
      when_bit flags 30 (on_fst tl_skip_emoji_status),
      when_bit flags2 0 (on_fst tl_skip_username_vector),
      when_bit flags2 5 (on_fst need_int32),
      when_bit flags2 8 (on_fst tl_skip_peer_color),
      when_bit flags2 9 (on_fst tl_skip_peer_color),
      when_bit flags2 12 (on_fst need_int32)]))]"

definition extract_user_inner :: "user_summary out_walker" where
  "extract_user_inner = seqs
     [put_out (\<lambda>u. u\<lparr>us_id := 0, us_access_hash := 0, us_have_access_hash := 0,
        us_name := [], us_username := []\<rparr>),
      ctor_out 4 (\<lambda>crc.
        if crc = TL_userEmpty then seqs [on_fst (need 8), user_id]
        else if crc \<noteq> TL_user \<and> crc \<noteq> TL_user2 then fail
        else extract_user_full)]"

definition tl_skip_user :: walker where
  "tl_skip_user = no_out extract_user_inner"

definition tl_extract_user :: "user_summary out_walker" where
  "tl_extract_user = extract_user_inner"

section \<open>Under the reader's contract\<close>

lemma length_append_last_name:
  "length nm < 128 \<Longrightarrow> length (append_last_name ln nm) < 128"
  by (simp add: append_last_name_def length_str_append Let_def)

context reader_contract
begin

lemma keeps_skip_chat_parts [keeps_rules]:
  "keeps (within I k) tl_skip_chat_photo" "keeps (within I k) tl_skip_user_profile_photo"
  "keeps (within I k) tl_skip_user_status" "keeps (within I k) tl_skip_peer_color"
  "keeps (within I k) tl_skip_emoji_status" "keeps (within I k) skip_chat_admin_rights"
  "keeps (within I k) skip_chat_banned_rights" "keeps (within I k) skip_input_channel"
  unfolding tl_skip_chat_photo_def tl_skip_user_profile_photo_def tl_skip_user_status_def
    tl_skip_peer_color_def tl_skip_emoji_status_def skip_chat_admin_rights_def
    skip_chat_banned_rights_def skip_input_channel_def
  by (intro keeps_rules)+

lemma keeps_skip_chat_vectors [keeps_rules]:
  "keeps (within I k) tl_skip_restriction_reason_vector"
  "keeps (within I k) tl_skip_username_vector"
  unfolding tl_skip_restriction_reason_vector_def tl_skip_username_vector_def
  by (intro keeps_rules)+

text \<open>A string read into a buffer of size \<open>cap\<close> fits it.\<close>

lemma keeps_read_into:
  assumes "0 < cap" "\<And>rc s. length s < cap \<Longrightarrow> keeps (with_out (within I k) J) (f rc s)"
  shows "keeps (with_out (within I k) J) (bind (on_fst (read_string_into cap)) (\<lambda>(rc, s). f rc s))"
proof -
  have "keeps (with_out (within I k) J)
      (bind (on_fst (case v of None \<Rightarrow> ret (-1, []) | Some s \<Rightarrow> ret (0, clip cap (cstr s))))
        (\<lambda>(rc, s). f rc s))" for v :: "byte list option"
    using assms by (cases v) (auto simp: on_fst_ret min_less_iff_disj intro!: assms(2))
  then show ?thesis
    unfolding read_string_into_def on_fst_bind bind_assoc
    by (rule keeps_bind[rotated]) (intro keeps_rules)
qed

lemma keeps_chat_fields [keeps_rules]:
  "keeps (with_out (within I k) chat_ok) chat_title"
  "keeps (with_out (within I k) chat_ok) chat_id"
  "keeps (with_out (within I k) chat_ok) chat_access_hash"
  unfolding chat_title_def chat_id_def chat_access_hash_def
  by (intro keeps_read_into keeps_rules; simp add: chat_ok_def)+

lemma keeps_extract_chat_variants [keeps_rules]:
  "keeps (with_out (within I k) chat_ok) extract_chat_basic"
  "keeps (with_out (within I k) chat_ok) extract_channel_forbidden"
  "keeps (with_out (within I k) chat_ok) extract_channel"
  unfolding extract_chat_basic_def extract_channel_forbidden_def extract_channel_def
  by (intro keeps_rules)+

lemma keeps_extract_chat [keeps_rules]: "keeps (with_out (within I k) chat_ok) extract_chat_inner"
  unfolding extract_chat_inner_def by (intro keeps_rules) (simp add: chat_ok_def)

lemma keeps_skip_chat [keeps_rules]: "keeps (within I k) tl_skip_chat"
  unfolding tl_skip_chat_def by (rule keeps_no_out[OF keeps_extract_chat])

lemma keeps_user_fields [keeps_rules]:
  "keeps (with_out (within I k) user_ok) user_first_name"
  "keeps (with_out (within I k) user_ok) user_last_name"
  "keeps (with_out (within I k) user_ok) user_username"
  "keeps (with_out (within I k) user_ok) user_id"
  "keeps (with_out (within I k) user_ok) user_access_hash"
  unfolding user_first_name_def user_last_name_def user_username_def user_id_def
    user_access_hash_def
  by (intro keeps_read_into keeps_rules;
      simp add: user_ok_def length_str_append length_append_last_name)+

lemma keeps_extract_user_full [keeps_rules]:
  "keeps (with_out (within I k) user_ok) extract_user_full"
  unfolding extract_user_full_def by (intro keeps_rules)

lemma keeps_extract_user [keeps_rules]: "keeps (with_out (within I k) user_ok) extract_user_inner"
  unfolding extract_user_inner_def by (intro keeps_rules) (simp add: user_ok_def)

lemma keeps_skip_user [keeps_rules]: "keeps (within I k) tl_skip_user"
  unfolding tl_skip_user_def by (rule keeps_no_out[OF keeps_extract_user])

end

end
