(* ===== verification/TL_Skip_Page.thy ===== *)
theory TL_Skip_Page
  imports TL_Skip_Chat
begin

text \<open>
  Instant-view pages of \<open>src/src/core/tl_skip.c\<close>: the recursive rich-text and page-block
  trees, pages, wallpapers and themes. The functions that reach back into a recursive
  function take it as a parameter and are tied together by \<open>recurse\<close>.
\<close>

section \<open>Geo points and rich text\<close>

definition skip_geo_point :: walker where
  "skip_geo_point = ctor 4 (\<lambda>crc.
     if crc = CRC_geoPointEmpty then skip
     else if crc \<noteq> CRC_geoPoint then fail
     else seqs [need 28, with_u32 (\<lambda>flags. seqs
       [double, double, int64, when_bit flags 0 need_int32])])"

definition skip_rich_text_body :: "walker \<Rightarrow> walker" where
  "skip_rich_text_body skip_rich_text = ctor 4 (\<lambda>crc. switch crc
     [([CRC_textEmpty], skip),
      ([CRC_textPlain], tl_skip_string),
      ([CRC_textBold, CRC_textItalic, CRC_textUnderline, CRC_textStrike, CRC_textFixed,
        CRC_textSubscript, CRC_textSuperscript, CRC_textMarked], skip_rich_text),
      ([CRC_textUrl], seqs [skip_rich_text, tl_skip_string, need 8, int64]),
      ([CRC_textEmail, CRC_textPhone], seqs [skip_rich_text, tl_skip_string]),
      ([CRC_textConcat], vector skip_rich_text),
      ([CRC_textImage], seqs [need 16, int64, int32, int32]),
      ([CRC_textAnchor], seqs [skip_rich_text, tl_skip_string])])"

definition skip_rich_text :: walker where
  "skip_rich_text = recurse skip_rich_text_body"

section \<open>Page blocks\<close>

definition skip_page_caption :: walker where
  "skip_page_caption = ctor 4 (\<lambda>crc. if crc \<noteq> CRC_pageCaption then fail
     else seqs [skip_rich_text, skip_rich_text])"

definition skip_page_block_vector_of :: "walker \<Rightarrow> walker" where
  "skip_page_block_vector_of skip_page_block = vector_ok skip_page_block"

definition skip_page_list_item_of :: "walker \<Rightarrow> walker" where
  "skip_page_list_item_of skip_page_block = ctor 4 (\<lambda>crc. switch crc
     [([CRC_pageListItemText], skip_rich_text),
      ([CRC_pageListItemBlocks], skip_page_block_vector_of skip_page_block)])"

definition skip_page_list_ordered_item_of :: "walker \<Rightarrow> walker" where
  "skip_page_list_ordered_item_of skip_page_block = ctor 4 (\<lambda>crc. switch crc
     [([CRC_pageListOrderedItemText], seqs [tl_skip_string, skip_rich_text]),
      ([CRC_pageListOrderedItemBlocks],
        seqs [tl_skip_string, skip_page_block_vector_of skip_page_block])])"

definition skip_page_table_cell :: walker where
  "skip_page_table_cell = ctor 4 (\<lambda>crc. if crc \<noteq> CRC_pageTableCell then fail
     else need_flags (\<lambda>flags. seqs
       [when_bit flags 7 skip_rich_text,
        when_bit flags 1 need_int32,
        when_bit flags 2 need_int32]))"

definition skip_page_table_row :: walker where
  "skip_page_table_row = ctor 4 (\<lambda>crc. if crc \<noteq> CRC_pageTableRow then fail
     else vector skip_page_table_cell)"

definition skip_page_related_article :: walker where
  "skip_page_related_article = ctor 4 (\<lambda>crc. if crc \<noteq> CRC_pageRelatedArticle then fail
     else need_flags (\<lambda>flags. seqs
       [tl_skip_string, need 8, int64,
        when_bit flags 0 tl_skip_string,
        when_bit flags 1 tl_skip_string,
        when_bit flags 2 need_int64,
        when_bit flags 3 tl_skip_string,
        when_bit flags 4 need_int32]))"

definition skip_page_block_body :: "walker \<Rightarrow> walker" where
  "skip_page_block_body skip_page_block = ctor 4 (\<lambda>crc. switch crc
     [([CRC_pageBlockUnsupported, CRC_pageBlockDivider], skip),
      ([CRC_pageBlockTitle, CRC_pageBlockSubtitle, CRC_pageBlockHeader, CRC_pageBlockSubheader,
        CRC_pageBlockKicker, CRC_pageBlockParagraph, CRC_pageBlockFooter], skip_rich_text),
      ([CRC_pageBlockAnchor], tl_skip_string),
      ([CRC_pageBlockPreformatted], seqs [skip_rich_text, tl_skip_string]),
      ([CRC_pageBlockAuthorDate], seqs [skip_rich_text, need 4, int32]),
      ([CRC_pageBlockBlockquote, CRC_pageBlockPullquote], seqs [skip_rich_text, skip_rich_text]),
      ([CRC_pageBlockPhoto], need_flags (\<lambda>flags. seqs
        [need 8, int64, skip_page_caption,
         when_bit flags 0 (seqs [tl_skip_string, need 8, int64])])),
      ([CRC_pageBlockVideo], seqs [need 12, uint32, int64, skip_page_caption]),
      ([CRC_pageBlockAudio], seqs [need 8, int64, skip_page_caption]),
      ([CRC_pageBlockCover], skip_page_block),
      ([CRC_pageBlockChannel], tl_skip_chat),
      ([CRC_pageBlockMap], seqs
        [skip_geo_point, need 12, int32, int32, int32, skip_page_caption]),
      ([CRC_pageBlockList], vector (skip_page_list_item_of skip_page_block)),
      ([CRC_pageBlockOrderedList], vector (skip_page_list_ordered_item_of skip_page_block)),
      ([CRC_pageBlockCollage, CRC_pageBlockSlideshow], seqs
        [skip_page_block_vector_of skip_page_block, skip_page_caption]),
      ([CRC_pageBlockDetails], seqs
        [need 4, uint32, skip_page_block_vector_of skip_page_block, skip_rich_text]),
      ([CRC_pageBlockRelatedArticles], seqs
        [skip_rich_text, vector skip_page_related_article]),
      ([CRC_pageBlockTable], seqs
        [need 4, uint32, skip_rich_text, vector skip_page_table_row]),
      ([CRC_pageBlockEmbed], need_flags (\<lambda>flags. seqs
        [when_bit flags 1 tl_skip_string,
         when_bit flags 2 tl_skip_string,
         when_bit flags 4 need_int64,
         when_bit flags 5 (seqs [need 8, int32, int32]),
         skip_page_caption])),
      ([CRC_pageBlockEmbedPost], seqs
        [tl_skip_string, need 16, int64, int64, tl_skip_string, need 4, int32,
         skip_page_block_vector_of skip_page_block, skip_page_caption])])"

definition skip_page_block :: walker where
  "skip_page_block = recurse skip_page_block_body"

definition skip_page :: walker where
  "skip_page = ctor 4 (\<lambda>crc. if crc \<noteq> CRC_page then fail
     else need_flags (\<lambda>flags. seqs
       [tl_skip_string,
        vector skip_page_block,
        vector tl_skip_photo,
        vector tl_skip_document,
        when_bit flags 3 need_int32]))"

section \<open>Wallpapers and themes\<close>

definition skip_wallpaper_settings :: walker where
  "skip_wallpaper_settings = ctor 4 (\<lambda>crc. if crc \<noteq> CRC_wallPaperSettings then fail
     else need_flags (\<lambda>flags. seqs
       [when_bit flags 0 need_int32,
        when_bit flags 4 need_int32,
        when_bit flags 5 need_int32,
        when_bit flags 6 need_int32,
        when_bit flags 3 need_int32,
        when_bit flags 7 need_int32,
        when_bit flags 8 tl_skip_string]))"

definition skip_wallpaper :: walker where
  "skip_wallpaper = ctor 4 (\<lambda>crc.
     if crc = CRC_wallPaper then seqs
       [need 16, int64, int64, tl_skip_string, tl_skip_string, skip_wallpaper_settings,
        need_flags (\<lambda>doc_flags. when_bit doc_flags 2 tl_skip_document)]
     else if crc = CRC_wallPaperNoFile then seqs
       [need 12, int64, with_u32 (\<lambda>flags. when_bit flags 2 skip_wallpaper_settings)]
     else fail)"

definition skip_theme_settings :: walker where
  "skip_theme_settings = ctor 4 (\<lambda>crc. if crc \<noteq> CRC_themeSettings then fail
     else need_flags (\<lambda>flags. need_flags (\<lambda>bt.
       if bt \<noteq> CRC_baseThemeClassic \<and> bt \<noteq> CRC_baseThemeDay \<and> bt \<noteq> CRC_baseThemeDark \<and>
          bt \<noteq> CRC_baseThemeTinted \<and> bt \<noteq> CRC_baseThemeArctic then fail
       else seqs
         [need 4, int32,
          when_bit flags 0 need_int64,
          when_bit flags 3 need_int32,
          when_bit flags 1 (vector_fixed 4 int32),
          when_bit flags 2 skip_wallpaper])))"

section \<open>Under the reader's contract\<close>

context reader_contract
begin

lemma keeps_skip_geo_point [keeps_rules]: "keeps (within I k) skip_geo_point"
  unfolding skip_geo_point_def by (intro keeps_rules)

lemma guarded_rich_text: "guarded I skip_rich_text_body"
  by (rule guardedI; unfold skip_rich_text_body_def;
      (intro agree_refl agree_congs agree_walk keeps_rules; simp))

lemma keeps_skip_rich_text [keeps_rules]: "keeps (within I k) skip_rich_text"
  unfolding skip_rich_text_def by (rule keeps_recurse[OF guarded_rich_text])

lemma keeps_skip_page_leaves [keeps_rules]:
  "keeps (within I k) skip_page_caption" "keeps (within I k) skip_page_table_row"
  "keeps (within I k) skip_page_related_article"
  unfolding skip_page_caption_def skip_page_table_row_def skip_page_table_cell_def
    skip_page_related_article_def
  by (intro keeps_rules)+

lemma guarded_page_block: "guarded I skip_page_block_body"
  by (rule guardedI; unfold skip_page_block_body_def skip_page_list_item_of_def
        skip_page_list_ordered_item_of_def skip_page_block_vector_of_def;
      (intro agree_refl agree_congs agree_walk keeps_rules; simp))

lemma keeps_skip_page_block [keeps_rules]: "keeps (within I k) skip_page_block"
  unfolding skip_page_block_def by (rule keeps_recurse[OF guarded_page_block])

lemma keeps_skip_page [keeps_rules]: "keeps (within I k) skip_page"
  unfolding skip_page_def by (intro keeps_rules)

lemma keeps_skip_wallpaper [keeps_rules]: "keeps (within I k) skip_wallpaper"
  unfolding skip_wallpaper_def skip_wallpaper_settings_def by (intro keeps_rules)

lemma keeps_skip_theme_settings [keeps_rules]: "keeps (within I k) skip_theme_settings"
  unfolding skip_theme_settings_def by (intro keeps_rules)

end

end
