(* ===== verification/TL_Skip_Media.thy ===== *)
theory TL_Skip_Media
  imports TL_Skip_Page
begin

text \<open>
  Message media of \<open>src/src/core/tl_skip.c\<close>. A media object can contain a story, a web
  page or extended media that contain media again; the code bounds this with the static
  counter \<open>recursion_depth\<close>. The functions below the dispatcher take the media walker
  they call as a parameter; \<open>media_at d\<close> is the dispatcher entered with
  \<open>recursion_depth = d\<close>.
\<close>

section \<open>Poll results, games and web documents\<close>

definition skip_poll_answer_voters :: walker where
  "skip_poll_answer_voters = ctor 4 (\<lambda>crc. if crc \<noteq> CRC_pollAnswerVoters then fail
     else seqs [need 4, uint32, tl_skip_string, need 4, int32])"

definition skip_poll_results :: walker where
  "skip_poll_results = ctor 4 (\<lambda>crc. if crc \<noteq> CRC_pollResults then fail
     else need_flags (\<lambda>flags. seqs
       [when_bit flags 1 (vector skip_poll_answer_voters),
        when_bit flags 2 need_int32,
        when_bit flags 3 (vector tl_skip_peer),
        when_bit flags 4 (seqs [tl_skip_string, tl_skip_message_entities_vector])]))"

definition skip_game :: walker where
  "skip_game = ctor 4 (\<lambda>crc. if crc \<noteq> CRC_game then fail
     else seqs [need (4 + 8 + 8), with_u32 (\<lambda>flags. seqs
       [int64, int64, tl_skip_string, tl_skip_string, tl_skip_string, tl_skip_photo,
        when_bit flags 0 tl_skip_document])])"

definition skip_web_document_rest :: "bool \<Rightarrow> walker" where
  "skip_web_document_rest has_access_hash = seqs
     [tl_skip_string,
      (if has_access_hash then need_int64 else skip),
      need 4, int32, tl_skip_string,
      vector (no_out skip_document_attribute)]"

definition skip_web_document :: walker where
  "skip_web_document = ctor 4 (\<lambda>crc. switch crc
     [([CRC_webDocument], skip_web_document_rest True),
      ([CRC_webDocumentNoProxy], skip_web_document_rest False)])"

section \<open>Stories\<close>

definition skip_story_fwd_header :: walker where
  "skip_story_fwd_header = ctor 4 (\<lambda>crc. if crc \<noteq> CRC_storyFwdHeader then fail
     else need_flags (\<lambda>flags. seqs
       [when_bit flags 0 tl_skip_peer,
        when_bit flags 1 tl_skip_string,
        when_bit flags 2 need_int32]))"

definition skip_media_area_coordinates :: walker where
  "skip_media_area_coordinates = ctor 4 (\<lambda>crc. if crc \<noteq> CRC_mediaAreaCoordinates then fail
     else seqs [need (4 + 5 * 8), with_u32 (\<lambda>flags. seqs
       [times 5 double, when_bit flags 0 (seqs [need 8, double])])])"

definition skip_geo_point_address :: walker where
  "skip_geo_point_address = ctor 4 (\<lambda>crc. if crc \<noteq> CRC_geoPointAddress then fail
     else need_flags (\<lambda>flags. seqs
       [tl_skip_string,
        when_bit flags 0 tl_skip_string,
        when_bit flags 1 tl_skip_string,
        when_bit flags 2 tl_skip_string]))"

definition skip_media_area :: walker where
  "skip_media_area = ctor 4 (\<lambda>crc. switch crc
     [([CRC_mediaAreaVenue], seqs
        [skip_media_area_coordinates, skip_geo_point, tl_skip_string, tl_skip_string,
         tl_skip_string, tl_skip_string, tl_skip_string]),
      ([CRC_mediaAreaGeoPoint], need_flags (\<lambda>flags. seqs
        [skip_media_area_coordinates, skip_geo_point,
         when_bit flags 0 skip_geo_point_address])),
      ([CRC_mediaAreaSuggestedReaction], seqs
        [need 4, uint32, skip_media_area_coordinates, skip_reaction]),
      ([CRC_mediaAreaChannelPost], seqs [skip_media_area_coordinates, need 12, int64, int32]),
      ([CRC_mediaAreaUrl], seqs [skip_media_area_coordinates, tl_skip_string]),
      ([CRC_mediaAreaWeather], seqs
        [skip_media_area_coordinates, tl_skip_string, need (8 + 4), double, int32]),
      ([CRC_mediaAreaStarGift], seqs [skip_media_area_coordinates, tl_skip_string])])"

definition skip_privacy_rule :: walker where
  "skip_privacy_rule = ctor 4 (\<lambda>crc. switch crc
     [([CRC_privacyValueAllowContacts, CRC_privacyValueAllowAll, CRC_privacyValueDisallowContacts,
        CRC_privacyValueDisallowAll, CRC_privacyValueAllowCloseFriends,
        CRC_privacyValueAllowPremium, CRC_privacyValueAllowBots, CRC_privacyValueDisallowBots],
        skip),
      ([CRC_privacyValueAllowUsers, CRC_privacyValueDisallowUsers,
        CRC_privacyValueAllowChatParticipants, CRC_privacyValueDisallowChatParticipants],
        vector_fixed 8 int64)])"

definition skip_story_views :: walker where
  "skip_story_views = ctor 4 (\<lambda>crc. if crc \<noteq> CRC_storyViews then fail
     else need_flags (\<lambda>flags. seqs
       [need 4, int32,
        when_bit flags 2 need_int32,
        when_bit flags 3 (vector skip_reaction_count),
        when_bit flags 4 need_int32,
        when_bit flags 0 (vector_fixed 8 int64)]))"

text \<open>\<open>media\<close> stands for \<open>tl_skip_message_media_ex(r, NULL)\<close> from here on.\<close>

definition skip_story_item_of :: "walker \<Rightarrow> walker" where
  "skip_story_item_of media = ctor 4 (\<lambda>crc. switch crc
     [([CRC_storyItemDeleted], seqs [need 4, int32]),
      ([CRC_storyItemSkipped], seqs [need 4, uint32, need 12, int32, int32, int32]),
      ([CRC_storyItem], need_flags (\<lambda>flags. seqs
        [need 8, int32, int32,
         when_bit flags 18 tl_skip_peer,
         when_bit flags 17 skip_story_fwd_header,
         need 4, int32,
         when_bit flags 0 tl_skip_string,
         when_bit flags 1 tl_skip_message_entities_vector,
         media,
         when_bit flags 14 (vector skip_media_area),
         when_bit flags 2 (vector skip_privacy_rule),
         when_bit flags 3 skip_story_views,
         when_bit flags 15 skip_reaction]))])"

section \<open>Web pages and extended media\<close>

definition skip_webpage_attribute_of :: "walker \<Rightarrow> walker" where
  "skip_webpage_attribute_of media = need_flags (\<lambda>crc. switch crc
     [([CRC_webPageAttributeTheme], need_flags (\<lambda>flags. seqs
        [when_bit flags 0 (vector tl_skip_document),
         when_bit flags 1 skip_theme_settings])),
      ([CRC_webPageAttributeStory], need_flags (\<lambda>flags. seqs
        [tl_skip_peer, need 4, int32, when_bit flags 0 (skip_story_item_of media)])),
      ([CRC_webPageAttributeStickerSet], seqs [need 4, uint32, vector tl_skip_document])])"

definition skip_webpage_attributes_vector_of :: "walker \<Rightarrow> walker" where
  "skip_webpage_attributes_vector_of media = vector_ok (skip_webpage_attribute_of media)"

definition skip_webpage_of :: "walker \<Rightarrow> walker" where
  "skip_webpage_of media = ctor 4 (\<lambda>crc. switch crc
     [([CRC_webPageEmpty], seqs [need 12, with_u32 (\<lambda>flags. seqs
        [int64, when_bit flags 0 tl_skip_string])]),
      ([CRC_webPagePending], seqs [need 12, with_u32 (\<lambda>flags. seqs
        [int64, when_bit flags 0 tl_skip_string, need 4, int32])]),
      ([CRC_webPageNotModified], need_flags (\<lambda>flags. when_bit flags 0 need_int32)),
      ([CRC_webPage], seqs [need 16, with_u32 (\<lambda>flags. seqs
        [int64, tl_skip_string, tl_skip_string, need 4, int32,
         when_bit flags 0 tl_skip_string,
         when_bit flags 1 tl_skip_string,
         when_bit flags 2 tl_skip_string,
         when_bit flags 3 tl_skip_string,
         when_bit flags 4 (no_out photo_full),
         when_bit flags 5 (seqs [tl_skip_string, tl_skip_string]),
         when_bit flags 6 (seqs [need 8, int32, int32]),
         when_bit flags 7 need_int32,
         when_bit flags 8 tl_skip_string,
         when_bit flags 9 tl_skip_document,
         when_bit flags 10 skip_page,
         when_bit flags 12 (skip_webpage_attributes_vector_of media)])])])"

definition skip_message_extended_media_of :: "walker \<Rightarrow> walker" where
  "skip_message_extended_media_of media = ctor 4 (\<lambda>crc. switch crc
     [([CRC_messageExtendedMediaPreview], need_flags (\<lambda>flags. seqs
        [when_bit flags 0 (seqs [need 8, int32, int32]),
         when_bit flags 1 tl_skip_photo_size,
         when_bit flags 2 need_int32])),
      ([CRC_messageExtendedMedia], media)])"

section \<open>The media dispatcher\<close>

definition media_zero :: media_info where
  "media_zero = \<lparr>kind = MEDIA_NONE, photo_id = 0, document_id = 0, dc_id = 0, access_hash = 0,
     file_reference = [], thumb_type = [], document_size = 0, document_mime = [],
     document_filename = []\<rparr>"

definition set_kind :: "media_kind \<Rightarrow> media_info out_walker" where
  "set_kind kd = put_out (\<lambda>m. m\<lparr>kind := kd\<rparr>)"

text \<open>The variants that leave only their kind in the output.\<close>

definition skip_media_invoice :: "walker \<Rightarrow> walker" where
  "skip_media_invoice media = need_flags (\<lambda>flags. seqs
     [tl_skip_string, tl_skip_string,
      when_bit flags 0 skip_web_document,
      when_bit flags 2 need_int32,
      tl_skip_string, need 8, int64, tl_skip_string,
      when_bit flags 4 (skip_message_extended_media_of media)])"

definition skip_media_giveaway :: walker where
  "skip_media_giveaway = need_flags (\<lambda>flags. seqs
     [vector_fixed 8 int64,
      when_bit flags 1 (vector tl_skip_string),
      when_bit flags 3 tl_skip_string,
      need 4, int32,
      when_bit flags 4 need_int32,
      when_bit flags 5 need_int64,
      need 4, int32])"

definition skip_message_media_switch :: "walker \<Rightarrow> u32 \<Rightarrow> media_info out_walker" where
  "skip_message_media_switch media crc = switch crc
     [([CRC_messageMediaEmpty], set_kind MEDIA_EMPTY),
      ([CRC_messageMediaUnsupported], set_kind MEDIA_UNSUPPORTED),
      ([CRC_messageMediaGeo], seqs [set_kind MEDIA_GEO, on_fst skip_geo_point]),
      ([CRC_messageMediaContact], seqs [set_kind MEDIA_CONTACT, on_fst (seqs
        [tl_skip_string, tl_skip_string, tl_skip_string, tl_skip_string, need 8, int64])]),
      ([CRC_messageMediaVenue], seqs [set_kind MEDIA_VENUE, on_fst (seqs
        [skip_geo_point, tl_skip_string, tl_skip_string, tl_skip_string, tl_skip_string,
         tl_skip_string])]),
      ([CRC_messageMediaGeoLive], seqs [set_kind MEDIA_GEO_LIVE, on_fst (need_flags (\<lambda>flags. seqs
        [skip_geo_point, when_bit flags 0 need_int32, need 4, int32,
         when_bit flags 1 need_int32]))]),
      ([CRC_messageMediaDice], seqs [set_kind MEDIA_DICE, on_fst (seqs
        [need 4, int32, tl_skip_string])]),
      ([CRC_messageMediaPhoto], seqs [set_kind MEDIA_PHOTO, on_fst (need 4),
        bind (on_fst tl_read_uint32) (\<lambda>flags. seqs
          [when_bit flags 0 photo_full,
           when_bit flags 2 (on_fst need_int32)])]),
      ([CRC_messageMediaWebPage], seqs [set_kind MEDIA_WEBPAGE, on_fst (seqs
        [need 4, uint32, skip_webpage_of media])]),
      ([CRC_messageMediaPoll], seqs [set_kind MEDIA_POLL, on_fst (seqs
        [skip_poll, skip_poll_results])]),
      ([CRC_messageMediaInvoice], seqs [set_kind MEDIA_INVOICE, on_fst (skip_media_invoice media)]),
      ([CRC_messageMediaStory], seqs [set_kind MEDIA_STORY, on_fst (need_flags (\<lambda>flags. seqs
        [tl_skip_peer, need 4, int32, when_bit flags 0 (skip_story_item_of media)]))]),
      ([CRC_messageMediaGiveaway], seqs [set_kind MEDIA_GIVEAWAY, on_fst skip_media_giveaway]),
      ([CRC_messageMediaGame], seqs [set_kind MEDIA_GAME, on_fst skip_game]),
      ([CRC_messageMediaPaidMedia], seqs [set_kind MEDIA_PAID, on_fst (seqs
        [need 8, int64, vector (skip_message_extended_media_of media)])]),
      ([CRC_messageMediaDocument], seqs [set_kind MEDIA_DOCUMENT, on_fst (need 4),
        bind (on_fst tl_read_uint32) (\<lambda>flags. seqs
          [when_bit flags 0 document_inner,
           when_bit flags 2 (on_fst need_int32),
           when_bit flags 10 (on_fst (vector tl_skip_document))])]),
      ([crc], seqs [set_kind MEDIA_OTHER, fail])]"

definition skip_message_media_body :: "walker \<Rightarrow> media_info out_walker" where
  "skip_message_media_body media = seqs
     [put_out (\<lambda>_. media_zero), ctor_out 4 (skip_message_media_switch media)]"

abbreviation (input) MEDIA_RECURSION_MAX :: nat where "MEDIA_RECURSION_MAX \<equiv> 4"

function media_at :: "nat \<Rightarrow> media_info out_walker" where
  "media_at recursion_depth =
     (if recursion_depth \<ge> MEDIA_RECURSION_MAX then fail
      else skip_message_media_body (no_out (media_at (recursion_depth + 1))))"
  by pat_completeness auto
termination
  by (relation "measure (\<lambda>d. MEDIA_RECURSION_MAX - d)") auto

declare media_at.simps [simp del]

text \<open>
  The counter is 0 outside of any call, because every call restores it before it
  returns.
\<close>

definition tl_skip_message_media_ex :: "media_info out_walker" where
  "tl_skip_message_media_ex = media_at 0"

definition tl_skip_message_media :: walker where
  "tl_skip_message_media = no_out tl_skip_message_media_ex"

section \<open>Under the reader's contract\<close>

lemma media_ok_zero: "media_ok media_zero"
  by (simp add: media_ok_def media_zero_def)

context reader_contract
begin

lemma keeps_skip_poll_results [keeps_rules]: "keeps (within I k) skip_poll_results"
  unfolding skip_poll_results_def skip_poll_answer_voters_def by (intro keeps_rules)

lemma keeps_skip_game [keeps_rules]: "keeps (within I k) skip_game"
  unfolding skip_game_def by (intro keeps_rules)

lemma keeps_skip_web_document [keeps_rules]: "keeps (within I k) skip_web_document"
  unfolding skip_web_document_def skip_web_document_rest_def
  by (intro keeps_rules keeps_no_out[OF keeps_skip_document_attribute])

lemma keeps_skip_story_parts [keeps_rules]:
  "keeps (within I k) skip_story_fwd_header" "keeps (within I k) skip_media_area_coordinates"
  "keeps (within I k) skip_geo_point_address" "keeps (within I k) skip_privacy_rule"
  unfolding skip_story_fwd_header_def skip_media_area_coordinates_def skip_geo_point_address_def
    skip_privacy_rule_def
  by (intro keeps_rules)+

lemma keeps_skip_media_area [keeps_rules]: "keeps (within I k) skip_media_area"
  unfolding skip_media_area_def by (intro keeps_rules)

lemma keeps_skip_story_views [keeps_rules]: "keeps (within I k) skip_story_views"
  unfolding skip_story_views_def skip_reaction_count_def by (intro keeps_rules)

lemma keeps_skip_media_giveaway [keeps_rules]: "keeps (within I k) skip_media_giveaway"
  unfolding skip_media_giveaway_def by (intro keeps_rules)

lemma keeps_set_kind [keeps_rules]: "keeps (with_out J media_ok) (set_kind kd)"
  unfolding set_kind_def by (intro keeps_rules) (simp add: media_ok_def)

text \<open>Walkers over a media walker keep the contract when the media walker does.\<close>

lemma keeps_media_clients [keeps_rules]:
  assumes "\<And>j. keeps (within I j) media"
  shows "keeps (within I k) (skip_story_item_of media)"
    and "keeps (within I k) (skip_message_extended_media_of media)"
  unfolding skip_story_item_of_def skip_message_extended_media_of_def
  by (intro keeps_rules assms)+

lemma keeps_skip_webpage [keeps_rules]:
  assumes "\<And>j. keeps (within I j) media"
  shows "keeps (within I k) (skip_webpage_of media)"
  unfolding skip_webpage_of_def skip_webpage_attributes_vector_of_def skip_webpage_attribute_of_def
  by (intro keeps_rules keeps_no_out[OF keeps_photo_full] assms)

lemma keeps_skip_media_invoice [keeps_rules]:
  assumes "\<And>j. keeps (within I j) media"
  shows "keeps (within I k) (skip_media_invoice media)"
  unfolding skip_media_invoice_def by (intro keeps_rules assms)

lemma keeps_message_media_body:
  assumes "\<And>j. keeps (within I j) media"
  shows "keeps (with_out (within I k) media_ok) (skip_message_media_body media)"
  unfolding skip_message_media_body_def skip_message_media_switch_def
  by (intro keeps_rules assms) (simp add: media_ok_zero)

lemma keeps_media_at: "keeps (with_out (within I k) media_ok) (media_at d)"
proof (induction d arbitrary: k rule: media_at.induct)
  case (1 d)
  show ?case
    using 1 by (subst media_at.simps)
      (auto intro!: keeps_fail keeps_message_media_body keeps_no_out simp: not_le)
qed

lemma keeps_skip_message_media_ex [keeps_rules]:
  "keeps (with_out (within I k) media_ok) tl_skip_message_media_ex"
  unfolding tl_skip_message_media_ex_def by (rule keeps_media_at)

lemma keeps_skip_message_media [keeps_rules]: "keeps (within I k) tl_skip_message_media"
  unfolding tl_skip_message_media_def by (rule keeps_no_out[OF keeps_skip_message_media_ex])

end

end
