(* ===== verification/TL_Skip_Message.thy ===== *)
theory TL_Skip_Message
  imports TL_Skip_Media
begin

text \<open>
  Reply headers, service actions and whole messages of \<open>src/src/core/tl_skip.c\<close>.
\<close>

definition tl_skip_message_reply_header :: walker where
  "tl_skip_message_reply_header = ctor 4 (\<lambda>crc.
     if crc = CRC_messageReplyStoryHeader then seqs [tl_skip_peer, need 4, int32]
     else if crc \<noteq> CRC_messageReplyHeader then fail
     else need_flags (\<lambda>flags. seqs
       [when_bit flags 4 need_int32,
        when_bit flags 0 tl_skip_peer,
        when_bit flags 5 tl_skip_message_fwd_header,
        when_bit flags 8 tl_skip_message_media,
        when_bit flags 1 need_int32,
        when_bit flags 6 tl_skip_string,
        when_bit flags 7 tl_skip_message_entities_vector,
        when_bit flags 10 need_int32]))"

text \<open>A vector of at most 4096 longs.\<close>

definition skip_user_ids :: walker where
  "skip_user_ids = seqs [need 8, expect TL_vector, with_u32 (\<lambda>n.
     if n > 4096 then fail else seqs [need (unat n * 8), times (unat n) int64])]"

definition skip_message_action :: walker where
  "skip_message_action = need_flags (\<lambda>acrc. switch acrc
     [([0xb6aef7b0, 0x95e3fbef, 0x94bd38ed, 0x9fbab604, 0x4792929b, 0x9244c2ad, 0xb4c38cb5], skip),
      ([0xb5a1ce5a, 0x95d2ac92, 0xfae69f56], tl_skip_string),
      ([0xa43f30cc, 0xe1037f92, 0x031224c3], seqs [need 8, int64]),
      ([0xbd47cbad], seqs [tl_skip_string, skip_user_ids]),
      ([0x15cefd00], skip_user_ids),
      ([0xea3948e9], seqs [tl_skip_string, need 8, int64]),
      ([0x7fcb13a8], tl_skip_photo),
      ([0x80e11a7f], seqs [need (4 + 8), with_u32 (\<lambda>pflags. seqs
        [int64,
         when_bit pflags 0 (seqs [need 4, uint32]),
         when_bit pflags 1 need_int32])]),
      ([0x7a0d7f42], need_flags (\<lambda>gflags. seqs
        [need (4 + 16), uint32, int64, int64, when_bit gflags 0 need_int32])),
      ([0xb3a07661], seqs [need (4 + 16 + 4), uint32, int64, int64, int32]),
      ([0x502f92f7], seqs [need (4 + 16), uint32, int64, int64, skip_user_ids])])"

definition skip_message_full :: walker where
  "skip_message_full = seqs [need 12, with_u32 (\<lambda>flags. with_u32 (\<lambda>flags2. seqs
     [int32,
      when_bit flags 8 tl_skip_peer,
      tl_skip_peer,
      when_bit flags 28 tl_skip_peer,
      when_bit flags 2 tl_skip_message_fwd_header,
      when_bit flags 11 need_int64,
      when_bit flags2 0 need_int64,
      when_bit flags 3 tl_skip_message_reply_header,
      need 4, int32,
      tl_skip_string,
      when_bit flags 9 tl_skip_message_media,
      when_bit flags 6 tl_skip_reply_markup,
      when_bit flags 7 tl_skip_message_entities_vector,
      when_bit flags 10 (seqs [need 8, int32, int32]),
      when_bit flags 23 tl_skip_message_replies,
      when_bit flags 15 need_int32,
      when_bit flags 16 tl_skip_string,
      when_bit flags 17 need_int64,
      when_bit flags 20 tl_skip_message_reactions,
      when_bit flags 22 tl_skip_restriction_reason_vector,
      when_bit flags 25 need_int32,
      when_bit flags2 30 need_int32,
      when_bit flags2 2 need_int64,
      when_bit flags2 3 tl_skip_factcheck]))]"

definition tl_skip_message :: walker where
  "tl_skip_message = ctor 4 (\<lambda>crc.
     if crc = TL_messageEmpty then seqs [need 8, with_u32 (\<lambda>flags. seqs
       [int32, when_bit flags 0 tl_skip_peer])]
     else if crc = TL_messageService then seqs [need 8, with_u32 (\<lambda>flags. seqs
       [int32,
        when_bit flags 8 tl_skip_peer,
        tl_skip_peer,
        when_bit flags 3 tl_skip_message_reply_header,
        need 4, int32,
        skip_message_action,
        when_bit flags 20 tl_skip_message_reactions,
        when_bit flags 25 need_int32])]
     else if crc \<noteq> TL_message then fail
     else skip_message_full)"

context reader_contract
begin

lemma keeps_skip_reply_header [keeps_rules]: "keeps (within I k) tl_skip_message_reply_header"
  unfolding tl_skip_message_reply_header_def by (intro keeps_rules)

lemma keeps_skip_message_action [keeps_rules]: "keeps (within I k) skip_message_action"
  unfolding skip_message_action_def skip_user_ids_def by (intro keeps_rules)

lemma keeps_skip_message [keeps_rules]: "keeps (within I k) tl_skip_message"
  unfolding tl_skip_message_def skip_message_full_def by (intro keeps_rules)

end

end
