(* ===== verification/TL_Skip_Laws.thy ===== *)
theory TL_Skip_Laws
  imports TL_Skip_Message
begin

text \<open>
  What the walkers of \<open>src/src/core/tl_skip.c\<close> promise: they stay inside the buffer and
  terminate on every input, keep the cursor aligned on aligned input, satisfy the C
  recursion equations, and their extracting variants fill only buffers that are large
  enough and take the same path as the skipping ones.
\<close>

section \<open>Safety on arbitrary input\<close>

text \<open>The walkers that \<open>tl_skip.h\<close> exports.\<close>

definition tl_skip_api :: "walker list" where
  "tl_skip_api =
     [tl_skip_bool, tl_skip_string, tl_skip_peer, tl_skip_notification_sound,
      tl_skip_peer_notify_settings, tl_skip_draft_message, tl_skip_message_entity,
      tl_skip_message_entities_vector, tl_skip_message_fwd_header, tl_skip_reply_markup,
      tl_skip_message_reactions, tl_skip_message_replies, tl_skip_factcheck,
      tl_skip_message_reply_header, tl_skip_photo_size, tl_skip_photo_size_vector,
      tl_skip_photo, tl_skip_document, tl_skip_message_media, tl_skip_chat_photo,
      tl_skip_user_profile_photo, tl_skip_user_status, tl_skip_restriction_reason_vector,
      tl_skip_username_vector, tl_skip_peer_color, tl_skip_emoji_status, tl_skip_chat,
      tl_skip_user, tl_skip_message]"

context reader_contract
begin

lemma keeps_api: "list_all (keeps (within I k)) tl_skip_api"
  unfolding tl_skip_api_def list.pred_inject 
  by (intro conjI keeps_rules list.pred_inject(1))

lemma api_run:
  assumes "list_all (keeps (within I (remaining r))) ws" "w \<in> set ws" "I r" "w r = (res, r')"
  shows "(res = Ok () \<or> res = Fail) \<and> I r' \<and> remaining r' \<le> remaining r"
proof -
  have "keeps (within I (remaining r)) w" using assms(1,2) by (simp add: list_all_iff)
  from keepsD[OF this _ assms(4)] assms(3) have "no_fault res" "within I (remaining r) r'"
    by (simp_all add: within_def)
  then show ?thesis by (cases res) (simp_all add: within_def)
qed

end

text \<open>
  C1. On every buffer, from every position a reader can be in, every exported walker
  returns 0 or -1 without reading outside the buffer and without running out of the
  recursion bound, leaves the buffer unchanged, and never moves the cursor more than
  the three padding bytes past the end.
\<close>

theorem tl_skip_memory_safe:
  assumes "w \<in> set tl_skip_api" "rd_wf r" "w r = (res, r')"
  shows "(res = Ok () \<or> res = Fail) \<and> rd_data r' = rd_data r \<and> rd_len r' = rd_len r \<and>
    rd_pos r' \<le> rd_len r' + 3"
proof -
  have "mem_inv (rd_data r) r" using assms(2) by (simp add: mem_inv_def)
  with mem.api_run[OF mem.keeps_api assms(1) _ assms(3)] assms(2) show ?thesis
    by (auto simp: mem_inv_def rd_wf_def)
qed

theorem tl_skip_memory_safe_witness:
  "let r = tl_reader_init [1, 2, 3] 3
   in tl_skip_user \<in> set tl_skip_api \<and> rd_wf r \<and> fst (tl_skip_user r) = Fail \<and>
     rd_pos (snd (tl_skip_user r)) \<le> 6"
proof -
  let ?r = "tl_reader_init [1, 2, 3] 3"
  have run: "fst (tl_skip_user ?r) = Fail"
    by (simp add: tl_skip_user_def no_out_def extract_user_inner_def ctor_out_def put_out_def
        on_fst_def need_ok_def bind_def tl_reader_init_def tl_reader_ok_def avail_def
        size_sub_small)
  have r: "rd_wf ?r" and w: "tl_skip_user \<in> set tl_skip_api"
    by (simp_all add: rd_wf_def tl_reader_init_def tl_skip_api_def)
  obtain res r' where eq: "tl_skip_user ?r = (res, r')" by fastforce
  from tl_skip_memory_safe[OF w r eq] r w run eq show ?thesis
    by (simp add: tl_reader_init_def Let_def)
qed

text \<open>
  C15. On input whose length and start are multiples of four, as every frame and
  container body is, the cursor stays a multiple of four and never passes the end. So
  \<open>r->len - r->pos\<close> never wraps in any guard of the walkers.
\<close>

theorem tl_skip_stays_aligned:
  assumes "w \<in> set tl_skip_api" "rd_aligned r" "w r = (res, r')"
  shows "rd_pos r' \<le> rd_len r' \<and> rd_pos r' mod 4 = 0 \<and> avail r' = rd_len r' - rd_pos r' \<and>
    avail r' \<le> avail r"
proof -
  have inv: "align_inv (rd_data r) r" using assms(2) by (simp add: align_inv_def)
  from al.api_run[OF al.keeps_api assms(1) inv assms(3)]
  have r': "rd_aligned r'" "remaining r' \<le> remaining r" by (simp_all add: align_inv_def)
  have "avail q = remaining q" if "rd_aligned q" for q
    using that by (auto simp: rd_aligned_def avail_def remaining_def size_sub_small)
  with r' assms(2) show ?thesis by (auto simp: rd_aligned_def remaining_def)
qed

theorem tl_skip_stays_aligned_witness:
  "let r = tl_reader_init [0xb5, 0x75, 0x72, 0x99] 4; r' = snd (tl_skip_bool r)
   in tl_skip_bool \<in> set tl_skip_api \<and> rd_aligned r \<and> rd_pos r' \<le> rd_len r' \<and> rd_pos r' mod 4 = 0"
proof -
  let ?r = "tl_reader_init [0xb5, 0x75, 0x72, 0x99] 4"
  have r: "rd_aligned ?r" and w: "tl_skip_bool \<in> set tl_skip_api"
    by (simp_all add: rd_aligned_def tl_reader_init_def tl_skip_api_def)
  obtain res r' where eq: "tl_skip_bool ?r = (res, r')" by fastforce
  from tl_skip_stays_aligned[OF w r eq] r w eq show ?thesis by (simp add: Let_def)
qed

section \<open>Recursion and nesting\<close>

text \<open>
  The recursive walkers satisfy the recursion equations of their C bodies on every
  reader: the bound in \<open>recurse\<close> is never met, so the C functions terminate with the
  modelled result, at a depth of at most the number of bytes left.
\<close>

lemma recursive_walkers_unfold:
  assumes "rd_wf r"
  shows "skip_input_peer r = skip_input_peer_body skip_input_peer r \<and>
    skip_input_media r = skip_input_media_body skip_input_media r \<and>
    skip_rich_text r = skip_rich_text_body skip_rich_text r \<and>
    skip_page_block r = skip_page_block_body skip_page_block r"
proof -
  have r: "mem_inv (rd_data r) r" using assms by (simp add: mem_inv_def)
  show ?thesis
    unfolding skip_input_peer_def skip_input_media_def skip_rich_text_def skip_page_block_def
    by (intro conjI recurse_unfold[OF mem.guarded_input_peer r] recurse_unfold[OF mem.guarded_rich_text r]
        recurse_unfold[OF mem.guarded_input_media r] recurse_unfold[OF mem.guarded_page_block r])
qed

section \<open>Output buffers\<close>

text \<open>
  C17. Whatever a server sends as message media, the dispatcher leaves every string of the
  \<open>MediaInfo\<close> within its array, on success and on failure, and reads nothing outside
  the input buffer.
\<close>

theorem media_fits_buffers:
  assumes "rd_wf r" "media_ok m" "tl_skip_message_media_ex (r, Some m) = (res, (r', Some m'))"
  shows "no_fault res \<and> length (file_reference m') \<le> 128 \<and> length (thumb_type m') < 8 \<and>
    length (document_mime m') < 64 \<and> length (document_filename m') < 128"
proof -
  have "with_out (within (mem_inv (rd_data r)) (remaining r)) media_ok (r, Some m)"
    using assms(1,2) by (simp add: mem_inv_def within_def with_out_def)
  from keepsD[OF mem.keeps_skip_message_media_ex this assms(3)] show ?thesis
    by (simp add: with_out_def media_ok_def)
qed

text \<open>
  Whatever a server sends as a chat or a user, the extracted title, name and user
  name fit their arrays, on success and on failure.
\<close>

lemma summaries_fit_buffers:
  assumes "rd_wf q" "chat_ok c" "tl_extract_chat (q, Some c) = (res1, (q', Some c'))"
    and "rd_wf r" "user_ok u" "tl_extract_user (r, Some u) = (res2, (r', Some u'))"
  shows "no_fault res1 \<and> length (cs_title c') < 128 \<and>
    no_fault res2 \<and> length (us_name u') < 128 \<and> length (us_username u') < 64"
proof -
  have "with_out (within (mem_inv (rd_data q)) (remaining q)) chat_ok (q, Some c)"
    and "with_out (within (mem_inv (rd_data r)) (remaining r)) user_ok (r, Some u)"
    using assms(1,2,4,5) by (simp_all add: mem_inv_def within_def with_out_def)
  from keepsD[OF mem.keeps_extract_chat this(1) assms(3)[unfolded tl_extract_chat_def]]
    keepsD[OF mem.keeps_extract_user this(2) assms(6)[unfolded tl_extract_user_def]]
  show ?thesis by (simp add: with_out_def chat_ok_def user_ok_def)
qed

section \<open>Skipping and extracting take the same path\<close>

context reader_contract
begin

lemma paired_ctor_out [paired_rules]:
  "(\<And>c. paired (within I k) (f c) (g c)) \<Longrightarrow> paired (within I k) (ctor_out n f) (ctor_out n g)"
  unfolding ctor_out_def by (intro paired_rules keeps_rules)

text \<open>
  A string read into a buffer fails exactly when skipping the string fails: at the end
  of the buffer the extra check of \<open>tl_skip_string\<close> only saves the failing read.
\<close>

lemma paired_read_into:
  assumes "\<And>s so. fst (f (-1) s so) = Fail" and "\<And>s. \<exists>h. f 0 s = put_out h"
  shows "paired (within I k) (bind (on_fst (read_string_into cap)) (\<lambda>(rc, s). f rc s))
    (on_fst tl_skip_string)"
  unfolding paired_def
proof (intro allI impI)
  fix r v assume "within I k r"
  then have wf: "rd_wf r" using wf by (simp add: within_def)
  let ?m = "bind (on_fst (read_string_into cap)) (\<lambda>(rc, s). f rc s) (r, Some v)"
  from tl_read_bytes_result[OF wf] consider r' where "tl_read_bytes r = (Ok None, r')"
    | bs r' where "tl_read_bytes r = (Ok (Some bs), r')" "tl_reader_ok r"
    unfolding bytes_result_def tl_reader_ok_def by fastforce
  then show "same_run ?m (on_fst tl_skip_string (r, None))"
  proof cases
    case (1 r')
    then have "?m = f (-1) [] (r', Some v)"
      by (simp add: bind_def on_fst_def read_string_into_def tl_read_string_def ret_def)
    then have "fst ?m = Fail" using assms(1) by simp
    with 1 show ?thesis
      by (simp add: same_run_def on_fst_def tl_skip_string_def reader_ok_def bind_def
          tl_read_string_def fail_def)
  next
    case (2 bs r')
    obtain h where "f 0 (clip cap (cstr bs)) = put_out h" using assms(2) by blast
    with 2 have "?m = (Ok (), (r', Some (h v)))"
      by (simp add: bind_def on_fst_def read_string_into_def tl_read_string_def ret_def put_out_def)
    with 2 show ?thesis
      by (simp add: same_run_def on_fst_def tl_skip_string_def reader_ok_def bind_def
          tl_read_string_def ret_def)
  qed
qed

lemma paired_field:
  "paired (within I k)
     (bind has_out (\<lambda>out. if out then bind (on_fst (read_string_into cap)) (\<lambda>(rc, s).
          bind (put_out (g s)) (\<lambda>_. if rc \<noteq> 0 then fail else skip)) else on_fst tl_skip_string))
     (bind has_out (\<lambda>out. if out then bind (on_fst (read_string_into cap)) (\<lambda>(rc, s).
          bind (put_out (g s)) (\<lambda>_. if rc \<noteq> 0 then fail else skip)) else on_fst tl_skip_string))"
proof (rule paired_has_out, simp only: if_True if_False, rule paired_read_into)
  show "fst (bind (put_out (g s)) (\<lambda>_. if (-1::int) \<noteq> 0 then fail else skip) so) = Fail" for s so
    by (simp add: bind_def put_out_def fail_def)
  show "\<exists>h. bind (put_out (g s)) (\<lambda>_. if (0::int) \<noteq> 0 then fail else skip) = put_out h" for s
    by auto
qed

lemma paired_local:
  "paired (within I k)
     (bind has_out (\<lambda>out. if out then bind (on_fst (read_string_into cap)) (\<lambda>(rc, s).
          if rc \<noteq> 0 then fail else put_out (g s)) else on_fst tl_skip_string))
     (bind has_out (\<lambda>out. if out then bind (on_fst (read_string_into cap)) (\<lambda>(rc, s).
          if rc \<noteq> 0 then fail else put_out (g s)) else on_fst tl_skip_string))"
  by (rule paired_has_out, simp only: if_True if_False, rule paired_read_into)
    (auto simp: fail_def)

lemma keeps_read_string_into [keeps_rules]: "keeps (within I k) (read_string_into cap)"
  unfolding read_string_into_def by (intro keeps_rules)

lemmas paired_walk = paired_field paired_local paired_has_out keeps_null_put_out
  paired_rules keeps_rules

lemma paired_extract_chat: "paired (within I k) extract_chat_inner extract_chat_inner"
  unfolding extract_chat_inner_def extract_chat_basic_def extract_channel_forbidden_def
    extract_channel_def chat_title_def chat_id_def chat_access_hash_def
  by (intro paired_walk)

lemma paired_extract_user: "paired (within I k) extract_user_inner extract_user_inner"
  unfolding extract_user_inner_def extract_user_full_def user_first_name_def user_last_name_def
    user_username_def user_id_def user_access_hash_def
  by (intro paired_walk)

lemma keeps_null_photo_sizes:
  "keeps (with_out (within I k) (\<lambda>_. False)) (walk_photo_sizes n best)"
proof (induction n arbitrary: best)
  case (Suc n)
  show ?case unfolding walk_photo_sizes.simps
    by (intro keeps_null_put_out keeps_rules Suc.IH)
qed (simp add: keeps_ret)

text \<open>Without an output the best score is never updated; the walk is the same.\<close>

lemma paired_photo_sizes: "paired (within I k) (walk_photo_sizes n b) (walk_photo_sizes n b')"
proof (induction n arbitrary: b b')
  case (Suc n)
  have put: "paired (within I k) (bind (put_out g) (\<lambda>_. walk_photo_sizes n c)) (walk_photo_sizes n c')"
    for g :: "media_info \<Rightarrow> media_info" and c c'
    using Suc.IH[of c c'] by (simp add: paired_def bind_def put_out_def)
  have "paired (within I k)
      (bind has_out (\<lambda>out. if score > b \<and> out
         then bind (put_out g) (\<lambda>_. walk_photo_sizes n score) else walk_photo_sizes n b))
      (bind has_out (\<lambda>out. if score > b' \<and> out
         then bind (put_out g) (\<lambda>_. walk_photo_sizes n score) else walk_photo_sizes n b'))"
    for score and g :: "media_info \<Rightarrow> media_info"
    by (rule paired_has_out) (simp add: put Suc.IH)
  then show ?case
    unfolding walk_photo_sizes.simps
    by (intro paired_bind paired_rules keeps_rules) (simp add: split_beta)
qed (simp add: paired_basic)

lemma paired_photo_size_vector: "paired (within I k) walk_photo_size_vector walk_photo_size_vector"
  unfolding walk_photo_size_vector_def by (intro paired_photo_sizes paired_walk)

lemma keeps_null_photo_size_vector:
  "keeps (with_out (within I k) (\<lambda>_. False)) walk_photo_size_vector"
  unfolding walk_photo_size_vector_def
  by (intro keeps_null_photo_sizes keeps_null_put_out keeps_rules)

lemma paired_photo_full: "paired (within I k) photo_full photo_full"
  unfolding photo_full_def store_file_reference_def
  by (intro paired_photo_size_vector keeps_null_photo_size_vector paired_walk)

lemma paired_document_attribute: "paired (within I k) skip_document_attribute skip_document_attribute"
  unfolding skip_document_attribute_def by (intro paired_walk)

lemma keeps_null_document_attribute:
  "keeps (with_out (within I k) (\<lambda>_. False)) skip_document_attribute"
  unfolding skip_document_attribute_def by (intro keeps_null_put_out keeps_rules)

lemma paired_document_inner: "paired (within I k) document_inner document_inner"
  unfolding document_inner_def store_file_reference_def
  by (intro paired_document_attribute keeps_null_document_attribute paired_walk)

lemma keeps_null_photo_full: "keeps (with_out (within I k) (\<lambda>_. False)) photo_full"
  unfolding photo_full_def store_file_reference_def
  by (intro keeps_null_photo_size_vector keeps_null_put_out keeps_rules)

lemma keeps_null_document_inner: "keeps (with_out (within I k) (\<lambda>_. False)) document_inner"
  unfolding document_inner_def store_file_reference_def
  by (intro keeps_null_document_attribute keeps_null_put_out keeps_rules)

lemma paired_media_body:
  assumes "\<And>j. keeps (within I j) media"
  shows "paired (within I k) (skip_message_media_body media) (skip_message_media_body media)"
  unfolding skip_message_media_body_def skip_message_media_switch_def set_kind_def
  by (intro paired_photo_full paired_document_inner keeps_null_photo_full keeps_null_document_inner
      paired_walk assms)

lemma paired_media_ex: "paired (within I k) tl_skip_message_media_ex tl_skip_message_media_ex"
  unfolding tl_skip_message_media_ex_def
  by (subst (1 2) media_at.simps) (simp add: paired_media_body keeps_no_out[OF keeps_media_at])

lemma paired_run:
  assumes "paired (within I (remaining r)) m m" "I r" "m (r, Some v) = (res, (r', v'))"
  shows "fst (no_out m r) = res \<and> (res = Ok () \<longrightarrow> snd (no_out m r) = r' \<and> v' \<noteq> None)"
proof -
  have "within I (remaining r) r" using assms(2) by (simp add: within_def)
  from pairedD[OF assms(1) this, of v] show ?thesis
    unfolding assms(3) same_run_def no_out_def by (auto split: prod.splits)
qed

end

text \<open>
  C14. Extracting and skipping accept the same objects: the extractor returns 0 exactly
  when the skipper does, and then both leave the cursor at the same place, so a caller
  may mix the two on one stream.
\<close>

theorem extract_skip_same_path:
  assumes "rd_wf p" "tl_extract_chat (p, Some c) = (res1, (p', c'))"
    and "rd_wf q" "tl_extract_user (q, Some u) = (res2, (q', u'))"
    and "rd_wf r" "tl_skip_message_media_ex (r, Some m) = (res3, (r', m'))"
  shows "fst (tl_skip_chat p) = res1 \<and> (res1 = Ok () \<longrightarrow> snd (tl_skip_chat p) = p') \<and>
    fst (tl_skip_user q) = res2 \<and> (res2 = Ok () \<longrightarrow> snd (tl_skip_user q) = q') \<and>
    fst (tl_skip_message_media r) = res3 \<and> (res3 = Ok () \<longrightarrow> snd (tl_skip_message_media r) = r')"
proof -
  have "mem_inv (rd_data p) p" "mem_inv (rd_data q) q" "mem_inv (rd_data r) r"
    using assms(1,3,5) by (simp_all add: mem_inv_def)
  then show ?thesis
    using mem.paired_run[OF mem.paired_extract_chat _ assms(2)[unfolded tl_extract_chat_def]]
      mem.paired_run[OF mem.paired_extract_user _ assms(4)[unfolded tl_extract_user_def]]
      mem.paired_run[OF mem.paired_media_ex _ assms(6)]
    by (simp add: tl_skip_chat_def tl_skip_user_def tl_skip_message_media_def)
qed

end
