(* ===== verification/TL_Extract.thy ===== *)
theory TL_Extract
  imports TL_Skip_Laws
begin

text \<open>
  Exact consumption of encoded objects by the walkers, and what the user and chat
  extractors return for them.
\<close>

section \<open>Strings and small objects\<close>

lemma takes_skip_string [takes_rules]:
  assumes "length d < 2 ^ 24"
  shows "takes tl_skip_string (enc_bytes d) ()"
proof -
  have "0 < length (enc_bytes d)" by (simp add: enc_bytes_def length_enc_prefix)
  then have ok: "reader_ok (rd_at pre (enc_bytes d @ post)) = (Ok (), rd_at pre (enc_bytes d @ post))"
    for pre post
    by (simp add: reader_ok_def tl_reader_ok_def)
  have "takes (bind tl_read_string (\<lambda>s. case s of None \<Rightarrow> fail | Some _ \<Rightarrow> skip)) (enc_bytes d @ []) ()"
    using assms by (intro takes_bind[OF takes_read_string]) (simp_all add: takes_ret)
  then have "takes (seqs [bind tl_read_string (\<lambda>s. case s of None \<Rightarrow> fail | Some _ \<Rightarrow> skip)])
      (enc_bytes d) ()"
    by (intro takes_seqs_single) simp
  then show ?thesis
    unfolding tl_skip_string_def seqs.simps by (rule takes_guarded) (simp add: ok)
qed

lemma takes_skip_peer:
  assumes "c = TL_peerUser \<or> c = TL_peerChat \<or> c = TL_peerChannel"
  shows "takes tl_skip_peer (le_bytes 4 c @ le_bytes 8 (i :: u64)) ()"
  unfolding tl_skip_peer_def
  by (intro takes_ctor takes_seqs_last takes_discards) (use assms in \<open>auto simp: takes_ret\<close>)

text \<open>A string read into a buffer.\<close>

lemma takes_read_into:
  "length d < 2 ^ 24 \<Longrightarrow> takes (read_string_into cap) (enc_bytes d) (0, clip cap (cstr d))"
  unfolding read_string_into_def
  by (rule takes_bind[OF takes_read_string, where cs = "[]", simplified]) (simp_all add: takes_ret)

section \<open>Users\<close>

text \<open>
  A user as it stands on the wire. Optional fields are present when their flag bit is
  set; the fields that the extractor only skips are given by their bytes.
\<close>

record wire_user =
  wu_ctor :: u32
  wu_flags :: u32
  wu_flags2 :: u32
  wu_id :: u64
  wu_access_hash :: u64
  wu_first :: "byte list"
  wu_last :: "byte list"
  wu_username :: "byte list"
  wu_phone :: "byte list"
  wu_photo :: "byte list"
  wu_status :: "byte list"
  wu_bot_version :: u32
  wu_restrictions :: "byte list"
  wu_placeholder :: "byte list"
  wu_lang :: "byte list"
  wu_emoji_status :: "byte list"
  wu_usernames :: "byte list"
  wu_stories :: u32
  wu_color :: "byte list"
  wu_profile_color :: "byte list"
  wu_bot_users :: u32

definition opt :: "u32 \<Rightarrow> nat \<Rightarrow> byte list \<Rightarrow> byte list" where
  "opt flags i bs = (if bit flags i then bs else [])"

definition enc_user_body :: "wire_user \<Rightarrow> byte list" where
  "enc_user_body u = le_bytes 4 (wu_flags u) @ le_bytes 4 (wu_flags2 u) @
     le_bytes 8 (wu_id u) @
     opt (wu_flags u) 0 (le_bytes 8 (wu_access_hash u)) @
     opt (wu_flags u) 1 (enc_bytes (wu_first u)) @
     opt (wu_flags u) 2 (enc_bytes (wu_last u)) @
     opt (wu_flags u) 3 (enc_bytes (wu_username u)) @
     opt (wu_flags u) 4 (enc_bytes (wu_phone u)) @
     opt (wu_flags u) 5 (wu_photo u) @
     opt (wu_flags u) 6 (wu_status u) @
     opt (wu_flags u) 14 (le_bytes 4 (wu_bot_version u)) @
     opt (wu_flags u) 18 (wu_restrictions u) @
     opt (wu_flags u) 19 (enc_bytes (wu_placeholder u)) @
     opt (wu_flags u) 22 (enc_bytes (wu_lang u)) @
     opt (wu_flags u) 30 (wu_emoji_status u) @
     opt (wu_flags2 u) 0 (wu_usernames u) @
     opt (wu_flags2 u) 5 (le_bytes 4 (wu_stories u)) @
     opt (wu_flags2 u) 8 (wu_color u) @
     opt (wu_flags2 u) 9 (wu_profile_color u) @
     opt (wu_flags2 u) 12 (le_bytes 4 (wu_bot_users u))"

definition enc_user :: "wire_user \<Rightarrow> byte list" where
  "enc_user u = le_bytes 4 (wu_ctor u) @ enc_user_body u"

text \<open>
  Well-formed users: a known constructor, strings below 16 MiB without zero bytes, and
  sub-objects that their own walkers accept.
\<close>

definition text_ok :: "byte list \<Rightarrow> bool" where
  "text_ok s = (length s < 2 ^ 24 \<and> 0 \<notin> set s)"

definition wire_user_ok :: "wire_user \<Rightarrow> bool" where
  "wire_user_ok u = ((wu_ctor u = TL_user \<or> wu_ctor u = TL_user2) \<and>
     text_ok (wu_first u) \<and> text_ok (wu_last u) \<and> text_ok (wu_username u) \<and>
     text_ok (wu_phone u) \<and> text_ok (wu_placeholder u) \<and> text_ok (wu_lang u) \<and>
     (bit (wu_flags u) 5 \<longrightarrow> takes tl_skip_user_profile_photo (wu_photo u) ()) \<and>
     (bit (wu_flags u) 6 \<longrightarrow> takes tl_skip_user_status (wu_status u) ()) \<and>
     (bit (wu_flags u) 18 \<longrightarrow> takes tl_skip_restriction_reason_vector (wu_restrictions u) ()) \<and>
     (bit (wu_flags u) 30 \<longrightarrow> takes tl_skip_emoji_status (wu_emoji_status u) ()) \<and>
     (bit (wu_flags2 u) 0 \<longrightarrow> takes tl_skip_username_vector (wu_usernames u) ()) \<and>
     (bit (wu_flags2 u) 8 \<longrightarrow> takes tl_skip_peer_color (wu_color u) ()) \<and>
     (bit (wu_flags2 u) 9 \<longrightarrow> takes tl_skip_peer_color (wu_profile_color u) ()))"

text \<open>
  What a user should look like to the caller: first and last name joined by a single
  space when both are there.
\<close>

definition display_name :: "byte list \<Rightarrow> byte list \<Rightarrow> byte list" where
  "display_name first lst = take 127 (take 95 first @
     (if first \<noteq> [] \<and> lst \<noteq> [] then [32] else []) @ take 95 lst)"

definition user_view :: "wire_user \<Rightarrow> user_summary" where
  "user_view u = \<lparr>us_id = sint (wu_id u),
     us_access_hash = (if bit (wu_flags u) 0 then sint (wu_access_hash u) else 0),
     us_have_access_hash = (if bit (wu_flags u) 0 then 1 else 0),
     us_name = display_name (opt (wu_flags u) 1 (wu_first u)) (opt (wu_flags u) 2 (wu_last u)),
     us_username = take 63 (opt (wu_flags u) 3 (wu_username u))\<rparr>"

lemma display_name_parts:
  "str_append [] 128 (clip 96 first) = display_name first []"
  "append_last_name (clip 96 lst) (display_name first []) = display_name first lst"
  "append_last_name (clip 96 lst) [] = display_name [] lst" "display_name [] [] = []"
proof -
  show "str_append [] 128 (clip 96 first) = display_name first []"
    by (simp add: str_append_def display_name_def clip_def)
  have "append_last_name ln [] = ln" if "length ln < 128" for ln
    using that by (simp add: append_last_name_def str_append_def)
  then show "append_last_name (clip 96 lst) [] = display_name [] lst"
    by (simp add: display_name_def clip_def)
  have both: "append_last_name ln nm = take 127 (nm @ [32] @ ln)"
    if "nm \<noteq> []" "ln \<noteq> []" "length nm < 96" for ln nm
    using that by (simp add: append_last_name_def str_append_def Let_def take_Cons')
  show "append_last_name (clip 96 lst) (display_name first []) = display_name first lst"
  proof (cases "first = [] \<or> lst = []")
    case True
    then show ?thesis
      by (auto simp: display_name_def clip_def append_last_name_def str_append_def)
  next
    case False
    with both[of "take 95 first" "take 95 lst"] show ?thesis
      by (simp only: display_name_def clip_def) (simp add: min_absorb1)
  qed
qed (simp add: display_name_def)

text \<open>The fields.\<close>

lemma takes_out_user_ids:
  fixes i :: u64
  shows "takes_out user_id (le_bytes 8 i) v (map_option (\<lambda>u. u\<lparr>us_id := sint i\<rparr>) v)"
  "takes_out user_access_hash (le_bytes 8 i) v
     (map_option (\<lambda>u. u\<lparr>us_access_hash := sint i, us_have_access_hash := 1\<rparr>) v)"
  unfolding user_id_def user_access_hash_def
  by (rule takes_out_store[OF takes_reads(4)], rule refl)+

lemma takes_out_user_names:
  assumes "text_ok d" "v \<noteq> None"
  shows "takes_out user_first_name (enc_bytes d) v
      (map_option (\<lambda>u. u\<lparr>us_name := str_append (us_name u) 128 (clip 96 d)\<rparr>) v)"
    and "takes_out user_last_name (enc_bytes d) v
      (map_option (\<lambda>u. u\<lparr>us_name := append_last_name (clip 96 d) (us_name u)\<rparr>) v)"
    and "takes_out user_username (enc_bytes d) v
      (map_option (\<lambda>u. u\<lparr>us_username := clip 64 d\<rparr>) v)"
proof -
  have d: "takes (read_string_into cap) (enc_bytes d) (0, clip cap d)" for cap
    using takes_read_into[of d cap] assms(1) by (simp add: text_ok_def cstr_id)
  show "takes_out user_first_name (enc_bytes d) v
      (map_option (\<lambda>u. u\<lparr>us_name := str_append (us_name u) 128 (clip 96 d)\<rparr>) v)"
    unfolding user_first_name_def
    by (rule takes_out_has) (simp add: assms(2) takes_out_store[OF d])
  show "takes_out user_last_name (enc_bytes d) v
      (map_option (\<lambda>u. u\<lparr>us_name := append_last_name (clip 96 d) (us_name u)\<rparr>) v)"
    unfolding user_last_name_def
    by (rule takes_out_has) (simp add: assms(2) takes_out_store[OF d])
  show "takes_out user_username (enc_bytes d) v (map_option (\<lambda>u. u\<lparr>us_username := clip 64 d\<rparr>) v)"
    unfolding user_username_def
    by (rule takes_out_has) (simp add: assms(2) takes_out_store[OF d])
qed

lemma takes_out_eq: "takes_out m bs v v' \<Longrightarrow> v' = v'' \<Longrightarrow> takes_out m bs v v''"
  by simp

lemma takes_extract_user_full:
  assumes u: "wire_user_ok u" and w: "us_id w = 0" "us_access_hash w = 0" "us_have_access_hash w = 0"
    "us_name w = []" "us_username w = []"
  shows "takes_out extract_user_full (enc_user_body u) (Some w) (Some (user_view u))"
proof -
  have strings: "text_ok (wu_first u)" "text_ok (wu_last u)" "text_ok (wu_username u)"
    "length (wu_phone u) < 2 ^ 24" "length (wu_placeholder u) < 2 ^ 24" "length (wu_lang u) < 2 ^ 24"
    using u unfolding wire_user_ok_def text_ok_def by blast+
  have objs: "bit (wu_flags u) 5 \<Longrightarrow> takes tl_skip_user_profile_photo (wu_photo u) ()"
    "bit (wu_flags u) 6 \<Longrightarrow> takes tl_skip_user_status (wu_status u) ()"
    "bit (wu_flags u) 18 \<Longrightarrow> takes tl_skip_restriction_reason_vector (wu_restrictions u) ()"
    "bit (wu_flags u) 30 \<Longrightarrow> takes tl_skip_emoji_status (wu_emoji_status u) ()"
    "bit (wu_flags2 u) 0 \<Longrightarrow> takes tl_skip_username_vector (wu_usernames u) ()"
    "bit (wu_flags2 u) 8 \<Longrightarrow> takes tl_skip_peer_color (wu_color u) ()"
    "bit (wu_flags2 u) 9 \<Longrightarrow> takes tl_skip_peer_color (wu_profile_color u) ()"
    using u unfolding wire_user_ok_def by blast+
  have weq: "w = \<lparr>us_id = 0, us_access_hash = 0, us_have_access_hash = 0, us_name = [], us_username = []\<rparr>"
    using w by simp
  have clip64: "clip 64 d = take 63 d" for d by (simp add: clip_def)
  show ?thesis
    unfolding enc_user_body_def extract_user_full_def opt_def
    by (rule takes_out_eq, rule takes_out_need2, simp,
        (rule takes_out_need1 takes_out_need takes_out_intros takes_out_user_ids
            takes_out_user_names takes_needs takes_skip_string not_None_intros strings objs
          | assumption | (simp; fail))+)
      (simp add: user_view_def opt_def display_name_parts weq clip64)
qed

lemma takes_extract_user:
  assumes "wire_user_ok u"
  shows "takes_out tl_extract_user (enc_user u) (Some v) (Some (user_view u))"
proof -
  let ?w = "v\<lparr>us_id := 0, us_access_hash := 0, us_have_access_hash := 0, us_name := [],
    us_username := []\<rparr>"
  have full: "takes_out extract_user_full (enc_user_body u) (Some ?w) (Some (user_view u))"
    by (rule takes_extract_user_full[OF assms]) simp_all
  have "wu_ctor u = TL_user \<or> wu_ctor u = TL_user2" using assms by (simp add: wire_user_ok_def)
  with full show ?thesis
    unfolding tl_extract_user_def extract_user_inner_def enc_user_def
    by (intro takes_out_put_seqs takes_out_seqs_single takes_out_ctor) auto
qed

text \<open>
  C8. From the encoding of any user, whatever fields its flags select, the extractor
  returns the id, the access hash if it is present, the first and last name joined by a
  single space and clipped to the buffer, and the user name, and it leaves the cursor on
  the first byte after the object.
\<close>

theorem extract_user_correct:
  assumes "wire_user_ok u" "length (enc_user u) + length rest < 2 ^ 62"
  shows "tl_extract_user (tl_reader_init (enc_user u @ rest) (length (enc_user u @ rest)), Some v) =
    (Ok (), (\<lparr>rd_data = enc_user u @ rest, rd_len = length (enc_user u @ rest),
       rd_pos = length (enc_user u)\<rparr>, Some (user_view u)))"
  using takes_outD[OF takes_extract_user[OF assms(1)], of "[]" rest v] assms(2)
  unfolding rd_at_init by (simp add: rd_at_def)

definition sample_user :: wire_user where
  "sample_user = \<lparr>wu_ctor = TL_user2, wu_flags = 7, wu_flags2 = 0, wu_id = 42, wu_access_hash = 99,
     wu_first = [65, 100, 97], wu_last = [76], wu_username = [], wu_phone = [], wu_photo = [],
     wu_status = [], wu_bot_version = 0, wu_restrictions = [], wu_placeholder = [], wu_lang = [],
     wu_emoji_status = [], wu_usernames = [], wu_stories = 0, wu_color = [], wu_profile_color = [],
     wu_bot_users = 0\<rparr>"

lemma sample_user_ok: "wire_user_ok sample_user" "length (enc_user sample_user) = 36"
  by (simp_all add: sample_user_def wire_user_ok_def text_ok_def enc_user_def enc_user_body_def
      opt_def bit_simps length_enc_bytes length_enc_prefix)

lemma sample_user_view: "user_view sample_user = \<lparr>us_id = 42, us_access_hash = 99,
    us_have_access_hash = 1, us_name = [65, 100, 97, 32, 76], us_username = []\<rparr>"
  by (simp add: sample_user_def user_view_def opt_def display_name_def bit_simps)

theorem extract_user_correct_witness:
  "wire_user_ok sample_user \<and>
   tl_extract_user (tl_reader_init (enc_user sample_user @ [0, 0, 0, 0]) 40,
     Some \<lparr>us_id = 0, us_access_hash = 0, us_have_access_hash = 0, us_name = [], us_username = []\<rparr>) =
   (Ok (), (\<lparr>rd_data = enc_user sample_user @ [0, 0, 0, 0], rd_len = 40, rd_pos = 36\<rparr>,
     Some \<lparr>us_id = 42, us_access_hash = 99, us_have_access_hash = 1,
       us_name = [65, 100, 97, 32, 76], us_username = []\<rparr>))"
  using extract_user_correct[OF sample_user_ok(1), of "[0, 0, 0, 0]"]
  by (simp add: sample_user_ok sample_user_view)

section \<open>Media without a body\<close>

lemma takes_media_empty:
  "takes_out tl_skip_message_media_ex (le_bytes 4 CRC_messageMediaEmpty) (Some m)
     (Some (media_zero\<lparr>kind := MEDIA_EMPTY\<rparr>))"
proof -
  have "takes_out (ctor_out 4 (skip_message_media_switch md)) (le_bytes 4 CRC_messageMediaEmpty @ [])
      (map_option (\<lambda>_. media_zero) (Some m)) (Some (media_zero\<lparr>kind := MEDIA_EMPTY\<rparr>))" for md
    using takes_out_put[of "\<lambda>m. m\<lparr>kind := MEDIA_EMPTY\<rparr>" "Some media_zero"]
    by (intro takes_out_ctor) (simp_all add: skip_message_media_switch_def set_kind_def)
  then have "takes_out (skip_message_media_body md) (le_bytes 4 CRC_messageMediaEmpty) (Some m)
      (Some (media_zero\<lparr>kind := MEDIA_EMPTY\<rparr>))" for md
    unfolding skip_message_media_body_def append_Nil2
    by (rule takes_out_put_seqs[OF takes_out_seqs_single])
  then show ?thesis
    unfolding tl_skip_message_media_ex_def by (subst media_at.simps) simp
qed

lemma takes_chat_empty:
  fixes i :: u64
  shows "takes_out tl_extract_chat (le_bytes 4 TL_chatEmpty @ le_bytes 8 i) (Some c)
    (Some \<lparr>cs_id = sint i, cs_access_hash = 0, cs_have_access_hash = 0, cs_title = []\<rparr>)"
proof (cases c)
  case [simp]: (fields a b d e)
  have "takes_out chat_id (le_bytes 8 i) v (map_option (\<lambda>c. c\<lparr>cs_id := sint i\<rparr>) v)" for v
    unfolding chat_id_def by (rule takes_out_store[OF takes_reads(4)]) (rule refl)
  from this[of "map_option (\<lambda>c. c\<lparr>cs_id := 0, cs_access_hash := 0, cs_have_access_hash := 0,
      cs_title := []\<rparr>) (Some c)"]
  show ?thesis
    unfolding tl_extract_chat_def extract_chat_inner_def
    by (intro takes_out_put_seqs takes_out_seqs_single takes_out_ctor)
      (auto intro!: takes_out_need takes_out_seqs_single simp del: seqs.simps)
qed

section \<open>Witnesses\<close>

definition no_user :: user_summary where
  "no_user = \<lparr>us_id = 0, us_access_hash = 0, us_have_access_hash = 0, us_name = [], us_username = []\<rparr>"

definition no_chat :: chat_summary where
  "no_chat = \<lparr>cs_id = 0, cs_access_hash = 0, cs_have_access_hash = 0, cs_title = []\<rparr>"

lemma runs:
  "rd_wf (rd_at [] (le_bytes 4 CRC_messageMediaEmpty))"
  "rd_wf (rd_at [] (le_bytes 4 TL_chatEmpty @ le_bytes 8 (7 :: u64)))"
  "rd_wf (rd_at [] (enc_user sample_user))"
  "tl_skip_message_media_ex (rd_at [] (le_bytes 4 CRC_messageMediaEmpty), Some media_zero) =
    (Ok (), (rd_at (le_bytes 4 CRC_messageMediaEmpty) [], Some (media_zero\<lparr>kind := MEDIA_EMPTY\<rparr>)))"
  "tl_extract_chat (rd_at [] (le_bytes 4 TL_chatEmpty @ le_bytes 8 (7 :: u64)), Some no_chat) =
    (Ok (), (rd_at (le_bytes 4 TL_chatEmpty @ le_bytes 8 (7 :: u64)) [], Some (no_chat\<lparr>cs_id := 7\<rparr>)))"
  "tl_extract_user (rd_at [] (enc_user sample_user), Some no_user) =
    (Ok (), (rd_at (enc_user sample_user) [], Some (user_view sample_user)))"
  using takes_outD[OF takes_media_empty, of "[]" "[]" media_zero]
    takes_outD[OF takes_chat_empty, of "[]" 7 "[]" no_chat]
    takes_outD[OF takes_extract_user[OF sample_user_ok(1)], of "[]" "[]" no_user]
  by (simp_all add: rd_at_wf no_chat_def sample_user_ok)

theorem media_fits_buffers_witness:
  "let r = rd_at [] (le_bytes 4 CRC_messageMediaEmpty)
   in rd_wf r \<and> media_ok media_zero \<and> fst (tl_skip_message_media_ex (r, Some media_zero)) = Ok () \<and>
     length (document_filename (the (snd (snd (tl_skip_message_media_ex (r, Some media_zero)))))) < 128"
  using media_fits_buffers[OF runs(1) media_ok_zero runs(4)] runs(1,4) media_ok_zero
  by (simp add: Let_def)

lemma no_ok: "chat_ok no_chat" "user_ok no_user"
  by (simp_all add: chat_ok_def no_chat_def user_ok_def no_user_def)

theorem extract_skip_same_path_witness:
  "fst (tl_skip_user (rd_at [] (enc_user sample_user))) = Ok () \<and>
   rd_pos (snd (tl_skip_user (rd_at [] (enc_user sample_user)))) = 36"
  using extract_skip_same_path[OF runs(2) runs(5) runs(3) runs(6) runs(1) runs(4)]
  by (simp add: sample_user_ok)

end
