(* ===== verification/IGE.thy ===== *)
theory IGE
  imports Prelude
begin

text \<open>
  AES-256-IGE of \<open>src/src/core/ige_aes.c\<close>. The AES block cipher itself is a library and a
  parameter of the model: \<open>E key\<close> and \<open>D key\<close> stand for \<open>crypto_aes_encrypt_block\<close>
  and \<open>crypto_aes_decrypt_block\<close> with the schedule of \<open>key\<close>.
\<close>

unbundle bit_operations_syntax

type_synonym cipher = "byte list \<Rightarrow> byte list \<Rightarrow> byte list"

section \<open>The loops\<close>

definition xor_block :: "byte list \<Rightarrow> byte list \<Rightarrow> byte list" where
  "xor_block a b = map2 (\<lambda>x y. x XOR y) a b"

text \<open>
  One iteration per 16 bytes; the arguments are the two chaining blocks and what is left
  of the input.
\<close>

function ige_encrypt_loop :: "(byte list \<Rightarrow> byte list) \<Rightarrow> byte list \<Rightarrow> byte list \<Rightarrow> byte list \<Rightarrow> byte list" where
  "ige_encrypt_loop enc iv_c iv_p plain =
     (if plain = [] then []
      else let p = take 16 plain;
               c = xor_block (enc (xor_block p iv_c)) iv_p
           in c @ ige_encrypt_loop enc c p (drop 16 plain))"
  by pat_completeness auto
termination
  by (relation "measure (\<lambda>(_, _, _, plain). length plain)") auto

function ige_decrypt_loop :: "(byte list \<Rightarrow> byte list) \<Rightarrow> byte list \<Rightarrow> byte list \<Rightarrow> byte list \<Rightarrow> byte list" where
  "ige_decrypt_loop dec iv_c iv_p cipher =
     (if cipher = [] then []
      else let c = take 16 cipher;
               p = xor_block (dec (xor_block c iv_p)) iv_c
           in p @ ige_decrypt_loop dec c p (drop 16 cipher))"
  by pat_completeness auto
termination
  by (relation "measure (\<lambda>(_, _, _, cipher). length cipher)") auto

declare ige_encrypt_loop.simps [simp del] ige_decrypt_loop.simps [simp del]

text \<open>
  The functions write nothing when the length is zero or not a multiple of 16; the
  output buffer \<open>out\<close> is then unchanged.
\<close>

definition aes_ige_encrypt :: "cipher \<Rightarrow> byte list \<Rightarrow> byte list \<Rightarrow> byte list \<Rightarrow> byte list \<Rightarrow> byte list" where
  "aes_ige_encrypt E plain key iv out =
     (if length plain = 0 then out
      else if length plain mod 16 \<noteq> 0 then out
      else ige_encrypt_loop (E key) (take 16 iv) (take 16 (drop 16 iv)) plain)"

definition aes_ige_decrypt :: "cipher \<Rightarrow> byte list \<Rightarrow> byte list \<Rightarrow> byte list \<Rightarrow> byte list \<Rightarrow> byte list" where
  "aes_ige_decrypt D cipher key iv out =
     (if length cipher = 0 then out
      else if length cipher mod 16 \<noteq> 0 then out
      else ige_decrypt_loop (D key) (take 16 iv) (take 16 (drop 16 iv)) cipher)"

section \<open>Blocks\<close>

lemma length_xor_block [simp]: "length (xor_block a b) = min (length a) (length b)"
  by (simp add: xor_block_def)

lemma nth_xor_block [simp]: "i < length a \<Longrightarrow> i < length b \<Longrightarrow> xor_block a b ! i = a ! i XOR b ! i"
  by (simp add: xor_block_def)

lemma xor_block_cancel: "length a = length b \<Longrightarrow> xor_block (xor_block a b) b = a"
  by (rule nth_equalityI) (simp_all add: xor.assoc)

text \<open>What the block cipher is relied on for.\<close>

definition block_inverse :: "(byte list \<Rightarrow> byte list) \<Rightarrow> (byte list \<Rightarrow> byte list) \<Rightarrow> bool" where
  "block_inverse enc dec = (\<forall>b. length b = 16 \<longrightarrow> length (enc b) = 16 \<and> dec (enc b) = b)"

lemma block_inverseD:
  "block_inverse enc dec \<Longrightarrow> length b = 16 \<Longrightarrow> length (enc b) = 16"
  "block_inverse enc dec \<Longrightarrow> length b = 16 \<Longrightarrow> dec (enc b) = b"
  by (simp_all add: block_inverse_def)

lemma take_block: "xs \<noteq> [] \<Longrightarrow> length xs mod 16 = 0 \<Longrightarrow> length (take 16 xs) = 16"
  by (cases "length xs < 16") (auto simp: min_def)

lemma drop_block: "length xs mod 16 = 0 \<Longrightarrow> length (drop 16 xs) mod 16 = 0"
  by (cases "length xs < 16") (auto simp: mod_if)

lemma length_ige_encrypt_loop:
  assumes "\<And>b. length b = 16 \<Longrightarrow> length (enc b) = 16" "length iv_c = 16" "length iv_p = 16"
    and "length plain mod 16 = 0"
  shows "length (ige_encrypt_loop enc iv_c iv_p plain) = length plain"
  using assms
proof (induction enc iv_c iv_p plain rule: ige_encrypt_loop.induct)
  case (1 enc iv_c iv_p plain)
  show ?case
  proof (cases "plain = []")
    case False
    note b = take_block[OF False 1(5)]
    have "length (ige_encrypt_loop enc (xor_block (enc (xor_block (take 16 plain) iv_c)) iv_p)
        (take 16 plain) (drop 16 plain)) = length (drop 16 plain)"
      using 1(2-5) b drop_block[OF 1(5)] by (intro 1(1)[OF False refl refl]) simp_all
    moreover have "16 \<le> length plain" using b by simp
    ultimately show ?thesis
      using 1(2-4) b by (subst ige_encrypt_loop.simps) (simp add: Let_def False)
  qed (simp add: ige_encrypt_loop.simps)
qed

lemma ige_decrypt_encrypt_loop:
  assumes "block_inverse enc dec" "length iv_c = 16" "length iv_p = 16" "length plain mod 16 = 0"
  shows "ige_decrypt_loop dec iv_c iv_p (ige_encrypt_loop enc iv_c iv_p plain) = plain"
  using assms
proof (induction enc iv_c iv_p plain rule: ige_encrypt_loop.induct)
  case (1 enc iv_c iv_p plain)
  show ?case
  proof (cases "plain = []")
    case False
    let ?p = "take 16 plain"
    let ?c = "xor_block (enc (xor_block ?p iv_c)) iv_p"
    note p = take_block[OF False 1(5)]
    have e: "length (enc (xor_block ?p iv_c)) = 16"
      using block_inverseD(1)[OF 1(2)] p 1(3) by simp
    then have c: "length ?c = 16" using 1(4) by simp
    then have ne: "?c \<noteq> []" by (metis list.size(3) zero_neq_numeral)
    have "xor_block (dec (xor_block ?c iv_p)) iv_c = ?p"
      using block_inverseD(2)[OF 1(2)] p e 1(3,4) by (simp add: xor_block_cancel)
    moreover have "ige_decrypt_loop dec ?c ?p (ige_encrypt_loop enc ?c ?p (drop 16 plain)) = drop 16 plain"
      using 1(2) p c drop_block[OF 1(5)] by (intro 1(1)[OF False refl refl]) simp_all
    moreover have "ige_encrypt_loop enc iv_c iv_p plain = ?c @ ige_encrypt_loop enc ?c ?p (drop 16 plain)"
      by (subst ige_encrypt_loop.simps) (simp add: Let_def False)
    moreover have "ige_decrypt_loop dec iv_c iv_p (?c @ r) =
        xor_block (dec (xor_block ?c iv_p)) iv_c @
        ige_decrypt_loop dec ?c (xor_block (dec (xor_block ?c iv_p)) iv_c) r" for r
      using c ne by (subst ige_decrypt_loop.simps) (simp add: Let_def)
    ultimately show ?thesis by simp
  qed (simp add: ige_encrypt_loop.simps ige_decrypt_loop.simps)
qed

text \<open>Decryption never writes more than it reads, whatever the block cipher does.\<close>

lemma length_ige_decrypt_loop:
  assumes "length iv_c \<le> 16" "length cipher mod 16 = 0"
  shows "length (ige_decrypt_loop dec iv_c iv_p cipher) \<le> length cipher"
  using assms
proof (induction dec iv_c iv_p cipher rule: ige_decrypt_loop.induct)
  case (1 dec iv_c iv_p cipher)
  show ?case
  proof (cases "cipher = []")
    case False
    let ?p = "xor_block (dec (xor_block (take 16 cipher) iv_p)) iv_c"
    from False "1.prems"(2) have long: "16 \<le> length cipher" by (intro leI) auto
    have "length (ige_decrypt_loop dec (take 16 cipher) ?p (drop 16 cipher)) \<le> length cipher - 16"
      using "1.IH"[OF False refl refl] "1.prems"(2) long by (simp add: mod_if[of "length cipher"])
    then show ?thesis
      using False "1.prems"(1) long by (subst ige_decrypt_loop.simps) (simp add: Let_def)
  qed (simp add: ige_decrypt_loop.simps)
qed

lemma length_aes_ige_decrypt: "length (aes_ige_decrypt D cipher key iv []) \<le> length cipher"
  by (simp add: aes_ige_decrypt_def length_ige_decrypt_loop)

lemma length_aes_ige_encrypt:
  assumes "block_inverse (E key) (D key)" "length iv = 32" "length plain mod 16 = 0" "plain \<noteq> []"
  shows "length (aes_ige_encrypt E plain key iv out) = length plain"
  using assms block_inverseD(1)[OF assms(1)]
  by (simp add: aes_ige_encrypt_def length_ige_encrypt_loop)

lemma aes_ige_decrypt_encrypt:
  assumes "block_inverse (E key) (D key)" "length iv = 32" "length plain mod 16 = 0" "plain \<noteq> []"
  shows "aes_ige_decrypt D (aes_ige_encrypt E plain key iv out) key iv out' = plain"
proof -
  have len: "length (aes_ige_encrypt E plain key iv out) = length plain"
    by (rule length_aes_ige_encrypt[where D = D]) (use assms in simp_all)
  with assms have "aes_ige_decrypt D (aes_ige_encrypt E plain key iv out) key iv out' =
      ige_decrypt_loop (D key) (take 16 iv) (take 16 (drop 16 iv))
        (ige_encrypt_loop (E key) (take 16 iv) (take 16 (drop 16 iv)) plain)"
    by (simp add: aes_ige_decrypt_def) (simp add: aes_ige_encrypt_def)
  also have "\<dots> = plain" using assms by (intro ige_decrypt_encrypt_loop) simp_all
  finally show ?thesis .
qed

text \<open>
  C18. Decrypting an IGE ciphertext under the key and IV it was made with gives the
  plaintext back, for every plaintext of whole blocks, whatever block cipher is used.
\<close>

theorem ige_round_trip:
  assumes "block_inverse (E key) (D key)" "length iv = 32" "length plain mod 16 = 0" "plain \<noteq> []"
  shows "aes_ige_decrypt D (aes_ige_encrypt E plain key iv out) key iv out' = plain \<and>
    length (aes_ige_encrypt E plain key iv out) = length plain"
  using aes_ige_decrypt_encrypt[where E = E and D = D, OF assms]
    length_aes_ige_encrypt[where E = E and D = D, OF assms] by simp

text \<open>A block cipher for examples: XOR with the key's first byte, which is its own inverse.\<close>

definition toy_cipher :: cipher where
  "toy_cipher key b = map (\<lambda>x. x XOR hd (key @ [0])) b"

lemma toy_cipher_inverse: "block_inverse (toy_cipher key) (toy_cipher key)"
  by (simp add: block_inverse_def toy_cipher_def xor.assoc comp_def)

theorem ige_round_trip_witness:
  "block_inverse (toy_cipher [7]) (toy_cipher [7]) \<and>
   aes_ige_decrypt toy_cipher (aes_ige_encrypt toy_cipher (replicate 32 65) [7] (replicate 32 1) [])
     [7] (replicate 32 1) [] = replicate 32 65"
  using ige_round_trip[of toy_cipher "[7]" toy_cipher "replicate 32 1" "replicate 32 65" "[]" "[]"]
    toy_cipher_inverse
  by simp

section \<open>The block equations\<close>

definition block :: "nat \<Rightarrow> byte list \<Rightarrow> byte list" where
  "block i xs = take 16 (drop (16 * i) xs)"

lemma block_append:
  "length a = 16 \<Longrightarrow> block 0 (a @ b) = a" "length a = 16 \<Longrightarrow> block (Suc i) (a @ b) = block i b"
  by (simp_all add: block_def)

lemma block_drop: "block (Suc i) xs = block i (drop 16 xs)"
  by (simp add: block_def add.commute)

lemma ige_encrypt_loop_blocks:
  assumes "\<And>b. length b = 16 \<Longrightarrow> length (enc b) = 16" "length iv_c = 16" "length iv_p = 16"
    and "length plain mod 16 = 0" "16 * i < length plain"
  shows "block i (ige_encrypt_loop enc iv_c iv_p plain) =
    xor_block (enc (xor_block (block i plain)
        (if i = 0 then iv_c else block (i - 1) (ige_encrypt_loop enc iv_c iv_p plain))))
      (if i = 0 then iv_p else block (i - 1) plain)"
  using assms
proof (induction enc iv_c iv_p plain arbitrary: i rule: ige_encrypt_loop.induct)
  case (1 enc iv_c iv_p plain)
  let ?p = "take 16 plain"
  let ?c = "xor_block (enc (xor_block ?p iv_c)) iv_p"
  have ne: "plain \<noteq> []" using 1(6) by auto
  note p = take_block[OF ne 1(5)]
  have c: "length ?c = 16" using 1(2-4) p by simp
  have step: "ige_encrypt_loop enc iv_c iv_p plain = ?c @ ige_encrypt_loop enc ?c ?p (drop 16 plain)"
    by (subst ige_encrypt_loop.simps) (simp add: Let_def ne)
  show ?case
  proof (cases i)
    case 0
    then show ?thesis unfolding step using c by (simp add: block_append block_def)
  next
    case (Suc j)
    have "block j (ige_encrypt_loop enc ?c ?p (drop 16 plain)) =
      xor_block (enc (xor_block (block j (drop 16 plain))
          (if j = 0 then ?c else block (j - 1) (ige_encrypt_loop enc ?c ?p (drop 16 plain)))))
        (if j = 0 then ?p else block (j - 1) (drop 16 plain))"
      using 1(2-4,6) p c drop_block[OF 1(5)] Suc by (intro 1(1)[OF ne refl refl]) simp_all
    moreover have "block j (?c @ r) = (if j = 0 then ?c else block (j - 1) r)" for r
      using c by (cases j) (simp_all add: block_append)
    moreover have "block j plain = (if j = 0 then ?p else block (j - 1) (drop 16 plain))"
      by (cases j) (simp_all add: block_drop, simp add: block_def)
    ultimately show ?thesis
      unfolding step Suc using c by (simp add: block_append block_drop)
  qed
qed

text \<open>
  Every block of the ciphertext obeys the IGE equation of the file's description:
  the block cipher is applied to the plaintext block XOR the previous ciphertext block,
  and the result is XORed with the previous plaintext block; the two halves of the IV
  stand in for the blocks before the first.
\<close>

lemma ige_block_equation:
  assumes "\<And>b. length b = 16 \<Longrightarrow> length (E key b) = 16" "length iv = 32"
    and "length plain mod 16 = 0" "16 * i < length plain"
    and "c = aes_ige_encrypt E plain key iv out"
  shows "block i c = xor_block
    (E key (xor_block (block i plain) (if i = 0 then take 16 iv else block (i - 1) c)))
    (if i = 0 then drop 16 iv else block (i - 1) plain)"
proof -
  have "c = ige_encrypt_loop (E key) (take 16 iv) (take 16 (drop 16 iv)) plain"
    using assms(3-5) by (auto simp: aes_ige_encrypt_def)
  with ige_encrypt_loop_blocks[of "E key" "take 16 iv" "take 16 (drop 16 iv)" plain i] assms(1-4)
  show ?thesis by simp
qed

end
