(* ===== verification/MTProto_Crypto.thy ===== *)
theory MTProto_Crypto
  imports IGE
begin

text \<open>
  The MTProto 2.0 encryption layer of \<open>src/src/core/mtproto_crypto.c\<close>. The hash
  \<open>sha\<close> (\<open>crypto_sha256\<close>), the block cipher and the random padding bytes come from
  the crypto library and are parameters.
\<close>

type_synonym hash = "byte list \<Rightarrow> byte list"

definition mtproto_derive_keys :: "hash \<Rightarrow> byte list \<Rightarrow> byte list \<Rightarrow> nat \<Rightarrow> byte list \<times> byte list" where
  "mtproto_derive_keys sha auth_key msg_key x =
     (let sha256_a = sha (take 16 msg_key @ take 36 (drop x auth_key));
          sha256_b = sha (take 36 (drop (x + 40) auth_key) @ take 16 msg_key);
          aes_key = take 8 sha256_a @ take 16 (drop 8 sha256_b) @ take 8 (drop 24 sha256_a);
          aes_iv = take 8 sha256_b @ take 16 (drop 8 sha256_a) @ take 8 (drop 24 sha256_b)
      in (aes_key, aes_iv))"

definition mtproto_compute_msg_key :: "hash \<Rightarrow> byte list \<Rightarrow> byte list \<Rightarrow> nat \<Rightarrow> byte list" where
  "mtproto_compute_msg_key sha auth_key plain x =
     take 16 (drop 8 (sha (take 32 (drop (88 + x) auth_key) @ plain)))"

text \<open>The number of padding bytes; the bytes themselves are random.\<close>

definition mtproto_gen_padding :: "nat \<Rightarrow> nat" where
  "mtproto_gen_padding plain_len =
     (let total = align_mask (size_add plain_len 12) 15 in size_sub total plain_len)"

text \<open>\<open>rnd n\<close> stands for the \<open>n\<close> bytes that the random generator returns.\<close>

definition mtproto_encrypt ::
  "cipher \<Rightarrow> hash \<Rightarrow> (nat \<Rightarrow> byte list) \<Rightarrow> byte list \<Rightarrow> byte list \<Rightarrow> nat \<Rightarrow> byte list \<Rightarrow> byte list \<times> byte list" where
  "mtproto_encrypt E sha rnd plain auth_key x out =
     (let pad_len = mtproto_gen_padding (length plain);
          padded = plain @ rnd pad_len;
          msg_key = mtproto_compute_msg_key sha auth_key padded x;
          (aes_key, aes_iv) = mtproto_derive_keys sha auth_key msg_key x
      in (aes_ige_encrypt E padded aes_key aes_iv out, msg_key))"

text \<open>\<open>None\<close> is the return value -1.\<close>

definition mtproto_decrypt ::
  "cipher \<Rightarrow> hash \<Rightarrow> byte list \<Rightarrow> byte list \<Rightarrow> byte list \<Rightarrow> nat \<Rightarrow> byte list \<Rightarrow> byte list option" where
  "mtproto_decrypt D sha cipher auth_key msg_key x out =
     (if length cipher < 16 \<or> length cipher mod 16 \<noteq> 0 then None
      else let (aes_key, aes_iv) = mtproto_derive_keys sha auth_key msg_key x;
               plain = aes_ige_decrypt D cipher aes_key aes_iv out;
               verify_key = mtproto_compute_msg_key sha auth_key plain x
           in if take 16 msg_key \<noteq> verify_key then None else Some plain)"

section \<open>Padding\<close>

lemma gen_padding_bounds:
  assumes "plain_len < 2 ^ 63"
  shows "12 \<le> mtproto_gen_padding plain_len" "mtproto_gen_padding plain_len \<le> 27"
    "(plain_len + mtproto_gen_padding plain_len) mod 16 = 0"
proof -
  define q where "q = (plain_len + 12 + 15) div 16"
  have pad: "mtproto_gen_padding plain_len = 16 * q - plain_len"
    using assms by (simp add: q_def mtproto_gen_padding_def size_add_small align16_eq size_sub_small)
  have le: "plain_len + 12 \<le> 16 * q" "16 * q \<le> plain_len + 27" unfolding q_def by linarith+
  then show "12 \<le> mtproto_gen_padding plain_len" "mtproto_gen_padding plain_len \<le> 27"
    unfolding pad by linarith+
  have "plain_len + mtproto_gen_padding plain_len = 16 * q" using le unfolding pad by linarith
  then show "(plain_len + mtproto_gen_padding plain_len) mod 16 = 0" by simp
qed

section \<open>Encryption and decryption\<close>

text \<open>What the layer relies on of the crypto library.\<close>

definition crypto_ok :: "cipher \<Rightarrow> cipher \<Rightarrow> hash \<Rightarrow> (nat \<Rightarrow> byte list) \<Rightarrow> bool" where
  "crypto_ok E D sha rnd = ((\<forall>key. block_inverse (E key) (D key)) \<and>
     (\<forall>d. length (sha d) = 32) \<and> (\<forall>n. length (rnd n) = n))"

lemma length_derive_keys:
  "\<forall>d. length (sha d) = 32 \<Longrightarrow> mtproto_derive_keys sha auth_key msg_key x = (k, iv) \<Longrightarrow>
   length k = 32 \<and> length iv = 32"
  by (auto simp: mtproto_derive_keys_def Let_def)

lemma length_compute_msg_key:
  "\<forall>d. length (sha d) = 32 \<Longrightarrow> length (mtproto_compute_msg_key sha auth_key plain x) = 16"
  by (simp add: mtproto_compute_msg_key_def)

lemma decrypt_encrypt:
  assumes ok: "crypto_ok E D sha rnd" and len: "length plain < 2 ^ 63"
    and enc: "mtproto_encrypt E sha rnd plain auth_key x out = (cipher, msg_key)"
  shows "mtproto_decrypt D sha cipher auth_key msg_key x out' =
      Some (plain @ rnd (mtproto_gen_padding (length plain)))"
    and "length cipher = length plain + mtproto_gen_padding (length plain)"
    and "length msg_key = 16"
proof -
  let ?padded = "plain @ rnd (mtproto_gen_padding (length plain))"
  note pad = gen_padding_bounds[OF len]
  obtain k iv where keys: "mtproto_derive_keys sha auth_key msg_key x = (k, iv)" by fastforce
  have mk: "msg_key = mtproto_compute_msg_key sha auth_key ?padded x"
    and c: "cipher = aes_ige_encrypt E ?padded k iv out"
    using enc keys by (auto simp: mtproto_encrypt_def Let_def split: prod.splits)
  have sha: "\<forall>d. length (sha d) = 32" and inv: "block_inverse (E k) (D k)"
    and rnd: "length (rnd n) = n" for n
    using ok by (simp_all add: crypto_ok_def)
  have iv: "length iv = 32" using length_derive_keys[OF sha keys] by simp
  have len: "length ?padded = length plain + mtproto_gen_padding (length plain)"
    using rnd by simp
  have big: "16 \<le> n" if "12 \<le> n" "n mod 16 = 0" for n :: nat
    using that by presburger
  have padded: "length ?padded mod 16 = 0" "16 \<le> length ?padded"
    using pad big[of "length ?padded"] unfolding len by simp_all
  then have ne: "?padded \<noteq> []" by (metis list.size(3) not_numeral_le_zero)
  show "length cipher = length plain + mtproto_gen_padding (length plain)"
    using length_aes_ige_encrypt[where E = E and D = D, OF inv iv padded(1) ne] rnd by (simp add: c)
  show mk16: "length msg_key = 16" using length_compute_msg_key[OF sha] by (simp add: mk)
  have "aes_ige_decrypt D cipher k iv out' = ?padded"
    unfolding c by (rule aes_ige_decrypt_encrypt[where E = E and D = D, OF inv iv padded(1) ne])
  then show "mtproto_decrypt D sha cipher auth_key msg_key x out' = Some ?padded"
    using \<open>length cipher = _\<close> padded mk16 rnd mk keys
    by (simp add: mtproto_decrypt_def Let_def)
qed

lemma mtproto_decrypt_length:
  "mtproto_decrypt D sha cipher auth_key msg_key x [] = Some plain \<Longrightarrow> length plain \<le> length cipher"
  using length_aes_ige_decrypt
  by (auto simp: mtproto_decrypt_def Let_def split: if_splits prod.splits)

text \<open>What is accepted: whole blocks, and the hash over the plaintext is the key that came with them.\<close>

lemma mtproto_decrypt_accepts:
  assumes "mtproto_decrypt D sha cipher auth_key msg_key x out = Some plain"
  shows "16 \<le> length cipher" "length cipher mod 16 = 0"
    "take 16 msg_key = take 16 (drop 8 (sha (take 32 (drop (88 + x) auth_key) @ plain)))"
  using assms
  by (auto simp: mtproto_decrypt_def mtproto_compute_msg_key_def Let_def split: if_splits prod.splits)

text \<open>
  C12. What one side encrypts the other side decrypts: with the same authorization key
  and direction, decryption accepts the message key sent along and returns the payload
  followed by its padding.
\<close>

theorem mtproto_decrypt_encrypt:
  assumes "crypto_ok E D sha rnd" "length plain < 2 ^ 63"
    and "mtproto_encrypt E sha rnd plain auth_key x out = (cipher, msg_key)"
  shows "\<exists>padding. 12 \<le> length padding \<and> length padding \<le> 27 \<and>
    mtproto_decrypt D sha cipher auth_key msg_key x out' = Some (plain @ padding)"
  using decrypt_encrypt(1)[OF assms, of out'] gen_padding_bounds[OF assms(2)] assms(1)
  by (intro exI[of _ "rnd (mtproto_gen_padding (length plain))"]) (simp add: crypto_ok_def)

text \<open>A hash and a generator for examples.\<close>

definition toy_hash :: hash where
  "toy_hash d = replicate 32 (fold (\<lambda>x a. a XOR x) d 0)"

lemma toy_crypto_ok: "crypto_ok toy_cipher toy_cipher toy_hash (\<lambda>n. replicate n 3)"
  by (simp add: crypto_ok_def toy_cipher_inverse toy_hash_def)

theorem mtproto_decrypt_encrypt_witness:
  "crypto_ok toy_cipher toy_cipher toy_hash (\<lambda>n. replicate n 3) \<and>
   (\<exists>padding. 12 \<le> length padding \<and>
     (case mtproto_encrypt toy_cipher toy_hash (\<lambda>n. replicate n 3) [1, 2, 3] (replicate 256 9) 0 []
      of (cipher, msg_key) \<Rightarrow> mtproto_decrypt toy_cipher toy_hash cipher (replicate 256 9) msg_key 0 []
        = Some ([1, 2, 3] @ padding)))"
proof -
  obtain cipher msg_key where enc: "mtproto_encrypt toy_cipher toy_hash (\<lambda>n. replicate n 3)
      [1, 2, 3] (replicate 256 9) 0 [] = (cipher, msg_key)"
    by fastforce
  have "length [1::byte, 2, 3] < 2 ^ 63" by simp
  from mtproto_decrypt_encrypt[OF toy_crypto_ok this enc, of "[]"] toy_crypto_ok enc
  show ?thesis by auto
qed

end
