(* ===== verification/Session.thy ===== *)
theory Session
  imports C_Monad
begin

text \<open>
  The MTProto session state of \<open>src/src/core/mtproto_session.c\<close>. The clock and the random
  generator are inputs of the operations that read them.
\<close>

unbundle bit_operations_syntax

record mtproto_session =
  session_id :: u64
  server_salt :: u64
  seq_no :: u32
  last_msg_id :: u64
  auth_key :: "byte list"
  has_auth_key :: bool

definition mtproto_session_init :: "u64 \<Rightarrow> mtproto_session" where
  "mtproto_session_init rand =
     \<lparr>session_id = (if rand = 0 then 1 else rand), server_salt = 0, seq_no = 0, last_msg_id = 0,
      auth_key = replicate 256 0, has_auth_key = False\<rparr>"

definition mtproto_session_renew_id :: "u64 \<Rightarrow> mtproto_session \<Rightarrow> mtproto_session" where
  "mtproto_session_renew_id rand s =
     s\<lparr>session_id := (if rand = 0 then 1 else rand), seq_no := 0, last_msg_id := 0\<rparr>"

definition mtproto_session_next_msg_id :: "u64 \<Rightarrow> u32 \<Rightarrow> mtproto_session \<Rightarrow> u64 \<times> mtproto_session" where
  "mtproto_session_next_msg_id now low s =
     (let msg_id = push_bit 32 now OR (ucast low AND 0xFFFFFFFC);
          msg_id = (if msg_id \<le> last_msg_id s then last_msg_id s + 4 else msg_id);
          msg_id = msg_id AND NOT 3
      in (msg_id, s\<lparr>last_msg_id := msg_id\<rparr>))"

definition mtproto_session_next_seq_no :: "bool \<Rightarrow> mtproto_session \<Rightarrow> u32 \<times> mtproto_session" where
  "mtproto_session_next_seq_no content_related s =
     (seq_no s * 2 + (if content_related then 1 else 0),
      if content_related then s\<lparr>seq_no := seq_no s + 1\<rparr> else s)"

definition mtproto_session_set_auth_key :: "byte list \<Rightarrow> mtproto_session \<Rightarrow> mtproto_session" where
  "mtproto_session_set_auth_key key s = s\<lparr>auth_key := take 256 key, has_auth_key := True\<rparr>"

definition mtproto_session_set_salt :: "u64 \<Rightarrow> mtproto_session \<Rightarrow> mtproto_session" where
  "mtproto_session_set_salt salt s = s\<lparr>server_salt := salt\<rparr>"

text \<open>
  Files are a map from paths to contents. \<open>written\<close> is what \<open>fwrite\<close> returns, and
  \<open>opens\<close> says whether \<open>fopen\<close> succeeds for writing.
\<close>

type_synonym files = "string \<rightharpoonup> byte list"

definition mtproto_session_save_auth_key ::
  "bool \<Rightarrow> nat \<Rightarrow> mtproto_session \<Rightarrow> string \<Rightarrow> files \<Rightarrow> unit outcome \<times> files" where
  "mtproto_session_save_auth_key opens written s path fs =
     (if \<not> has_auth_key s then (Fail, fs)
      else if \<not> opens then (Fail, fs)
      else (if written = 256 then Ok () else Fail, fs(path \<mapsto> take (min written 256) (auth_key s))))"

text \<open>
  \<open>fread\<close> puts the bytes that are there into the key buffer before the length is
  checked.
\<close>

definition mtproto_session_load_auth_key ::
  "string \<Rightarrow> files \<Rightarrow> (mtproto_session, unit) cfun" where
  "mtproto_session_load_auth_key path fs s =
     (case fs path of
        None \<Rightarrow> (Fail, s)
      | Some content \<Rightarrow>
          let got = take 256 content;
              s' = s\<lparr>auth_key := got @ drop (length got) (auth_key s)\<rparr>
          in if length got \<noteq> 256 then (Fail, s') else (Ok (), s'\<lparr>has_auth_key := True\<rparr>))"

section \<open>Message identifiers\<close>

lemma and_not_3: "unat ((w :: u64) AND NOT 3) = 4 * (unat w div 4)"
proof -
  have "(3 :: u64) = mask 2" by (simp add: mask_eq_exp_minus_1)
  then have "w AND NOT 3 = push_bit 2 (drop_bit 2 w)" by (simp only: and_not_mask_word)
  then have "unat (w AND NOT 3) = take_bit 64 (push_bit 2 (drop_bit 2 (unat w)))"
    by (simp only: unsigned_push_bit_eq unsigned_drop_bit_eq)
      (simp add: take_bit_nat_eq_self unsigned_less[of w, simplified])
  also have "\<dots> = take_bit 64 (4 * (unat w div 4))"
    by (simp add: push_bit_eq_mult drop_bit_eq_div mult.commute)
  also have "\<dots> = 4 * (unat w div 4)"
  proof (rule take_bit_nat_eq_self)
    have "4 * (unat w div 4) \<le> unat w" by simp
    also have "\<dots> < 2 ^ LENGTH(64)" by (rule unsigned_less)
    finally show "4 * (unat w div 4) < 2 ^ 64" by simp
  qed
  finally show ?thesis .
qed

lemma unat_push_bit:
  assumes "2 ^ k * unat w < 2 ^ 64"
  shows "unat (push_bit k (w :: u64)) = 2 ^ k * unat w"
proof -
  have "unat (push_bit k w) = take_bit 64 (push_bit k (unat w))"
    by (simp only: unsigned_push_bit_eq) simp
  also have "push_bit k (unat w) = 2 ^ k * unat w" by (simp only: push_bit_eq_mult mult.commute)
  finally show ?thesis using assms by (simp add: take_bit_nat_eq_self)
qed

text \<open>The identifier before the monotonicity check: the time in the upper half, a random
  multiple of four in the lower half.\<close>

lemma fresh_msg_id:
  assumes "unat (now :: u64) < 2 ^ 32"
  shows "\<exists>l < 2 ^ 30. unat (push_bit 32 now OR (ucast (low :: u32) AND 0xFFFFFFFC)) =
    2 ^ 32 * unat now + 4 * l"
proof -
  let ?low = "ucast low AND 0xFFFFFFFC :: u64"
  define l where "l = take_bit 30 (drop_bit 2 (unat low))"
  have m: "(0xFFFFFFFC :: u64) = push_bit 2 (mask 30)" by (simp add: mask_eq_exp_minus_1)
  have low: "?low = push_bit 2 (take_bit 30 (drop_bit 2 (ucast low)))"
  proof (unfold m, rule bit_word_eqI)
    have "Suc (Suc (n - 2)) = n" if "2 \<le> n" for n using that by simp
    then show "bit (ucast low AND push_bit 2 (mask 30) :: u64) n =
        bit (push_bit 2 (take_bit 30 (drop_bit 2 (ucast low))) :: u64) n" for n
      by (auto simp: bit_simps)
  qed
  have "push_bit 32 now OR ?low = push_bit 32 now + ?low"
    unfolding low by (rule disjunctive_add[symmetric]) (auto simp: bit_simps)
  moreover have "unat (push_bit 32 now) = 2 ^ 32 * unat now"
    using assms by (intro unat_push_bit) simp
  moreover have l30: "l < 2 ^ 30" unfolding l_def by (rule take_bit_nat_less_exp)
  have "unat low < 2 ^ LENGTH(32)" by (rule unsigned_less)
  then have "unat (take_bit 30 (drop_bit 2 (ucast low)) :: u64) = l"
    by (simp add: l_def unsigned_take_bit_eq unsigned_drop_bit_eq unsigned_ucast_eq
        take_bit_nat_eq_self)
  then have "unat ?low = 4 * l"
    using l30 unat_push_bit[of 2 "take_bit 30 (drop_bit 2 (ucast low))"] by (simp only: low) simp
  ultimately have "unat (push_bit 32 now OR ?low) = 2 ^ 32 * unat now + 4 * l"
    using assms l30 by (simp add: unat_word_ariths)
  with l30 show ?thesis by blast
qed

text \<open>One call: the new identifier is a multiple of four and above the last one.\<close>

lemma next_msg_id_step:
  assumes call: "mtproto_session_next_msg_id now low s = (msg_id, s')"
    and now: "unat now < 2 ^ 31" and last: "unat (last_msg_id s) mod 4 = 0" "unat (last_msg_id s) < 2 ^ 64 - 4"
  shows "unat (last_msg_id s) < unat msg_id" "unat msg_id mod 4 = 0"
    "2 ^ 32 * unat now \<le> unat msg_id" "unat msg_id \<le> max (unat (last_msg_id s) + 4) (2 ^ 63)"
    "last_msg_id s' = msg_id"
proof -
  let ?last = "last_msg_id s"
  let ?fresh = "push_bit 32 now OR (ucast low AND 0xFFFFFFFC) :: u64"
  obtain l where l: "l < 2 ^ 30" "unat ?fresh = 2 ^ 32 * unat now + 4 * l"
    using fresh_msg_id[of now low] now by auto
  define m where "m = (if ?fresh \<le> ?last then ?last + 4 else ?fresh)"
  have call: "msg_id = m AND NOT 3" "last_msg_id s' = msg_id"
    using call by (auto simp: mtproto_session_next_msg_id_def Let_def m_def)
  have m: "unat m = (if unat ?fresh \<le> unat ?last then unat ?last + 4 else unat ?fresh)"
    using last(2) by (simp add: m_def word_le_nat_alt unat_word_ariths)
  have four: "4 * (n div 4) = n" if "n mod 4 = 0" for n :: nat using that by auto
  have "(2 ^ 32 * unat now + 4 * l) mod 4 = 0" by (simp add: mod_add_left_eq[symmetric])
  then have "unat m mod 4 = 0" using last(1) l(2) m by (auto split: if_splits)
  then have id: "unat msg_id = unat m" by (simp only: call(1) and_not_3 four)
  show "unat ?last < unat msg_id" "unat msg_id mod 4 = 0" "2 ^ 32 * unat now \<le> unat msg_id"
    using m l \<open>unat m mod 4 = 0\<close> unfolding id by (auto split: if_splits)
  show "unat msg_id \<le> max (unat ?last + 4) (2 ^ 63)" "last_msg_id s' = msg_id"
    using m l now call(2) unfolding id by (auto split: if_splits)
qed

text \<open>A run of calls, each with the clock and random word it reads.\<close>

primrec msg_ids :: "(u64 \<times> u32) list \<Rightarrow> mtproto_session \<Rightarrow> u64 list" where
  "msg_ids [] s = []"
| "msg_ids (x # xs) s = (case mtproto_session_next_msg_id (fst x) (snd x) s of
     (msg_id, s') \<Rightarrow> msg_id # msg_ids xs s')"

lemma msg_ids_increasing:
  assumes "\<forall>x \<in> set xs. unat (fst x) < 2 ^ 31" "unat (last_msg_id s) mod 4 = 0"
    and "unat (last_msg_id s) \<le> 2 ^ 63 + 4 * k" "k + length xs < 2 ^ 60"
  shows "sorted_wrt (<) (last_msg_id s # msg_ids xs s) \<and> (\<forall>i \<in> set (msg_ids xs s). unat i mod 4 = 0)"
  using assms
proof (induction xs arbitrary: s k)
  case (Cons x xs)
  obtain msg_id s' where call: "mtproto_session_next_msg_id (fst x) (snd x) s = (msg_id, s')" by fastforce
  have "unat (last_msg_id s) < 2 ^ 64 - 4" using Cons.prems(3,4) by simp
  note step = next_msg_id_step[OF call _ Cons.prems(2) this]
  have now: "unat (fst x) < 2 ^ 31" using Cons.prems(1) by simp
  note step = step[OF now]
  have le: "unat (last_msg_id s') \<le> 2 ^ 63 + 4 * Suc k"
    using step(4) Cons.prems(3) unfolding step(5) by simp
  have mod: "unat (last_msg_id s') mod 4 = 0" using step(2) unfolding step(5) .
  have rest: "\<forall>x \<in> set xs. unat (fst x) < 2 ^ 31" "Suc k + length xs < 2 ^ 60"
    using Cons.prems(1,4) by simp_all
  from Cons.IH[OF rest(1) mod le rest(2)]
  have IH: "sorted_wrt (<) (msg_id # msg_ids xs s')" "\<forall>i \<in> set (msg_ids xs s'). unat i mod 4 = 0"
    unfolding step(5) by (rule conjunct1, rule conjunct2)
  have "last_msg_id s < msg_id" using step(1) unfolding word_less_nat_alt .
  with IH have "sorted_wrt (<) (last_msg_id s # msg_id # msg_ids xs s')"
    by (auto intro: less_trans)
  with IH(2) step(2) show ?case by (simp add: call)
qed simp

text \<open>
  C19. Over any run of calls, whatever the clock does (standing still and running
  backwards included) and whatever the random generator returns, the message identifiers
  are strictly increasing multiples of four; the clock is taken to stay before 2038 and the
  run to have fewer than 2^60 calls.
\<close>

theorem msg_ids_strictly_increasing:
  assumes "\<forall>x \<in> set xs. unat (fst x) < 2 ^ 31" "length xs < 2 ^ 60"
  shows "sorted_wrt (<) (msg_ids xs (mtproto_session_init rand)) \<and>
    (\<forall>i \<in> set (msg_ids xs (mtproto_session_init rand)). unat i mod 4 = 0 \<and> i > 0)"
  using msg_ids_increasing[of xs "mtproto_session_init rand" 0] assms
  by (auto simp: mtproto_session_init_def)

theorem msg_ids_strictly_increasing_witness:
  "unat (5 :: u64) < 2 ^ 31 \<and> sorted_wrt (<) (msg_ids [(5, 9), (5, 9), (4, 1)] (mtproto_session_init 1))"
  using msg_ids_strictly_increasing[of "[(5, 9), (5, 9), (4, 1)]" 1] by simp

section \<open>Sequence numbers\<close>

primrec seq_nos :: "bool list \<Rightarrow> mtproto_session \<Rightarrow> u32 list" where
  "seq_nos [] s = []"
| "seq_nos (c # cs) s = (case mtproto_session_next_seq_no c s of (q, s') \<Rightarrow> q # seq_nos cs s')"

lemma seq_nos_count:
  "i < length cs \<Longrightarrow>
   seq_nos cs s ! i = 2 * (seq_no s + word_of_nat (length (filter id (take i cs)))) + (if cs ! i then 1 else 0)"
proof (induction cs arbitrary: s i)
  case (Cons c cs)
  then show ?case
    by (cases i) (auto simp: mtproto_session_next_seq_no_def algebra_simps)
qed simp

text \<open>
  C20. The sequence number of a message is twice the number of content-related messages
  sent before it, plus one when it is content-related itself: it is odd exactly for the
  messages the server has to acknowledge.
\<close>

theorem seq_no_counts_content:
  assumes "i < length cs" "length cs < 2 ^ 31" "s = mtproto_session_renew_id rand s0"
  shows "unat (seq_nos cs s ! i) = 2 * length (filter id (take i cs)) + (if cs ! i then 1 else 0)"
proof -
  let ?n = "length (filter id (take i cs))"
  have "?n \<le> length (take i cs)" by (rule length_filter_le)
  then have "?n < 2 ^ 31 - 1" using assms(1,2) by simp
  then have "unat (2 * (word_of_nat ?n :: u32) + (if cs ! i then 1 else 0)) =
      2 * ?n + (if cs ! i then 1 else 0)"
    by (simp add: unat_word_ariths unat_of_nat)
  then show ?thesis using assms(3) by (simp add: seq_nos_count[OF assms(1)] mtproto_session_renew_id_def)
qed

theorem seq_no_counts_content_witness:
  "unat (seq_nos [True, False, True] (mtproto_session_renew_id 5 (mtproto_session_init 3)) ! 2) = 3"
  using seq_no_counts_content[of 2 "[True, False, True]", OF _ _ refl, of 5 "mtproto_session_init 3"]
  by simp

section \<open>The key file\<close>

text \<open>
  C21. A key that was saved completely is what a later load puts into any session, and
  loading marks the session as having a key.
\<close>

theorem auth_key_save_load:
  assumes "length (auth_key s) = 256"
    and "mtproto_session_save_auth_key opens written s path fs = (Ok (), fs')"
  shows "mtproto_session_load_auth_key path fs' t =
    (Ok (), t\<lparr>auth_key := auth_key s @ drop 256 (auth_key t), has_auth_key := True\<rparr>)"
  using assms
  by (auto simp: mtproto_session_save_auth_key_def mtproto_session_load_auth_key_def Let_def
      split: if_splits)

theorem auth_key_save_load_witness:
  "fst (mtproto_session_load_auth_key ''key''
     (snd (mtproto_session_save_auth_key True 256
       (mtproto_session_set_auth_key (replicate 256 7) (mtproto_session_init 1)) ''key'' Map.empty))
     (mtproto_session_init 2)) = Ok ()"
proof -
  let ?s = "mtproto_session_set_auth_key (replicate 256 7) (mtproto_session_init 1)"
  have "mtproto_session_save_auth_key True 256 ?s ''key'' Map.empty =
      (Ok (), [''key'' \<mapsto> replicate 256 7])" and "length (auth_key ?s) = 256"
    by (simp_all add: mtproto_session_save_auth_key_def mtproto_session_set_auth_key_def)
  with auth_key_save_load[of ?s True 256 "''key''" Map.empty _ "mtproto_session_init 2"]
  show ?thesis by simp
qed

text \<open>
  A short key file is reported as an error, but its bytes are already in the key buffer
  and a session that had a key still counts as having one.
\<close>

lemma load_short_key_clobbers:
  assumes "fs path = Some content" "length content < 256" "has_auth_key s"
  shows "mtproto_session_load_auth_key path fs s =
    (Fail, s\<lparr>auth_key := content @ drop (length content) (auth_key s)\<rparr>) \<and>
    has_auth_key (snd (mtproto_session_load_auth_key path fs s))"
  using assms by (simp add: mtproto_session_load_auth_key_def Let_def)

end
