(* ===== verification/Transport.thy ===== *)
theory Transport
  imports C_Monad
begin

text \<open>
  The abridged MTProto transport of \<open>src/src/infrastructure/transport.c\<close>. The operating
  system's sockets are modelled by the list of answers they give: a call is interrupted,
  breaks, or moves some bytes, fewer than asked for if the kernel likes. A call for which
  no answer is left has not returned yet; its outcome is \<open>Fuel\<close>.
\<close>

unbundle bit_operations_syntax

section \<open>Sockets\<close>

datatype io_answer = Interrupted | Broken | Moves nat

text \<open>
  \<open>sent\<close> are the bytes the peer has been sent, \<open>incoming\<close> the bytes of the peer not yet
  read and \<open>open_fds\<close> the open descriptors.
\<close>

record net =
  script :: "io_answer list"
  sent :: "byte list"
  incoming :: "byte list"
  open_fds :: "int set"

text \<open>
  One \<open>send\<close> or \<open>recv\<close>: the result (\<open>None\<close> for -1) and whether \<open>errno\<close> is \<open>EINTR\<close>
  or \<open>EAGAIN\<close>.
\<close>

definition sys_socket_send :: "byte list \<Rightarrow> (net, nat option \<times> bool) cfun" where
  "sys_socket_send buf w = (case script w of
     [] \<Rightarrow> (Fuel, w)
   | a # rest \<Rightarrow>
       let w = w\<lparr>script := rest\<rparr> in
       case a of
         Interrupted \<Rightarrow> (Ok (None, True), w)
       | Broken \<Rightarrow> (Ok (None, False), w)
       | Moves n \<Rightarrow> (Ok (Some (min n (length buf)), False), w\<lparr>sent := sent w @ take n buf\<rparr>))"

definition sys_socket_recv :: "nat \<Rightarrow> (net, byte list option \<times> bool) cfun" where
  "sys_socket_recv len w = (case script w of
     [] \<Rightarrow> (Fuel, w)
   | a # rest \<Rightarrow>
       let w = w\<lparr>script := rest\<rparr> in
       case a of
         Interrupted \<Rightarrow> (Ok (None, True), w)
       | Broken \<Rightarrow> (Ok (None, False), w)
       | Moves n \<Rightarrow> (Ok (Some (take (min n len) (incoming w)), False),
           w\<lparr>incoming := drop (min n len) (incoming w)\<rparr>))"

text \<open>The loops \<open>do n = \<dots> while (n < 0 && (errno == EINTR || errno == EAGAIN))\<close>.\<close>

function send_retry :: "byte list \<Rightarrow> (net, nat option) cfun" where
  "send_retry buf w = (case sys_socket_send buf w of
     (Ok (n, again), w') \<Rightarrow> if n = None \<and> again then send_retry buf w' else (Ok n, w')
   | (Fail, w') \<Rightarrow> (Fail, w') | (Oob, w') \<Rightarrow> (Oob, w') | (Fuel, w') \<Rightarrow> (Fuel, w'))"
  by pat_completeness auto
termination
  by (relation "measure (\<lambda>(_, w). length (script w))")
    (auto simp: sys_socket_send_def Let_def del: dropWhile_eq_Nil_conv
        split: list.splits io_answer.splits)

function recv_retry :: "nat \<Rightarrow> (net, byte list option) cfun" where
  "recv_retry len w = (case sys_socket_recv len w of
     (Ok (r, again), w') \<Rightarrow> if r = None \<and> again then recv_retry len w' else (Ok r, w')
   | (Fail, w') \<Rightarrow> (Fail, w') | (Oob, w') \<Rightarrow> (Oob, w') | (Fuel, w') \<Rightarrow> (Fuel, w'))"
  by pat_completeness auto
termination
  by (relation "measure (\<lambda>(_, w). length (script w))")
    (auto simp: sys_socket_recv_def Let_def del: dropWhile_eq_Nil_conv
        split: list.splits io_answer.splits)

declare send_retry.simps [simp del] recv_retry.simps [simp del]

section \<open>Connecting and closing\<close>

record transport =
  transport_fd :: int
  transport_dc_id :: int
  transport_connected :: int

definition transport_init :: transport where
  "transport_init = \<lparr>transport_fd = -1, transport_dc_id = 0, transport_connected = 0\<rparr>"

abbreviation (input) ABRIDGED_MARKER :: byte where "ABRIDGED_MARKER \<equiv> 0xEF"

definition sys_socket_close :: "int \<Rightarrow> net \<Rightarrow> net" where
  "sys_socket_close fd w = w\<lparr>open_fds := open_fds w - {fd}\<rparr>"

text \<open>
  \<open>created\<close> is what \<open>sys_socket_create\<close> returns and \<open>rc\<close> what \<open>sys_socket_connect\<close> does.
\<close>

definition transport_connect :: "int \<Rightarrow> int \<Rightarrow> (transport \<times> net, unit) cfun" where
  "transport_connect created rc tw =
     (let t = (fst tw)\<lparr>transport_fd := created\<rparr>; w = snd tw in
      if transport_fd t < 0 then (Fail, (t, w))
      else
        let w = w\<lparr>open_fds := insert created (open_fds w)\<rparr> in
        if rc < 0 then (Fail, (t\<lparr>transport_fd := -1\<rparr>, sys_socket_close (transport_fd t) w))
        else case send_retry [ABRIDGED_MARKER] w of
          (Ok msent, w) \<Rightarrow>
            if msent \<noteq> Some 1
            then (Fail, (t\<lparr>transport_fd := -1\<rparr>, sys_socket_close (transport_fd t) w))
            else (Ok (), (t\<lparr>transport_connected := 1\<rparr>, w))
        | (Fail, w) \<Rightarrow> (Fail, (t, w)) | (Oob, w) \<Rightarrow> (Oob, (t, w)) | (Fuel, w) \<Rightarrow> (Fuel, (t, w)))"

definition transport_close :: "transport \<times> net \<Rightarrow> transport \<times> net" where
  "transport_close tw =
     (if transport_fd (fst tw) \<ge> 0
      then ((fst tw)\<lparr>transport_fd := -1, transport_connected := 0\<rparr>,
            sys_socket_close (transport_fd (fst tw)) (snd tw))
      else tw)"

section \<open>Sending and receiving a packet\<close>

definition send_exact :: "byte list \<Rightarrow> (net, unit) cfun" where
  "send_exact prefix = bind (send_retry prefix) (\<lambda>n.
     if n \<noteq> Some (length prefix) then fail else skip)"

text \<open>The payload loop; \<open>buf\<close> is \<open>data + total\<close>.\<close>

function send_all :: "byte list \<Rightarrow> (net, unit) cfun" where
  "send_all buf w =
     (if buf = [] then (Ok (), w)
      else case send_retry buf w of
        (Ok n, w') \<Rightarrow> (case n of
           None \<Rightarrow> (Fail, w')
         | Some k \<Rightarrow> if k = 0 then (Fail, w') else send_all (drop k buf) w')
      | (Fail, w') \<Rightarrow> (Fail, w') | (Oob, w') \<Rightarrow> (Oob, w') | (Fuel, w') \<Rightarrow> (Fuel, w'))"
  by pat_completeness auto
termination
  by (relation "measure (\<lambda>(buf, _). length buf)") auto

declare send_all.simps [simp del]

definition transport_send :: "transport \<Rightarrow> byte list \<Rightarrow> (net, unit) cfun" where
  "transport_send t data =
     (if data = [] \<or> transport_fd t < 0 then fail
      else if length data mod 4 \<noteq> 0 then fail
      else let wire_len = word_of_nat (length data div 4) :: u64 in
        bind (if wire_len < 0x7F then send_exact [ucast wire_len]
              else send_exact [0x7F, ucast (wire_len AND 0xFF), ucast (drop_bit 8 wire_len AND 0xFF),
                ucast (drop_bit 16 wire_len AND 0xFF)])
          (\<lambda>_. send_all data))"

text \<open>\<open>got\<close> is what has been stored at \<open>out\<close> so far.\<close>

function recv_all :: "nat \<Rightarrow> byte list \<Rightarrow> (net, byte list) cfun" where
  "recv_all payload_len got w =
     (if length got < payload_len then
        case recv_retry (payload_len - length got) w of
          (Ok r, w') \<Rightarrow> (case r of
             None \<Rightarrow> (Fail, w')
           | Some bs \<Rightarrow> if bs = [] then (Fail, w') else recv_all payload_len (got @ bs) w')
        | (Fail, w') \<Rightarrow> (Fail, w') | (Oob, w') \<Rightarrow> (Oob, w') | (Fuel, w') \<Rightarrow> (Fuel, w')
      else (Ok got, w))"
  by pat_completeness auto
termination
  by (relation "measure (\<lambda>(payload_len, got, _). payload_len - length got)")
    (auto simp: neq_Nil_conv)

declare recv_all.simps [simp del]

definition recv_exact :: "nat \<Rightarrow> (net, byte list) cfun" where
  "recv_exact n = bind (recv_retry n) (\<lambda>r. case r of
     None \<Rightarrow> fail
   | Some bs \<Rightarrow> if length bs \<noteq> n then fail else ret bs)"

text \<open>
  The result is \<open>out[0..out_len)\<close>. A four-byte payload that carries a server error code
  is logged and returned like any other.
\<close>

definition transport_recv :: "transport \<Rightarrow> nat \<Rightarrow> (net, byte list) cfun" where
  "transport_recv t max_len =
     (if transport_fd t < 0 then fail
      else bind (recv_exact 1) (\<lambda>first.
        bind (if hd first < 0x7F then ret (unat (hd first))
              else bind (recv_exact 3) (\<lambda>extra. ret (unat (le_word extra :: u64)))) (\<lambda>wire_len.
          let payload_len = wire_len * 4 in
          if payload_len = 0 then ret []
          else if payload_len > max_len then fail
          else recv_all payload_len [])))"

section \<open>What a call does to the connection\<close>

text \<open>The retry loops skip interruptions and act on the first other answer.\<close>

lemma send_retry_eq:
  "send_retry buf w = (case dropWhile ((=) Interrupted) (script w) of
     [] \<Rightarrow> (Fuel, w\<lparr>script := []\<rparr>)
   | a # rest \<Rightarrow> (case a of
       Moves n \<Rightarrow> (Ok (Some (min n (length buf))), w\<lparr>script := rest, sent := sent w @ take n buf\<rparr>)
     | _ \<Rightarrow> (Ok None, w\<lparr>script := rest\<rparr>)))"
proof (induction "script w" arbitrary: w)
  case Nil
  then show ?case by (subst send_retry.simps) (simp add: sys_socket_send_def)
next
  case (Cons a rest)
  show ?case
    using Cons.hyps(1)[of "w\<lparr>script := rest\<rparr>"] Cons.hyps(2)[symmetric]
    by (subst send_retry.simps) (cases a; simp add: sys_socket_send_def Let_def del: dropWhile_eq_Nil_conv
        split: list.splits io_answer.splits)
qed

lemma recv_retry_eq:
  "recv_retry len w = (case dropWhile ((=) Interrupted) (script w) of
     [] \<Rightarrow> (Fuel, w\<lparr>script := []\<rparr>)
   | a # rest \<Rightarrow> (case a of
       Moves n \<Rightarrow> (Ok (Some (take (min n len) (incoming w))),
         w\<lparr>script := rest, incoming := drop (min n len) (incoming w)\<rparr>)
     | _ \<Rightarrow> (Ok None, w\<lparr>script := rest\<rparr>)))"
proof (induction "script w" arbitrary: w)
  case Nil
  then show ?case by (subst recv_retry.simps) (simp add: sys_socket_recv_def)
next
  case (Cons a rest)
  show ?case
    using Cons.hyps(1)[of "w\<lparr>script := rest\<rparr>"] Cons.hyps(2)[symmetric]
    by (subst recv_retry.simps) (cases a; simp add: sys_socket_recv_def Let_def del: dropWhile_eq_Nil_conv
        split: list.splits io_answer.splits)
qed

text \<open>Sending appends to \<open>sent\<close> and touches nothing else of the connection.\<close>

lemma send_retry_sent:
  assumes "send_retry buf w = (res, w')"
  shows "incoming w' = incoming w \<and> open_fds w' = open_fds w \<and>
    (case res of Ok (Some k) \<Rightarrow> k \<le> length buf \<and> sent w' = sent w @ take k buf | _ \<Rightarrow> sent w' = sent w) \<and>
    res \<noteq> Fail \<and> res \<noteq> Oob"
  using assms
  by (auto simp: send_retry_eq min_def split: list.splits io_answer.splits)

lemma recv_retry_incoming:
  assumes "recv_retry len w = (res, w')"
  shows "sent w' = sent w \<and> open_fds w' = open_fds w \<and>
    (case res of Ok (Some bs) \<Rightarrow> length bs \<le> len \<and> incoming w = bs @ incoming w'
     | _ \<Rightarrow> incoming w' = incoming w) \<and> res \<noteq> Fail \<and> res \<noteq> Oob"
  using assms
  by (auto simp: recv_retry_eq split: list.splits io_answer.splits)

lemma send_exact_sent:
  assumes "send_exact p w = (res, w')"
  shows "incoming w' = incoming w \<and> open_fds w' = open_fds w \<and> res \<noteq> Oob \<and>
    (if res = Ok () then sent w' = sent w @ p else \<exists>k \<le> length p. sent w' = sent w @ take k p)"
proof -
  obtain r w1 where call: "send_retry p w = (r, w1)" by fastforce
  from send_retry_sent[OF this] assms call show ?thesis
    by (cases r) (auto simp: send_exact_def bind_def fail_def ret_def
        split: if_splits option.splits intro: exI[of _ 0])
qed

lemma send_all_sent:
  assumes "send_all buf w = (res, w')"
  shows "incoming w' = incoming w \<and> open_fds w' = open_fds w \<and> res \<noteq> Oob \<and>
    (if res = Ok () then sent w' = sent w @ buf else \<exists>k \<le> length buf. sent w' = sent w @ take k buf)"
  using assms
proof (induction buf w rule: send_all.induct)
  case (1 buf w)
  show ?case
  proof (cases "buf = []")
    case True
    then show ?thesis using "1.prems" by (auto simp: send_all.simps)
  next
    case False
    obtain r w1 where call: "send_retry buf w = (r, w1)" by fastforce
    note one = send_retry_sent[OF call]
    show ?thesis
    proof (cases "\<exists>k. r = Ok (Some (Suc k))")
      case True
      then obtain k where r: "r = Ok (Some (Suc k))" by blast
      then have "send_all (drop (Suc k) buf) w1 = (res, w')"
        using "1.prems" False call by (simp add: send_all.simps[of buf])
      from "1.IH"[OF False call[symmetric] r refl _ this] one r
      have IH: "incoming w' = incoming w" "open_fds w' = open_fds w" "res \<noteq> Oob"
        "if res = Ok () then sent w' = sent w1 @ drop (Suc k) buf
         else \<exists>j \<le> length (drop (Suc k) buf). sent w' = sent w1 @ take j (drop (Suc k) buf)"
        "Suc k \<le> length buf" "sent w1 = sent w @ take (Suc k) buf"
        by auto
      show ?thesis
      proof (cases "res = Ok ()")
        case True
        then show ?thesis using IH by simp
      next
        case False
        then obtain j where "j \<le> length buf - Suc k" "sent w' = sent w @ take (Suc k) buf @ take j (drop (Suc k) buf)"
          using IH by auto
        then show ?thesis using IH False
          by (auto simp: take_add[symmetric] intro!: exI[of _ "Suc k + j"])
      qed
    next
      case other: False
      have "res \<noteq> Ok () \<and> res \<noteq> Oob \<and> w' = w1 \<and> sent w1 = sent w"
        using "1.prems" False call one other
        by (cases r) (auto simp: send_all.simps[of buf] gr0_conv_Suc split: option.splits if_splits)
      then show ?thesis using one by (auto intro: exI[of _ 0])
    qed
  qed
qed

lemma recv_all_incoming:
  assumes "recv_all payload_len got w = (res, w')" "length got \<le> payload_len"
  shows "sent w' = sent w \<and> open_fds w' = open_fds w \<and> res \<noteq> Oob \<and>
    (case res of Ok out \<Rightarrow> length out = payload_len \<and> got @ incoming w = out @ incoming w' | _ \<Rightarrow> True)"
  using assms
proof (induction payload_len got w rule: recv_all.induct)
  case (1 payload_len got w)
  show ?case
  proof (cases "length got < payload_len")
    case False
    then show ?thesis using "1.prems" by (auto simp: recv_all.simps[of payload_len got])
  next
    case True
    obtain r w1 where call: "recv_retry (payload_len - length got) w = (r, w1)" by fastforce
    note one = recv_retry_incoming[OF call]
    show ?thesis
    proof (cases "\<exists>b bs. r = Ok (Some (b # bs))")
      case more: True
      then obtain b bs where r: "r = Ok (Some (b # bs))" by blast
      then have "recv_all payload_len (got @ b # bs) w1 = (res, w')"
        using "1.prems" True call by (simp add: recv_all.simps[of payload_len got])
      moreover have "length (got @ b # bs) \<le> payload_len" using one r True by auto
      ultimately show ?thesis using "1.IH"[OF True call[symmetric] r refl] one r
        by (cases res) simp_all
    next
      case other: False
      then have "r \<noteq> Ok (Some bs) \<or> bs = []" for bs by (cases bs) auto
      then have "res \<noteq> Oob \<and> (\<forall>out. res \<noteq> Ok out) \<and> w' = w1"
        using "1.prems"(1) True call one
        by (cases r) (auto simp: recv_all.simps[of payload_len got] split: option.splits if_splits)
      then show ?thesis using one by (cases res) simp_all
    qed
  qed
qed

lemma recv_exact_incoming:
  assumes "recv_exact n w = (res, w')"
  shows "sent w' = sent w \<and> open_fds w' = open_fds w \<and> res \<noteq> Oob \<and>
    (case res of Ok out \<Rightarrow> length out = n \<and> incoming w = out @ incoming w' | _ \<Rightarrow> True)"
proof -
  obtain r w1 where call: "recv_retry n w = (r, w1)" by fastforce
  from recv_retry_incoming[OF this] assms call show ?thesis
    by (cases r) (auto simp: recv_exact_def bind_def fail_def ret_def split: if_splits option.splits)
qed

section \<open>Frames\<close>

text \<open>The bytes of a packet on the wire.\<close>

definition frame_prefix :: "nat \<Rightarrow> byte list" where
  "frame_prefix wire_len =
     (if wire_len < 0x7F then [word_of_nat wire_len]
      else 0x7F # le_bytes 3 (word_of_nat wire_len :: u64))"

definition frame :: "byte list \<Rightarrow> byte list" where
  "frame data = frame_prefix (length data div 4) @ data"

lemma ucast_and_255: "(ucast (v AND 0xFF :: u64) :: byte) = ucast v"
proof -
  have "(0xFF :: u64) = mask 8" by (simp add: mask_eq_exp_minus_1)
  then show ?thesis by (intro bit_word_eqI) (simp only: bit_unsigned_iff bit_and_iff bit_mask_iff, auto)
qed

lemma transport_send_eq:
  assumes "data \<noteq> []" "transport_fd t \<ge> 0" "length data mod 4 = 0" "length data < 2 ^ 64"
  shows "transport_send t data =
    bind (send_exact (frame_prefix (length data div 4))) (\<lambda>_. send_all data)"
proof -
  let ?n = "length data div 4"
  have small: "?n < 2 ^ 64" using assms(4) by linarith
  then have "unat (word_of_nat ?n :: u64) = ?n" by (simp add: unat_of_nat)
  then have lt: "(word_of_nat ?n :: u64) < 0x7F \<longleftrightarrow> ?n < 0x7F"
    by (simp add: word_less_nat_alt)
  have low: "(ucast (word_of_nat ?n :: u64) :: byte) = word_of_nat ?n"
    by (intro bit_word_eqI) (auto simp: bit_simps)
  show ?thesis using assms(1-3)
    by (simp add: transport_send_def Let_def lt low frame_prefix_def ucast_and_255 le_bytes_def upt_rec)
qed

lemma transport_send_sent:
  assumes "length data < 2 ^ 64" "transport_send t data w = (res, w')"
  shows "(if data = [] \<or> length data mod 4 \<noteq> 0 \<or> transport_fd t < 0 then res = Fail \<and> w' = w
     else if res = Ok () then sent w' = sent w @ frame data
     else \<exists>k \<le> length (frame data). sent w' = sent w @ take k (frame data)) \<and>
    incoming w' = incoming w \<and> open_fds w' = open_fds w \<and> res \<noteq> Oob"
proof (cases "data = [] \<or> length data mod 4 \<noteq> 0 \<or> transport_fd t < 0")
  case True
  then have "transport_send t data = fail" unfolding transport_send_def by auto
  then show ?thesis using assms(2) True by (simp add: fail_def)
next
  case False
  let ?p = "frame_prefix (length data div 4)"
  obtain r1 w1 where p: "send_exact ?p w = (r1, w1)" by fastforce
  obtain r2 w2 where d: "send_all data w1 = (r2, w2)" by fastforce
  have run: "(res, w') = (if r1 = Ok () then (r2, w2) else (r1, w1))"
    using False assms p d by (cases r1) (simp_all add: transport_send_eq bind_def)
  note p = send_exact_sent[OF p] and d = send_all_sent[OF d]
  show ?thesis
  proof (cases "r1 = Ok ()")
    case ok: True
    show ?thesis
    proof (cases "r2 = Ok ()")
      case False
      then obtain k where "k \<le> length data" "sent w2 = sent w @ ?p @ take k data" using p d ok by auto
      then show ?thesis using False ok run p d \<open>\<not> (data = [] \<or> _)\<close>
        by (auto simp: frame_def intro!: exI[of _ "length ?p + k"])
    qed (use ok run p d False in \<open>simp add: frame_def\<close>)
  next
    case bad: False
    then obtain k where "k \<le> length ?p" "sent w1 = sent w @ take k ?p" using p by auto
    then show ?thesis using bad run p False by (auto simp: frame_def intro!: exI[of _ k])
  qed
qed

text \<open>
  C30. Whatever the kernel does with the individual writes, a successful send has put
  exactly the packet's frame on the connection, and a failed or unfinished one a prefix
  of it; a packet that is empty, unaligned or on a closed transport is refused with
  nothing sent.
\<close>

theorem transport_send_exact:
  assumes "length data < 2 ^ 64" "transport_send t data w = (res, w')"
  shows "(if data = [] \<or> length data mod 4 \<noteq> 0 \<or> transport_fd t < 0 then res = Fail \<and> w' = w
     else if res = Ok () then sent w' = sent w @ frame data
     else \<exists>k \<le> length (frame data). sent w' = sent w @ take k (frame data)) \<and>
    incoming w' = incoming w \<and> open_fds w' = open_fds w \<and> res \<noteq> Oob"
  using transport_send_sent[OF assms] .

lemma transport_recv_frame:
  assumes "transport_recv t max_len w = (Ok out, w')" "incoming w = frame data @ rest"
    and "data \<noteq> []" "length data mod 4 = 0" "length data < 2 ^ 26"
  shows "out = data \<and> incoming w' = rest \<and> length out \<le> max_len"
proof -
  define n where "n = length data div 4"
  have "length data = n * 4" unfolding n_def using assms(4) by (metis div_mult_mod_eq add.right_neutral)
  then have n: "length data = n * 4" "0 < n" "n < 2 ^ 24" using assms(3,5) by (auto intro: gr0I)
  obtain r1 w1 where one: "recv_exact 1 w = (r1, w1)" by fastforce
  have "transport_recv t max_len w = (case r1 of
      Ok first \<Rightarrow> bind (if hd first < 0x7F then ret (unat (hd first))
         else bind (recv_exact 3) (\<lambda>extra. ret (unat (le_word extra :: u64)))) (\<lambda>wire_len.
          if wire_len = 0 then ret [] else if wire_len * 4 > max_len then fail
          else recv_all (wire_len * 4) []) w1
    | Fail \<Rightarrow> (Fail, w1) | Oob \<Rightarrow> (Oob, w1) | Fuel \<Rightarrow> (Fuel, w1))" if "transport_fd t \<ge> 0"
    using that one by (simp add: transport_recv_def bind_def Let_def split: outcome.splits)
  moreover have "transport_fd t \<ge> 0" using assms(1) by (auto simp: transport_recv_def fail_def split: if_splits)
  ultimately obtain first where r1: "r1 = Ok first" and
    k: "bind (if hd first < 0x7F then ret (unat (hd first))
         else bind (recv_exact 3) (\<lambda>extra. ret (unat (le_word extra :: u64)))) (\<lambda>wire_len.
          if wire_len = 0 then ret [] else if wire_len * 4 > max_len then fail
          else recv_all (wire_len * 4) []) w1 = (Ok out, w')"
    using assms(1) by (cases r1) auto
  have first: "first @ incoming w1 = frame data @ rest" "length first = 1"
    using recv_exact_incoming[OF one] r1 assms(2) by auto
  have body: "out = data \<and> incoming w' = rest \<and> length out \<le> max_len"
    if "incoming w2 = data @ rest"
      "(if n = 0 then ret [] else if n * 4 > max_len then fail else recv_all (n * 4) []) w2 = (Ok out, w')" for w2
    using that recv_all_incoming[of "n * 4" "[]" w2 "Ok out" w'] n
    by (auto simp: fail_def ret_def append_eq_append_conv split: if_splits)
  show ?thesis
  proof (cases "n < 0x7F")
    case True
    then have "hd first = word_of_nat n" "incoming w1 = data @ rest"
      using first by (cases first; simp add: frame_def frame_prefix_def n_def)+
    moreover have "unat (word_of_nat n :: byte) = n" using True by (simp add: unat_of_nat)
    moreover from this have "(word_of_nat n :: byte) < 0x7F" using True by (simp add: word_less_nat_alt)
    ultimately show ?thesis using body k by simp
  next
    case False
    then have big: "hd first = 0x7F" "incoming w1 = le_bytes 3 (word_of_nat n :: u64) @ data @ rest"
      using first by (cases first; simp add: frame_def frame_prefix_def n_def)+
    obtain r2 w2 where two: "recv_exact 3 w1 = (r2, w2)" by fastforce
    then obtain extra where r2: "r2 = Ok extra"
      using k big by (cases r2) (auto simp: bind_def)
    have "extra @ incoming w2 = le_bytes 3 (word_of_nat n :: u64) @ data @ rest" "length extra = 3"
      using recv_exact_incoming[OF two] r2 big by auto
    then have "extra = le_bytes 3 (word_of_nat n :: u64)" "incoming w2 = data @ rest"
      by (simp_all add: append_eq_append_conv)
    then show ?thesis using body k big two r2 le_word24[OF n(3)] by (simp add: bind_def ret_def)
  qed
qed

text \<open>
  C28. Packets survive the wire: when one side has sent a packet of up to 64 MiB and the
  bytes reach the other side, possibly with more behind them, a receive that succeeds
  returns exactly that packet and leaves what follows, however the kernel splits reads
  and writes.
\<close>

theorem transport_round_trip:
  assumes "transport_send t data w = (Ok (), w1)" "length data < 2 ^ 26"
    and "incoming r = drop (length (sent w)) (sent w1) @ rest"
    and "transport_recv t' max_len r = (Ok out, r')"
  shows "out = data \<and> incoming r' = rest"
proof -
  obtain bad where bad: "bad \<longleftrightarrow> data = [] \<or> length data mod 4 \<noteq> 0 \<or> transport_fd t < 0" by blast
  have "\<not> bad" using assms(1) bad by (auto simp: transport_send_def fail_def split: if_splits)
  then have d: "data \<noteq> []" "length data mod 4 = 0" "transport_fd t \<ge> 0" using bad by auto
  obtain r1 w2 where p: "send_exact (frame_prefix (length data div 4)) w = (r1, w2)" by fastforce
  then have "r1 = Ok ()" "send_all data w2 = (Ok (), w1)"
    using assms(1,2) d by (cases r1; simp add: transport_send_eq bind_def)+
  then have "sent w1 = sent w @ frame data"
    using send_exact_sent[OF p] send_all_sent[of data w2 "Ok ()" w1] by (simp add: frame_def)
  then have "incoming r = frame data @ rest" using assms(3) by simp
  from transport_recv_frame[OF assms(4) this d(1,2) assms(2)] show ?thesis by simp
qed

text \<open>A received packet fits the caller's buffer.\<close>

lemma transport_recv_length:
  assumes "transport_recv t max_len w = (Ok out, w')"
  shows "length out \<le> max_len"
proof -
  have all: "length out \<le> max_len" if "recv_all n [] w1 = (Ok out, w')" "\<not> max_len < n" for n w1
    using that recv_all_incoming[of n "[]" w1 "Ok out" w'] by simp
  have fd: "\<not> transport_fd t < 0" using assms by (auto simp: transport_recv_def fail_def)
  obtain r1 w1 where "recv_exact 1 w = (r1, w1)" by fastforce
  moreover obtain r2 w2 where "recv_exact 3 w1 = (r2, w2)" by fastforce
  ultimately show ?thesis
    using assms fd
    by (cases r1; cases r2)
      (auto simp: transport_recv_def bind_def ret_def fail_def Let_def split: if_splits intro: all)
qed

lemma transport_recv_no_oob:
  assumes "transport_recv t max_len w = (res, w')"
  shows "res \<noteq> Oob"
proof -
  have all: "recv_all n [] w1 \<noteq> (Oob, w')" for n w1
    using recv_all_incoming[of n "[]" w1 Oob w'] by auto
  have ex: "recv_exact n w1 \<noteq> (Oob, w2)" for n w1 w2
    using recv_exact_incoming[of n w1 Oob w2] by auto
  obtain r1 w1 where "recv_exact 1 w = (r1, w1)" by fastforce
  moreover obtain r2 w2 where "recv_exact 3 w1 = (r2, w2)" by fastforce
  ultimately show ?thesis
    using assms all ex
    by (cases r1; cases r2)
      (auto simp: transport_recv_def bind_def ret_def fail_def Let_def split: if_splits)
qed

section \<open>Progress\<close>

text \<open>
  A kernel that never breaks the connection and moves at least \<open>k\<close> bytes, or all that
  are asked for, whenever it does not interrupt; \<open>moves\<close> counts these answers.
\<close>

definition steady :: "nat \<Rightarrow> io_answer list \<Rightarrow> bool" where
  "steady k sc = list_all (\<lambda>a. case a of Interrupted \<Rightarrow> True | Broken \<Rightarrow> False | Moves n \<Rightarrow> k \<le> n) sc"

definition moves :: "io_answer list \<Rightarrow> nat" where
  "moves sc = length (filter ((\<noteq>) Interrupted) sc)"

lemma steady_next:
  "steady k sc \<Longrightarrow> 0 < moves sc \<Longrightarrow>
   \<exists>n rest. dropWhile ((=) Interrupted) sc = Moves n # rest \<and> k \<le> n \<and> steady k rest \<and>
     Suc (moves rest) = moves sc"
proof (induction sc)
  case (Cons a sc)
  then show ?case by (cases a) (auto simp: steady_def moves_def)
qed (simp add: moves_def)

lemma send_retry_steady:
  assumes "steady k (script w)" "0 < moves (script w)"
  obtains n w' where "send_retry buf w = (Ok (Some (min n (length buf))), w')" "k \<le> n"
    "steady k (script w')" "Suc (moves (script w')) = moves (script w)"
  using steady_next[OF assms] that by (auto simp: send_retry_eq)

lemma recv_retry_steady:
  assumes "steady k (script w)" "0 < moves (script w)"
  obtains n w' where "recv_retry len w = (Ok (Some (take (min n len) (incoming w))), w')" "k \<le> n"
    "incoming w' = drop (min n len) (incoming w)"
    "steady k (script w')" "Suc (moves (script w')) = moves (script w)"
  using steady_next[OF assms] that by (auto simp: recv_retry_eq)

lemma send_exact_steady:
  assumes "steady k (script w)" "0 < moves (script w)" "length p \<le> k"
  obtains w' where "send_exact p w = (Ok (), w')" "steady k (script w')"
    "Suc (moves (script w')) = moves (script w)"
proof -
  from assms(1,2) obtain n w' where "send_retry p w = (Ok (Some (min n (length p))), w')" "k \<le> n"
    "steady k (script w')" "Suc (moves (script w')) = moves (script w)"
    by (rule send_retry_steady)
  with assms(3) that show ?thesis by (simp add: send_exact_def bind_def ret_def min_absorb2)
qed

lemma recv_exact_steady:
  assumes "steady k (script w)" "0 < moves (script w)" "n \<le> k" "n \<le> length (incoming w)"
  obtains w' where "recv_exact n w = (Ok (take n (incoming w)), w')" "steady k (script w')"
    "incoming w' = drop n (incoming w)" "Suc (moves (script w')) = moves (script w)"
proof -
  from assms(1,2) obtain m w' where "recv_retry n w = (Ok (Some (take (min m n) (incoming w))), w')"
    "k \<le> m" "incoming w' = drop (min m n) (incoming w)"
    "steady k (script w')" "Suc (moves (script w')) = moves (script w)"
    by (rule recv_retry_steady)
  with assms(3,4) that show ?thesis by (simp add: recv_exact_def bind_def ret_def min_absorb2)
qed

lemma send_all_steady:
  assumes "steady k (script w)" "length buf \<le> moves (script w)" "0 < k"
  shows "\<exists>w'. send_all buf w = (Ok (), w') \<and> steady k (script w') \<and>
    moves (script w) \<le> moves (script w') + length buf"
  using assms
proof (induction buf arbitrary: w rule: length_induct)
  case (1 buf)
  show ?case
  proof (cases "buf = []")
    case True
    then show ?thesis using "1.prems"(1) by (simp add: send_all.simps)
  next
    case False
    then have "0 < moves (script w)" using "1.prems"(2) by (cases buf) auto
    with "1.prems"(1) obtain n w1 where one: "send_retry buf w = (Ok (Some (min n (length buf))), w1)" "k \<le> n"
      "steady k (script w1)" "Suc (moves (script w1)) = moves (script w)"
      by (rule send_retry_steady)
    let ?rest = "drop (min n (length buf)) buf"
    have less: "length ?rest < length buf" and "length ?rest \<le> moves (script w1)" "0 < min n (length buf)"
      using False one(2,4) "1.prems"(2,3) by auto
    with less obtain w' where "send_all ?rest w1 = (Ok (), w')" "steady k (script w')"
      "moves (script w1) \<le> moves (script w') + length ?rest"
      using "1.IH"[rule_format, of ?rest w1] one(3) "1.prems"(3) by blast
    moreover from this(3) have "moves (script w) \<le> moves (script w') + length buf"
      using less one(4) by linarith
    ultimately show ?thesis using False one \<open>0 < min n (length buf)\<close> by (simp add: send_all.simps[of buf])
  qed
qed

lemma recv_all_steady:
  assumes "steady k (script w)" "payload_len - length got \<le> moves (script w)" "0 < k"
    and "payload_len - length got \<le> length (incoming w)"
  shows "\<exists>out w'. recv_all payload_len got w = (Ok out, w') \<and> steady k (script w') \<and>
    moves (script w) \<le> moves (script w') + (payload_len - length got)"
  using assms
proof (induction "payload_len - length got" arbitrary: got w rule: less_induct)
  case less
  show ?case
  proof (cases "length got < payload_len")
    case False
    then show ?thesis using less.prems(1) by (simp add: recv_all.simps)
  next
    case True
    let ?need = "payload_len - length got"
    have "0 < moves (script w)" using less.prems(2) True by linarith
    with less.prems(1) obtain n w1 where one: "recv_retry ?need w = (Ok (Some (take (min n ?need) (incoming w))), w1)"
      "k \<le> n" "incoming w1 = drop (min n ?need) (incoming w)"
      "steady k (script w1)" "Suc (moves (script w1)) = moves (script w)"
      by (rule recv_retry_steady)
    let ?bs = "take (min n ?need) (incoming w)"
    have len: "length ?bs = min n ?need" "0 < min n ?need" using less.prems(3,4) one(2) True by auto
    then have "payload_len - length (got @ ?bs) < ?need"
      "payload_len - length (got @ ?bs) \<le> moves (script w1)"
      "payload_len - length (got @ ?bs) \<le> length (incoming w1)"
      using less.prems(2,4) one(3,5) True by auto
    then obtain out w' where "recv_all payload_len (got @ ?bs) w1 = (Ok out, w')" "steady k (script w')"
      "moves (script w1) \<le> moves (script w') + (payload_len - length (got @ ?bs))"
      using less.hyps[of "got @ ?bs" w1] one(4) less.prems(3) by blast
    moreover have "?bs \<noteq> []" using len by auto
    ultimately show ?thesis using True one len less.prems(4) by (auto simp: recv_all.simps[of payload_len got])
  qed
qed

lemma length_frame_prefix: "length (frame_prefix n) \<le> 4"
  by (simp add: frame_prefix_def)

lemma transport_send_steady:
  assumes "transport_fd t \<ge> 0" "data \<noteq> []" "length data mod 4 = 0" "length data < 2 ^ 26"
    and "steady 4 (script w)" "length data < moves (script w)"
  shows "\<exists>w'. transport_send t data w = (Ok (), w') \<and> steady 4 (script w') \<and>
    moves (script w) \<le> moves (script w') + length data + 1"
proof -
  obtain w1 where p: "send_exact (frame_prefix (length data div 4)) w = (Ok (), w1)"
    "steady 4 (script w1)" "Suc (moves (script w1)) = moves (script w)"
    using assms(5,6) length_frame_prefix by (rule_tac send_exact_steady) auto
  moreover obtain w' where "send_all data w1 = (Ok (), w')" "steady 4 (script w')"
    "moves (script w1) \<le> moves (script w') + length data"
    using send_all_steady[of 4 w1 data] p assms(6) by auto
  ultimately show ?thesis using assms(1-4) by (auto simp: transport_send_eq bind_def)
qed

lemma transport_recv_steady:
  assumes "transport_fd t \<ge> 0" "data \<noteq> []" "length data mod 4 = 0" "length data < 2 ^ 26"
    and "steady 4 (script w)" "length data + 1 < moves (script w)" "length data \<le> max_len"
    and inc: "incoming w = frame data @ rest"
  shows "\<exists>out w'. transport_recv t max_len w = (Ok out, w') \<and> steady 4 (script w') \<and>
    moves (script w) \<le> moves (script w') + length data + 2"
proof -
  define n where "n = length data div 4"
  have n: "length data = n * 4" unfolding n_def using assms(3) by (metis div_mult_mod_eq add.right_neutral)
  then have n24: "n < 2 ^ 24" using assms(4) by simp
  obtain w1 where one: "recv_exact 1 w = (Ok (take 1 (incoming w)), w1)" "steady 4 (script w1)"
    "incoming w1 = drop 1 (incoming w)" "Suc (moves (script w1)) = moves (script w)"
    using assms(5,6) by (rule_tac recv_exact_steady[of 4 w 1]) (auto simp: inc frame_def frame_prefix_def)
  have body: "\<exists>out w'. recv_all (n * 4) [] w2 = (Ok out, w') \<and> steady 4 (script w') \<and>
      moves (script w2) \<le> moves (script w') + length data"
    if "incoming w2 = data @ rest" "steady 4 (script w2)" "length data \<le> moves (script w2)" for w2
    using recv_all_steady[of 4 w2 "n * 4" "[]"] that n by simp
  show ?thesis
  proof (cases "n < 0x7F")
    case True
    have u: "unat (word_of_nat n :: byte) = n" using True by (simp add: unat_of_nat)
    then have "(word_of_nat n :: byte) < 0x7F" using True by (simp add: word_less_nat_alt)
    moreover have "take 1 (incoming w) = [word_of_nat n]" "incoming w1 = data @ rest"
      using True one(3) by (simp_all add: inc frame_def frame_prefix_def n_def)
    moreover obtain out w' where "recv_all (n * 4) [] w1 = (Ok out, w')" "steady 4 (script w')"
      "moves (script w1) \<le> moves (script w') + length data"
      using body[of w1] one assms(6) calculation by auto
    ultimately show ?thesis using assms(1,2,7) one(1,4) u n
      by (auto simp: transport_recv_def bind_def ret_def Let_def)
  next
    case False
    then have first: "take 1 (incoming w) = [0x7F]"
      "incoming w1 = le_bytes 3 (word_of_nat n :: u64) @ data @ rest"
      using one(3) by (simp_all add: inc frame_def frame_prefix_def n_def)
    obtain w2 where two: "recv_exact 3 w1 = (Ok (take 3 (incoming w1)), w2)" "steady 4 (script w2)"
      "incoming w2 = drop 3 (incoming w1)" "Suc (moves (script w2)) = moves (script w1)"
      using one(2,4) assms(6) first by (rule_tac recv_exact_steady[of 4 w1 3]) auto
    have "take 3 (incoming w1) = le_bytes 3 (word_of_nat n :: u64)" "incoming w2 = data @ rest"
      using two(3) by (simp_all add: first)
    moreover obtain out w' where "recv_all (n * 4) [] w2 = (Ok out, w')" "steady 4 (script w')"
      "moves (script w2) \<le> moves (script w') + length data"
      using body[of w2] one(4) two(2,4) assms(6) calculation by auto
    ultimately show ?thesis using assms(1,2,7) one(1,4) first(1) two(1,4) le_word24[OF n24] n
      by (auto simp: transport_recv_def bind_def ret_def Let_def)
  qed
qed

text \<open>
  C29. On a connection that stays up and moves at least four bytes per answered call,
  however often the calls are interrupted, a packet of up to 64 MiB is sent completely
  and received by a peer whose buffer is large enough.
\<close>

theorem transport_delivers:
  assumes "transport_fd t \<ge> 0" "data \<noteq> []" "length data mod 4 = 0" "length data < 2 ^ 26"
    and "steady 4 (script w)" "length data + 1 < moves (script w)"
    and "transport_fd t' \<ge> 0" "length data \<le> max_len"
    and "steady 4 (script r)" "length data + 1 < moves (script r)" "incoming r = frame data @ rest"
  shows "(\<exists>w'. transport_send t data w = (Ok (), w')) \<and>
    (\<exists>r'. transport_recv t' max_len r = (Ok data, r') \<and> incoming r' = rest)"
proof -
  obtain out r' where r: "transport_recv t' max_len r = (Ok out, r')"
    using transport_recv_steady[OF assms(7,2,3,4,9,10,8,11)] by blast
  with transport_recv_frame[OF r assms(11,2,3,4)] transport_send_steady[OF assms(1-5)] assms(6)
  show ?thesis by auto
qed

section \<open>Descriptors and short reads\<close>

text \<open>
  C31. A successful connect leaves the new descriptor open with the abridged marker sent;
  a failed one leaves no descriptor behind: the transport is closed and the set of open
  descriptors is what it was.
\<close>

theorem transport_connect_no_leak:
  assumes "transport_connect created rc (t, w) = (res, (t', w'))" "created \<notin> open_fds w"
  shows "case res of
      Ok _ \<Rightarrow> transport_fd t' = created \<and> created \<ge> 0 \<and> transport_connected t' = 1 \<and>
        open_fds w' = insert created (open_fds w) \<and> sent w' = sent w @ [0xEF]
    | Fail \<Rightarrow> transport_fd t' < 0 \<and> open_fds w' = open_fds w
    | Oob \<Rightarrow> False
    | Fuel \<Rightarrow> True"
proof -
  let ?w = "w\<lparr>open_fds := insert created (open_fds w)\<rparr>"
  obtain r w1 where call: "send_retry [ABRIDGED_MARKER] ?w = (r, w1)" by fastforce
  from send_retry_sent[OF this] call assms show ?thesis
    by (cases r) (auto simp: transport_connect_def sys_socket_close_def Let_def split: if_splits)
qed

text \<open>
  C32. The extended length prefix is not read in a loop: if the kernel hands out fewer
  than its three bytes in one go, the receive fails although nothing is wrong with the
  connection, and the bytes already read are lost.
\<close>

theorem transport_recv_short_prefix:
  assumes "transport_fd t \<ge> 0" "script r = Moves 1 # Moves k # sc" "k < 3"
    and "incoming r = 0x7F # a # b # c # rest"
  shows "transport_recv t max_len r =
    (Fail, r\<lparr>script := sc, incoming := drop k (a # b # c # rest)\<rparr>)"
  using assms
  by (simp add: transport_recv_def recv_exact_def recv_retry_eq bind_def ret_def fail_def min_def)

section \<open>Examples\<close>

definition demo_net :: net where
  "demo_net = \<lparr>script = Interrupted # Moves 4 # replicate 13 (Moves 4), sent = [9], incoming = [], open_fds = {3}\<rparr>"

definition demo_transport :: transport where
  "demo_transport = \<lparr>transport_fd = 3, transport_dc_id = 2, transport_connected = 1\<rparr>"

definition demo_peer :: net where
  "demo_peer = demo_net\<lparr>incoming := frame [1, 2, 3, 4, 5, 6, 7, 8] @ [42]\<rparr>"

lemma demo_steady: "steady 4 (script demo_net)" "moves (script demo_net) = 14"
  "steady 4 (script demo_peer)" "moves (script demo_peer) = 14"
  "incoming demo_peer = frame [1, 2, 3, 4, 5, 6, 7, 8] @ [42]"
  by (simp_all add: demo_peer_def demo_net_def steady_def moves_def list_all_iff)

theorem transport_delivers_witness:
  "(\<exists>w'. transport_send demo_transport [1, 2, 3, 4, 5, 6, 7, 8] demo_net = (Ok (), w')) \<and>
   (\<exists>r'. transport_recv demo_transport 8 demo_peer = (Ok [1, 2, 3, 4, 5, 6, 7, 8], r') \<and>
     incoming r' = [42])"
  by (rule transport_delivers) (simp_all add: demo_steady demo_transport_def)

lemma demo_send: "\<exists>w'. transport_send demo_transport [1, 2, 3, 4] demo_net = (Ok (), w')"
  using transport_send_steady[of demo_transport "[1, 2, 3, 4]" demo_net]
  by (auto simp: demo_steady demo_transport_def)

theorem transport_send_exact_witness:
  "\<exists>w'. transport_send demo_transport [1, 2, 3, 4] demo_net = (Ok (), w') \<and>
     sent w' = [9, 1, 1, 2, 3, 4]"
proof -
  obtain w' where "transport_send demo_transport [1, 2, 3, 4] demo_net = (Ok (), w')"
    using demo_send by blast
  with transport_send_exact[OF _ this] show ?thesis
    by (simp add: demo_transport_def demo_net_def frame_def frame_prefix_def)
qed

theorem transport_round_trip_witness:
  "\<exists>w' r'. transport_send demo_transport [1, 2, 3, 4, 5, 6, 7, 8] demo_net = (Ok (), w') \<and>
     transport_recv demo_transport 8 (demo_net\<lparr>incoming := drop 1 (sent w') @ [42]\<rparr>) =
       (Ok [1, 2, 3, 4, 5, 6, 7, 8], r') \<and> incoming r' = [42]"
proof -
  let ?d = "[1, 2, 3, 4, 5, 6, 7, 8] :: byte list"
  obtain w' where s: "transport_send demo_transport ?d demo_net = (Ok (), w')"
    using transport_send_steady[of demo_transport ?d demo_net]
    by (auto simp: demo_steady demo_transport_def)
  let ?r = "demo_net\<lparr>incoming := drop 1 (sent w') @ [42]\<rparr>"
  obtain p w1 where p: "send_exact (frame_prefix 2) demo_net = (p, w1)" by fastforce
  have "transport_send demo_transport ?d = bind (send_exact (frame_prefix 2)) (\<lambda>_. send_all ?d)"
    using transport_send_eq[of ?d demo_transport] by (simp add: demo_transport_def)
  with s p have "p = Ok ()" "send_all ?d w1 = (Ok (), w')" by (cases p; simp add: bind_def)+
  then have "sent w' = sent demo_net @ frame ?d"
    using send_exact_sent[OF p] send_all_sent[of ?d w1 "Ok ()" w'] by (simp add: frame_def)
  then have "incoming ?r = frame ?d @ [42]" by (simp add: demo_net_def)
  then obtain out r' where r: "transport_recv demo_transport 8 ?r = (Ok out, r')"
    using transport_recv_steady[of demo_transport ?d ?r 8 "[42]"]
    by (auto simp: demo_steady demo_transport_def)
  have "incoming ?r = drop (length (sent demo_net)) (sent w') @ [42]" by (simp add: demo_net_def)
  from transport_round_trip[OF s _ this r] s r show ?thesis by auto
qed

theorem transport_connect_no_leak_witness:
  "\<exists>t' w'. transport_connect 5 0 (transport_init, demo_net) = (Ok (), (t', w')) \<and>
     transport_fd t' = 5 \<and> open_fds w' = {5, 3} \<and> sent w' = [9, 0xEF]"
proof -
  obtain res t' w' where c: "transport_connect 5 0 (transport_init, demo_net) = (res, (t', w'))"
    by (metis prod.exhaust)
  moreover have "res = Ok ()"
    using c by (auto simp: transport_connect_def transport_init_def demo_net_def send_retry_eq Let_def)
  ultimately show ?thesis using transport_connect_no_leak[OF c] by (simp add: demo_net_def)
qed

theorem transport_recv_short_prefix_witness:
  "fst (transport_recv demo_transport 1024 (demo_net\<lparr>script := [Moves 1, Moves 2],
     incoming := 0x7F # 0x80 # 0 # 0 # replicate 512 7\<rparr>)) = Fail"
  using transport_recv_short_prefix[of demo_transport
      "demo_net\<lparr>script := [Moves 1, Moves 2], incoming := 0x7F # 0x80 # 0 # 0 # replicate 512 7\<rparr>"
      2 "[]" "0x80" 0 0 "replicate 512 7" 1024]
  by (simp add: demo_transport_def)

end
