(* ===== verification/RPC.thy ===== *)
theory RPC
  imports TL_Takes MTProto_Crypto Session Transport
begin

text \<open>
  The RPC framing of \<open>src/src/infrastructure/mtproto_rpc.c\<close>: plain and encrypted
  messages over the transport, and the unwrapping of containers, gzip packets, results
  and errors. The crypto library and the inflater are parameters.
\<close>

section \<open>Parameters and buffers\<close>

text \<open>The primitives of the crypto library, \<open>crypto_sha1\<close>, \<open>crypto_sha256\<close> and AES.\<close>

record crypto_lib =
  sha1 :: hash
  sha256 :: hash
  aes_enc :: cipher
  aes_dec :: cipher

text \<open>
  What a send draws from its environment: the clock, the low word of the message
  identifier and the random padding.
\<close>

record draw =
  draw_now :: u64
  draw_low :: u32
  draw_pad :: "nat \<Rightarrow> byte list"

abbreviation (input) RPC_BUF_SIZE :: nat where "RPC_BUF_SIZE \<equiv> 1024 * 1024"

abbreviation (input) CRC_gzip_packed :: u32 where "CRC_gzip_packed \<equiv> 0x3072cfa1"
abbreviation (input) CRC_msg_container :: u32 where "CRC_msg_container \<equiv> 0x73f1f8dc"
abbreviation (input) CRC_rpc_result :: u32 where "CRC_rpc_result \<equiv> 0xf35c6d01"
abbreviation (input) CRC_rpc_error :: u32 where "CRC_rpc_error \<equiv> 0x2144ca19"

text \<open>Running a reader over a buffer of its own, inside a function with another state.\<close>

definition parse :: "byte list \<Rightarrow> (tl_reader, 'a) cfun \<Rightarrow> ('s, 'a) cfun" where
  "parse buf m s = (fst (m (tl_reader_init buf (length buf))), s)"

section \<open>Unencrypted messages\<close>

definition rpc_send_unencrypted ::
  "draw \<Rightarrow> transport \<Rightarrow> byte list \<Rightarrow> (mtproto_session \<times> net, unit) cfun" where
  "rpc_send_unencrypted d t data sw =
     (let (msg_id, s) = mtproto_session_next_msg_id (draw_now d) (draw_low d) (fst sw);
          w = tl_write_uint64 tl_writer_init 0;
          w = tl_write_uint64 w msg_id;
          w = tl_write_uint32 w (word_of_nat (length data));
          w = tl_write_raw w data;
          (res, net) = transport_send t (wr_data w) (snd sw)
      in (res, (s, net)))"

text \<open>The copy \<open>out[0..data_len)\<close> that ends both receive functions.\<close>

definition read_payload :: "nat \<Rightarrow> (tl_reader, byte list) cfun" where
  "read_payload max_len = bind tl_read_uint32 (\<lambda>data_len.
     if unat data_len > max_len then fail
     else if data_len > 0 then tl_read_raw (unat data_len) else ret [])"

definition rpc_recv_unencrypted :: "transport \<Rightarrow> nat \<Rightarrow> (net, byte list) cfun" where
  "rpc_recv_unencrypted t max_len = bind (transport_recv t RPC_BUF_SIZE) (\<lambda>buf.
     if length buf < 20 then fail
     else parse buf (bind tl_read_uint64 (\<lambda>auth_key_id. bind tl_read_uint64 (\<lambda>msg_id.
       read_payload max_len))))"

section \<open>Encrypted messages\<close>

definition auth_key_id :: "crypto_lib \<Rightarrow> mtproto_session \<Rightarrow> u64" where
  "auth_key_id lib s = le_word (take 8 (drop 12 (sha1 lib (auth_key s))))"

text \<open>
  The ciphertext buffer has \<open>RPC_BUF_SIZE\<close> bytes; a longer ciphertext is written past
  its end.
\<close>

definition rpc_send_encrypted ::
  "crypto_lib \<Rightarrow> draw \<Rightarrow> transport \<Rightarrow> byte list \<Rightarrow> bool \<Rightarrow> (mtproto_session \<times> net, unit) cfun" where
  "rpc_send_encrypted lib d t data content_related sw =
     (if \<not> has_auth_key (fst sw) then (Fail, sw)
      else let (msg_id, s) = mtproto_session_next_msg_id (draw_now d) (draw_low d) (fst sw);
          (seq_no, s) = mtproto_session_next_seq_no content_related s;
          plain = tl_write_uint64 tl_writer_init (server_salt s);
          plain = tl_write_uint64 plain (session_id s);
          plain = tl_write_uint64 plain msg_id;
          plain = tl_write_uint32 plain seq_no;
          plain = tl_write_uint32 plain (word_of_nat (length data));
          plain = tl_write_raw plain data;
          (encrypted, msg_key) =
            mtproto_encrypt (aes_enc lib) (sha256 lib) (draw_pad d) (wr_data plain) (auth_key s) 0 []
        in if length encrypted > RPC_BUF_SIZE then (Oob, (s, snd sw))
        else let
          wire = tl_write_uint64 tl_writer_init (auth_key_id lib s);
          wire = tl_write_raw wire (take 16 msg_key);
          wire = tl_write_raw wire encrypted;
          (res, net) = transport_send t (wr_data wire) (snd sw)
        in (res, (s, net)))"

text \<open>The part of \<open>rpc_recv_encrypted\<close> behind the transport.\<close>

definition open_packet ::
  "crypto_lib \<Rightarrow> mtproto_session \<Rightarrow> byte list \<Rightarrow> nat \<Rightarrow> (net, byte list) cfun" where
  "open_packet lib s buf max_len =
     (if length buf < 24 then fail
      else bind (parse buf (bind tl_read_uint64 (\<lambda>recv_auth_key_id.
          bind (tl_read_raw 16) (\<lambda>msg_key. ret (recv_auth_key_id, msg_key)))))
        (\<lambda>(recv_auth_key_id, msg_key).
          let cipher = drop 24 buf in
          if recv_auth_key_id \<noteq> auth_key_id lib s then fail
          else case mtproto_decrypt (aes_dec lib) (sha256 lib) cipher (auth_key s) msg_key 8 [] of
            None \<Rightarrow> fail
          | Some decrypted \<Rightarrow>
              if length decrypted < 32 then fail
              else parse decrypted (bind tl_read_uint64 (\<lambda>salt. bind tl_read_uint64 (\<lambda>recv_session_id.
                if recv_session_id \<noteq> session_id s then fail
                else bind tl_read_uint64 (\<lambda>msg_id. bind tl_read_uint32 (\<lambda>seq_no.
                  read_payload max_len)))))))"

definition rpc_recv_encrypted ::
  "crypto_lib \<Rightarrow> mtproto_session \<Rightarrow> transport \<Rightarrow> nat \<Rightarrow> (net, byte list) cfun" where
  "rpc_recv_encrypted lib s t max_len =
     (if \<not> has_auth_key s then fail
      else bind (transport_recv t RPC_BUF_SIZE) (\<lambda>buf. open_packet lib s buf max_len))"

section \<open>Unwrapping\<close>

text \<open>
  \<open>gunzip cap src\<close> stands for \<open>tinf_gzip_uncompress\<close> with room for \<open>cap\<close> bytes; \<open>None\<close>
  is any result other than \<open>TINF_OK\<close>.
\<close>

type_synonym inflater = "nat \<Rightarrow> byte list \<Rightarrow> byte list option"

definition rpc_unwrap_gzip :: "inflater \<Rightarrow> byte list \<Rightarrow> nat \<Rightarrow> byte list outcome" where
  "rpc_unwrap_gzip gunzip data max_len =
     (if length data < 4 then (if length data > max_len then Fail else Ok data)
      else if le_word (take 4 data) \<noteq> CRC_gzip_packed
        then (if length data > max_len then Fail else Ok data)
      else fst (bind tl_read_uint32 (\<lambda>_. bind tl_read_bytes (\<lambda>gz_data.
          case gz_data of
            None \<Rightarrow> fail
          | Some gz \<Rightarrow>
              if gz = [] then fail
              else case gunzip (max_len mod 2 ^ 32) gz of
                None \<Rightarrow> fail
              | Some out \<Rightarrow> ret out)) (tl_reader_init data (length data))))"

record rpc_container_msg =
  cm_msg_id :: u64
  cm_seqno :: u32
  cm_body :: "byte list"

text \<open>
  One message of a container: the checks on \<open>body_len\<close> and the slice of the frame that
  \<open>body\<close> and \<open>body_len\<close> delimit, then the header before it.
\<close>

definition read_container_body :: "u64 \<Rightarrow> u32 \<Rightarrow> u32 \<Rightarrow> (tl_reader, rpc_container_msg) cfun" where
  "read_container_body msg_id seqno body_len r =
     (if unat body_len mod 4 \<noteq> 0 then (Fail, r)
      else if unat body_len > avail r then (Fail, r)
      else case peek r (rd_pos r) (unat body_len) of
        None \<Rightarrow> (Oob, r)
      | Some body \<Rightarrow> bind (tl_read_skip (unat body_len)) (\<lambda>_.
          ret \<lparr>cm_msg_id = msg_id, cm_seqno = seqno, cm_body = body\<rparr>) r)"

definition read_container_msg :: "(tl_reader, rpc_container_msg) cfun" where
  "read_container_msg r =
     (if \<not> tl_reader_ok r then (Fail, r)
      else bind tl_read_uint64 (\<lambda>msg_id. bind tl_read_uint32 (\<lambda>seqno.
        bind tl_read_uint32 (read_container_body msg_id seqno))) r)"

primrec read_container_msgs :: "nat \<Rightarrow> (tl_reader, rpc_container_msg list) cfun" where
  "read_container_msgs 0 = ret []"
| "read_container_msgs (Suc n) =
     bind read_container_msg (\<lambda>m. bind (read_container_msgs n) (\<lambda>ms. ret (m # ms)))"

definition rpc_parse_container :: "byte list \<Rightarrow> nat \<Rightarrow> rpc_container_msg list outcome" where
  "rpc_parse_container data max_msgs =
     (if length data < 4 then Fail
      else if le_word (take 4 data) \<noteq> CRC_msg_container
        then (if max_msgs < 1 then Fail else Ok [\<lparr>cm_msg_id = 0, cm_seqno = 0, cm_body = data\<rparr>])
      else fst (bind tl_read_uint32 (\<lambda>_. bind tl_read_uint32 (\<lambda>msg_count.
          if unat msg_count > max_msgs then fail
          else read_container_msgs (unat msg_count))) (tl_reader_init data (length data))))"

definition rpc_unwrap_result :: "byte list \<Rightarrow> (u64 \<times> byte list) outcome" where
  "rpc_unwrap_result data =
     (if length data < 12 then Fail
      else if le_word (take 4 data) \<noteq> CRC_rpc_result then Fail
      else Ok (le_word (take 8 (drop 4 data)), drop 12 data))"

section \<open>Errors\<close>

definition ascii :: "string \<Rightarrow> byte list" where
  "ascii s = map of_char s"

definition is_digit :: "byte \<Rightarrow> bool" where
  "is_digit c = (48 \<le> c \<and> c \<le> 57)"

text \<open>
  \<open>atoi\<close> on a string of digits, as the GNU C library computes it: \<open>strtol\<close> saturates at
  \<open>LONG_MAX\<close> and the result is converted to \<open>int\<close>.
\<close>

definition atoi_digits :: "byte list \<Rightarrow> int" where
  "atoi_digits ds = sint (word_of_int (min (foldl (\<lambda>a c. a * 10 + (uint c - 48)) 0 ds) (2 ^ 63 - 1)) :: u32)"

definition extract_trailing_int :: "byte list \<Rightarrow> int" where
  "extract_trailing_int msg =
     (let p = rev (takeWhile is_digit (rev msg)) in if p = [] then 0 else atoi_digits p)"

record rpc_error =
  error_code :: int
  error_msg :: "byte list"
  migrate_dc :: int
  flood_wait_secs :: int

text \<open>\<open>strncmp(msg, p, strlen(p)) == 0\<close>\<close>

definition starts_with :: "byte list \<Rightarrow> string \<Rightarrow> bool" where
  "starts_with msg p = (take (length p) msg = ascii p)"

definition rpc_parse_error :: "byte list \<Rightarrow> rpc_error outcome" where
  "rpc_parse_error data =
     (if length data < 4 then Fail
      else if le_word (take 4 data) \<noteq> CRC_rpc_error then Fail
      else fst (bind tl_read_uint32 (\<lambda>_. bind tl_read_int32 (\<lambda>code. bind tl_read_string (\<lambda>str.
        case str of
          None \<Rightarrow> ret \<lparr>error_code = code, error_msg = [], migrate_dc = -1, flood_wait_secs = 0\<rparr>
        | Some str \<Rightarrow>
            let msg = cstr str;
                migrate = starts_with msg ''PHONE_MIGRATE_'' \<or> starts_with msg ''FILE_MIGRATE_'' \<or>
                  starts_with msg ''NETWORK_MIGRATE_'' \<or> starts_with msg ''USER_MIGRATE_''
            in ret \<lparr>error_code = code, error_msg = clip 128 msg,
                 migrate_dc = (if migrate then extract_trailing_int msg else -1),
                 flood_wait_secs = (if \<not> migrate \<and> starts_with msg ''FLOOD_WAIT_''
                   then extract_trailing_int msg else 0)\<rparr>)))
          (tl_reader_init data (length data))))"

end
