(* ===== verification/RPC_Laws.thy ===== *)
theory RPC_Laws
  imports RPC
begin

text \<open>
  What the RPC layer promises to the call layer: containers are split into messages that
  lie inside the frame, only packets for the session's key and identifier are accepted,
  and what a peer seals is what the client reads.
\<close>

section \<open>Containers\<close>

text \<open>A reader whose cursor is inside its buffer.\<close>

definition rd_in :: "byte list \<Rightarrow> tl_reader \<Rightarrow> bool" where
  "rd_in d r = (rd_data r = d \<and> rd_len r = length d \<and> length d < 2 ^ 62 \<and> rd_pos r \<le> length d)"

lemma rd_in_has: "rd_in d r \<Longrightarrow> n \<le> 2 ^ 62 \<Longrightarrow> reader_has r n \<longleftrightarrow> rd_pos r + n \<le> length d"
  by (simp add: rd_in_def reader_has_def size_add_small)

lemma rd_in_peek: "rd_in d r \<Longrightarrow> rd_pos r + n \<le> length d \<Longrightarrow> peek r (rd_pos r) n = Some (take n (drop (rd_pos r) d))"
  by (simp add: rd_in_def peek_def)

lemma rd_in_avail: "rd_in d r \<Longrightarrow> avail r = length d - rd_pos r"
  by (simp add: rd_in_def avail_def size_sub_small)

lemma rd_in_init: "length d < 2 ^ 62 \<Longrightarrow> rd_in d (tl_reader_init d (length d))"
  by (simp add: rd_in_def tl_reader_init_def)

lemma rd_in_read32:
  assumes "rd_in d r"
  obtains v r' where "read_le32 r = (Ok v, r')" "rd_in d r'" "rd_pos r \<le> rd_pos r'"
    "v = 0 \<or> rd_pos r' = rd_pos r + 4" "rd_pos r' = rd_pos r + 4 \<or> rd_pos r' = length d"
  using assms rd_in_has[OF assms, of 4] rd_in_peek[OF assms, of 4]
  by (cases "rd_pos r + 4 \<le> length d") (auto simp: read_le32_def rd_in_def)

lemma rd_in_read64:
  assumes "rd_in d r"
  obtains v r' where "read_le64 r = (Ok v, r')" "rd_in d r'" "rd_pos r \<le> rd_pos r'"
    "rd_pos r' = rd_pos r + 8 \<or> rd_pos r' = length d"
  using assms rd_in_has[OF assms, of 8] rd_in_peek[OF assms, of 8]
  by (cases "rd_pos r + 8 \<le> length d") (auto simp: read_le64_def rd_in_def)

lemma rd_in_skip:
  assumes "rd_in d r" "rd_pos r + n \<le> length d"
  shows "tl_read_skip n r = (Ok (), r\<lparr>rd_pos := rd_pos r + n\<rparr>) \<and> rd_in d (r\<lparr>rd_pos := rd_pos r + n\<rparr>)"
  using assms by (simp add: tl_read_skip_def rd_in_def size_add_small)

text \<open>
  An accepted message lies inside the buffer behind the cursor. Its header may be cut off
  by the end of the buffer, but then its body is empty.
\<close>

definition msg_room :: "rpc_container_msg \<Rightarrow> nat" where
  "msg_room m = (if cm_body m = [] then 1 else 16 + length (cm_body m))"

lemma read_container_msg_in:
  assumes "rd_in d r"
  shows "case read_container_msg r of
      (Ok m, r') \<Rightarrow> rd_in d r' \<and> rd_pos r + msg_room m \<le> rd_pos r' \<and> length (cm_body m) mod 4 = 0 \<and>
        cm_body m = take (length (cm_body m)) (drop (rd_pos r' - length (cm_body m)) d)
    | (Fail, _) \<Rightarrow> True | _ \<Rightarrow> False"
proof (cases "tl_reader_ok r")
  case True
  then have lt: "rd_pos r < length d" using assms by (simp add: tl_reader_ok_def rd_in_def)
  obtain v1 r1 where r1: "read_le64 r = (Ok v1, r1)" "rd_in d r1" "rd_pos r \<le> rd_pos r1"
    "rd_pos r1 = rd_pos r + 8 \<or> rd_pos r1 = length d" using assms by (rule rd_in_read64)
  obtain v2 r2 where r2: "read_le32 r1 = (Ok v2, r2)" "rd_in d r2" "rd_pos r1 \<le> rd_pos r2"
    "rd_pos r2 = rd_pos r1 + 4 \<or> rd_pos r2 = length d" using r1(2) by (rule rd_in_read32)
  obtain v3 r3 where r3: "read_le32 r2 = (Ok v3, r3)" "rd_in d r3" "rd_pos r2 \<le> rd_pos r3"
    "v3 = 0 \<or> rd_pos r3 = rd_pos r2 + 4" "rd_pos r3 = rd_pos r2 + 4 \<or> rd_pos r3 = length d"
    using r2(2) by (rule rd_in_read32)
  let ?n = "unat v3"
  have in3: "rd_pos r3 \<le> length d" using r3(2) by (simp add: rd_in_def)
  have run: "read_container_msg r =
     (if ?n mod 4 \<noteq> 0 \<or> ?n > length d - rd_pos r3 then (Fail, r3)
      else case peek r3 (rd_pos r3) ?n of None \<Rightarrow> (Oob, r3)
        | Some body \<Rightarrow> bind (tl_read_skip ?n) (\<lambda>_.
              ret \<lparr>cm_msg_id = v1, cm_seqno = v2, cm_body = body\<rparr>) r3)"
    using True r1(1) r2(1) r3(1) rd_in_avail[OF r3(2)]
    by (simp add: read_container_msg_def read_container_body_def bind_def tl_read_uint64_def
        tl_read_uint32_def)
  show ?thesis
  proof (cases "?n mod 4 \<noteq> 0 \<or> ?n > length d - rd_pos r3")
    case True
    then show ?thesis by (simp add: run)
  next
    case False
    then have fit: "rd_pos r3 + ?n \<le> length d" using in3 by linarith
    have body: "take ?n (drop (rd_pos r3) d) = [] \<longleftrightarrow> ?n = 0" using fit by auto
    have "rd_pos r + (if ?n = 0 then 1 else 16 + ?n) \<le> rd_pos r3 + ?n"
    proof (cases "?n = 0")
      case True
      then show ?thesis using lt r1(3,4) r2(3) r3(3) by auto
    next
      case False
      then have "rd_pos r3 = rd_pos r2 + 4" using r3(4) by force
      moreover have "rd_pos r2 \<noteq> length d" using calculation in3 by linarith
      ultimately show ?thesis using r1(4) r2(3,4) in3 by auto
    qed
    then show ?thesis
      using False fit body rd_in_peek[OF r3(2) fit] rd_in_skip[OF r3(2) fit]
      by (cases "?n = 0"; simp add: run bind_def ret_def msg_room_def)
  qed
qed (simp add: read_container_msg_def)

lemma read_container_msgs_in:
  assumes "rd_in d r"
  shows "case read_container_msgs n r of
      (Ok ms, r') \<Rightarrow> rd_in d r' \<and> length ms = n \<and> rd_pos r + sum_list (map msg_room ms) \<le> rd_pos r' \<and>
        list_all (\<lambda>m. length (cm_body m) mod 4 = 0) ms
    | (Fail, _) \<Rightarrow> True | _ \<Rightarrow> False"
  using assms
proof (induction n arbitrary: r)
  case (Suc n)
  obtain res1 r1 where one: "read_container_msg r = (res1, r1)" by fastforce
  note step = read_container_msg_in[OF Suc.prems, unfolded one]
  show ?case
  proof (cases res1)
    case (Ok m)
    obtain res2 r2 where two: "read_container_msgs n r1 = (res2, r2)" by fastforce
    from step Ok have "rd_in d r1" by simp
    from Suc.IH[OF this, unfolded two] step Ok one two show ?thesis
      by (cases res2) (auto simp: bind_def ret_def)
  qed (use one step in \<open>auto simp: bind_def\<close>)
qed (simp add: ret_def)

lemma parse_container_in:
  assumes "length data < 2 ^ 62" "rpc_parse_container data max_msgs = res"
  shows "case res of
      Ok ms \<Rightarrow> length ms \<le> max_msgs \<and>
        (if le_word (take 4 data) = CRC_msg_container
         then sum_list (map msg_room ms) + (if ms = [] then 4 else 8) \<le> length data \<and>
           list_all (\<lambda>m. length (cm_body m) mod 4 = 0 \<and> length (cm_body m) < length data) ms
         else map cm_body ms = [data])
    | Fail \<Rightarrow> True | _ \<Rightarrow> False"
proof (cases "length data < 4 \<or> le_word (take 4 data) \<noteq> CRC_msg_container")
  case True
  then show ?thesis using assms(2) by (auto simp: rpc_parse_container_def)
next
  case False
  let ?r = "tl_reader_init data (length data)"
  have r0: "rd_in data ?r" "rd_pos ?r = 0" using assms(1) by (simp_all add: rd_in_def tl_reader_init_def)
  obtain v1 r1 where r1: "read_le32 ?r = (Ok v1, r1)" "rd_in data r1"
    "rd_pos r1 = rd_pos ?r + 4 \<or> rd_pos r1 = length data" using r0(1) by (rule rd_in_read32)
  obtain v2 r2 where r2: "read_le32 r1 = (Ok v2, r2)" "rd_in data r2"
    "v2 = 0 \<or> rd_pos r2 = rd_pos r1 + 4" using r1(2) by (rule rd_in_read32)
  obtain res' r3 where r3: "read_container_msgs (unat v2) r2 = (res', r3)" by fastforce
  note msgs = read_container_msgs_in[OF r2(2), of "unat v2", unfolded r3]
  have run: "res = (if unat v2 > max_msgs then Fail else res')"
    using assms(2) False r1(1) r2(1) r3
    by (auto simp: rpc_parse_container_def bind_def tl_read_uint32_def fail_def)
  show ?thesis
  proof (cases "unat v2 > max_msgs \<or> (\<forall>ms. res' \<noteq> Ok ms)")
    case True
    then show ?thesis using msgs run by (cases res') auto
  next
    case ok: False
    then obtain ms where ms: "res' = Ok ms" "unat v2 \<le> max_msgs" by auto
    have sum: "sum_list (map msg_room ms) + (if ms = [] then 4 else 8) \<le> length data"
    proof (cases "ms = []")
      case True
      then show ?thesis using False by simp
    next
      case ne: False
      then have "v2 \<noteq> 0" using msgs ms by auto
      then have "rd_pos r2 = rd_pos r1 + 4" "rd_pos r2 \<le> length data" using r2 by (auto simp: rd_in_def)
      moreover from this have "rd_pos r1 = 4" using r1(3) r0(2) by auto
      moreover have "rd_pos r3 \<le> length data" using msgs ms by (simp add: rd_in_def)
      ultimately show ?thesis using msgs ms ne by auto
    qed
    have "length (cm_body m) < length data" if "m \<in> set ms" for m
    proof -
      have "msg_room m \<le> sum_list (map msg_room ms)" using that by (simp add: member_le_sum_list)
      then show ?thesis using sum that by (auto simp: msg_room_def split: if_splits)
    qed
    then show ?thesis using sum msgs ms run False by (auto simp: list_all_iff)
  qed
qed

text \<open>
  Splitting a frame never reads outside it and always ends with an answer: either
  the frame is refused, or at most \<open>max_msgs\<close> messages come out, with 4-byte aligned
  bodies, and for a real container the messages together fit the frame behind its 8-byte
  head, so that every body is strictly shorter than the frame.
\<close>

lemma rpc_parse_container_safe:
  assumes "length data < 2 ^ 62" "rpc_parse_container data max_msgs = res"
  shows "case res of
      Ok ms \<Rightarrow> length ms \<le> max_msgs \<and>
        (if le_word (take 4 data) = CRC_msg_container
         then sum_list (map msg_room ms) + (if ms = [] then 4 else 8) \<le> length data \<and>
           list_all (\<lambda>m. length (cm_body m) mod 4 = 0 \<and> length (cm_body m) < length data) ms
         else map cm_body ms = [data])
    | Fail \<Rightarrow> True | _ \<Rightarrow> False"
  by (rule parse_container_in[OF assms])

text \<open>What a server puts into a container, and that the client gets it out again.\<close>

definition enc_container_msg :: "rpc_container_msg \<Rightarrow> byte list" where
  "enc_container_msg m =
     le_bytes 8 (cm_msg_id m) @ le_bytes 4 (cm_seqno m) @
     le_bytes 4 (word_of_nat (length (cm_body m)) :: u32) @ cm_body m"

definition enc_container :: "rpc_container_msg list \<Rightarrow> byte list" where
  "enc_container ms =
     le_bytes 4 CRC_msg_container @ le_bytes 4 (word_of_nat (length ms) :: u32) @
     concat (map enc_container_msg ms)"

definition msg_ok :: "rpc_container_msg \<Rightarrow> bool" where
  "msg_ok m = (length (cm_body m) mod 4 = 0 \<and> length (cm_body m) < 2 ^ 32)"

lemma takes_container_body:
  assumes "length body mod 4 = 0" "length body < 2 ^ 32"
  shows "takes (read_container_body i s (word_of_nat (length body))) body
    \<lparr>cm_msg_id = i, cm_seqno = s, cm_body = body\<rparr>"
proof -
  have "unat (word_of_nat (length body) :: u32) = length body" using assms by (simp add: unat_of_nat)
  then show ?thesis using assms
    by (intro takesI) (simp add: read_container_body_def avail_rd_at peek_def bind_def
        tl_read_skip_def ret_def size_add_small rd_at_step)
qed

lemma takes_container_msg:
  assumes "msg_ok m"
  shows "takes read_container_msg (enc_container_msg m) m"
proof (rule takesI)
  fix pre post :: "byte list"
  assume len: "length pre + length (enc_container_msg m) + length post < 2 ^ 62"
  let ?n = "word_of_nat (length (cm_body m)) :: u32"
  have "takes (read_container_body (cm_msg_id m) (cm_seqno m) ?n) (cm_body m) m"
    using assms takes_container_body[of "cm_body m" "cm_msg_id m" "cm_seqno m"]
    by (cases m) (simp add: msg_ok_def)
  then have "takes (bind tl_read_uint64 (\<lambda>i. bind tl_read_uint32 (\<lambda>s.
      bind tl_read_uint32 (read_container_body i s)))) (enc_container_msg m) m"
    unfolding enc_container_msg_def
    by (intro takes_bind[OF takes_reads(3)] takes_bind[OF takes_reads(1)])
  from takesD[OF this len]
  show "read_container_msg (rd_at pre (enc_container_msg m @ post)) = (Ok m, rd_at (pre @ enc_container_msg m) post)"
    by (simp add: read_container_msg_def enc_container_msg_def tl_reader_ok_def)
qed

lemma takes_container_msgs:
  "list_all msg_ok ms \<Longrightarrow> takes (read_container_msgs (length ms)) (concat (map enc_container_msg ms)) ms"
proof (induction ms)
  case (Cons m ms)
  have "takes (bind (read_container_msgs (length ms)) (\<lambda>ms. ret (m # ms)))
      (concat (map enc_container_msg ms)) (m # ms)"
    using Cons by (intro takes_bind_ret) simp
  with takes_container_msg[of m] Cons.prems show ?case by (simp add: takes_bind)
qed (simp add: takes_ret)

lemma parse_enc_container:
  assumes "list_all msg_ok ms" "length ms \<le> max_msgs" "length ms < 2 ^ 32"
    and "length (enc_container ms) < 2 ^ 62"
  shows "rpc_parse_container (enc_container ms) max_msgs = Ok ms"
proof -
  let ?m = "bind tl_read_uint32 (\<lambda>_. bind tl_read_uint32 (\<lambda>msg_count.
          if unat msg_count > max_msgs then fail else read_container_msgs (unat msg_count)))"
  have n: "unat (word_of_nat (length ms) :: u32) = length ms" using assms(3) by (simp add: unat_of_nat)
  have "takes ?m (enc_container ms) ms"
    unfolding enc_container_def using takes_container_msgs[OF assms(1)] assms(2)
    by (intro takes_bind[OF takes_reads(1)]) (simp add: n)
  from takes_init[OF this, of "[]"] assms(4) show ?thesis
    by (simp add: rpc_parse_container_def enc_container_def)
qed

text \<open>
  C27. A container of up to \<open>max_msgs\<close> messages with aligned bodies is split into exactly
  these messages.
\<close>

theorem rpc_container_round_trip:
  assumes "list_all msg_ok ms" "length ms \<le> max_msgs" "length ms < 2 ^ 32"
    and "length (enc_container ms) < 2 ^ 62"
  shows "rpc_parse_container (enc_container ms) max_msgs = Ok ms"
  by (rule parse_enc_container[OF assms])

section \<open>Encrypted messages\<close>

text \<open>
  The plaintext of a message and the sealed packet that carries it; \<open>x\<close> is 0 for a
  client's and 8 for a server's packet.
\<close>

definition inner_message :: "u64 \<Rightarrow> u64 \<Rightarrow> u64 \<Rightarrow> u32 \<Rightarrow> byte list \<Rightarrow> byte list" where
  "inner_message salt sid mid seq data =
     le_bytes 8 salt @ le_bytes 8 sid @ le_bytes 8 mid @ le_bytes 4 seq @
     le_bytes 4 (word_of_nat (length data) :: u32) @ data"

definition sealed :: "crypto_lib \<Rightarrow> (nat \<Rightarrow> byte list) \<Rightarrow> nat \<Rightarrow> mtproto_session \<Rightarrow> byte list \<Rightarrow> byte list" where
  "sealed lib pad x s plain =
     (case mtproto_encrypt (aes_enc lib) (sha256 lib) pad plain (auth_key s) x [] of
        (cipher, msg_key) \<Rightarrow> le_bytes 8 (auth_key_id lib s) @ msg_key @ cipher)"

definition lib_ok :: "crypto_lib \<Rightarrow> (nat \<Rightarrow> byte list) \<Rightarrow> bool" where
  "lib_ok lib pad = crypto_ok (aes_enc lib) (aes_dec lib) (sha256 lib) pad"

lemma length_inner_message [simp]: "length (inner_message salt sid mid seq data) = 32 + length data"
  by (simp add: inner_message_def)

text \<open>The padded size of a message of \<open>n\<close> payload bytes.\<close>

lemma padded_size:
  assumes "n < 2 ^ 62"
  shows "32 + n + mtproto_gen_padding (32 + n) > 1024 * 1024 \<longleftrightarrow> n > 1024 * 1024 - 44"
proof -
  let ?t = "32 + n + mtproto_gen_padding (32 + n)"
  have le: "n + 44 \<le> ?t" "?t \<le> n + 59" "?t mod 16 = 0"
    using gen_padding_bounds[of "32 + n"] assms by simp_all
  then obtain q where q: "?t = 16 * q" by (metis mod_eq_0_iff_dvd dvd_def)
  show ?thesis using le(1,2) unfolding q by presburger
qed

lemma length_sealed:
  assumes "lib_ok lib pad" "length plain < 2 ^ 62"
  shows "length (sealed lib pad x s plain) = 24 + length plain + mtproto_gen_padding (length plain)"
proof -
  obtain cipher key where enc: "mtproto_encrypt (aes_enc lib) (sha256 lib) pad plain (auth_key s) x []
      = (cipher, key)" by fastforce
  then show ?thesis
    using decrypt_encrypt(2,3)[OF assms(1)[unfolded lib_ok_def] _ enc] assms(2)
    by (simp add: sealed_def)
qed

lemma sealed_bound:
  assumes "lib_ok lib pad" "length plain < 2 ^ 62"
  shows "length (sealed lib pad x s plain) \<le> length plain + 51"
  using length_sealed[OF assms] gen_padding_bounds(2)[of "length plain"] assms(2) by simp

text \<open>The state after the counters of a send have been drawn.\<close>

definition drawn :: "draw \<Rightarrow> bool \<Rightarrow> mtproto_session \<Rightarrow> u64 \<times> u32 \<times> mtproto_session" where
  "drawn d content_related s =
     (let (msg_id, s) = mtproto_session_next_msg_id (draw_now d) (draw_low d) s;
          (seq, s) = mtproto_session_next_seq_no content_related s
      in (msg_id, seq, s))"

lemma drawn_keeps:
  assumes "drawn d c s = (mid, seq, s')"
  shows "auth_key s' = auth_key s" "has_auth_key s' = has_auth_key s"
    "session_id s' = session_id s" "server_salt s' = server_salt s"
  using assms
  by (auto simp: drawn_def mtproto_session_next_msg_id_def mtproto_session_next_seq_no_def Let_def
      split: if_splits)

lemma rpc_send_encrypted_eq:
  assumes "lib_ok lib (draw_pad d)" "length data < 2 ^ 62" "has_auth_key s"
    and "drawn d c s = (mid, seq, s')"
  shows "rpc_send_encrypted lib d t data c (s, w) =
    (if length data > 1024 * 1024 - 44 then (Oob, (s', w))
     else case transport_send t (sealed lib (draw_pad d) 0 s'
         (inner_message (server_salt s') (session_id s') mid seq data)) w of (res, w') \<Rightarrow> (res, (s', w')))"
proof -
  let ?plain = "inner_message (server_salt s') (session_id s') mid seq data"
  obtain cipher key where enc: "mtproto_encrypt (aes_enc lib) (sha256 lib) (draw_pad d) ?plain
      (auth_key s') 0 [] = (cipher, key)" by fastforce
  have len: "length ?plain < 2 ^ 63" using assms(2) by simp
  note facts = decrypt_encrypt[OF assms(1)[unfolded lib_ok_def] len enc]
  have wr: "wr_data (tl_write_raw (tl_write_uint32 (tl_write_uint32 (tl_write_uint64 (tl_write_uint64
      (tl_write_uint64 tl_writer_init (server_salt s')) (session_id s')) mid) seq)
      (word_of_nat (length data))) data) = ?plain"
    by (simp add: wire_simps inner_message_def)
  have wire: "wr_data (tl_write_raw (tl_write_raw (tl_write_uint64 tl_writer_init (auth_key_id lib s'))
      (take 16 key)) cipher) = sealed lib (draw_pad d) 0 s' ?plain"
    using enc facts(3) by (simp add: wire_simps sealed_def)
  have size: "length cipher > 1024 * 1024 \<longleftrightarrow> length data > 1024 * 1024 - 44"
    using facts(2) padded_size[OF assms(2)] by simp
  obtain s1 where s1: "mtproto_session_next_msg_id (draw_now d) (draw_low d) s = (mid, s1)"
    "mtproto_session_next_seq_no c s1 = (seq, s')"
    using assms(4) by (auto simp: drawn_def Let_def split: prod.splits)
  show ?thesis
    using assms(3) size by (simp add: rpc_send_encrypted_def s1 Let_def wr enc wire)
qed

text \<open>
  C26. Sending a payload of at most 1,048,532 bytes over a session with a key draws fresh
  counters and puts exactly one sealed packet on the wire, holding salt, session
  identifier, message identifier, sequence number, length and payload; a longer payload
  overruns the ciphertext buffer; without a key nothing is sent.
\<close>

theorem rpc_send_encrypted_correct:
  assumes "lib_ok lib (draw_pad d)" "length data < 2 ^ 62" "drawn d c s = (mid, seq, s')"
    and "rpc_send_encrypted lib d t data c (s, w) = (res, (s'', w'))"
  shows "if \<not> has_auth_key s then res = Fail \<and> s'' = s \<and> w' = w
    else s'' = s' \<and> (if length data > 1024 * 1024 - 44 then res = Oob
      else res \<noteq> Oob \<and> (res = Ok () \<longrightarrow> sent w' = sent w @ frame (sealed lib (draw_pad d) 0 s
        (inner_message (server_salt s) (session_id s) mid seq data))))"
proof (cases "has_auth_key s")
  case False
  then show ?thesis using assms(4) by (simp add: rpc_send_encrypted_def)
next
  case True
  let ?p = "sealed lib (draw_pad d) 0 s' (inner_message (server_salt s') (session_id s') mid seq data)"
  have p: "?p = sealed lib (draw_pad d) 0 s (inner_message (server_salt s) (session_id s) mid seq data)"
    using drawn_keeps[OF assms(3)] by (simp add: sealed_def auth_key_id_def)
  note eq = rpc_send_encrypted_eq[OF assms(1,2) True assms(3), of t w]
  show ?thesis
  proof (cases "length data > 1024 * 1024 - 44")
    case True
    then show ?thesis using assms(4) eq \<open>has_auth_key s\<close> by simp
  next
    case False
    obtain r w1 where send: "transport_send t ?p w = (r, w1)" by fastforce
    have "s'' = s'" "res = r" "w' = w1" using assms(4) eq False send by simp_all
    moreover have "r \<noteq> Oob \<and> (r = Ok () \<longrightarrow> sent w1 = sent w @ frame ?p)"
    proof -
      have "length ?p < 2 ^ 64"
        using sealed_bound[OF assms(1), of "inner_message (server_salt s') (session_id s') mid seq data" 0 s']
          assms(2) False by simp
      from transport_send_sent[OF this send] show ?thesis by (auto split: if_splits)
    qed
    ultimately show ?thesis using False True p by simp
  qed
qed

text \<open>Reading fields off the front of a buffer.\<close>

lemma parse_takes: "takes m bs v \<Longrightarrow> length bs + length post < 2 ^ 62 \<Longrightarrow> parse (bs @ post) m s = (Ok v, s)"
  using takes_init[of m bs v post] by (simp add: parse_def)

lemma split64: "8 \<le> length d \<Longrightarrow> \<exists>v :: u64. \<exists>rest. d = le_bytes 8 v @ rest"
  by (intro exI[of _ "le_word (take 8 d)"] exI[of _ "drop 8 d"]) (simp add: le_bytes_le_word)

lemma split32: "4 \<le> length d \<Longrightarrow> \<exists>v :: u32. \<exists>rest. d = le_bytes 4 v @ rest"
  by (intro exI[of _ "le_word (take 4 d)"] exI[of _ "drop 4 d"]) (simp add: le_bytes_le_word)

text \<open>The payload copy: what is there, or zeros if the length field promises too much.\<close>

definition payload_of :: "u32 \<Rightarrow> byte list \<Rightarrow> byte list" where
  "payload_of n rest = (if unat n \<le> length rest then take (unat n) rest else replicate (unat n) 0)"

lemma read_payload_at:
  assumes "length pre + 4 + length rest < 2 ^ 62"
  shows "fst (read_payload max_len (rd_at pre (le_bytes 4 n @ rest))) =
    (if unat n > max_len then Fail else Ok (payload_of n rest))"
proof -
  have "tl_read_uint32 (rd_at pre (le_bytes 4 n @ rest)) = (Ok n, rd_at (pre @ le_bytes 4 n) rest)"
    using takesD[OF takes_reads(1), of pre n rest] assms by simp
  moreover have "fst (tl_read_raw (unat n) (rd_at (pre @ le_bytes 4 n) rest)) = Ok (payload_of n rest)"
  proof -
    have "unat n < 2 ^ 32" using unsigned_less[of n, where ?'a = nat] by simp
    then have "reader_has (rd_at (pre @ le_bytes 4 n) rest) (unat n) \<longleftrightarrow> unat n \<le> length rest"
      using assms by (simp add: reader_has_def size_add_small)
    then show ?thesis by (simp add: tl_read_raw_def payload_of_def peek_def)
  qed
  moreover have "n > 0 \<or> payload_of n rest = []" by (cases "n = 0") (auto simp: payload_of_def word_gt_0)
  ultimately show ?thesis by (auto simp: read_payload_def bind_def ret_def fail_def)
qed

definition inner_head :: "u64 \<Rightarrow> u64 \<Rightarrow> u64 \<Rightarrow> u32 \<Rightarrow> u32 \<Rightarrow> byte list" where
  "inner_head salt sid mid seq n =
     le_bytes 8 salt @ le_bytes 8 sid @ le_bytes 8 mid @ le_bytes 4 seq @ le_bytes 4 n"

lemma split_inner_head:
  assumes "32 \<le> length d"
  obtains salt sid mid seq n rest where "d = inner_head salt sid mid seq n @ rest"
proof -
  obtain salt :: u64 and d1 where 1: "d = le_bytes 8 salt @ d1" using split64[of d] assms by auto
  obtain sid :: u64 and d2 where 2: "d1 = le_bytes 8 sid @ d2" using split64[of d1] assms 1 by auto
  obtain mid :: u64 and d3 where 3: "d2 = le_bytes 8 mid @ d3" using split64[of d2] assms 1 2 by auto
  obtain seq :: u32 and d4 where 4: "d3 = le_bytes 4 seq @ d4" using split32[of d3] assms 1 2 3 by auto
  obtain n :: u32 and rest where 5: "d4 = le_bytes 4 n @ rest" using split32[of d4] assms 1 2 3 4 by auto
  from 1 2 3 4 5 that show ?thesis by (simp add: inner_head_def)
qed

lemma split_packet:
  assumes "24 \<le> length buf"
  obtains kid :: u64 and key cipher where "buf = le_bytes 8 kid @ key @ cipher" "length key = 16"
proof -
  obtain kid :: u64 and b where b: "buf = le_bytes 8 kid @ b" using split64[of buf] assms by auto
  show ?thesis using that[of kid "take 16 b" "drop 16 b"] b assms by simp
qed

lemma open_packet_eq:
  assumes "length key = 16" "length cipher < 2 ^ 61"
  shows "open_packet lib s (le_bytes 8 kid @ key @ cipher) max_len w =
    (if kid \<noteq> auth_key_id lib s then (Fail, w)
     else case mtproto_decrypt (aes_dec lib) (sha256 lib) cipher (auth_key s) key 8 [] of
       None \<Rightarrow> (Fail, w)
     | Some plain \<Rightarrow> if length plain < 32 then (Fail, w)
        else parse plain (bind tl_read_uint64 (\<lambda>salt. bind tl_read_uint64 (\<lambda>sid.
          if sid \<noteq> session_id s then fail
          else bind tl_read_uint64 (\<lambda>mid. bind tl_read_uint32 (\<lambda>seq. read_payload max_len))))) w)"
proof -
  have "takes (bind tl_read_uint64 (\<lambda>i. bind (tl_read_raw 16) (\<lambda>k. ret (i, k))))
      (le_bytes 8 kid @ key) (kid, key)"
    using takes_read_raw[of key] assms(1)
    by (intro takes_bind[OF takes_reads(3)] takes_bind_ret) simp
  from parse_takes[OF this, of cipher w] assms show ?thesis
    by (auto simp: open_packet_def bind_def Let_def fail_def split: option.splits)
qed

lemma inner_payload_eq:
  assumes "length rest < 2 ^ 61"
  shows "parse (inner_head salt sid mid seq n @ rest)
     (bind tl_read_uint64 (\<lambda>salt. bind tl_read_uint64 (\<lambda>sid.
          if sid \<noteq> sid' then fail
          else bind tl_read_uint64 (\<lambda>mid. bind tl_read_uint32 (\<lambda>seq. read_payload max_len))))) w =
    (if sid \<noteq> sid' \<or> unat n > max_len then Fail else Ok (payload_of n rest), w)"
proof -
  have r64: "tl_read_uint64 (rd_at pre (le_bytes 8 v @ post)) = (Ok v, rd_at (pre @ le_bytes 8 v) post)"
    if "length pre + 8 + length post < 2 ^ 62" for pre post v
    using takesD[OF takes_reads(3)] that by simp
  have r32: "tl_read_uint32 (rd_at pre (le_bytes 4 v @ post)) = (Ok v, rd_at (pre @ le_bytes 4 v) post)"
    if "length pre + 4 + length post < 2 ^ 62" for pre post v
    using takesD[OF takes_reads(1)] that by simp
  show ?thesis
    unfolding parse_def rd_at_init
    using assms read_payload_at[of "le_bytes 8 salt @ le_bytes 8 sid @ le_bytes 8 mid @ le_bytes 4 seq" rest max_len n]
    by (cases "sid = sid'") (simp_all add: inner_head_def bind_def r64 r32 fail_def)
qed

text \<open>
  C11. An encrypted packet is only accepted for this session: the result of a successful
  receive comes from one packet that carries the fingerprint of the session's key, a message
  key of 16 bytes and whole blocks of ciphertext. These decrypt under the session's key to a
  plaintext whose hash, over bytes 96 to 127 of that key and the plaintext, is the message
  key, and which names the session's identifier. The payload is the announced number of bytes
  behind the 32-byte head; if fewer are there, the client is handed zeros instead of an
  error.
\<close>

theorem rpc_recv_encrypted_authentic:
  assumes "rpc_recv_encrypted lib s t max_len w = (Ok out, w')"
  shows "\<exists>key cipher plain salt mid seq n rest.
    transport_recv t (1024 * 1024) w = (Ok (le_bytes 8 (auth_key_id lib s) @ key @ cipher), w') \<and>
    length key = 16 \<and> 16 \<le> length cipher \<and> length cipher mod 16 = 0 \<and>
    mtproto_decrypt (aes_dec lib) (sha256 lib) cipher (auth_key s) key 8 [] = Some plain \<and>
    key = take 16 (drop 8 (sha256 lib (take 32 (drop 96 (auth_key s)) @ plain))) \<and>
    plain = inner_head salt (session_id s) mid seq n @ rest \<and>
    unat n \<le> max_len \<and> out = payload_of n rest"
proof -
  have key: "has_auth_key s" using assms by (auto simp: rpc_recv_encrypted_def fail_def split: if_splits)
  obtain r w1 where recv: "transport_recv t (1024 * 1024) w = (r, w1)" by fastforce
  then obtain buf where buf: "r = Ok buf" "open_packet lib s buf max_len w1 = (Ok out, w')"
    using assms key by (cases r) (simp_all add: rpc_recv_encrypted_def bind_def)
  have "\<not> length buf < 24" using buf(2) by (auto simp: open_packet_def fail_def split: if_splits)
  then obtain kid :: u64 and k c where parts: "buf = le_bytes 8 kid @ k @ c" "length k = 16"
    using split_packet by (metis leI)
  have small: "length c < 2 ^ 20" using transport_recv_length[OF recv[unfolded buf(1)]] parts by simp
  note run = buf(2)[unfolded parts(1) open_packet_eq[OF parts(2) order.strict_trans[OF small], simplified]]
  then obtain plain where plain: "kid = auth_key_id lib s" "\<not> length plain < 32"
    "mtproto_decrypt (aes_dec lib) (sha256 lib) c (auth_key s) k 8 [] = Some plain"
    by (auto split: if_splits option.splits)
  obtain salt sid mid seq n rest where head: "plain = inner_head salt sid mid seq n @ rest"
    using split_inner_head[of plain] plain(2) by (metis leI)
  have "length rest < 2 ^ 61" using mtproto_decrypt_length[OF plain(3)] small head by simp
  from inner_payload_eq[OF this, of salt sid mid seq n "session_id s" max_len w1] run plain head
  have out: "sid = session_id s" "unat n \<le> max_len" "out = payload_of n rest" "w' = w1"
    by (auto split: if_splits)
  have received: "transport_recv t (1024 * 1024) w = (Ok (le_bytes 8 (auth_key_id lib s) @ k @ c), w')"
    using recv buf(1) parts(1) plain(1) out(4) by simp
  have accepted: "k = take 16 (drop 8 (sha256 lib (take 32 (drop 96 (auth_key s)) @ plain)))"
    "16 \<le> length c" "length c mod 16 = 0"
    using mtproto_decrypt_accepts[OF plain(3)] parts(2) by simp_all
  show ?thesis
    using received parts(2) accepted(2,3) plain(3) accepted(1) head[unfolded out(1)] out(2,3)
    by (intro exI conjI)
qed

lemma recv_sealed:
  assumes "lib_ok lib pad" "has_auth_key s" "length data \<le> max_len" "length data < 2 ^ 20"
    and "incoming w = frame (sealed lib pad 8 s (inner_message salt (session_id s) mid seq data)) @ rest"
    and "transport_recv t (1024 * 1024) w = (Ok buf, w')"
  shows "rpc_recv_encrypted lib s t max_len w = (Ok data, w') \<and> incoming w' = rest"
proof -
  let ?plain = "inner_message salt (session_id s) mid seq data"
  let ?n = "word_of_nat (length data) :: u32"
  obtain cipher key where enc: "mtproto_encrypt (aes_enc lib) (sha256 lib) pad ?plain (auth_key s) 8 []
      = (cipher, key)" by fastforce
  have small: "length ?plain < 2 ^ 62" "length ?plain < 2 ^ 63" using assms(4) by simp_all
  note dec = decrypt_encrypt[OF assms(1)[unfolded lib_ok_def] small(2) enc]
  let ?pad = "pad (mtproto_gen_padding (length ?plain))"
  have pads: "length ?pad \<le> 27" "(length ?plain + mtproto_gen_padding (length ?plain)) mod 16 = 0"
    using assms(1) gen_padding_bounds[OF small(2)] by (simp_all add: lib_ok_def crypto_ok_def)
  let ?p = "le_bytes 8 (auth_key_id lib s) @ key @ cipher"
  have sealed: "sealed lib pad 8 s ?plain = ?p" using enc by (simp add: sealed_def)
  have len: "length ?p = 24 + length ?plain + mtproto_gen_padding (length ?plain)"
    using length_sealed[OF assms(1) small(1), of 8 s] sealed by simp
  have four: "(24 + a + b) mod 4 = 0" if "(a + b) mod 16 = 0" for a b :: nat using that by presburger
  have mod4: "length ?p mod 4 = 0" unfolding len by (rule four[OF pads(2)])
  have lt: "length ?p < 2 ^ 26"
    using dec(2) len gen_padding_bounds(2)[OF small(2)] assms(4) by simp
  have ne: "?p \<noteq> []" using dec(3) by auto
  have buf: "buf = ?p" "incoming w' = rest"
    using transport_recv_frame[OF assms(6,5), unfolded sealed, OF ne mod4 lt] by simp_all
  have small_c: "length cipher < 2 ^ 61" using dec(2) gen_padding_bounds(2)[OF small(2)] assms(4) by simp
  have inner: "?plain @ ?pad = inner_head salt (session_id s) mid seq ?n @ data @ ?pad"
    by (simp add: inner_message_def inner_head_def)
  have n: "unat ?n = length data" using assms(4) by (simp add: unat_of_nat)
  have "payload_of ?n (data @ ?pad) = data" by (simp add: payload_of_def n)
  with inner_payload_eq[of "data @ ?pad" salt "session_id s" mid seq ?n "session_id s" max_len w'] assms(3,4) pads(1)
  have "open_packet lib s ?p max_len w' = (Ok data, w')"
    unfolding open_packet_eq[OF dec(3) small_c] dec(1) inner
    by (simp add: n) (simp add: inner_head_def)
  then show ?thesis using assms(2,6) buf by (simp add: rpc_recv_encrypted_def bind_def)
qed

text \<open>
  C25. What the server seals the client reads: a packet sealed for the session's key and
  identifier is opened by the client, whatever salt, message identifier, sequence number
  and padding it carries, and gives exactly its payload.
\<close>

theorem rpc_recv_encrypted_sealed:
  assumes "lib_ok lib pad" "has_auth_key s" "length data \<le> max_len" "length data < 2 ^ 20"
    and "incoming w = frame (sealed lib pad 8 s (inner_message salt (session_id s) mid seq data)) @ rest"
    and "transport_recv t (1024 * 1024) w = (Ok buf, w')"
  shows "rpc_recv_encrypted lib s t max_len w = (Ok data, w') \<and> incoming w' = rest"
  by (rule recv_sealed[OF assms])

section \<open>Errors\<close>

text \<open>Decimal digits of a number, most significant first.\<close>

fun decimal :: "nat \<Rightarrow> byte list" where
  "decimal n = (if n < 10 then [word_of_nat (48 + n)] else decimal (n div 10) @ [word_of_nat (48 + n mod 10)])"

declare decimal.simps [simp del]

lemma digit_char: "n < 10 \<Longrightarrow> is_digit (word_of_nat (48 + n)) \<and> uint (word_of_nat (48 + n) :: byte) = 48 + int n"
proof -
  assume "n < 10"
  then have "unat (word_of_nat (48 + n) :: byte) = 48 + n"
    by (simp add: unat_of_nat del: of_nat_add)
  then show ?thesis using \<open>n < 10\<close>
    by (simp add: is_digit_def word_le_nat_alt uint_nat del: of_nat_add)
qed

lemma decimal_digits: "list_all is_digit (decimal n) \<and> decimal n \<noteq> []"
proof (induction n rule: decimal.induct)
  case (1 n)
  then show ?case using digit_char[of n] digit_char[of "n mod 10"]
    by (subst (1 2) decimal.simps) (simp del: of_nat_add)
qed

lemma decimal_value: "foldl (\<lambda>a c. a * 10 + (uint c - 48)) 0 (decimal n) = int n"
proof (induction n rule: decimal.induct)
  case (1 n)
  then show ?case using digit_char[of n] digit_char[of "n mod 10"]
    by (subst decimal.simps) (simp add: zdiv_int zmod_int del: of_nat_add)
qed

lemma extract_trailing_decimal:
  assumes "n < 2 ^ 31" "\<not> is_digit c"
  shows "extract_trailing_int (p @ c # decimal n) = int n"
proof -
  have d: "\<forall>x \<in> set (rev (decimal n)). is_digit x" using decimal_digits[of n] by (simp add: list_all_iff)
  have "takeWhile is_digit (rev (p @ c # decimal n)) = rev (decimal n)"
    using assms(2) takeWhile_append2[of "rev (decimal n)" is_digit "c # rev p"] d by simp
  then have "extract_trailing_int (p @ c # decimal n) = atoi_digits (decimal n)"
    using decimal_digits[of n] by (simp add: extract_trailing_int_def)
  also have "\<dots> = int n"
    using assms(1) by (simp add: atoi_digits_def decimal_value min_def signed_of_nat
        signed_take_bit_int_eq_self)
  finally show ?thesis .
qed

text \<open>An error object on the wire.\<close>

definition enc_rpc_error :: "u32 \<Rightarrow> byte list \<Rightarrow> byte list" where
  "enc_rpc_error code msg = le_bytes 4 CRC_rpc_error @ le_bytes 4 code @ enc_bytes msg"

definition error_of :: "int \<Rightarrow> byte list \<Rightarrow> rpc_error" where
  "error_of code msg =
     (let migrate = starts_with msg ''PHONE_MIGRATE_'' \<or> starts_with msg ''FILE_MIGRATE_'' \<or>
            starts_with msg ''NETWORK_MIGRATE_'' \<or> starts_with msg ''USER_MIGRATE_''
      in \<lparr>error_code = code, error_msg = clip 128 msg,
          migrate_dc = (if migrate then extract_trailing_int msg else -1),
          flood_wait_secs = (if \<not> migrate \<and> starts_with msg ''FLOOD_WAIT_''
            then extract_trailing_int msg else 0)\<rparr>)"

lemma enc_bytes_bound: "length (enc_bytes d) \<le> length d + 7"
proof -
  have "4 * ((k + 3) div 4) \<le> k + 3" for k :: nat by simp
  from this[of "length (enc_prefix (length d)) + length d"] show ?thesis
    unfolding length_enc_bytes by (auto simp: length_enc_prefix split: if_splits)
qed

lemma rpc_parse_error_eq:
  assumes "length msg < 2 ^ 24" "length rest < 2 ^ 61"
  shows "rpc_parse_error (enc_rpc_error code msg @ rest) = Ok (error_of (sint code) (cstr msg))"
proof -
  let ?f = "\<lambda>code str. case str of
        None \<Rightarrow> \<lparr>error_code = code, error_msg = [], migrate_dc = -1, flood_wait_secs = 0\<rparr>
      | Some str \<Rightarrow> error_of code (cstr str)"
  let ?m = "bind tl_read_uint32 (\<lambda>_. bind tl_read_int32 (\<lambda>code. bind tl_read_string (\<lambda>str. ret (?f code str))))"
  have m: "rpc_parse_error (enc_rpc_error code msg @ rest) = fst (?m (tl_reader_init
      (enc_rpc_error code msg @ rest) (length (enc_rpc_error code msg @ rest))))"
    unfolding rpc_parse_error_def error_of_def Let_def
    by (simp add: enc_rpc_error_def bind_def option.case_distrib cong: option.case_cong)
  have "takes ?m (enc_rpc_error code msg) (?f (sint code) (Some msg))"
    unfolding enc_rpc_error_def using assms(1)
    by (intro takes_bind[OF takes_reads(1)] takes_bind[OF takes_reads(2)] takes_bind_ret takes_read_string)
  moreover have "length (enc_rpc_error code msg) + length rest < 2 ^ 62"
    using assms enc_bytes_bound[of msg] by (simp add: enc_rpc_error_def)
  ultimately show ?thesis unfolding m by (subst takes_init) simp_all
qed

lemma length_decimal: "n < 10 ^ Suc k \<Longrightarrow> length (decimal n) \<le> Suc k"
proof (induction k arbitrary: n)
  case 0
  then show ?case by (simp add: decimal.simps)
next
  case (Suc k)
  then have "length (decimal (n div 10)) \<le> Suc k" by (intro Suc.IH) (simp add: less_mult_imp_div_less)
  then show ?case by (subst decimal.simps) simp
qed

lemma decimal_no_zero: "0 \<notin> set (decimal n)"
  using decimal_digits[of n] by (auto simp: list_all_iff is_digit_def)

lemma hint_message:
  assumes "n < 2 ^ 31" "0 \<notin> set (ascii p)" "length p \<le> 32"
  shows "cstr (ascii p @ decimal n) = ascii p @ decimal n" "length (ascii p @ decimal n) < 128"
proof -
  show "cstr (ascii p @ decimal n) = ascii p @ decimal n"
    using assms(2) decimal_no_zero[of n] by (intro cstr_id) auto
  have "length (decimal n) \<le> 10" using length_decimal[of n 9] assms(1) by simp
  then show "length (ascii p @ decimal n) < 128" using assms(3) by (simp add: ascii_def)
qed

text \<open>
  The hints of the server's retry errors are decoded: \<open>FLOOD_WAIT_n\<close> gives \<open>n\<close>
  seconds and no data centre, each of the four \<open>MIGRATE_n\<close> errors gives data centre \<open>n\<close>
  and no wait, for every \<open>n\<close> that fits an \<open>int\<close>; the code and the message are kept.
\<close>

lemma rpc_error_hints:
  assumes "n < 2 ^ 31" "length rest < 2 ^ 61"
    and "p \<in> {''FLOOD_WAIT_'', ''PHONE_MIGRATE_'', ''FILE_MIGRATE_'', ''NETWORK_MIGRATE_'', ''USER_MIGRATE_''}"
  shows "rpc_parse_error (enc_rpc_error code (ascii p @ decimal n) @ rest) =
    Ok \<lparr>error_code = sint code, error_msg = ascii p @ decimal n,
        migrate_dc = (if p = ''FLOOD_WAIT_'' then -1 else int n),
        flood_wait_secs = (if p = ''FLOOD_WAIT_'' then int n else 0)\<rparr>"
proof -
  have p: "0 \<notin> set (ascii p)" "length p \<le> 32" "last (ascii p) = 95" "ascii p \<noteq> []"
    using assms(3) by (auto simp: ascii_def)
  note msg = hint_message[OF assms(1) p(1,2)]
  have "ascii p @ decimal n = butlast (ascii p) @ 95 # decimal n"
    using p(3,4) append_butlast_last_id[of "ascii p"] by (metis append.assoc append_Cons append_Nil)
  moreover have "\<not> is_digit 95" by (simp add: is_digit_def)
  ultimately have hint: "extract_trailing_int (ascii p @ decimal n) = int n"
    using extract_trailing_decimal[OF assms(1)] by metis
  have "error_of (sint code) (ascii p @ decimal n) =
      \<lparr>error_code = sint code, error_msg = ascii p @ decimal n,
        migrate_dc = (if p = ''FLOOD_WAIT_'' then -1 else int n),
        flood_wait_secs = (if p = ''FLOOD_WAIT_'' then int n else 0)\<rparr>"
    unfolding error_of_def Let_def hint clip_id[OF msg(2)] using assms(3)
    by (auto simp: starts_with_def ascii_def)
  then show ?thesis using rpc_parse_error_eq[of "ascii p @ decimal n" rest code] msg assms(2) by simp
qed

section \<open>Packed results\<close>

text \<open>The inflater respects the room it is given.\<close>

definition inflater_ok :: "inflater \<Rightarrow> bool" where
  "inflater_ok gunzip = (\<forall>cap src out. gunzip cap src = Some out \<longrightarrow> length out \<le> cap)"

lemma unwrap_gzip_in:
  assumes "inflater_ok gunzip"
    and "length data < 2 ^ 62" "rpc_unwrap_gzip gunzip data max_len = res"
  shows "(case res of Ok out \<Rightarrow> length out \<le> max_len | Fail \<Rightarrow> True | _ \<Rightarrow> False) \<and>
    (length data < 4 \<or> le_word (take 4 data) \<noteq> CRC_gzip_packed \<longrightarrow>
      res = (if length data \<le> max_len then Ok data else Fail))"
proof (cases "length data < 4 \<or> le_word (take 4 data) \<noteq> CRC_gzip_packed")
  case True
  then show ?thesis using assms(3) by (auto simp: rpc_unwrap_gzip_def split: if_splits)
next
  case False
  let ?r = "tl_reader_init data (length data)"
  obtain v r1 where r1: "read_le32 ?r = (Ok v, r1)" "rd_in data r1"
    using rd_in_read32[OF rd_in_init[OF assms(2)]] by metis
  have "rd_wf r1" using r1(2) by (simp add: rd_in_def rd_wf_def)
  then obtain gz r2 where r2: "tl_read_bytes r1 = (Ok gz, r2)"
    using tl_read_bytes_result[of r1] by (auto simp: bytes_result_def)
  have "length out \<le> max_len" if "gunzip (max_len mod 2 ^ 32) src = Some out" for src out
    using assms(1) that mod_less_eq_dividend[of max_len "2 ^ 32"] unfolding inflater_ok_def by (meson le_trans)
  then show ?thesis using assms(3) False r1(1) r2
    by (fastforce simp: rpc_unwrap_gzip_def bind_def tl_read_uint32_def fail_def ret_def
        split: option.splits if_splits)
qed

section \<open>No receive leaves its buffers\<close>

lemma open_packet_no_fault:
  assumes "length buf < 2 ^ 60" "open_packet lib s buf max_len w = (res, w')"
  shows "no_fault res \<and> (\<forall>out. res = Ok out \<longrightarrow> length out \<le> max_len)"
proof (cases "24 \<le> length buf")
  case False
  then show ?thesis using assms(2) by (auto simp: open_packet_def fail_def)
next
  case True
  then obtain kid :: u64 and key cipher where buf: "buf = le_bytes 8 kid @ key @ cipher" "length key = 16"
    by (rule split_packet)
  have small: "length cipher < 2 ^ 61" using assms(1) buf by simp
  note run = assms(2)[unfolded buf(1) open_packet_eq[OF buf(2) small]]
  show ?thesis
  proof (cases "kid = auth_key_id lib s \<and>
      (\<exists>plain. mtproto_decrypt (aes_dec lib) (sha256 lib) cipher (auth_key s) key 8 [] = Some plain \<and>
        \<not> length plain < 32)")
    case False
    then show ?thesis using run by (auto split: if_splits option.splits)
  next
    case True
    then obtain plain where plain: "kid = auth_key_id lib s" "\<not> length plain < 32"
      "mtproto_decrypt (aes_dec lib) (sha256 lib) cipher (auth_key s) key 8 [] = Some plain" by blast
    obtain salt sid mid seq n rest where head: "plain = inner_head salt sid mid seq n @ rest"
      using split_inner_head[of plain] plain(2) by (metis leI)
    have "length rest < 2 ^ 61" using mtproto_decrypt_length[OF plain(3)] small head by simp
    from inner_payload_eq[OF this, of salt sid mid seq n "session_id s" max_len w] run plain head
    show ?thesis by (auto simp: payload_of_def split: if_splits)
  qed
qed

lemma rpc_recv_encrypted_no_oob:
  assumes "rpc_recv_encrypted lib s t max_len w = (res, w')"
  shows "res \<noteq> Oob \<and> (\<forall>out. res = Ok out \<longrightarrow> length out \<le> max_len)"
proof (cases "has_auth_key s")
  case True
  obtain r w1 where recv: "transport_recv t (1024 * 1024) w = (r, w1)" by fastforce
  show ?thesis
  proof (cases r)
    case (Ok buf)
    have "length buf < 2 ^ 60" using transport_recv_length[OF recv[unfolded Ok]] by simp
    from open_packet_no_fault[OF this, of lib s max_len w1 res w'] assms True recv Ok
    show ?thesis by (auto simp: rpc_recv_encrypted_def bind_def)
  qed (use assms True recv transport_recv_no_oob[OF recv] in \<open>auto simp: rpc_recv_encrypted_def bind_def\<close>)
qed (use assms in \<open>auto simp: rpc_recv_encrypted_def fail_def\<close>)

lemma rpc_send_encrypted_no_oob:
  assumes "lib_ok lib (draw_pad d)" "length data \<le> 1024 * 1024 - 44"
    and "rpc_send_encrypted lib d t data c (s, w) = (res, (s', w'))"
  shows "res \<noteq> Oob \<and> has_auth_key s' = has_auth_key s"
proof (cases "has_auth_key s")
  case True
  obtain mid seq s1 where dr: "drawn d c s = (mid, seq, s1)" by (metis prod.exhaust)
  let ?m = "inner_message (server_salt s1) (session_id s1) mid seq data"
  let ?p = "sealed lib (draw_pad d) 0 s1 ?m"
  have small: "length data < 2 ^ 62" "\<not> length data > 1024 * 1024 - 44" using assms(2) by simp_all
  obtain r w1 where send: "transport_send t ?p w = (r, w1)" by fastforce
  have "length ?p < 2 ^ 64" using sealed_bound[OF assms(1), of ?m 0 s1] assms(2) by simp
  from transport_send_sent[OF this send] rpc_send_encrypted_eq[OF assms(1) small(1) True dr, of t w]
    send small(2) assms(3) drawn_keeps(2)[OF dr]
  show ?thesis by auto
qed (use assms(3) in \<open>auto simp: rpc_send_encrypted_def\<close>)

section \<open>Examples\<close>

definition toy_lib :: crypto_lib where
  "toy_lib = \<lparr>sha1 = toy_hash, sha256 = toy_hash, aes_enc = toy_cipher, aes_dec = toy_cipher\<rparr>"

definition toy_draw :: draw where
  "toy_draw = \<lparr>draw_now = 1700000000, draw_low = 5, draw_pad = (\<lambda>n. replicate n 3)\<rparr>"

definition demo_session :: mtproto_session where
  "demo_session = mtproto_session_set_auth_key (replicate 256 9) (mtproto_session_init 77)"

lemma toy_lib_ok: "lib_ok toy_lib (\<lambda>n. replicate n 3)"
  using toy_crypto_ok by (simp add: lib_ok_def toy_lib_def)

lemma demo_session_key: "has_auth_key demo_session"
  by (simp add: demo_session_def mtproto_session_set_auth_key_def)

definition demo_msgs :: "rpc_container_msg list" where
  "demo_msgs = [\<lparr>cm_msg_id = 1, cm_seqno = 2, cm_body = [1, 2, 3, 4]\<rparr>,
     \<lparr>cm_msg_id = 5, cm_seqno = 6, cm_body = [9, 9, 9, 9, 8, 8, 8, 8]\<rparr>]"

lemma demo_msgs_ok: "list_all msg_ok demo_msgs" "length demo_msgs = 2"
  "length (enc_container demo_msgs) = 52"
  by (simp_all add: demo_msgs_def msg_ok_def enc_container_def enc_container_msg_def)

theorem rpc_container_round_trip_witness:
  "rpc_parse_container (enc_container demo_msgs) 16 = Ok demo_msgs"
  by (rule rpc_container_round_trip) (simp_all add: demo_msgs_ok)

definition sealed_net :: net where
  "sealed_net = \<lparr>script = replicate 200 (Moves 4), sent = [],
     incoming = frame (sealed toy_lib (\<lambda>n. replicate n 3) 8 demo_session
       (inner_message 11 (session_id demo_session) 22 33 [1, 2, 3, 4])), open_fds = {3}\<rparr>"

lemma sealed_net_recv: "\<exists>buf w'. transport_recv demo_transport (1024 * 1024) sealed_net = (Ok buf, w')"
proof -
  let ?p = "inner_message 11 (session_id demo_session) 22 33 [1, 2, 3, 4]"
  let ?d = "sealed toy_lib (\<lambda>n. replicate n 3) 8 demo_session ?p"
  have "mtproto_gen_padding 36 = 12"
    using gen_padding_bounds[of 36] by (simp, presburger)
  then have len: "length ?d = 72" using length_sealed[OF toy_lib_ok, of ?p 8 demo_session] by simp
  have "steady 4 (script sealed_net)" "moves (script sealed_net) = 200" "incoming sealed_net = frame ?d @ []"
    by (simp_all add: sealed_net_def steady_def moves_def list_all_iff)
  moreover have "?d \<noteq> []" using len by auto
  ultimately show ?thesis
    using transport_recv_steady[of demo_transport ?d sealed_net "1024 * 1024" "[]"] len
    by (auto simp: demo_transport_def)
qed

theorem rpc_recv_encrypted_sealed_witness:
  "\<exists>w'. rpc_recv_encrypted toy_lib demo_session demo_transport 100 sealed_net = (Ok [1, 2, 3, 4], w')"
proof -
  obtain buf w' where recv: "transport_recv demo_transport (1024 * 1024) sealed_net = (Ok buf, w')"
    using sealed_net_recv by blast
  have "incoming sealed_net = frame (sealed toy_lib (\<lambda>n. replicate n 3) 8 demo_session
      (inner_message 11 (session_id demo_session) 22 33 [1, 2, 3, 4])) @ []" by (simp add: sealed_net_def)
  from rpc_recv_encrypted_sealed[OF toy_lib_ok demo_session_key _ _ this recv] show ?thesis by auto
qed

theorem rpc_recv_encrypted_authentic_witness:
  "\<exists>key cipher plain n rest w'.
    transport_recv demo_transport (1024 * 1024) sealed_net =
      (Ok (le_bytes 8 (auth_key_id toy_lib demo_session) @ key @ cipher), w') \<and>
    key = take 16 (drop 8 (toy_hash (take 32 (drop 96 (replicate 256 9)) @ plain))) \<and>
    [1, 2, 3, 4] = payload_of n rest"
proof -
  obtain buf w' where recv: "transport_recv demo_transport (1024 * 1024) sealed_net = (Ok buf, w')"
    using sealed_net_recv by blast
  have "incoming sealed_net = frame (sealed toy_lib (\<lambda>n. replicate n 3) 8 demo_session
      (inner_message 11 (session_id demo_session) 22 33 [1, 2, 3, 4])) @ []" by (simp add: sealed_net_def)
  from recv_sealed[OF toy_lib_ok demo_session_key _ _ this recv, of 100]
  have "rpc_recv_encrypted toy_lib demo_session demo_transport 100 sealed_net = (Ok [1, 2, 3, 4], w')"
    by simp
  moreover have "sha256 toy_lib = toy_hash" "auth_key demo_session = replicate 256 9"
    by (simp_all add: toy_lib_def demo_session_def mtproto_session_set_auth_key_def)
  ultimately show ?thesis using rpc_recv_encrypted_authentic[of toy_lib demo_session] by metis
qed

theorem rpc_send_encrypted_correct_witness:
  "\<exists>mid seq s' w'. drawn toy_draw True demo_session = (mid, seq, s') \<and>
     rpc_send_encrypted toy_lib toy_draw demo_transport [1, 2, 3, 4] True (demo_session, sealed_net)
       = (Ok (), (s', w')) \<and>
     sent w' = frame (sealed toy_lib (draw_pad toy_draw) 0 demo_session
       (inner_message 0 (session_id demo_session) mid seq [1, 2, 3, 4]))"
proof -
  obtain mid seq s' where d: "drawn toy_draw True demo_session = (mid, seq, s')" by (metis prod.exhaust)
  have ok: "lib_ok toy_lib (draw_pad toy_draw)" using toy_lib_ok by (simp add: toy_draw_def)
  let ?p = "inner_message (server_salt s') (session_id s') mid seq [1, 2, 3, 4]"
  let ?d = "sealed toy_lib (draw_pad toy_draw) 0 s' ?p"
  have "mtproto_gen_padding 36 = 12" using gen_padding_bounds[of 36] by (simp, presburger)
  then have len: "length ?d = 72" using length_sealed[OF ok, of ?p 0 s'] by simp
  moreover have "?d \<noteq> []" using len by auto
  moreover have "steady 4 (script sealed_net)" "moves (script sealed_net) = 200"
    by (simp_all add: sealed_net_def steady_def moves_def list_all_iff)
  ultimately obtain w' where "transport_send demo_transport ?d sealed_net = (Ok (), w')"
    using transport_send_steady[of demo_transport ?d sealed_net] by (auto simp: demo_transport_def)
  with rpc_send_encrypted_eq[OF ok _ demo_session_key d, of "[1, 2, 3, 4]" demo_transport sealed_net]
  have run: "rpc_send_encrypted toy_lib toy_draw demo_transport [1, 2, 3, 4] True (demo_session, sealed_net)
      = (Ok (), (s', w'))" by simp
  have "server_salt demo_session = 0"
    by (simp add: demo_session_def mtproto_session_set_auth_key_def mtproto_session_init_def)
  with rpc_send_encrypted_correct[OF ok _ d run] d run demo_session_key show ?thesis
    by (simp add: sealed_net_def)
qed

end
