(* ===== verification/PQ.thy ===== *)
theory PQ
  imports C_Monad
begin

text \<open>
  The number helpers of \<open>src/src/infrastructure/mtproto_auth.c\<close>: big-endian bytes without
  leading zeros and the factorization of \<open>pq\<close> by Pollard's rho, with its 64-bit and
  128-bit arithmetic. Every loop is bounded in the source, so all functions are total.
\<close>

section \<open>Big-endian bytes\<close>

text \<open>\<open>while (start < n && tmp[start] == 0) start++\<close>, then the copy from \<open>start\<close> on.\<close>

primrec strip_zeros :: "nat \<Rightarrow> byte list \<Rightarrow> byte list" where
  "strip_zeros 0 tmp = tmp"
| "strip_zeros (Suc n) tmp = (if hd tmp = 0 then strip_zeros n (tl tmp) else tmp)"

definition uint64_to_be :: "u64 \<Rightarrow> byte list" where
  "uint64_to_be val = strip_zeros 7 (map (\<lambda>i. ucast (drop_bit (8 * (7 - i)) val AND 0xFF)) [0..<8])"

definition uint32_to_be :: "u32 \<Rightarrow> byte list" where
  "uint32_to_be val = strip_zeros 3
     [ucast (drop_bit 24 val AND 0xFF), ucast (drop_bit 16 val AND 0xFF),
      ucast (drop_bit 8 val AND 0xFF), ucast (val AND 0xFF)]"

definition be_to_uint64 :: "byte list \<Rightarrow> u64" where
  "be_to_uint64 data = foldl (\<lambda>val b. push_bit 8 val OR ucast b) 0 data"

section \<open>Factorization\<close>

text \<open>\<open>while (b != 0) { t = b; b = a % b; a = t; }\<close>\<close>

function gcd_loop :: "u64 \<Rightarrow> u64 \<Rightarrow> u64" where
  "gcd_loop a b = (if b \<noteq> 0 then gcd_loop b (a mod b) else a)"
  by pat_completeness auto
termination
  by (relation "measure (\<lambda>(a, b). unat b)")
    (auto simp: unat_mod word_gt_0 unat_gt_0 intro!: mod_less_divisor)

definition rho_step :: "u64 \<Rightarrow> u64 \<Rightarrow> u64 \<Rightarrow> u64" where
  "rho_step pq c x = ucast ((ucast x * ucast x + ucast c :: 128 word) mod ucast pq)"

function rho_loop :: "u64 \<Rightarrow> u64 \<Rightarrow> u64 \<Rightarrow> u64 \<Rightarrow> u64 \<Rightarrow> nat \<Rightarrow> u64" where
  "rho_loop pq c x y d steps =
     (if d = 1 \<and> steps < 1000000 then
        let x = rho_step pq c x; y = rho_step pq c (rho_step pq c y);
            a = (if x > y then x - y else y - x)
        in if a = 0 then d else rho_loop pq c x y (gcd_loop a pq) (steps + 1)
      else d)"
  by pat_completeness auto
termination
  by (relation "measure (\<lambda>(pq, c, x, y, d, steps). 1000000 - steps)") auto

text \<open>The attempts with \<open>c\<close>, \<open>c + 1\<close>, \<dots>, 19.\<close>

function pq_attempts :: "u64 \<Rightarrow> u64 \<Rightarrow> (u32 \<times> u32) option" where
  "pq_attempts pq c =
     (if c < 20 then
        let d = rho_loop pq c 2 2 1 0 in
        if d \<noteq> 1 \<and> d \<noteq> pq then
          let p = d; q = pq div d; (p, q) = (if p > q then (q, p) else (p, q)) in
          if p > 0xFFFFFFFF \<or> q > 0xFFFFFFFF then None else Some (ucast p, ucast q)
        else pq_attempts pq (c + 1)
      else None)"
  by pat_completeness auto
termination
proof (relation "measure (\<lambda>(pq, c). 20 - unat c)", goal_cases)
  case (2 pq c d)
  then have "unat c < 20" by (simp add: word_less_nat_alt)
  then have "unat (c + 1) = Suc (unat c)"
    by (simp add: unat_word_ariths)
  then show ?case using \<open>unat c < 20\<close> by simp
qed simp

definition pq_factorize :: "u64 \<Rightarrow> (u32 \<times> u32) option" where
  "pq_factorize pq =
     (if pq < 2 then None
      else if pq mod 2 = 0 then
        let p = 2; q = ucast (pq div 2) in Some (if p > q then (q, p) else (p, q))
      else pq_attempts pq 1)"

declare gcd_loop.simps [simp del] rho_loop.simps [simp del] pq_attempts.simps [simp del]

section \<open>Byte strings of numbers\<close>

lemma be_to_uint64_snoc: "be_to_uint64 (bs @ [b]) = push_bit 8 (be_to_uint64 bs) OR ucast b"
  by (simp add: be_to_uint64_def)

lemma be_to_uint64_Cons_0 [simp]: "be_to_uint64 (0 # bs) = be_to_uint64 bs"
  by (simp add: be_to_uint64_def)

lemma be_to_uint64_strip:
  "n < length tmp \<Longrightarrow> be_to_uint64 (strip_zeros n tmp) = be_to_uint64 tmp"
proof (induction n arbitrary: tmp)
  case (Suc n)
  then show ?case by (cases tmp) auto
qed simp

lemma bit_be_to_uint64_rev:
  "bit (be_to_uint64 (rev bs)) n = (n < 64 \<and> n div 8 < length bs \<and> bit (bs ! (n div 8)) (n mod 8))"
proof (induction bs arbitrary: n)
  case (Cons b bs)
  show ?case
  proof (cases "n < 8")
    case True
    then show ?thesis by (simp add: be_to_uint64_snoc bit_simps)
  next
    case False
    then have "n div 8 = Suc ((n - 8) div 8)" "n mod 8 = (n - 8) mod 8"
      using le_div_geq[of 8 n] le_mod_geq[of 8 n] by simp_all
    moreover have "\<not> bit b n" using False bit_imp_le_length[of b n] by auto
    ultimately show ?thesis using False by (auto simp: be_to_uint64_snoc bit_simps Cons.IH)
  qed
qed (simp add: be_to_uint64_def)

lemma be_to_uint64_le_word: "be_to_uint64 bs = le_word (rev bs)"
  by (rule bit_word_eqI) (use bit_be_to_uint64_rev[of "rev bs"] in \<open>simp add: bit_le_word\<close>)

lemma be_to_uint64_to_be: "be_to_uint64 (uint64_to_be v) = v"
proof -
  have "map (\<lambda>i. ucast (drop_bit (8 * (7 - i)) v AND 0xFF)) [0..<8] = rev (le_bytes 8 v)"
  proof (rule nth_equalityI)
    fix i assume "i < length (map (\<lambda>i. ucast (drop_bit (8 * (7 - i)) v AND 0xFF) :: byte) [0..<8])"
    then have i: "i < 8" by simp
    have m: "(0xFF :: u64) = mask 8" by (simp add: mask_eq_exp_minus_1)
    have "(ucast (w AND 0xFF) :: byte) = ucast w" for w :: u64
      unfolding m by (intro bit_word_eqI) (simp add: bit_simps)
    with i show "map (\<lambda>i. ucast (drop_bit (8 * (7 - i)) v AND 0xFF)) [0..<8] ! i = rev (le_bytes 8 v) ! i"
      using nth_upt[of 0 "7 - i" 8] nth_upt[of 0 i 8]
      by (simp add: rev_nth le_bytes_def)
  qed simp
  then show ?thesis
    using be_to_uint64_strip[of 7 "rev (le_bytes 8 v)"] be_to_uint64_le_word[of "rev (le_bytes 8 v)"]
    by (simp add: uint64_to_be_def)
qed

section \<open>Correctness of the factorization\<close>

lemma unat_gcd_loop: "unat (gcd_loop a b) = gcd (unat a) (unat b)"
proof (induction a b rule: gcd_loop.induct)
  case (1 a b)
  show ?case
  proof (cases "b = 0")
    case False
    then have "unat (gcd_loop a b) = gcd (unat b) (unat a mod unat b)"
      using 1 by (subst gcd_loop.simps) (simp add: unat_mod)
    then show ?thesis by (metis gcd.commute gcd_red_nat)
  qed (simp add: gcd_loop.simps)
qed

lemma rho_loop_dvd: "unat d dvd unat pq \<Longrightarrow> unat (rho_loop pq c x y d steps) dvd unat pq"
proof (induction pq c x y d steps rule: rho_loop.induct)
  case (1 pq c x y d steps)
  show ?case
    by (subst rho_loop.simps) (use 1 in \<open>auto simp: Let_def unat_gcd_loop\<close>)
qed

lemma pq_attempts_factor:
  assumes "pq_attempts pq c = Some (p, q)" "1 < pq"
  shows "unat p * unat q = unat pq \<and> 1 < unat p \<and> unat p \<le> unat q"
  using assms
proof (induction pq c rule: pq_attempts.induct)
  case (1 pq c)
  define d where "d = rho_loop pq c 2 2 1 0"
  have "c < 20" using "1.prems"(1) by (subst (asm) pq_attempts.simps) (simp split: if_splits)
  show ?case
  proof (cases "d \<noteq> 1 \<and> d \<noteq> pq")
    case False
    then have "pq_attempts pq (c + 1) = Some (p, q)"
      using "1.prems"(1) \<open>c < 20\<close> by (subst (asm) pq_attempts.simps) (auto simp: d_def[symmetric])
    then show ?thesis using "1.IH"[OF \<open>c < 20\<close> d_def] False "1.prems"(2) by blast
  next
    case True
    have dvd: "unat d dvd unat pq" unfolding d_def by (rule rho_loop_dvd) simp
    have pos: "0 < unat pq" "unat d \<noteq> 0"
      using "1.prems"(2) dvd by (auto simp: word_less_nat_alt intro!: Nat.gr0I)
    have ne: "unat d \<noteq> 1" "unat d \<noteq> unat pq" using True by (auto simp: word_unat_eq_iff)
    have prod: "unat d * unat (pq div d) = unat pq"
      using dvd by (simp add: unat_div)
    have small: "unat (pq div d) \<noteq> 1" "unat (pq div d) \<noteq> 0"
      using prod ne pos by (auto intro!: Nat.gr0I)
    define a b where "a = (if d > pq div d then pq div d else d)"
      and "b = (if d > pq div d then d else pq div d)"
    have ab: "unat a * unat b = unat pq" "unat a \<le> unat b" "1 < unat a"
      using prod small ne pos by (auto simp: a_def b_def mult.commute word_less_nat_alt)
    have "(if a > 0xFFFFFFFF \<or> b > 0xFFFFFFFF then None else Some (ucast a, ucast b)) = Some (p, q)"
      using "1.prems"(1) True \<open>c < 20\<close>
      by (subst (asm) pq_attempts.simps)
        (cases "d > pq div d"; simp add: d_def[symmetric] a_def b_def Let_def split: if_splits)
    then have "a \<le> 0xFFFFFFFF" "b \<le> 0xFFFFFFFF" "p = ucast a" "q = ucast b"
      by (simp_all add: not_less split: if_splits)
    then have "unat p = unat a" "unat q = unat b"
      by (simp_all add: word_le_nat_alt unsigned_ucast_eq take_bit_nat_eq_self)
    then show ?thesis using ab by simp
  qed
qed

lemma even_u64: "pq mod 2 = 0 \<longleftrightarrow> even (unat (pq :: u64))"
  by (simp add: word_unat_eq_iff unat_mod even_iff_mod_2_eq_zero)

text \<open>
  C33. Whatever pair the factorization returns for an odd number is a proper factorization
  with the smaller factor first; for an even number the pair is a factorization exactly
  below \<open>2 ^ 33\<close>, from where on the cofactor is cut to 32 bits without an error.
\<close>

theorem pq_factorize_correct:
  assumes "pq_factorize pq = Some (p, q)"
  shows "p \<le> q \<and> (unat p * unat q = unat pq \<longleftrightarrow> odd (unat pq) \<or> unat pq < 2 ^ 33) \<and>
    (odd (unat pq) \<longrightarrow> 1 < p)"
proof (cases "even (unat pq)")
  case False
  then have "pq_attempts pq 1 = Some (p, q)" "1 < pq"
    using assms by (auto simp: pq_factorize_def even_u64 word_less_nat_alt split: if_splits)
  from pq_attempts_factor[OF this] False show ?thesis
    by (auto simp: word_less_nat_alt word_le_nat_alt)
next
  case True
  define h where "h = unat pq div 2"
  have n: "unat pq = 2 * h" using True by (simp add: h_def)
  have "unat (pq div 2) = h" by (simp add: unat_div h_def)
  then have c: "unat (ucast (pq div 2) :: u32) = h mod 2 ^ 32"
    by (simp add: unsigned_ucast_eq take_bit_eq_mod)
  have pq: "{p, q} = {2, ucast (pq div 2)}" "p \<le> q"
    using assms True by (auto simp: pq_factorize_def even_u64 Let_def split: if_splits)
  then have "unat p * unat q = 2 * (h mod 2 ^ 32)"
    by (auto simp: doubleton_eq_iff c)
  moreover have "h mod 2 ^ 32 = h \<longleftrightarrow> h < 2 ^ 32"
    by (metis mod_less mod_less_divisor zero_less_numeral zero_less_power)
  ultimately show ?thesis using pq(2) True n by auto
qed

theorem pq_factorize_correct_witness:
  "pq_factorize 10403 = Some (101, 103) \<and> unat (101 :: u32) * unat (103 :: u32) = unat (10403 :: u64) \<and>
   pq_factorize (2 ^ 40) = Some (0, 2) \<and> unat (0 :: u32) * unat (2 :: u32) \<noteq> unat (2 ^ 40 :: u64)"
proof -
  have "pq_factorize 10403 = Some (101, 103)"
    by (simp add: pq_factorize_def pq_attempts.simps rho_loop.simps gcd_loop.simps rho_step_def Let_def)
  moreover have "pq_factorize (2 ^ 40) = Some (0, 2)"
    by (simp add: pq_factorize_def Let_def)
  ultimately show ?thesis
    using pq_factorize_correct[of 10403 101 103] pq_factorize_correct[of "2 ^ 40" 0 2] by simp
qed

end
