(* ===== verification/TL_State.thy ===== *)
theory TL_State
  imports TL_Laws TL_Skip_Laws
begin

text \<open>
  Parsers that fill a record while they read: the state is a reader and a record, and the
  calculus of encoded bytes is carried over to them. Used where a function parses an answer
  into the caller's structure field by field, so that the fields stay written when it fails.
\<close>

section \<open>Statements on a record beside the reader\<close>

definition upd :: "('c \<Rightarrow> 'c) \<Rightarrow> ('r \<times> 'c, unit) cfun" where
  "upd f s = (Ok (), (fst s, f (snd s)))"

definition get :: "('r \<times> 'c, 'c) cfun" where
  "get s = (Ok (snd s), s)"

definition on_snd :: "('s, 'a) cfun \<Rightarrow> ('o \<times> 's, 'a) cfun" where
  "on_snd m so = (case m (snd so) of (res, s') \<Rightarrow> (res, (fst so, s')))"

text \<open>A local reader over \<open>buf\<close>, dropped when the function returns.\<close>

definition run_reader :: "byte list \<Rightarrow> (tl_reader \<times> 'c, 'a) cfun \<Rightarrow> ('c, 'a) cfun" where
  "run_reader buf m c = (case m (tl_reader_init buf (length buf), c) of (res, (_, c')) \<Rightarrow> (res, c'))"

text \<open>A result that does not depend on the state.\<close>

definition lift :: "'a outcome \<Rightarrow> ('s, 'a) cfun" where
  "lift res s = (res, s)"

lemma lift_simps [simp]: "lift (Ok x) = ret x" "lift Fail = fail"
  by (simp_all add: fun_eq_iff lift_def ret_def fail_def)

section \<open>Memory safety\<close>

text \<open>Every run from a state with the invariant avoids \<open>Oob\<close> and keeps the invariant.\<close>

definition safe :: "('s \<Rightarrow> bool) \<Rightarrow> ('s, 'a) cfun \<Rightarrow> bool" where
  "safe I m = (\<forall>s. I s \<longrightarrow> fst (m s) \<noteq> Oob \<and> I (snd (m s)))"

lemma safeI: "(\<And>s. I s \<Longrightarrow> fst (m s) \<noteq> Oob \<and> I (snd (m s))) \<Longrightarrow> safe I m"
  by (simp add: safe_def)

lemma safeD: "safe I m \<Longrightarrow> I s \<Longrightarrow> m s = (res, s') \<Longrightarrow> res \<noteq> Oob \<and> I s'"
  unfolding safe_def by (metis fst_conv snd_conv)

named_theorems safe_rules
  "introduction rules: no access is out of bounds and an invariant is kept"

lemma safe_simple [safe_rules]: "safe I (ret x)" "safe I fail"
  by (simp_all add: safe_def ret_def fail_def)

lemma safe_lift [safe_rules]: "res \<noteq> Oob \<Longrightarrow> safe I (lift res)"
  by (simp add: safe_def lift_def)

lemma safe_bind [safe_rules]:
  assumes "safe I m" "\<And>x. safe I (f x)"
  shows "safe I (bind m f)"
proof (rule safeI)
  fix s assume "I s"
  obtain res s' where m: "m s = (res, s')" by fastforce
  with safeD[OF assms(1) \<open>I s\<close>] have "res \<noteq> Oob" "I s'" by auto
  with m assms(2) show "fst (bind m f s) \<noteq> Oob \<and> I (snd (bind m f s))"
    by (cases res) (auto simp: bind_def safe_def)
qed

text \<open>A property of every value an operation returns.\<close>

definition yields :: "('s, 'a) cfun \<Rightarrow> ('a \<Rightarrow> bool) \<Rightarrow> bool" where
  "yields m P = (\<forall>s x. fst (m s) = Ok x \<longrightarrow> P x)"

lemma yieldsD: "yields m P \<Longrightarrow> m s = (Ok x, s') \<Longrightarrow> P x"
  unfolding yields_def by (metis fst_conv)

lemma yields_simple: "P x \<Longrightarrow> yields (ret x) P" "yields fail P"
  by (simp_all add: yields_def ret_def fail_def)

lemma yields_bind: "(\<And>x. yields (f x) P) \<Longrightarrow> yields (bind m f) P"
  by (auto simp: yields_def bind_def split: prod.splits outcome.splits)

lemma yields_if: "(c \<Longrightarrow> yields m P) \<Longrightarrow> (\<not> c \<Longrightarrow> yields m' P) \<Longrightarrow> yields (if c then m else m') P"
  by simp

lemma yields_lifted: "yields m P \<Longrightarrow> yields (on_snd m) P" "yields m P \<Longrightarrow> yields (on_fst m) P"
  by (simp_all add: yields_def on_snd_def on_fst_def split_beta)

lemma yields_read_raw: "yields (tl_read_raw n) (\<lambda>bs. length bs = n)"
  by (auto simp: yields_def tl_read_raw_def peek_def split: if_splits option.splits)

lemma yields_read_bytes: "yields tl_read_bytes (\<lambda>v. \<forall>bs. v = Some bs \<longrightarrow> length bs < 2 ^ 24)"
proof -
  have body: "yields (read_bytes_body h n) (\<lambda>v. \<forall>bs. v = Some bs \<longrightarrow> length bs < 2 ^ 24)"
    if "n < 2 ^ 24" for h n
    using that by (auto simp: yields_def read_bytes_body_def peek_def Let_def split: if_splits option.splits)
  have le: "unat (le_word ls :: u64) < 2 ^ 24" if "length ls = 3" for ls
    using le_word_bound[of ls, where ?'a = 64] that by simp
  have b: "unat (b :: byte) < 2 ^ 24" for b
    using unsigned_less[of b, where ?'a = nat] by simp
  show ?thesis
    unfolding yields_def
    by (auto simp: tl_read_bytes_def peek_def split: if_splits option.splits
        dest!: body[unfolded yields_def, OF b, THEN spec, THEN spec, THEN mp]
          body[unfolded yields_def, OF le, THEN spec, THEN spec, THEN mp, rotated])
qed

lemma yields_bind_value:
  "yields m Q \<Longrightarrow> (\<And>x. Q x \<Longrightarrow> yields (f x) P) \<Longrightarrow> yields (bind m f) P"
  by (auto simp: yields_def bind_def split: prod.splits outcome.splits) (metis fst_conv)

lemma safe_bind_yields:
  assumes "safe I m" "yields m P" "\<And>x. P x \<Longrightarrow> safe I (f x)"
  shows "safe I (bind m f)"
proof (rule safeI)
  fix s assume "I s"
  obtain res s' where m: "m s = (res, s')" by fastforce
  with safeD[OF assms(1) \<open>I s\<close>] have "res \<noteq> Oob" "I s'" by auto
  with m assms(3) yieldsD[OF assms(2)] show "fst (bind m f s) \<noteq> Oob \<and> I (snd (bind m f s))"
    by (cases res) (auto simp: bind_def safe_def)
qed

lemma safe_if [safe_rules]: "(c \<Longrightarrow> safe I m) \<Longrightarrow> (\<not> c \<Longrightarrow> safe I m') \<Longrightarrow> safe I (if c then m else m')"
  by simp

lemma safe_option [safe_rules]:
  "safe I m \<Longrightarrow> (\<And>x. safe I (f x)) \<Longrightarrow> safe I (case v of None \<Rightarrow> m | Some x \<Rightarrow> f x)"
  by (cases v) simp_all

lemma safe_prod [safe_rules]: "(\<And>a b. safe I (f a b)) \<Longrightarrow> safe I (case v of (a, b) \<Rightarrow> f a b)"
  by (cases v) simp

lemma safe_let [safe_rules]: "(\<And>x. safe I (f x)) \<Longrightarrow> safe I (let x = v in f x)"
  by simp

definition beside :: "('s \<Rightarrow> bool) \<Rightarrow> ('c \<Rightarrow> bool) \<Rightarrow> 's \<times> 'c \<Rightarrow> bool" where
  "beside I J s = (I (fst s) \<and> J (snd s))"

lemma safe_beside [safe_rules]:
  "safe I m \<Longrightarrow> safe (beside I J) (on_fst m)" "safe J n \<Longrightarrow> safe (beside I J) (on_snd n)"
  by (simp_all add: safe_def beside_def on_fst_def on_snd_def split_beta)

lemma safe_mono: "safe I m \<Longrightarrow> (\<And>s. J s \<longleftrightarrow> I s) \<Longrightarrow> safe J m"
  by (simp add: safe_def)

text \<open>
  Runs with a postcondition: \<open>Q\<close> after a normal return, the invariant after every other.
\<close>

definition runs :: "('s \<Rightarrow> bool) \<Rightarrow> ('s, 'a) cfun \<Rightarrow> ('a \<Rightarrow> 's \<Rightarrow> bool) \<Rightarrow> bool" where
  "runs I m Q = (\<forall>s. I s \<longrightarrow> (case m s of
     (Ok x, s') \<Rightarrow> Q x s' | (Fail, s') \<Rightarrow> I s' | (Oob, s') \<Rightarrow> False | (Fuel, s') \<Rightarrow> I s'))"

lemma runs_bind_yields:
  assumes "safe I m" "yields m P" "\<And>x. P x \<Longrightarrow> runs I (f x) Q"
  shows "runs I (bind m f) Q"
  unfolding runs_def
proof (intro allI impI)
  fix s assume "I s"
  obtain res s' where m: "m s = (res, s')" by fastforce
  with safeD[OF assms(1) \<open>I s\<close>] have "res \<noteq> Oob" "I s'" by auto
  with m assms(3) yieldsD[OF assms(2)] show "case bind m f s of (Ok x, s') \<Rightarrow> Q x s' | (Fail, s') \<Rightarrow> I s'
      | (Oob, s') \<Rightarrow> False | (Fuel, s') \<Rightarrow> I s'"
    by (cases res) (auto simp: bind_def runs_def)
qed

lemma runs_bind: "safe I m \<Longrightarrow> (\<And>x. runs I (f x) Q) \<Longrightarrow> runs I (bind m f) Q"
  by (rule runs_bind_yields[where P = "\<lambda>_. True"]) (simp_all add: yields_def)

lemma runs_let: "(\<And>x. runs I (f x) Q) \<Longrightarrow> runs I (let x = v in f x) Q"
  by simp

lemma runsD: "runs I m Q \<Longrightarrow> I s \<Longrightarrow> m s = (res, s') \<Longrightarrow>
  res \<noteq> Oob \<and> (\<forall>x. res = Ok x \<longrightarrow> Q x s') \<and> (res = Fail \<or> res = Fuel \<longrightarrow> I s')"
  by (cases res) (auto simp: runs_def)

text \<open>A reader with a record beside it; \<open>J\<close> is what the record keeps.\<close>

abbreviation reading :: "byte list \<Rightarrow> ('c \<Rightarrow> bool) \<Rightarrow> tl_reader \<times> 'c \<Rightarrow> bool" where
  "reading d J \<equiv> beside (within (mem_inv d) (length d)) J"

lemma keeps_beside [keeps_rules]:
  "keeps I m \<Longrightarrow> keeps (beside I J) (on_fst m)" "keeps (beside I J) get"
  by (simp_all add: keeps_def beside_def on_fst_def get_def split_beta)

lemma keeps_upd [keeps_rules]: "(\<And>c. J c \<Longrightarrow> J (f c)) \<Longrightarrow> keeps (beside I J) (upd f)"
  by (simp add: keeps_def beside_def upd_def)

text \<open>A read whose result the next statement may use, with the record it started from.\<close>

lemma keeps_get_bind [keeps_rules]:
  assumes "\<And>c. J c \<Longrightarrow> keeps (beside I J) (f c)"
  shows "keeps (beside I J) (bind get f)"
  using assms by (auto simp: keeps_def bind_def get_def beside_def)

lemma keeps_let [keeps_rules]: "(\<And>x. keeps I (f x)) \<Longrightarrow> keeps I (let x = v in f x)"
  by simp

lemma keeps_read_raw [keeps_rules]:
  assumes "n < 2 ^ 63"
  shows "keeps (within (mem_inv d) k) (tl_read_raw n)"
proof (rule keepsI)
  fix r assume "within (mem_inv d) k r"
  then have r: "rd_wf r" "rd_data r = d" "remaining r \<le> k" by (simp_all add: within_def mem_inv_def)
  then show "no_fault (fst (tl_read_raw n r)) \<and> within (mem_inv d) k (snd (tl_read_raw n r))"
    using assms
    by (auto simp: tl_read_raw_def reader_has_iff peek_has within_def mem_inv_def remaining_def rd_wf_def)
qed

lemma keeps_read_int128 [keeps_rules]: "keeps (within (mem_inv d) k) tl_read_int128"
  using keeps_read_raw[of 16 d k]
  by (simp add: tl_read_int128_def[abs_def] tl_read_raw_def[abs_def])

text \<open>The sixteen bytes of a nonce, known to be sixteen where they are used.\<close>

lemma keeps_bind_yields:
  assumes "keeps I m" "yields m P" "\<And>x. P x \<Longrightarrow> keeps I (f x)"
  shows "keeps I (bind m f)"
proof (rule keepsI)
  fix s assume "I s"
  obtain res s' where m: "m s = (res, s')" by fastforce
  with keepsD[OF assms(1) \<open>I s\<close>] have "no_fault res" "I s'" by auto
  with m assms(3) yieldsD[OF assms(2)] show "no_fault (fst (bind m f s)) \<and> I (snd (bind m f s))"
    by (cases res) (auto simp: bind_def keeps_def)
qed

lemma keeps_nonce_bind:
  assumes "\<And>x. length x = 16 \<Longrightarrow> keeps (reading d J) (f x)"
  shows "keeps (reading d J) (bind (on_fst tl_read_int128) f)"
proof (rule keeps_bind_yields)
  show "keeps (reading d J) (on_fst tl_read_int128)" by (intro keeps_rules)
  show "yields (on_fst tl_read_int128) (\<lambda>bs. length bs = 16)"
    using yields_read_raw[of 16] by (intro yields_lifted) (simp add: tl_read_int128_raw)
qed (rule assms)

lemma safe_run_reader [safe_rules]:
  assumes "keeps (reading buf J) m" "length buf < 2 ^ 62"
  shows "safe J (run_reader buf m)"
proof (rule safeI)
  fix c assume "J c"
  let ?s = "(tl_reader_init buf (length buf), c)"
  have "reading buf J ?s"
    using assms(2) \<open>J c\<close> by (simp add: beside_def within_def mem_inv_def rd_at_init rd_at_wf remaining_def)
  moreover obtain res r c' where m: "m ?s = (res, (r, c'))" by (metis surj_pair)
  ultimately have "no_fault res" "J c'" using keepsD[OF assms(1) _ m] by (simp_all add: beside_def)
  with m show "fst (run_reader buf m c) \<noteq> Oob \<and> J (snd (run_reader buf m c))"
    by (simp add: run_reader_def no_fault_def)
qed

section \<open>Exact consumption\<close>

definition takes_st ::
  "(tl_reader \<times> 'c, 'a) cfun \<Rightarrow> byte list \<Rightarrow> 'c \<Rightarrow> 'a \<Rightarrow> 'c \<Rightarrow> bool" where
  "takes_st m bs c v c' = (\<forall>pre post. length pre + length bs + length post < 2 ^ 62 \<longrightarrow>
     m (rd_at pre (bs @ post), c) = (Ok v, (rd_at (pre @ bs) post, c')))"

lemma takes_st_on_fst: "takes m bs v \<Longrightarrow> takes_st (on_fst m) bs c v c"
  by (simp add: takes_st_def takes_def on_fst_def)

lemma takes_st_fields: "takes_st (upd f) [] c () (f c)" "takes_st get [] c c c" "takes_st (ret v) [] c v c"
  by (simp_all add: takes_st_def upd_def get_def ret_def)

lemma takes_st_bind:
  assumes "takes_st m bs c x c1" "takes_st (f x) cs c1 y c'"
  shows "takes_st (bind m f) (bs @ cs) c y c'"
  unfolding takes_st_def
proof (intro allI impI)
  fix pre post :: "byte list" assume len: "length pre + length (bs @ cs) + length post < 2 ^ 62"
  have "m (rd_at pre (bs @ cs @ post), c) = (Ok x, (rd_at (pre @ bs) (cs @ post), c1))"
    using assms(1) len by (simp add: takes_st_def)
  moreover have "f x (rd_at (pre @ bs) (cs @ post), c1) = (Ok y, (rd_at ((pre @ bs) @ cs) post, c'))"
    using assms(2) len by (simp add: takes_st_def)
  ultimately show "bind m f (rd_at pre ((bs @ cs) @ post), c) = (Ok y, (rd_at (pre @ bs @ cs) post, c'))"
    by (simp add: bind_def)
qed

lemma takes_st_read:
  "takes m bs x \<Longrightarrow> takes_st (f x) cs c y c' \<Longrightarrow> takes_st (bind (on_fst m) f) (bs @ cs) c y c'"
  by (rule takes_st_bind[OF takes_st_on_fst])

lemma takes_st_upd: "takes_st m cs (f c) y c' \<Longrightarrow> takes_st (bind (upd f) (\<lambda>_. m)) cs c y c'"
  using takes_st_bind[OF takes_st_fields(1)] by fastforce

lemma takes_st_get: "takes_st (m c) cs c y c' \<Longrightarrow> takes_st (bind get m) cs c y c'"
  using takes_st_bind[OF takes_st_fields(2)] by fastforce

lemma takes_st_check:
  "\<not> b \<Longrightarrow> takes_st m bs c v c' \<Longrightarrow> takes_st (if b then fail else m) bs c v c'"
  by simp

lemma takes_st_Some:
  "takes_st (f x) bs c v c' \<Longrightarrow> takes_st (case Some x of None \<Rightarrow> m | Some y \<Rightarrow> f y) bs c v c'"
  by simp

lemma takes_nonce: "length d = 16 \<Longrightarrow> takes tl_read_int128 d d"
  using takes_read_raw[of d] by (simp add: tl_read_int128_raw)

lemmas takes_st_rules = takes_reads[THEN takes_st_read] takes_nonce[THEN takes_st_read]
  takes_read_bytes[THEN takes_st_read] takes_st_check takes_st_get takes_st_upd takes_st_Some

lemma run_reader_takes:
  assumes "takes_st m bs c v c'" "length bs + length post < 2 ^ 62"
  shows "run_reader (bs @ post) m c = (Ok v, c')"
  using assms unfolding run_reader_def rd_at_init takes_st_def
  by (metis (no_types, lifting) add_0 append_Nil case_prod_conv list.size(3))

end
