(* ===== verification/Crypto_BN.thy ===== *)
theory Crypto_BN
  imports TL_State
begin

text \<open>
  The big-number wrappers of \<open>src/src/core/crypto.c\<close>. OpenSSL's own functions are a
  parameter \<open>bn_lib\<close>; \<open>bn_ok\<close> states what their manual pages say of them.
\<close>

section \<open>OpenSSL\<close>

text \<open>A \<open>None\<close> result is a return code other than 1.\<close>

record bn_lib =
  BN_bin2bn :: "byte list \<Rightarrow> nat"
  BN_num_bytes :: "nat \<Rightarrow> nat"
  BN_bn2bin :: "nat \<Rightarrow> byte list"
  BN_mod_exp :: "nat \<Rightarrow> nat \<Rightarrow> nat \<Rightarrow> nat option"
  BN_mod_mul :: "nat \<Rightarrow> nat \<Rightarrow> nat \<Rightarrow> nat option"
  BN_mod_add :: "nat \<Rightarrow> nat \<Rightarrow> nat \<Rightarrow> nat option"
  BN_mod_sub :: "nat \<Rightarrow> nat \<Rightarrow> nat \<Rightarrow> nat option"
  BN_ucmp :: "nat \<Rightarrow> nat \<Rightarrow> int"

section \<open>The wrappers\<close>

text \<open>
  \<open>out\<close> has room for \<open>out_len\<close> bytes; the number is written right-aligned into its first
  \<open>pad_len\<close> bytes, which are not checked to fit.
\<close>

definition bn_op_finalize :: "bn_lib \<Rightarrow> nat \<Rightarrow> nat \<Rightarrow> nat \<Rightarrow> byte list outcome" where
  "bn_op_finalize bn bn_res out_len pad_len =
     (let bytes = BN_num_bytes bn bn_res in
      if bytes > out_len then Fail
      else if pad_len > out_len \<or> bytes > pad_len then Oob
      else Ok (replicate (pad_len - bytes) 0 @ BN_bn2bin bn bn_res))"

definition crypto_bn_mod_exp ::
  "bn_lib \<Rightarrow> nat \<Rightarrow> byte list \<Rightarrow> byte list \<Rightarrow> byte list \<Rightarrow> byte list outcome" where
  "crypto_bn_mod_exp bn res_len base exp m =
     (case BN_mod_exp bn (BN_bin2bn bn base) (BN_bin2bn bn exp) (BN_bin2bn bn m) of
        None \<Rightarrow> Fail
      | Some bn_res \<Rightarrow> bn_op_finalize bn bn_res res_len (length m))"

definition bn_mod_op ::
  "(nat \<Rightarrow> nat \<Rightarrow> nat \<Rightarrow> nat option) \<Rightarrow> bn_lib \<Rightarrow> nat \<Rightarrow> byte list \<Rightarrow> byte list \<Rightarrow> byte list \<Rightarrow>
   byte list outcome" where
  "bn_mod_op f bn res_len a b m =
     (case f (BN_bin2bn bn a) (BN_bin2bn bn b) (BN_bin2bn bn m) of
        None \<Rightarrow> Fail
      | Some br \<Rightarrow> bn_op_finalize bn br res_len (length m))"

definition crypto_bn_mod_mul ::
  "bn_lib \<Rightarrow> nat \<Rightarrow> byte list \<Rightarrow> byte list \<Rightarrow> byte list \<Rightarrow> byte list outcome" where
  "crypto_bn_mod_mul bn = bn_mod_op (BN_mod_mul bn) bn"

definition crypto_bn_mod_add ::
  "bn_lib \<Rightarrow> nat \<Rightarrow> byte list \<Rightarrow> byte list \<Rightarrow> byte list \<Rightarrow> byte list outcome" where
  "crypto_bn_mod_add bn = bn_mod_op (BN_mod_add bn) bn"

definition crypto_bn_mod_sub ::
  "bn_lib \<Rightarrow> nat \<Rightarrow> byte list \<Rightarrow> byte list \<Rightarrow> byte list \<Rightarrow> byte list outcome" where
  "crypto_bn_mod_sub bn = bn_mod_op (BN_mod_sub bn) bn"

definition crypto_bn_ucmp :: "bn_lib \<Rightarrow> byte list \<Rightarrow> byte list \<Rightarrow> int" where
  "crypto_bn_ucmp bn a b =
     (let r = BN_ucmp bn (BN_bin2bn bn a) (BN_bin2bn bn b)
      in if r < 0 then -1 else if r > 0 then 1 else 0)"

section \<open>Big-endian numbers\<close>

definition be_nat :: "byte list \<Rightarrow> nat" where
  "be_nat bs = foldl (\<lambda>n b. 256 * n + unat b) 0 bs"

fun be_bytes :: "nat \<Rightarrow> byte list" where
  "be_bytes n = (if n = 0 then [] else be_bytes (n div 256) @ [word_of_nat n])"

declare be_bytes.simps [simp del]

text \<open>The number \<open>v\<close> in exactly \<open>n\<close> bytes.\<close>

definition be_pad :: "nat \<Rightarrow> nat \<Rightarrow> byte list" where
  "be_pad n v = replicate (n - length (be_bytes v)) 0 @ be_bytes v"

lemma be_nat_snoc [simp]: "be_nat (bs @ [b]) = 256 * be_nat bs + unat b"
  by (simp add: be_nat_def)

lemma be_nat_Nil [simp]: "be_nat [] = 0"
  by (simp add: be_nat_def)

lemma be_nat_zeros [simp]: "be_nat (replicate k 0 @ bs) = be_nat bs"
  by (induction k) (simp_all add: be_nat_def)

lemma be_nat_bound: "be_nat bs < 256 ^ length bs"
proof (induction bs rule: rev_induct)
  case (snoc b bs)
  have "unat b < 256" using unsigned_less[of b, where ?'a = nat] by simp
  with snoc show ?case by simp
qed simp

lemma be_nat_be_bytes [simp]: "be_nat (be_bytes n) = n"
proof (induction n rule: be_bytes.induct)
  case (1 n)
  then show ?case by (subst be_bytes.simps) (auto simp: unat_of_nat take_bit_eq_mod)
qed

lemma length_be_bytes_le: "n < 256 ^ k \<Longrightarrow> length (be_bytes n) \<le> k"
proof (induction n arbitrary: k rule: be_bytes.induct)
  case (1 n)
  show ?case
  proof (cases "n = 0")
    case False
    then obtain j where k: "k = Suc j" using "1.prems" by (cases k) auto
    have "n div 256 < 256 ^ j" using "1.prems" by (simp add: k less_mult_imp_div_less mult.commute)
    with "1.IH"[OF False] show ?thesis by (subst be_bytes.simps) (simp add: k False)
  qed (simp add: be_bytes.simps)
qed

lemma length_be_pad: "v < 256 ^ n \<Longrightarrow> length (be_pad n v) = n"
  using length_be_bytes_le[of v n] by (simp add: be_pad_def)

lemma be_nat_be_pad [simp]: "be_nat (be_pad n v) = v"
  by (simp add: be_pad_def)

section \<open>What the wrappers compute\<close>

definition bn_ok :: "bn_lib \<Rightarrow> bool" where
  "bn_ok bn =
     ((\<forall>bs. BN_bin2bn bn bs = be_nat bs) \<and> (\<forall>n. BN_bn2bin bn n = be_bytes n) \<and>
      (\<forall>n. BN_num_bytes bn n = length (be_bytes n)) \<and>
      (\<forall>a e m. BN_mod_exp bn a e m = (if m = 0 then None else Some (a ^ e mod m))) \<and>
      (\<forall>a b m. BN_mod_mul bn a b m = (if m = 0 then None else Some (a * b mod m))) \<and>
      (\<forall>a b m. BN_mod_add bn a b m = (if m = 0 then None else Some ((a + b) mod m))) \<and>
      (\<forall>a b m. BN_mod_sub bn a b m =
         (if m = 0 then None else Some (nat ((int a - int b) mod int m)))))"

lemma finalize_ok:
  assumes "bn_ok bn" "v < be_nat m" "length m \<le> cap"
  shows "bn_op_finalize bn v cap (length m) = Ok (be_pad (length m) v)"
proof -
  have "v < 256 ^ length m" using assms(2) be_nat_bound[of m] by simp
  then have "length (be_bytes v) \<le> length m" by (rule length_be_bytes_le)
  with assms show ?thesis by (simp add: bn_op_finalize_def bn_ok_def be_pad_def)
qed

text \<open>One law per operation; a modulus of zero is an error.\<close>

lemma crypto_bn_eq:
  assumes "bn_ok bn" "length m \<le> cap"
  shows "crypto_bn_mod_exp bn cap a e m =
      (if be_nat m = 0 then Fail else Ok (be_pad (length m) (be_nat a ^ be_nat e mod be_nat m)))"
    and "crypto_bn_mod_mul bn cap a b m =
      (if be_nat m = 0 then Fail else Ok (be_pad (length m) (be_nat a * be_nat b mod be_nat m)))"
    and "crypto_bn_mod_add bn cap a b m =
      (if be_nat m = 0 then Fail else Ok (be_pad (length m) ((be_nat a + be_nat b) mod be_nat m)))"
    and "crypto_bn_mod_sub bn cap a b m =
      (if be_nat m = 0 then Fail else
        Ok (be_pad (length m) (nat ((int (be_nat a) - int (be_nat b)) mod int (be_nat m)))))"
proof -
  have ops: "BN_bin2bn bn = be_nat"
    "BN_mod_exp bn x y z = (if z = 0 then None else Some (x ^ y mod z))"
    "BN_mod_mul bn x y z = (if z = 0 then None else Some (x * y mod z))"
    "BN_mod_add bn x y z = (if z = 0 then None else Some ((x + y) mod z))"
    "BN_mod_sub bn x y z = (if z = 0 then None else Some (nat ((int x - int y) mod int z)))" for x y z
    using assms(1) by (auto simp: bn_ok_def)
  have sub: "nat ((int x - int y) mod int z) < z" if "z \<noteq> 0" for x y z
    using that by (simp add: nat_less_iff)
  note fin = finalize_ok[OF assms(1) _ assms(2)]
  show "crypto_bn_mod_exp bn cap a e m =
      (if be_nat m = 0 then Fail else Ok (be_pad (length m) (be_nat a ^ be_nat e mod be_nat m)))"
    by (simp add: crypto_bn_mod_exp_def ops fin)
  show "crypto_bn_mod_mul bn cap a b m =
      (if be_nat m = 0 then Fail else Ok (be_pad (length m) (be_nat a * be_nat b mod be_nat m)))"
    by (simp add: crypto_bn_mod_mul_def bn_mod_op_def ops fin)
  show "crypto_bn_mod_add bn cap a b m =
      (if be_nat m = 0 then Fail else Ok (be_pad (length m) ((be_nat a + be_nat b) mod be_nat m)))"
    by (simp add: crypto_bn_mod_add_def bn_mod_op_def ops fin)
  show "crypto_bn_mod_sub bn cap a b m =
      (if be_nat m = 0 then Fail else
        Ok (be_pad (length m) (nat ((int (be_nat a) - int (be_nat b)) mod int (be_nat m)))))"
    by (simp add: crypto_bn_mod_sub_def bn_mod_op_def ops fin[OF sub])
qed

text \<open>An implementation with these laws.\<close>

definition plain_bn :: bn_lib where
  "plain_bn = \<lparr>BN_bin2bn = be_nat, BN_num_bytes = (\<lambda>n. length (be_bytes n)), BN_bn2bin = be_bytes,
     BN_mod_exp = (\<lambda>a e m. if m = 0 then None else Some (a ^ e mod m)),
     BN_mod_mul = (\<lambda>a b m. if m = 0 then None else Some (a * b mod m)),
     BN_mod_add = (\<lambda>a b m. if m = 0 then None else Some ((a + b) mod m)),
     BN_mod_sub = (\<lambda>a b m. if m = 0 then None else Some (nat ((int a - int b) mod int m))),
     BN_ucmp = (\<lambda>a b. int a - int b)\<rparr>"

lemma plain_bn_ok: "bn_ok plain_bn"
  by (simp add: bn_ok_def plain_bn_def)

end
