(* ===== verification/MTProto_Auth.thy ===== *)
theory MTProto_Auth
  imports RPC_Laws PQ Crypto_BN
begin

text \<open>
  The generation of the authorization key, \<open>src/src/infrastructure/mtproto_auth.c\<close>: the four
  steps of the Diffie-Hellman exchange over unencrypted messages. The RSA key, OpenSSL's
  big numbers, the random generator and the contents of fresh memory are parameters.
\<close>

section \<open>State and parameters\<close>

record auth_key_ctx =
  ax_nonce :: "byte list"
  ax_server_nonce :: "byte list"
  ax_new_nonce :: "byte list"
  ax_pq :: u64
  ax_p :: u32
  ax_q :: u32
  ax_dc_id :: int
  ax_g :: int
  ax_dh_prime :: "byte list"
  ax_g_a :: "byte list"
  ax_server_time :: int
  ax_b :: "byte list"
  ax_tmp_aes_key :: "byte list"
  ax_tmp_aes_iv :: "byte list"

text \<open>
  \<open>ae_rsa\<close> is \<open>crypto_rsa_public_encrypt\<close> under the loaded key, or \<open>None\<close> when
  \<open>crypto_rsa_load_public\<close> fails. \<open>ae_send k\<close> is what the \<open>k\<close>-th send draws, the other
  fields are the random bytes in the order in which they are drawn; \<open>ae_heap n\<close> is what
  \<open>malloc(n)\<close> returns.
\<close>

record auth_env =
  ae_lib :: crypto_lib
  ae_bn :: bn_lib
  ae_rsa :: "(byte list \<Rightarrow> byte list option) option"
  ae_fingerprint :: u64
  ae_send :: "nat \<Rightarrow> draw"
  ae_nonce :: "byte list"
  ae_new_nonce :: "byte list"
  ae_rsa_pad :: "nat \<Rightarrow> byte list"
  ae_b :: "byte list"
  ae_pad :: "nat \<Rightarrow> byte list"
  ae_heap :: "nat \<Rightarrow> byte list"

type_synonym auth_state = "auth_key_ctx \<times> mtproto_session \<times> net"

abbreviation (input) CRC_req_pq_multi :: u32 where "CRC_req_pq_multi \<equiv> 0xbe7e8ef1"
abbreviation (input) CRC_resPQ :: u32 where "CRC_resPQ \<equiv> 0x05162463"
abbreviation (input) CRC_p_q_inner_data :: u32 where "CRC_p_q_inner_data \<equiv> 0x83c95aec"
abbreviation (input) CRC_req_DH_params :: u32 where "CRC_req_DH_params \<equiv> 0xd712e4be"
abbreviation (input) CRC_server_DH_params_ok :: u32 where "CRC_server_DH_params_ok \<equiv> 0xd0e8075c"
abbreviation (input) CRC_server_DH_inner_data :: u32 where "CRC_server_DH_inner_data \<equiv> 0xb5890dba"
abbreviation (input) CRC_client_DH_inner_data :: u32 where "CRC_client_DH_inner_data \<equiv> 0x6643b654"
abbreviation (input) CRC_set_client_DH_params :: u32 where "CRC_set_client_DH_params \<equiv> 0xf5045f1f"
abbreviation (input) CRC_dh_gen_ok :: u32 where "CRC_dh_gen_ok \<equiv> 0x3bcbf734"
abbreviation (input) CRC_dh_gen_retry :: u32 where "CRC_dh_gen_retry \<equiv> 0x46dc1fb9"
abbreviation (input) CRC_dh_gen_fail :: u32 where "CRC_dh_gen_fail \<equiv> 0xa69dae02"
abbreviation (input) MAX_FP_COUNT :: u32 where "MAX_FP_COUNT \<equiv> 64"

section \<open>RSA and the temporary key\<close>

text \<open>The output buffer has 256 bytes.\<close>

definition rsa_sha1_encrypt :: "auth_env \<Rightarrow> (byte list \<Rightarrow> byte list option) \<Rightarrow> byte list \<Rightarrow> byte list outcome" where
  "rsa_sha1_encrypt env rsa data =
     (if length data > 235 then Fail
      else let to_encrypt = sha1 (ae_lib env) data @ data @ ae_rsa_pad env (235 - length data)
           in case rsa (0 # to_encrypt) of
                None \<Rightarrow> Fail
              | Some out \<Rightarrow> if length out > 256 then Oob else Ok out)"

definition dh_derive_temp_aes :: "hash \<Rightarrow> byte list \<Rightarrow> byte list \<Rightarrow> byte list \<times> byte list" where
  "dh_derive_temp_aes sha new_nonce server_nonce =
     (let sha1_a = sha (new_nonce @ server_nonce);
          sha1_b = sha (server_nonce @ new_nonce);
          sha1_c = sha (new_nonce @ new_nonce)
      in (sha1_a @ take 12 sha1_b, take 8 (drop 12 sha1_b) @ sha1_c @ take 4 new_nonce))"

section \<open>Step 1\<close>

text \<open>\<open>for (i = 0; i < fp_count; i++) if (fp == our_fp) found_fp = 1;\<close>\<close>

primrec find_fp :: "u64 \<Rightarrow> nat \<Rightarrow> bool \<Rightarrow> (tl_reader, bool) cfun" where
  "find_fp our_fp 0 found = ret found"
| "find_fp our_fp (Suc n) found =
     bind tl_read_uint64 (\<lambda>fp. find_fp our_fp n (if fp = our_fp then True else found))"

definition read_resPQ :: "u64 \<Rightarrow> (tl_reader \<times> auth_key_ctx, unit) cfun" where
  "read_resPQ our_fp =
     bind (on_fst tl_read_uint32) (\<lambda>constructor.
     if constructor \<noteq> CRC_resPQ then fail
     else bind (on_fst tl_read_int128) (\<lambda>recv_nonce. bind get (\<lambda>ctx.
     if recv_nonce \<noteq> ax_nonce ctx then fail
     else bind (on_fst tl_read_int128) (\<lambda>sn. bind (upd (ax_server_nonce_update (\<lambda>_. sn))) (\<lambda>_.
     bind (on_fst tl_read_bytes) (\<lambda>pq. case pq of
       None \<Rightarrow> fail
     | Some pq_bytes \<Rightarrow>
         bind (upd (ax_pq_update (\<lambda>_. be_to_uint64 pq_bytes))) (\<lambda>_.
         bind (on_fst tl_read_uint32) (\<lambda>vec_crc. bind (on_fst tl_read_uint32) (\<lambda>fp_count.
         if fp_count > MAX_FP_COUNT then fail
         else bind (on_fst (find_fp our_fp (unat fp_count) False)) (\<lambda>found_fp.
           if \<not> found_fp then fail else skip))))))))))"

definition req_pq_multi :: "byte list \<Rightarrow> byte list" where
  "req_pq_multi nonce = wr_data (tl_write_int128 (tl_write_uint32 tl_writer_init CRC_req_pq_multi) nonce)"

text \<open>The answer goes through a buffer of 4096 bytes on the stack.\<close>

definition recv_answer :: "transport \<Rightarrow> (auth_state, byte list) cfun" where
  "recv_answer t = on_snd (on_snd (rpc_recv_unencrypted t 4096))"

definition auth_step_req_pq :: "auth_env \<Rightarrow> transport \<Rightarrow> (auth_state, unit) cfun" where
  "auth_step_req_pq env t st =
     (let st = ((fst st)\<lparr>ax_nonce := ae_nonce env\<rparr>, snd st) in
      bind (on_snd (rpc_send_unencrypted (ae_send env 1) t (req_pq_multi (ax_nonce (fst st))))) (\<lambda>_.
      bind (recv_answer t) (\<lambda>buf.
      on_fst (run_reader buf (read_resPQ (ae_fingerprint env))))) st)"

section \<open>Step 2\<close>

definition p_q_inner_data :: "auth_key_ctx \<Rightarrow> byte list" where
  "p_q_inner_data ctx =
     (let w = tl_write_uint32 tl_writer_init CRC_p_q_inner_data;
          w = tl_write_bytes w (uint64_to_be (ax_pq ctx));
          w = tl_write_bytes w (uint32_to_be (ax_p ctx));
          w = tl_write_bytes w (uint32_to_be (ax_q ctx));
          w = tl_write_int128 w (ax_nonce ctx);
          w = tl_write_int128 w (ax_server_nonce ctx);
          w = tl_write_int256 w (ax_new_nonce ctx)
      in wr_data w)"

definition req_DH_params :: "auth_key_ctx \<Rightarrow> u64 \<Rightarrow> byte list \<Rightarrow> byte list" where
  "req_DH_params ctx fp_val encrypted =
     (let w = tl_write_uint32 tl_writer_init CRC_req_DH_params;
          w = tl_write_int128 w (ax_nonce ctx);
          w = tl_write_int128 w (ax_server_nonce ctx);
          w = tl_write_bytes w (uint32_to_be (ax_p ctx));
          w = tl_write_bytes w (uint32_to_be (ax_q ctx));
          w = tl_write_uint64 w fp_val;
          w = tl_write_bytes w encrypted
      in wr_data w)"

definition auth_step_req_dh :: "auth_env \<Rightarrow> transport \<Rightarrow> (auth_state, unit) cfun" where
  "auth_step_req_dh env t st =
     (case pq_factorize (ax_pq (fst st)) of
        None \<Rightarrow> (Fail, st)
      | Some (p, q) \<Rightarrow>
          let ctx = (fst st)\<lparr>ax_p := p, ax_q := q, ax_new_nonce := ae_new_nonce env\<rparr>; st = (ctx, snd st) in
          case ae_rsa env of
            None \<Rightarrow> (Fail, st)
          | Some rsa \<Rightarrow>
              bind (lift (rsa_sha1_encrypt env rsa (p_q_inner_data ctx))) (\<lambda>encrypted.
                on_snd (rpc_send_unencrypted (ae_send env 2) t
                  (req_DH_params ctx (ae_fingerprint env) encrypted))) st)"

section \<open>Step 3\<close>

definition read_server_DH_params :: "(tl_reader \<times> auth_key_ctx, byte list) cfun" where
  "read_server_DH_params =
     bind (on_fst tl_read_uint32) (\<lambda>constructor.
     if constructor \<noteq> CRC_server_DH_params_ok then fail
     else bind (on_fst tl_read_int128) (\<lambda>recv_nonce. bind get (\<lambda>ctx.
     if recv_nonce \<noteq> ax_nonce ctx then fail
     else bind (on_fst tl_read_int128) (\<lambda>recv_server_nonce.
     if recv_server_nonce \<noteq> ax_server_nonce ctx then fail
     else bind (on_fst tl_read_bytes) (\<lambda>enc_answer. case enc_answer of
       None \<Rightarrow> fail
     | Some enc_answer \<Rightarrow> if enc_answer = [] then fail else ret enc_answer)))))"

definition read_server_DH_inner :: "(tl_reader \<times> auth_key_ctx, unit) cfun" where
  "read_server_DH_inner =
     bind (on_fst tl_read_uint32) (\<lambda>inner_crc.
     if inner_crc \<noteq> CRC_server_DH_inner_data then fail
     else bind (on_fst tl_read_int128) (\<lambda>inner_nonce. bind get (\<lambda>ctx.
     if inner_nonce \<noteq> ax_nonce ctx then fail
     else bind (on_fst tl_read_int128) (\<lambda>inner_sn.
     if inner_sn \<noteq> ax_server_nonce ctx then fail
     else bind (on_fst tl_read_int32) (\<lambda>g. bind (upd (ax_g_update (\<lambda>_. g))) (\<lambda>_.
     if g < 2 \<or> g > 7 then fail
     else bind (on_fst tl_read_bytes) (\<lambda>prime. case prime of
       None \<Rightarrow> fail
     | Some prime_bytes \<Rightarrow>
         if length prime_bytes > 256 then fail
         else bind (upd (ax_dh_prime_update (\<lambda>_. prime_bytes))) (\<lambda>_.
         bind (on_fst tl_read_bytes) (\<lambda>ga. case ga of
           None \<Rightarrow> fail
         | Some ga_bytes \<Rightarrow>
             if length ga_bytes > 256 then fail
             else bind (upd (ax_g_a_update (\<lambda>_. ga_bytes))) (\<lambda>_.
             bind (on_fst tl_read_int32) (\<lambda>server_time.
             upd (ax_server_time_update (\<lambda>_. server_time)))))))))))))"

text \<open>
  The answer is decrypted into fresh memory; \<open>aes_ige_decrypt\<close> leaves it as it is when the
  length is not a multiple of 16. The leading hash is skipped.
\<close>

definition decrypt_answer :: "auth_env \<Rightarrow> byte list \<Rightarrow> (auth_key_ctx, unit) cfun" where
  "decrypt_answer env enc_answer ctx =
     (let (key, iv) = dh_derive_temp_aes (sha1 (ae_lib env)) (ax_new_nonce ctx) (ax_server_nonce ctx);
          ctx = ctx\<lparr>ax_tmp_aes_key := key, ax_tmp_aes_iv := iv\<rparr>;
          decrypted = aes_ige_decrypt (aes_dec (ae_lib env)) enc_answer key iv (ae_heap env (length enc_answer))
      in if length enc_answer < 20 + 4 then (Fail, ctx)
         else run_reader (drop 20 decrypted) read_server_DH_inner ctx)"

definition auth_step_parse_dh :: "auth_env \<Rightarrow> transport \<Rightarrow> (auth_state, unit) cfun" where
  "auth_step_parse_dh env t =
     bind (recv_answer t) (\<lambda>buf. on_fst
       (bind (run_reader buf read_server_DH_params) (decrypt_answer env)))"

section \<open>Step 4\<close>

definition client_DH_inner_data :: "auth_key_ctx \<Rightarrow> byte list \<Rightarrow> byte list" where
  "client_DH_inner_data ctx g_b =
     (let w = tl_write_uint32 tl_writer_init CRC_client_DH_inner_data;
          w = tl_write_int128 w (ax_nonce ctx);
          w = tl_write_int128 w (ax_server_nonce ctx);
          w = tl_write_int64 w 0;
          w = tl_write_bytes w g_b
      in wr_data w)"

text \<open>Hash, data and random bytes up to a multiple of 16.\<close>

definition hash_and_pad :: "auth_env \<Rightarrow> byte list \<Rightarrow> byte list" where
  "hash_and_pad env data =
     (let data_with_hash_len = 20 + length data;
          padded_len = (if data_with_hash_len mod 16 \<noteq> 0
                        then data_with_hash_len + (16 - data_with_hash_len mod 16)
                        else data_with_hash_len)
      in sha1 (ae_lib env) data @ data @
         (if padded_len > data_with_hash_len then ae_pad env (padded_len - data_with_hash_len) else []))"

definition set_client_DH_params :: "auth_key_ctx \<Rightarrow> byte list \<Rightarrow> byte list" where
  "set_client_DH_params ctx encrypted =
     (let w = tl_write_uint32 tl_writer_init CRC_set_client_DH_params;
          w = tl_write_int128 w (ax_nonce ctx);
          w = tl_write_int128 w (ax_server_nonce ctx);
          w = tl_write_bytes w encrypted
      in wr_data w)"

text \<open>The answer; the result is \<open>new_nonce_hash\<close>. The server nonce in it is read but not compared.\<close>

definition read_dh_gen :: "(tl_reader \<times> auth_key_ctx, byte list) cfun" where
  "read_dh_gen =
     bind (on_fst tl_read_uint32) (\<lambda>constructor.
     if constructor = CRC_dh_gen_retry then fail
     else if constructor = CRC_dh_gen_fail then fail
     else if constructor \<noteq> CRC_dh_gen_ok then fail
     else bind (on_fst tl_read_int128) (\<lambda>recv_nonce. bind get (\<lambda>ctx.
     if recv_nonce \<noteq> ax_nonce ctx then fail
     else bind (on_fst tl_read_int128) (\<lambda>recv_sn. on_fst tl_read_int128))))"

definition new_nonce_hash1 :: "hash \<Rightarrow> byte list \<Rightarrow> byte list \<Rightarrow> byte list" where
  "new_nonce_hash1 sha new_nonce auth_key_padded =
     take 16 (drop 4 (sha (new_nonce @ [1] @ take 8 (sha auth_key_padded))))"

definition first_salt :: "auth_key_ctx \<Rightarrow> u64" where
  "first_salt ctx = le_word (map (\<lambda>i. ax_new_nonce ctx ! i XOR ax_server_nonce ctx ! i) [0..<8])"

text \<open>The check and the writes to the session at the end of the step.\<close>

definition accept_key :: "auth_env \<Rightarrow> byte list \<Rightarrow> byte list \<Rightarrow> (auth_state, unit) cfun" where
  "accept_key env new_nonce_hash ak st =
     (let auth_key_padded = replicate (256 - length ak) 0 @ ak; ctx = fst st in
      if new_nonce_hash1 (sha1 (ae_lib env)) (ax_new_nonce ctx) auth_key_padded \<noteq> new_nonce_hash
      then (Fail, st)
      else (Ok (), (ctx, mtproto_session_set_salt (first_salt ctx)
        (mtproto_session_set_auth_key auth_key_padded (fst (snd st))), snd (snd st))))"

definition auth_step_set_client_dh :: "auth_env \<Rightarrow> transport \<Rightarrow> (auth_state, unit) cfun" where
  "auth_step_set_client_dh env t st =
     (let ctx = (fst st)\<lparr>ax_b := ae_b env\<rparr>; st = (ctx, snd st) in
      bind (lift (crypto_bn_mod_exp (ae_bn env) 256 (uint32_to_be (word_of_int (ax_g ctx))) (ax_b ctx)
        (ax_dh_prime ctx))) (\<lambda>g_b.
      let padded = hash_and_pad env (client_DH_inner_data ctx g_b);
          encrypted = aes_ige_encrypt (aes_enc (ae_lib env)) padded (ax_tmp_aes_key ctx) (ax_tmp_aes_iv ctx)
            (ae_heap env (length padded))
      in
      bind (on_snd (rpc_send_unencrypted (ae_send env 3) t (set_client_DH_params ctx encrypted))) (\<lambda>_.
      bind (recv_answer t) (\<lambda>buf.
      bind (on_fst (run_reader buf read_dh_gen)) (\<lambda>new_nonce_hash.
      bind (lift (crypto_bn_mod_exp (ae_bn env) 256 (ax_g_a ctx) (ax_b ctx) (ax_dh_prime ctx))) (\<lambda>ak.
      accept_key env new_nonce_hash ak))))) st)"

section \<open>The exchange\<close>

definition ctx_init :: "transport \<Rightarrow> auth_key_ctx" where
  "ctx_init t = \<lparr>ax_nonce = replicate 16 0, ax_server_nonce = replicate 16 0,
     ax_new_nonce = replicate 32 0, ax_pq = 0, ax_p = 0, ax_q = 0, ax_dc_id = transport_dc_id t,
     ax_g = 0, ax_dh_prime = [], ax_g_a = [], ax_server_time = 0, ax_b = replicate 256 0,
     ax_tmp_aes_key = replicate 32 0, ax_tmp_aes_iv = replicate 32 0\<rparr>"

definition mtproto_auth_key_gen :: "auth_env \<Rightarrow> transport \<Rightarrow> (mtproto_session \<times> net, unit) cfun" where
  "mtproto_auth_key_gen env t sw =
     (case bind (auth_step_req_pq env t) (\<lambda>_.
        bind (auth_step_req_dh env t) (\<lambda>_.
        bind (auth_step_parse_dh env t) (\<lambda>_. auth_step_set_client_dh env t))) (ctx_init t, sw)
      of (res, (_, sw')) \<Rightarrow> (res, sw'))"

end
