(* ===== verification/MTProto_Auth_Safe.thy ===== *)
theory MTProto_Auth_Safe
  imports MTProto_Auth
begin

text \<open>
  The key exchange against any peer: it neither leaves its buffers nor touches the
  session's key before the final check.
\<close>

section \<open>Unencrypted messages\<close>

definition plain_packet :: "u64 \<Rightarrow> byte list \<Rightarrow> byte list" where
  "plain_packet mid body =
     le_bytes 8 (0 :: u64) @ le_bytes 8 mid @ le_bytes 4 (word_of_nat (length body) :: u32) @ body"

lemma length_plain_packet [simp]: "length (plain_packet mid body) = 20 + length body"
  by (simp add: plain_packet_def)

lemma rpc_send_unencrypted_eq:
  "\<exists>mid. \<forall>w. rpc_send_unencrypted d t data (s, w) =
     (case transport_send t (plain_packet mid data) w of (res, w') \<Rightarrow> (res, (s\<lparr>last_msg_id := mid\<rparr>, w')))"
proof -
  obtain mid s' where id: "mtproto_session_next_msg_id (draw_now d) (draw_low d) s = (mid, s')" by fastforce
  then have "s' = s\<lparr>last_msg_id := mid\<rparr>" by (auto simp: mtproto_session_next_msg_id_def Let_def)
  then show ?thesis
    by (intro exI[of _ mid])
      (simp add: rpc_send_unencrypted_def id plain_packet_def wire_simps tl_writer_init_def)
qed

lemma transport_recv_sent:
  assumes "transport_recv t max_len w = (res, w')"
  shows "sent w' = sent w"
proof -
  have all: "recv_all n [] w1 = (r, w2) \<Longrightarrow> sent w2 = sent w1" for n w1 r w2
    using recv_all_incoming[of n "[]" w1 r w2] by simp
  have ex: "recv_exact n w1 = (r, w2) \<Longrightarrow> sent w2 = sent w1" for n w1 r w2
    using recv_exact_incoming[of n w1 r w2] by simp
  obtain r1 w1 where 1: "recv_exact 1 w = (r1, w1)" by fastforce
  obtain r2 w2 where 2: "recv_exact 3 w1 = (r2, w2)" by fastforce
  show ?thesis
    using assms 1 2 ex[OF 1] ex[OF 2]
    by (auto simp: transport_recv_def bind_def fail_def ret_def Let_def dest!: all
        split: if_splits outcome.splits)
qed

lemma recv_plain_steady:
  assumes "transport_fd t \<ge> 0" "length body mod 4 = 0" "length body \<le> max_len" "max_len \<le> 2 ^ 16"
    and "steady 4 (script w)" "length body + 21 < moves (script w)"
    and "incoming w = frame (plain_packet mid body) @ rest"
  obtains w' where "rpc_recv_unencrypted t max_len w = (Ok body, w')" "incoming w' = rest"
    "sent w' = sent w" "steady 4 (script w')" "moves (script w) \<le> moves (script w') + length body + 22"
proof -
  let ?d = "plain_packet mid body"
  have "?d \<noteq> []" by (metis length_plain_packet add_is_0 list.size(3) zero_neq_numeral)
  moreover have "length ?d mod 4 = 0" using assms(2) by (simp add: mod_add_eq) presburger
  moreover have "length ?d < 2 ^ 26" "length ?d \<le> 1024 * 1024" "length ?d + 1 < moves (script w)"
    using assms(3,4,6) by simp_all
  ultimately obtain out w' where recv: "transport_recv t (1024 * 1024) w = (Ok out, w')" "steady 4 (script w')"
    "moves (script w) \<le> moves (script w') + length ?d + 2"
    and out: "out = ?d" "incoming w' = rest"
    using transport_recv_steady[OF assms(1), of ?d w "1024 * 1024" rest] assms(5,7)
      transport_recv_frame[of t "1024 * 1024" w _ _ ?d rest] by metis
  have len: "unat (word_of_nat (length body) :: u32) = length body"
    using assms(3,4) by (simp add: unat_of_nat)
  have zero: "(word_of_nat (length body) :: u32) > 0 \<longleftrightarrow> body \<noteq> []"
    using len by (metis length_0_conv unat_eq_zero word_gt_0)
  have "takes (read_payload max_len) (le_bytes 4 (word_of_nat (length body) :: u32) @ body) body"
    unfolding read_payload_def
    using takes_read_raw[of body] assms(3,4) len zero
    by (intro takes_bind[OF takes_reads(1)]) (auto simp: takes_ret)
  then have "takes (bind tl_read_uint64 (\<lambda>auth_key_id. bind tl_read_uint64 (\<lambda>msg_id. read_payload max_len))) ?d body"
    unfolding plain_packet_def by (intro takes_bind[OF takes_reads(3)])
  from parse_takes[OF this, of "[]" w'] have "rpc_recv_unencrypted t max_len w = (Ok body, w')"
    using assms(3,4) recv(1) by (simp add: rpc_recv_unencrypted_def bind_def out(1))
  then show ?thesis
    using that[of w'] recv out transport_recv_sent[OF recv(1)] by simp
qed

lemma send_plain_steady:
  assumes "transport_fd t \<ge> 0" "length body mod 4 = 0" "length body < 2 ^ 20"
    and "steady 4 (script w)" "length body + 20 < moves (script w)"
  obtains mid w' where "rpc_send_unencrypted d t body (s, w) = (Ok (), (s\<lparr>last_msg_id := mid\<rparr>, w'))"
    "sent w' = sent w @ frame (plain_packet mid body)" "incoming w' = incoming w"
    "steady 4 (script w')" "moves (script w) \<le> moves (script w') + length body + 21"
proof -
  obtain mid where mid: "\<forall>w. rpc_send_unencrypted d t body (s, w) =
     (case transport_send t (plain_packet mid body) w of (res, w') \<Rightarrow> (res, (s\<lparr>last_msg_id := mid\<rparr>, w')))"
    using rpc_send_unencrypted_eq by blast
  let ?d = "plain_packet mid body"
  have d: "?d \<noteq> []" by (metis length_plain_packet add_is_0 list.size(3) zero_neq_numeral)
  have m: "length ?d mod 4 = 0" using assms(2) by (simp add: mod_add_eq) presburger
  have lt: "length ?d < 2 ^ 26" "length ?d < moves (script w)" using assms(3,5) by simp_all
  from transport_send_steady[OF assms(1) d m lt(1) assms(4) lt(2)]
  obtain w' where send: "transport_send t ?d w = (Ok (), w')" "steady 4 (script w')"
    "moves (script w) \<le> moves (script w') + length ?d + 1" by blast
  have "length ?d < 2 ^ 64" using assms(3) by simp
  from transport_send_sent[OF this send(1)] d m assms(1) have "sent w' = sent w @ frame ?d" "incoming w' = incoming w"
    by (auto simp del: length_plain_packet)
  then show ?thesis using that[of mid w'] mid send by simp
qed

section \<open>Any peer\<close>

definition env_ok :: "auth_env \<Rightarrow> bool" where
  "env_ok env = (bn_ok (ae_bn env) \<and> (\<forall>x. length (sha1 (ae_lib env) x) = 20) \<and>
     (\<forall>key. block_inverse (aes_enc (ae_lib env) key) (aes_dec (ae_lib env) key)) \<and>
     length (ae_nonce env) = 16 \<and> length (ae_new_nonce env) = 32 \<and> length (ae_b env) = 256 \<and>
     (\<forall>n. length (ae_rsa_pad env n) = n) \<and> (\<forall>n. length (ae_pad env n) = n) \<and>
     (\<forall>n. length (ae_heap env n) = n) \<and>
     (\<forall>rsa x out. ae_rsa env = Some rsa \<longrightarrow> rsa x = Some out \<longrightarrow> length out = 256))"

text \<open>The key material of the session is still the one the exchange started with.\<close>

definition same_keys :: "mtproto_session \<Rightarrow> mtproto_session \<Rightarrow> bool" where
  "same_keys s0 s = (auth_key s = auth_key s0 \<and> has_auth_key s = has_auth_key s0 \<and>
     server_salt s = server_salt s0 \<and> session_id s = session_id s0 \<and> seq_no s = seq_no s0)"

text \<open>The contents of the context fit the arrays of the C struct.\<close>

definition ctx_ok :: "auth_key_ctx \<Rightarrow> bool" where
  "ctx_ok ctx = (length (ax_nonce ctx) = 16 \<and> length (ax_server_nonce ctx) = 16 \<and>
     length (ax_new_nonce ctx) = 32 \<and> length (ax_b ctx) = 256 \<and> length (ax_dh_prime ctx) \<le> 256 \<and>
     length (ax_g_a ctx) \<le> 256 \<and> length (ax_tmp_aes_key ctx) = 32 \<and> length (ax_tmp_aes_iv ctx) = 32)"

abbreviation auth_inv :: "mtproto_session \<Rightarrow> auth_state \<Rightarrow> bool" where
  "auth_inv s0 \<equiv> beside ctx_ok (beside (same_keys s0) (\<lambda>_. True))"

lemma safe_send_unencrypted [safe_rules]:
  assumes "length data < 2 ^ 62"
  shows "safe (beside (same_keys s0) (\<lambda>_. True)) (rpc_send_unencrypted d t data)"
proof (rule safeI)
  fix sw :: "mtproto_session \<times> net" assume I: "beside (same_keys s0) (\<lambda>_. True) sw"
  obtain s w where sw: "sw = (s, w)" by fastforce
  obtain mid where "rpc_send_unencrypted d t data sw =
     (case transport_send t (plain_packet mid data) w of (res, w') \<Rightarrow> (res, (s\<lparr>last_msg_id := mid\<rparr>, w')))"
    using rpc_send_unencrypted_eq[of d t data s] sw by blast
  moreover obtain res w' where send: "transport_send t (plain_packet mid data) w = (res, w')" by fastforce
  moreover have "res \<noteq> Oob" using transport_send_sent[OF _ send] assms by simp
  ultimately show "fst (rpc_send_unencrypted d t data sw) \<noteq> Oob \<and>
      beside (same_keys s0) (\<lambda>_. True) (snd (rpc_send_unencrypted d t data sw))"
    using I by (simp add: sw beside_def same_keys_def)
qed

lemma parse_safe:
  assumes "keeps (within (mem_inv buf) (length buf)) m" "length buf < 2 ^ 62"
  shows "safe (\<lambda>_. True) (parse buf m)"
  using keepsD[OF assms(1), of "tl_reader_init buf (length buf)"] assms(2)
  by (auto simp: safe_def parse_def within_def mem_inv_def rd_at_init rd_at_wf remaining_def no_fault_def
      intro: prod.exhaust_sel)

lemma unat_u32_small: "unat (n :: u32) < 2 ^ 63"
  using unsigned_less[of n, where ?'a = nat] by simp

lemma keeps_read_payload [keeps_rules]: "keeps (within (mem_inv d) k) (read_payload max_len)"
  unfolding read_payload_def
  by (intro keeps_rules) (rule unat_u32_small)

lemma safe_recv_unencrypted [safe_rules]: "safe (\<lambda>_. True) (rpc_recv_unencrypted t max_len)"
proof (rule safeI)
  fix w
  obtain res w' where recv: "transport_recv t RPC_BUF_SIZE w = (res, w')" by fastforce
  have "length buf \<le> RPC_BUF_SIZE" if "res = Ok buf" for buf
    using transport_recv_length recv that by blast
  then have "safe (\<lambda>_. True) (parse buf (bind tl_read_uint64 (\<lambda>auth_key_id. bind tl_read_uint64 (\<lambda>msg_id.
       read_payload max_len))) :: (net, byte list) cfun)" if "res = Ok buf" for buf
    using that by (intro parse_safe keeps_rules) simp
  then show "fst (rpc_recv_unencrypted t max_len w) \<noteq> Oob \<and> True"
    using transport_recv_no_oob[OF recv] recv
    by (cases res) (auto simp: rpc_recv_unencrypted_def bind_def safe_def fail_def)
qed

lemma safe_recv_answer [safe_rules]: "safe (beside J (beside K (\<lambda>_. True))) (recv_answer t)"
  unfolding recv_answer_def by (intro safe_rules)

text \<open>An answer is at most 4096 bytes long, so reading it needs no further hypothesis.\<close>

lemma yields_read_payload: "yields (read_payload max_len) (\<lambda>out. length out \<le> max_len)"
  unfolding read_payload_def
  by (intro yields_bind yields_if yields_simple) (use yields_read_raw in \<open>auto simp: yields_def\<close>)

lemma yields_recv_answer: "yields (recv_answer t) (\<lambda>buf. length buf < 2 ^ 62)"
proof -
  have "yields (parse buf (bind tl_read_uint64 (\<lambda>a. bind tl_read_uint64 (\<lambda>b. read_payload 4096)))
      :: (net, byte list) cfun) (\<lambda>out. length out \<le> 4096)" for buf
  proof -
    have "yields (bind tl_read_uint64 (\<lambda>a. bind tl_read_uint64 (\<lambda>b. read_payload 4096)))
        (\<lambda>out. length out \<le> 4096)"
      by (intro yields_bind yields_read_payload)
    then show ?thesis by (simp add: yields_def parse_def)
  qed
  then have "yields (rpc_recv_unencrypted t 4096) (\<lambda>out. length out \<le> 4096)"
    unfolding rpc_recv_unencrypted_def by (intro yields_bind yields_if yields_simple)
  then have "yields (rpc_recv_unencrypted t 4096) (\<lambda>out. length out < 2 ^ 62)"
    by (fastforce simp: yields_def)
  then show ?thesis unfolding recv_answer_def by (intro yields_lifted)
qed

lemma keeps_find_fp [keeps_rules]: "keeps (within (mem_inv d) k) (find_fp fp n found)"
  by (induction n arbitrary: found) (simp_all add: keeps_ret keeps_bind mem.keeps_tl_reads)

lemma keeps_auth_readers [keeps_rules]:
  "keeps (reading d ctx_ok) (read_resPQ fp)"
  "keeps (reading d ctx_ok) read_server_DH_params"
  "keeps (reading d ctx_ok) read_server_DH_inner"
  "keeps (reading d J) read_dh_gen"
  unfolding read_resPQ_def read_server_DH_params_def read_server_DH_inner_def read_dh_gen_def
  by ((intro keeps_nonce_bind keeps_rules)?; simp add: ctx_ok_def)+

lemma length_strip_zeros: "length (strip_zeros n tmp) \<le> length tmp"
proof (induction n arbitrary: tmp)
  case (Suc n)
  then show ?case using Suc.IH[of "tl tmp"] by (auto intro: le_trans)
qed simp

lemma length_to_be: "length (uint64_to_be v) \<le> 8" "length (uint32_to_be x) \<le> 4"
  unfolding uint64_to_be_def uint32_to_be_def by (rule order.trans[OF length_strip_zeros], simp)+

text \<open>The messages of the client as byte strings, with a bound on their length.\<close>

lemma written:
  "wr_data (tl_write_int128 w d) = wr_data w @ take 16 d"
  "wr_data (tl_write_int256 w d) = wr_data w @ take 32 d"
  by (simp_all add: tl_write_int128_def tl_write_int256_def wr_data_writer_put)

lemma client_messages:
  "req_pq_multi n = le_bytes 4 CRC_req_pq_multi @ take 16 n"
  "p_q_inner_data ctx = le_bytes 4 CRC_p_q_inner_data @ enc_bytes (uint64_to_be (ax_pq ctx)) @
     enc_bytes (uint32_to_be (ax_p ctx)) @ enc_bytes (uint32_to_be (ax_q ctx)) @
     take 16 (ax_nonce ctx) @ take 16 (ax_server_nonce ctx) @ take 32 (ax_new_nonce ctx)"
  "req_DH_params ctx fp enc = le_bytes 4 CRC_req_DH_params @ take 16 (ax_nonce ctx) @
     take 16 (ax_server_nonce ctx) @ enc_bytes (uint32_to_be (ax_p ctx)) @
     enc_bytes (uint32_to_be (ax_q ctx)) @ le_bytes 8 fp @ enc_bytes enc"
  "client_DH_inner_data ctx g_b = le_bytes 4 CRC_client_DH_inner_data @ take 16 (ax_nonce ctx) @
     take 16 (ax_server_nonce ctx) @ le_bytes 8 (0 :: u64) @ enc_bytes g_b"
  "set_client_DH_params ctx enc = le_bytes 4 CRC_set_client_DH_params @ take 16 (ax_nonce ctx) @
     take 16 (ax_server_nonce ctx) @ enc_bytes enc"
  by (simp_all add: req_pq_multi_def p_q_inner_data_def req_DH_params_def client_DH_inner_data_def
      set_client_DH_params_def Let_def wire_simps written tl_writer_init_def)

lemma client_message_bounds:
  "length (req_pq_multi n) \<le> 20"
  "length (p_q_inner_data ctx) \<le> 105"
  "length (req_DH_params ctx fp enc) \<le> length enc + 73"
  "length (client_DH_inner_data ctx g_b) \<le> length g_b + 51"
  "length (set_client_DH_params ctx enc) \<le> length enc + 43"
  using length_enc_bytes_le[of "uint64_to_be (ax_pq ctx)"] length_enc_bytes_le[of "uint32_to_be (ax_p ctx)"]
    length_enc_bytes_le[of "uint32_to_be (ax_q ctx)"] length_to_be(1)[of "ax_pq ctx"]
    length_to_be(2)[of "ax_p ctx"] length_to_be(2)[of "ax_q ctx"]
    length_enc_bytes_le[of enc] length_enc_bytes_le[of g_b]
  by (simp_all add: client_messages)

lemma safe_app: "safe I m \<Longrightarrow> I st \<Longrightarrow> fst (m st) \<noteq> Oob \<and> I (snd (m st))"
  by (simp add: safe_def)

lemma safe_req_pq:
  assumes "env_ok env"
  shows "safe (auth_inv s0) (auth_step_req_pq env t)"
proof (rule safeI)
  fix st :: auth_state assume "auth_inv s0 st"
  then have I: "auth_inv s0 ((fst st)\<lparr>ax_nonce := ae_nonce env\<rparr>, snd st)"
    using assms by (simp add: beside_def ctx_ok_def env_ok_def)
  let ?m = "bind (on_snd (rpc_send_unencrypted (ae_send env 1) t (req_pq_multi (ae_nonce env)))) (\<lambda>_.
      bind (recv_answer t) (\<lambda>buf. on_fst (run_reader buf (read_resPQ (ae_fingerprint env)))))"
  have "length (req_pq_multi (ae_nonce env)) < 2 ^ 62"
    using client_message_bounds(1)[of "ae_nonce env"] by simp
  then have "safe (auth_inv s0) ?m"
    by (intro safe_bind safe_beside safe_send_unencrypted safe_run_reader keeps_auth_readers
      safe_bind_yields[OF safe_recv_answer yields_recv_answer])
  from safe_app[OF this I]
  show "fst (auth_step_req_pq env t st) \<noteq> Oob \<and> auth_inv s0 (snd (auth_step_req_pq env t st))"
    by (simp add: auth_step_req_pq_def)
qed

lemma safe_req_dh:
  assumes "env_ok env"
  shows "safe (auth_inv s0) (auth_step_req_dh env t)"
proof (rule safeI)
  fix st :: auth_state assume st: "auth_inv s0 st"
  have rsa: "rsa_sha1_encrypt env rsa data \<noteq> Oob" "yields (lift (rsa_sha1_encrypt env rsa data))
      (\<lambda>out. length out = 256)" if "ae_rsa env = Some rsa" for rsa data
    using assms that
    by (auto simp: rsa_sha1_encrypt_def env_ok_def Let_def lift_def yields_def split: option.splits)
  have I: "auth_inv s0 ((fst st)\<lparr>ax_p := p, ax_q := q, ax_new_nonce := ae_new_nonce env\<rparr>, snd st)" for p q
    using st assms by (simp add: beside_def ctx_ok_def env_ok_def)
  have small: "length (req_DH_params ctx fp enc) < 2 ^ 62" if "length enc = 256" for ctx fp enc
    using client_message_bounds(3)[of ctx fp enc] that by simp
  show "fst (auth_step_req_dh env t st) \<noteq> Oob \<and> auth_inv s0 (snd (auth_step_req_dh env t st))"
  proof (cases "\<exists>p q rsa. pq_factorize (ax_pq (fst st)) = Some (p, q) \<and> ae_rsa env = Some rsa")
    case True
    then obtain p q rsa where pq: "pq_factorize (ax_pq (fst st)) = Some (p, q)" and r: "ae_rsa env = Some rsa"
      by blast
    show ?thesis unfolding auth_step_req_dh_def pq r Let_def option.case prod.case
    proof (rule safe_app)
      show "auth_inv s0 ((fst st)\<lparr>ax_p := p, ax_q := q, ax_new_nonce := ae_new_nonce env\<rparr>, snd st)"
        by (rule I)
    qed (intro safe_bind_yields[OF safe_lift[OF rsa(1)] rsa(2)] safe_beside safe_send_unencrypted small r)
  next
    case False
    then show ?thesis using st I
      by (auto simp: auth_step_req_dh_def Let_def split: option.split)
  qed
qed

lemma safe_decrypt_answer [safe_rules]:
  assumes "env_ok env" "length enc < 2 ^ 62"
  shows "safe ctx_ok (decrypt_answer env enc)"
proof (rule safeI)
  fix ctx assume c: "ctx_ok ctx"
  obtain key iv where k: "dh_derive_temp_aes (sha1 (ae_lib env)) (ax_new_nonce ctx) (ax_server_nonce ctx) = (key, iv)"
    by fastforce
  let ?d = "aes_ige_decrypt (aes_dec (ae_lib env)) enc key iv (ae_heap env (length enc))"
  let ?c = "ctx\<lparr>ax_tmp_aes_key := key, ax_tmp_aes_iv := iv\<rparr>"
  have "ctx_ok ?c" using c k assms(1) by (auto simp: ctx_ok_def env_ok_def dh_derive_temp_aes_def Let_def)
  moreover have "length ?d < 2 ^ 62"
    using assms length_ige_decrypt_loop[of "take 16 iv" enc "aes_dec (ae_lib env) key" "take 16 (drop 16 iv)"]
    by (auto simp: aes_ige_decrypt_def env_ok_def)
  ultimately have "fst (run_reader (drop 20 ?d) read_server_DH_inner ?c) \<noteq> Oob \<and>
      ctx_ok (snd (run_reader (drop 20 ?d) read_server_DH_inner ?c))"
    by (intro safe_app[where I = ctx_ok] safe_run_reader keeps_auth_readers) simp_all
  with \<open>ctx_ok ?c\<close> show "fst (decrypt_answer env enc ctx) \<noteq> Oob \<and> ctx_ok (snd (decrypt_answer env enc ctx))"
    by (simp add: decrypt_answer_def k Let_def)
qed

lemma yields_DH_params: "yields (run_reader buf read_server_DH_params) (\<lambda>enc. length enc < 2 ^ 62)"
proof -
  have "yields read_server_DH_params (\<lambda>enc. length enc < 2 ^ 62)"
    unfolding read_server_DH_params_def
    by (intro yields_bind yields_if yields_simple
        yields_bind_value[OF yields_lifted(2)[OF yields_read_bytes]])
      (auto split: option.splits intro: yields_simple)
  then show ?thesis by (auto simp: yields_def run_reader_def split_beta)
qed

lemma safe_parse_dh:
  assumes "env_ok env"
  shows "safe (auth_inv s0) (auth_step_parse_dh env t)"
  unfolding auth_step_parse_dh_def
  by (intro safe_bind_yields[OF safe_recv_answer yields_recv_answer] safe_beside
      safe_bind_yields[OF safe_run_reader yields_DH_params] safe_decrypt_answer keeps_auth_readers assms) simp_all

text \<open>
  The last step: the session's keys are untouched unless it succeeds, and then the new key
  has passed the check against \<open>new_nonce\<close>.
\<close>

definition key_installed :: "auth_env \<Rightarrow> mtproto_session \<Rightarrow> auth_state \<Rightarrow> bool" where
  "key_installed env s0 st =
     (let ctx = fst st; s = fst (snd st);
          ak = be_pad 256 (be_nat (ax_g_a ctx) ^ be_nat (ae_b env) mod be_nat (ax_dh_prime ctx))
      in ctx_ok ctx \<and> auth_key s = ak \<and> has_auth_key s \<and> server_salt s = first_salt ctx \<and>
         0 < be_nat (ax_dh_prime ctx) \<and> session_id s = session_id s0 \<and> seq_no s = seq_no s0)"

lemma be_pad_widen:
  "v < 256 ^ n \<Longrightarrow> n \<le> m \<Longrightarrow> replicate (m - n) 0 @ be_pad n v = be_pad m v"
  using length_be_bytes_le[of v n] by (simp add: be_pad_def replicate_add[symmetric])

lemma mod_exp_ok:
  assumes "env_ok env" "ctx_ok ctx"
  shows "crypto_bn_mod_exp (ae_bn env) 256 x y (ax_dh_prime ctx) =
    (if be_nat (ax_dh_prime ctx) = 0 then Fail
     else Ok (be_pad (length (ax_dh_prime ctx)) (be_nat x ^ be_nat y mod be_nat (ax_dh_prime ctx))))"
  using crypto_bn_eq(1)[of "ae_bn env" "ax_dh_prime ctx" 256 x y] assms
  by (simp add: env_ok_def ctx_ok_def)

lemma length_mod_exp:
  assumes "be_nat m \<noteq> 0"
  shows "x mod be_nat m < 256 ^ length m" "length (be_pad (length m) (x mod be_nat m)) = length m"
proof -
  have "x mod be_nat m < be_nat m" using assms by simp
  with be_nat_bound[of m] show b: "x mod be_nat m < 256 ^ length m" by simp
  show "length (be_pad (length m) (x mod be_nat m)) = length m" by (rule length_be_pad[OF b])
qed

abbreviation with_ctx :: "auth_key_ctx \<Rightarrow> mtproto_session \<Rightarrow> auth_state \<Rightarrow> bool" where
  "with_ctx ctx s0 \<equiv> beside (\<lambda>c. c = ctx) (beside (same_keys s0) (\<lambda>_. True))"

lemma runs_accept_key:
  assumes "be_nat (ax_dh_prime ctx) \<noteq> 0" "ax_b ctx = ae_b env"
    and ak: "ak = be_pad (length (ax_dh_prime ctx))
      (be_nat (ax_g_a ctx) ^ be_nat (ae_b env) mod be_nat (ax_dh_prime ctx))"
    and "ctx_ok ctx"
  shows "runs (with_ctx ctx s0) (accept_key env h ak) (\<lambda>_. key_installed env s0)"
  unfolding runs_def
proof (intro allI impI)
  fix st :: auth_state assume I: "with_ctx ctx s0 st"
  have p: "length (ax_dh_prime ctx) \<le> 256" using assms(4) by (simp add: ctx_ok_def)
  note len = length_mod_exp[OF assms(1), of "be_nat (ax_g_a ctx) ^ be_nat (ae_b env)"]
  have pad: "replicate (256 - length ak) 0 @ ak =
      be_pad 256 (be_nat (ax_g_a ctx) ^ be_nat (ae_b env) mod be_nat (ax_dh_prime ctx))"
    using be_pad_widen[OF len(1) p] len(2) by (simp add: ak)
  have "length (replicate (256 - length ak) 0 @ ak) = 256" using len(2) p by (simp add: ak)
  with I pad show "case accept_key env h ak st of (Ok x, s') \<Rightarrow> key_installed env s0 s'
      | (Fail, s') \<Rightarrow> with_ctx ctx s0 s' | (Oob, s') \<Rightarrow> False | (Fuel, s') \<Rightarrow> with_ctx ctx s0 s'"
    using assms(1,4) by (auto simp: accept_key_def Let_def key_installed_def beside_def same_keys_def
        mtproto_session_set_salt_def mtproto_session_set_auth_key_def)
qed

lemma length_hash_and_pad:
  assumes "env_ok env"
  shows "length (hash_and_pad env d) mod 16 = 0" "length (hash_and_pad env d) \<le> length d + 35"
    "hash_and_pad env d \<noteq> []"
proof -
  let ?n = "20 + length d"
  have len: "length (hash_and_pad env d) = (if ?n mod 16 \<noteq> 0 then ?n + (16 - ?n mod 16) else ?n)"
    using assms by (auto simp: hash_and_pad_def Let_def env_ok_def)
  show "length (hash_and_pad env d) mod 16 = 0" unfolding len by (simp split: if_splits) presburger
  show "length (hash_and_pad env d) \<le> length d + 35" unfolding len by (simp split: if_splits) linarith
  show "hash_and_pad env d \<noteq> []" using len by (auto split: if_splits)
qed

lemma length_answer_cipher:
  assumes "env_ok env" "length iv = 32"
  shows "length (aes_ige_encrypt (aes_enc (ae_lib env)) (hash_and_pad env d) key iv out) =
    length (hash_and_pad env d)"
  using length_aes_ige_encrypt[of "aes_enc (ae_lib env)" key "aes_dec (ae_lib env)" iv "hash_and_pad env d" out]
    length_hash_and_pad[OF assms(1), of d] assms by (simp add: env_ok_def)

lemma runs_set_client_dh:
  assumes "env_ok env" "auth_inv s0 st" "auth_step_set_client_dh env t st = (res, st')"
  shows "res \<noteq> Oob \<and> (\<forall>x. res = Ok x \<longrightarrow> key_installed env s0 st') \<and>
    (res = Fail \<or> res = Fuel \<longrightarrow> auth_inv s0 st')"
proof -
  define ctx where "ctx = (fst st)\<lparr>ax_b := ae_b env\<rparr>"
  let ?p = "ax_dh_prime ctx"
  have ctx: "ctx_ok ctx" using assms(1,2) by (simp add: ctx_def beside_def ctx_ok_def env_ok_def)
  have I: "with_ctx ctx s0 (ctx, snd st)" using assms(2) by (simp add: beside_def)
  have inv: "auth_inv s0 u" if "with_ctx ctx s0 u" for u using that ctx by (simp add: beside_def)
  note exp = mod_exp_ok[OF assms(1) ctx]
  define g_b where "g_b = be_pad (length ?p)
    (be_nat (uint32_to_be (word_of_int (ax_g ctx))) ^ be_nat (ax_b ctx) mod be_nat ?p)"
  define ak where "ak = be_pad (length ?p) (be_nat (ax_g_a ctx) ^ be_nat (ax_b ctx) mod be_nat ?p)"
  define msg where "msg = set_client_DH_params ctx (aes_ige_encrypt (aes_enc (ae_lib env))
    (hash_and_pad env (client_DH_inner_data ctx g_b)) (ax_tmp_aes_key ctx) (ax_tmp_aes_iv ctx)
    (ae_heap env (length (hash_and_pad env (client_DH_inner_data ctx g_b)))))"
  show ?thesis
  proof (cases "be_nat ?p = 0")
    case True
    then have "auth_step_set_client_dh env t st = (Fail, (ctx, snd st))"
      by (simp add: auth_step_set_client_dh_def ctx_def[symmetric] exp fail_def)
    then show ?thesis using assms(3) inv[OF I] by auto
  next
    case False
    let ?m = "bind (on_snd (rpc_send_unencrypted (ae_send env 3) t msg)) (\<lambda>_. bind (recv_answer t) (\<lambda>buf.
      bind (on_fst (run_reader buf read_dh_gen)) (\<lambda>h. accept_key env h ak)))"
    have run: "?m (ctx, snd st) = (res, st')"
      using assms(3) False
      by (simp add: auth_step_set_client_dh_def ctx_def[symmetric] exp g_b_def ak_def msg_def Let_def)
    have "length g_b \<le> 256"
      using length_mod_exp(2)[OF False] ctx by (simp add: g_b_def ctx_ok_def)
    then have "length msg < 2 ^ 62"
      using client_message_bounds(5)[of ctx] client_message_bounds(4)[of ctx g_b] ctx
        length_hash_and_pad(2)[OF assms(1), of "client_DH_inner_data ctx g_b"]
        length_answer_cipher[OF assms(1), of "ax_tmp_aes_iv ctx"]
      unfolding msg_def by (intro le_less_trans[OF client_message_bounds(5)]) (simp add: ctx_ok_def)
    moreover have "runs (with_ctx ctx s0) (accept_key env h ak) (\<lambda>_. key_installed env s0)" for h
      using runs_accept_key[OF False _ _ ctx] by (simp add: ak_def ctx_def)
    ultimately have "runs (with_ctx ctx s0) ?m (\<lambda>_. key_installed env s0)"
      by (intro runs_bind runs_bind_yields[OF safe_recv_answer yields_recv_answer] safe_beside
          safe_send_unencrypted safe_run_reader keeps_auth_readers)
    from runsD[OF this I run] inv[of st'] show ?thesis by blast
  qed
qed

lemma runs_key_gen:
  assumes "env_ok env"
  shows "runs (auth_inv s0) (bind (auth_step_req_pq env t) (\<lambda>_. bind (auth_step_req_dh env t) (\<lambda>_.
    bind (auth_step_parse_dh env t) (\<lambda>_. auth_step_set_client_dh env t)))) (\<lambda>_. key_installed env s0)"
proof -
  have "runs (auth_inv s0) (auth_step_set_client_dh env t) (\<lambda>_. key_installed env s0)"
    unfolding runs_def
  proof (intro allI impI)
    fix st :: auth_state assume "auth_inv s0 st"
    moreover obtain res st' where m: "auth_step_set_client_dh env t st = (res, st')"
      by (rule prod.exhaust)
    ultimately show "case auth_step_set_client_dh env t st of (Ok x, s') \<Rightarrow> key_installed env s0 s'
        | (Fail, s') \<Rightarrow> auth_inv s0 s' | (Oob, s') \<Rightarrow> False | (Fuel, s') \<Rightarrow> auth_inv s0 s'"
      using runs_set_client_dh[OF assms _ m] by (cases res) simp_all
  qed
  then show ?thesis
    by (intro runs_bind safe_req_pq safe_req_dh safe_parse_dh assms)
qed

text \<open>
  C10. Whatever the peer sends and however the connection behaves, the key exchange makes no
  access outside its buffers. Unless it succeeds, the session keeps the key, the salt and the
  counters it had; if it succeeds, the session has a key of 256 bytes that is a power modulo
  the prime the peer sent, with the session id and sequence number untouched.
\<close>

theorem auth_key_gen_safe:
  assumes "env_ok env" "mtproto_auth_key_gen env t (s, w) = (res, (s', w'))"
  shows "case res of
      Ok _ \<Rightarrow> has_auth_key s' \<and> session_id s' = session_id s \<and> seq_no s' = seq_no s \<and>
        (\<exists>g_a prime. length prime \<le> 256 \<and> 0 < be_nat prime \<and>
          auth_key s' = be_pad 256 (be_nat g_a ^ be_nat (ae_b env) mod be_nat prime))
    | Oob \<Rightarrow> False
    | _ \<Rightarrow> auth_key s' = auth_key s \<and> has_auth_key s' = has_auth_key s \<and>
        server_salt s' = server_salt s \<and> session_id s' = session_id s \<and> seq_no s' = seq_no s"
proof -
  let ?m = "bind (auth_step_req_pq env t) (\<lambda>_. bind (auth_step_req_dh env t) (\<lambda>_.
    bind (auth_step_parse_dh env t) (\<lambda>_. auth_step_set_client_dh env t)))"
  obtain r st where m: "?m (ctx_init t, (s, w)) = (r, st)" by (rule prod.exhaust)
  obtain c s1 w1 where st: "st = (c, s1, w1)" by (metis surj_pair)
  have eq: "r = res" "s1 = s'" using assms(2) m st by (simp_all add: mtproto_auth_key_gen_def)
  have "auth_inv s (ctx_init t, (s, w))" by (simp add: beside_def ctx_ok_def ctx_init_def same_keys_def)
  from runsD[OF runs_key_gen[OF assms(1)] this m] show ?thesis
    by (cases res) (auto simp: eq st beside_def same_keys_def key_installed_def ctx_ok_def Let_def)
qed

end
