(* ===== verification/MTProto_Auth_Agree.thy ===== *)
theory MTProto_Auth_Agree
  imports MTProto_Auth_Safe
begin

text \<open>
  The key exchange with a server that follows the protocol: both sides end with the same
  authorization key.
\<close>

section \<open>A server that follows the protocol\<close>

text \<open>What a server chooses: its nonce, the number to factor, the group and its secret.\<close>

record dh_server =
  sv_nonce :: "byte list"
  sv_pq :: u64
  sv_fps :: "u64 list"
  sv_g :: u32
  sv_prime :: "byte list"
  sv_a :: nat
  sv_time :: u32
  sv_pad :: "byte list"
  sv_mid :: "nat \<Rightarrow> u64"

definition sv_g_a :: "dh_server \<Rightarrow> byte list" where
  "sv_g_a sv = be_pad (length (sv_prime sv)) (unat (sv_g sv) ^ sv_a sv mod be_nat (sv_prime sv))"

definition enc_resPQ :: "byte list \<Rightarrow> dh_server \<Rightarrow> byte list" where
  "enc_resPQ nonce sv = le_bytes 4 CRC_resPQ @ nonce @ sv_nonce sv @ enc_bytes (uint64_to_be (sv_pq sv)) @
     enc_vector (le_bytes 8) (sv_fps sv)"

definition enc_DH_inner :: "byte list \<Rightarrow> dh_server \<Rightarrow> byte list" where
  "enc_DH_inner nonce sv = le_bytes 4 CRC_server_DH_inner_data @ nonce @ sv_nonce sv @ le_bytes 4 (sv_g sv) @
     enc_bytes (sv_prime sv) @ enc_bytes (sv_g_a sv) @ le_bytes 4 (sv_time sv)"

text \<open>The inner data under its hash, padded to whole blocks and encrypted with the temporary key.\<close>

definition sv_plain :: "crypto_lib \<Rightarrow> byte list \<Rightarrow> dh_server \<Rightarrow> byte list" where
  "sv_plain lib nonce sv = sha1 lib (enc_DH_inner nonce sv) @ enc_DH_inner nonce sv @ sv_pad sv"

definition sv_ok :: "auth_env \<Rightarrow> dh_server \<Rightarrow> bool" where
  "sv_ok env sv = (length (sv_nonce sv) = 16 \<and> length (sv_fps sv) \<le> 64 \<and>
     ae_fingerprint env \<in> set (sv_fps sv) \<and> 2 \<le> sv_g sv \<and> sv_g sv \<le> 7 \<and>
     length (sv_prime sv) \<le> 256 \<and> 0 < be_nat (sv_prime sv) \<and> length (sv_pad sv) < 16 \<and>
     length (sv_plain (ae_lib env) (ae_nonce env) sv) mod 16 = 0)"

definition enc_DH_params :: "crypto_lib \<Rightarrow> byte list \<Rightarrow> byte list \<Rightarrow> dh_server \<Rightarrow> byte list" where
  "enc_DH_params lib nonce new_nonce sv =
     (let (key, iv) = dh_derive_temp_aes (sha1 lib) new_nonce (sv_nonce sv)
      in le_bytes 4 CRC_server_DH_params_ok @ nonce @ sv_nonce sv @
         enc_bytes (aes_ige_encrypt (aes_enc lib) (sv_plain lib nonce sv) key iv []))"

text \<open>The key as the server computes it from the client's \<open>g_b\<close>.\<close>

definition sv_key :: "dh_server \<Rightarrow> byte list \<Rightarrow> byte list" where
  "sv_key sv g_b = be_pad 256 (be_nat g_b ^ sv_a sv mod be_nat (sv_prime sv))"

definition enc_dh_gen_ok :: "crypto_lib \<Rightarrow> byte list \<Rightarrow> byte list \<Rightarrow> dh_server \<Rightarrow> byte list \<Rightarrow> byte list" where
  "enc_dh_gen_ok lib nonce new_nonce sv g_b = le_bytes 4 CRC_dh_gen_ok @ nonce @ sv_nonce sv @
     new_nonce_hash1 (sha1 lib) new_nonce (sv_key sv g_b)"

lemma takes_find_fp:
  "takes (find_fp fp (length fps) found) (concat (map (le_bytes 8) fps)) (found \<or> fp \<in> set fps)"
proof (induction fps arbitrary: found)
  case (Cons f fps)
  have "takes (bind tl_read_uint64 (\<lambda>v. find_fp fp (length fps) (if v = fp then True else found)))
      (le_bytes 8 f @ concat (map (le_bytes 8) fps)) ((if f = fp then True else found) \<or> fp \<in> set fps)"
    by (rule takes_bind[OF takes_reads(3)]) (rule Cons.IH)
  then show ?case by (auto simp: if_split_eq1 cong: if_cong split: if_splits)
qed (simp add: takes_ret)

lemma takes_resPQ:
  assumes "sv_ok env sv" "length (ax_nonce ctx) = 16"
  shows "takes_st (read_resPQ (ae_fingerprint env)) (enc_resPQ (ax_nonce ctx) sv) ctx ()
    (ctx\<lparr>ax_server_nonce := sv_nonce sv, ax_pq := sv_pq sv\<rparr>)"
proof -
  let ?n = "word_of_nat (length (sv_fps sv)) :: u32"
  have n: "unat ?n = length (sv_fps sv)" using assms(1) by (simp add: sv_ok_def unat_of_nat)
  have le: "\<not> ?n > 64" using assms(1) n by (simp add: sv_ok_def word_less_nat_alt)
  have fp: "takes (find_fp (ae_fingerprint env) (unat ?n) False) (concat (map (le_bytes 8) (sv_fps sv))) True"
    using takes_find_fp[of "ae_fingerprint env" "sv_fps sv" False] assms(1) by (simp add: n sv_ok_def)
  have "takes_st (read_resPQ (ae_fingerprint env)) (le_bytes 4 CRC_resPQ @ ax_nonce ctx @ sv_nonce sv @
      enc_bytes (uint64_to_be (sv_pq sv)) @ le_bytes 4 TL_VECTOR_CTOR @ le_bytes 4 ?n @
      concat (map (le_bytes 8) (sv_fps sv)) @ []) ctx ()
    (ctx\<lparr>ax_server_nonce := sv_nonce sv, ax_pq := sv_pq sv\<rparr>)"
    unfolding read_resPQ_def
    by (intro takes_st_rules fp[THEN takes_st_read])
      (use assms le length_to_be(1)[of "sv_pq sv"] in \<open>simp_all add: sv_ok_def be_to_uint64_to_be takes_st_fields\<close>)
  then show ?thesis by (simp add: enc_resPQ_def enc_vector_def)
qed

lemma takes_DH_params:
  assumes "length (ax_nonce ctx) = 16" "length (ax_server_nonce ctx) = 16" "length enc < 2 ^ 24" "enc \<noteq> []"
  shows "takes_st read_server_DH_params (le_bytes 4 CRC_server_DH_params_ok @ ax_nonce ctx @
    ax_server_nonce ctx @ enc_bytes enc) ctx enc ctx"
proof -
  have "takes_st read_server_DH_params (le_bytes 4 CRC_server_DH_params_ok @ ax_nonce ctx @
      ax_server_nonce ctx @ enc_bytes enc @ []) ctx enc ctx"
    unfolding read_server_DH_params_def
    by (intro takes_st_rules)
      (use assms in \<open>simp_all add: takes_st_fields\<close>)
  then show ?thesis by simp
qed

lemma takes_DH_inner:
  assumes "sv_ok env sv" "length (ax_nonce ctx) = 16" "ax_server_nonce ctx = sv_nonce sv"
  shows "takes_st read_server_DH_inner (enc_DH_inner (ax_nonce ctx) sv) ctx ()
    (ctx\<lparr>ax_g := uint (sv_g sv), ax_dh_prime := sv_prime sv, ax_g_a := sv_g_a sv,
       ax_server_time := sint (sv_time sv)\<rparr>)"
proof -
  have len: "length (sv_g_a sv) = length (sv_prime sv)"
    using length_mod_exp(2)[of "sv_prime sv"] assms(1) by (simp add: sv_g_a_def sv_ok_def)
  have u: "uint (sv_g sv) \<le> 7" "2 \<le> uint (sv_g sv)" using assms(1) by (simp_all add: sv_ok_def word_le_def)
  have g: "sint (sv_g sv) = uint (sv_g sv)"
    unfolding sint_uint by (rule signed_take_bit_int_eq_self) (use u in simp_all)
  have "takes_st read_server_DH_inner (le_bytes 4 CRC_server_DH_inner_data @ ax_nonce ctx @ sv_nonce sv @
      le_bytes 4 (sv_g sv) @ enc_bytes (sv_prime sv) @ enc_bytes (sv_g_a sv) @ le_bytes 4 (sv_time sv) @ []) ctx ()
    (ctx\<lparr>ax_g := sint (sv_g sv), ax_dh_prime := sv_prime sv, ax_g_a := sv_g_a sv,
       ax_server_time := sint (sv_time sv)\<rparr>)"
    unfolding read_server_DH_inner_def
    by (intro takes_st_rules)
      (use assms len g u in
        \<open>simp_all add: sv_ok_def takes_st_def upd_def\<close>)
  then show ?thesis by (simp add: enc_DH_inner_def g)
qed

lemma takes_dh_gen:
  assumes "length (ax_nonce ctx) = 16" "length sn = 16" "length h = 16"
  shows "takes_st read_dh_gen (le_bytes 4 CRC_dh_gen_ok @ ax_nonce ctx @ sn @ h) ctx h ctx"
  unfolding read_dh_gen_def
  by (intro takes_st_rules takes_st_on_fst takes_nonce) (use assms in simp_all)

section \<open>The steps against such a server\<close>

text \<open>
  \<open>moved w b w'\<close>: the connection stays steady and at most \<open>b\<close> of its moves are used.
\<close>

definition moved :: "net \<Rightarrow> nat \<Rightarrow> net \<Rightarrow> bool" where
  "moved w b w' = (steady 4 (script w') \<and> moves (script w) \<le> moves (script w') + b)"

lemma moved_trans: "moved w b w' \<Longrightarrow> moved w' c w'' \<Longrightarrow> moved w (b + c) w''"
  by (auto simp: moved_def)

lemma dvd4_enc: "4 dvd length (enc_bytes d)"
  using length_enc_bytes_mod4[of d] by (simp add: dvd_eq_mod_eq_0)

lemma length_nonce_hash: "\<forall>x. length (sha x) = 20 \<Longrightarrow> length (new_nonce_hash1 sha n k) = 16"
  by (simp add: new_nonce_hash1_def)

lemma length_sv_g_a: "sv_ok env sv \<Longrightarrow> length (sv_g_a sv) = length (sv_prime sv)"
  using length_mod_exp(2)[of "sv_prime sv"] by (simp add: sv_g_a_def sv_ok_def)

lemma length_fps: "length (concat (map (le_bytes 8) (fps :: u64 list))) = 8 * length fps"
  by (induction fps) simp_all

lemma answer_resPQ:
  assumes "sv_ok env sv" "length nonce = 16"
  shows "length (enc_resPQ nonce sv) mod 4 = 0" "length (enc_resPQ nonce sv) \<le> 600"
proof -
  have len: "length (enc_resPQ nonce sv) = 44 + length (enc_bytes (uint64_to_be (sv_pq sv))) + 8 * length (sv_fps sv)"
    using assms by (simp add: enc_resPQ_def enc_vector_def length_fps sv_ok_def)
  have "4 dvd length (enc_resPQ nonce sv)" unfolding len by (intro dvd_add dvd4_enc) auto
  then show "length (enc_resPQ nonce sv) mod 4 = 0" by (simp add: dvd_eq_mod_eq_0)
  show "length (enc_resPQ nonce sv) \<le> 600"
    using len length_enc_bytes_le[of "uint64_to_be (sv_pq sv)"] length_to_be(1)[of "sv_pq sv"] assms(1)
    by (simp add: sv_ok_def)
qed

text \<open>The encrypted answer opens to the inner data.\<close>

lemma temp_key_lengths:
  assumes "env_ok env" "length n = 32" "length m = 16" "dh_derive_temp_aes (sha1 (ae_lib env)) n m = (key, iv)"
  shows "length key = 32" "length iv = 32"
  using assms by (auto simp: dh_derive_temp_aes_def Let_def env_ok_def)

lemma answer_opens:
  assumes "sv_ok env sv" "env_ok env" "length iv = 32"
    and enc: "enc = aes_ige_encrypt (aes_enc (ae_lib env)) (sv_plain (ae_lib env) (ae_nonce env) sv) key iv []"
  shows "aes_ige_decrypt (aes_dec (ae_lib env)) enc key iv out = sv_plain (ae_lib env) (ae_nonce env) sv"
    and "24 \<le> length enc" "length enc \<le> 610"
    and "drop 20 (sv_plain (ae_lib env) (ae_nonce env) sv) = enc_DH_inner (ae_nonce env) sv @ sv_pad sv"
    and "length (sv_plain (ae_lib env) (ae_nonce env) sv) \<le> 610"
proof -
  let ?p = "sv_plain (ae_lib env) (ae_nonce env) sv"
  have inv: "block_inverse (aes_enc (ae_lib env) key) (aes_dec (ae_lib env) key)"
    and sha: "length (sha1 (ae_lib env) x) = 20" for x using assms(2) by (simp_all add: env_ok_def)
  have al: "length ?p mod 16 = 0" using assms(1) by (simp add: sv_ok_def)
  have n: "length (ae_nonce env) = 16" using assms(2) by (simp add: env_ok_def)
  have lo: "24 \<le> length ?p" by (simp add: sv_plain_def enc_DH_inner_def sha)
  show hi: "length ?p \<le> 610"
    using assms(1) n length_enc_bytes_le[of "sv_prime sv"] length_enc_bytes_le[of "sv_g_a sv"]
      length_sv_g_a[OF assms(1)]
    by (simp add: sv_plain_def enc_DH_inner_def sha sv_ok_def)
  have ne: "?p \<noteq> []" using lo by auto
  show "aes_ige_decrypt (aes_dec (ae_lib env)) enc key iv out = ?p"
    unfolding enc by (rule aes_ige_decrypt_encrypt[where E = "aes_enc (ae_lib env)" and D = "aes_dec (ae_lib env)", OF inv assms(3) al ne])
  have "length enc = length ?p" unfolding enc
    by (rule length_aes_ige_encrypt[where E = "aes_enc (ae_lib env)" and D = "aes_dec (ae_lib env)", OF inv assms(3) al ne])
  with lo hi show "24 \<le> length enc" "length enc \<le> 610" by simp_all
  show "drop 20 ?p = enc_DH_inner (ae_nonce env) sv @ sv_pad sv" by (simp add: sv_plain_def sha)
qed

text \<open>A request and an answer over a steady connection.\<close>

lemma send_step:
  assumes "transport_fd t \<ge> 0" "4 dvd length body" "length body \<le> 400"
    and "steady 4 (script w)" "500 \<le> moves (script w)"
  obtains mid w' where "on_snd (rpc_send_unencrypted d t body) (ctx, s, w) = (Ok (), (ctx, s\<lparr>last_msg_id := mid\<rparr>, w'))"
    "sent w' = sent w @ frame (plain_packet mid body)" "incoming w' = incoming w" "moved w 421 w'"
proof -
  have b: "length body mod 4 = 0" "length body < 2 ^ 20" "length body + 20 < moves (script w)"
    using assms(2,3,5) by (simp_all add: dvd_eq_mod_eq_0)
  obtain mid w' where "rpc_send_unencrypted d t body (s, w) = (Ok (), (s\<lparr>last_msg_id := mid\<rparr>, w'))"
    "sent w' = sent w @ frame (plain_packet mid body)" "incoming w' = incoming w"
    "steady 4 (script w')" "moves (script w) \<le> moves (script w') + length body + 21"
    by (rule send_plain_steady[OF assms(1) b(1,2) assms(4) b(3)])
  then show ?thesis using that[of mid w'] assms(3) by (simp add: on_snd_def moved_def)
qed

lemma recv_step:
  assumes "transport_fd t \<ge> 0" "4 dvd length body" "length body \<le> 700"
    and "steady 4 (script w)" "800 \<le> moves (script w)" "incoming w = frame (plain_packet mid body) @ rest"
  obtains w' where "recv_answer t (ctx, s, w) = (Ok body, (ctx, s, w'))"
    "sent w' = sent w" "incoming w' = rest" "moved w 722 w'"
proof -
  have b: "length body mod 4 = 0" "length body \<le> 4096" "(4096 :: nat) \<le> 2 ^ 16" "length body + 21 < moves (script w)"
    using assms(2,3,5) by (simp_all add: dvd_eq_mod_eq_0)
  obtain w' where "rpc_recv_unencrypted t 4096 w = (Ok body, w')" "incoming w' = rest" "sent w' = sent w"
    "steady 4 (script w')" "moves (script w) \<le> moves (script w') + length body + 22"
    by (rule recv_plain_steady[OF assms(1) b(1-3) assms(4) b(4) assms(6)])
  then show ?thesis using that[of w'] assms(3) by (simp add: recv_answer_def on_snd_def moved_def)
qed

lemma client_messages_aligned:
  assumes "ctx_ok ctx" "length n = 16"
  shows "4 dvd length (req_pq_multi n)" "4 dvd length (req_DH_params ctx fp enc)"
    "4 dvd length (set_client_DH_params ctx enc)"
  using assms by (simp_all add: client_messages ctx_ok_def dvd4_enc dvd_add)

lemma step_req_pq:
  assumes "env_ok env" "sv_ok env sv" "transport_fd t \<ge> 0" "steady 4 (script w)" "1300 \<le> moves (script w)"
    and "incoming w = frame (plain_packet mid (enc_resPQ (ae_nonce env) sv)) @ rest"
  obtains m w' where "auth_step_req_pq env t (ctx, s, w) =
      (Ok (), (ctx\<lparr>ax_nonce := ae_nonce env, ax_server_nonce := sv_nonce sv, ax_pq := sv_pq sv\<rparr>,
        s\<lparr>last_msg_id := m\<rparr>, w'))"
    "sent w' = sent w @ frame (plain_packet m (req_pq_multi (ae_nonce env)))" "incoming w' = rest"
    "moved w 1143 w'"
proof -
  let ?c = "ctx\<lparr>ax_nonce := ae_nonce env\<rparr>"
  have n: "length (ae_nonce env) = 16" using assms(1) by (simp add: env_ok_def)
  have q: "4 dvd length (req_pq_multi (ae_nonce env))" "length (req_pq_multi (ae_nonce env)) \<le> 400"
    "500 \<le> moves (script w)" using n assms(5) by (simp_all add: client_messages)
  obtain m w1 where 1: "on_snd (rpc_send_unencrypted (ae_send env 1) t (req_pq_multi (ae_nonce env))) (?c, s, w) =
      (Ok (), (?c, s\<lparr>last_msg_id := m\<rparr>, w1))"
    "sent w1 = sent w @ frame (plain_packet m (req_pq_multi (ae_nonce env)))" "incoming w1 = incoming w" "moved w 421 w1"
    by (rule send_step[OF assms(3) q(1,2) assms(4) q(3)])
  note a = answer_resPQ[OF assms(2) n]
  have b: "4 dvd length (enc_resPQ (ae_nonce env) sv)" "length (enc_resPQ (ae_nonce env) sv) \<le> 700"
    "steady 4 (script w1)" "800 \<le> moves (script w1)"
    "incoming w1 = frame (plain_packet mid (enc_resPQ (ae_nonce env) sv)) @ rest"
    using a 1(3,4) assms(5,6) by (simp_all add: dvd_eq_mod_eq_0 moved_def)
  obtain w2 where 2: "recv_answer t (?c, s\<lparr>last_msg_id := m\<rparr>, w1) =
      (Ok (enc_resPQ (ae_nonce env) sv), (?c, s\<lparr>last_msg_id := m\<rparr>, w2))"
    "sent w2 = sent w1" "incoming w2 = rest" "moved w1 722 w2"
    by (rule recv_step[OF assms(3) b])
  have "run_reader (enc_resPQ (ae_nonce env) sv) (read_resPQ (ae_fingerprint env)) ?c =
      (Ok (), ?c\<lparr>ax_server_nonce := sv_nonce sv, ax_pq := sv_pq sv\<rparr>)"
    using run_reader_takes[OF takes_resPQ[OF assms(2), of ?c], of "[]"] n a(2) by simp
  then have "auth_step_req_pq env t (ctx, s, w) =
      (Ok (), (?c\<lparr>ax_server_nonce := sv_nonce sv, ax_pq := sv_pq sv\<rparr>, s\<lparr>last_msg_id := m\<rparr>, w2))"
    using 1(1) 2(1) by (simp add: auth_step_req_pq_def bind_def on_fst_def)
  then show ?thesis using that[of m w2] 1 2 moved_trans[OF 1(4) 2(4)] by simp
qed

lemma step_req_dh:
  assumes "env_ok env" "ctx_ok ctx" "transport_fd t \<ge> 0" "steady 4 (script w)" "500 \<le> moves (script w)"
    and "pq_factorize (ax_pq ctx) = Some (p, q)" "ae_rsa env = Some rsa" "\<forall>x. rsa x \<noteq> None"
    and c: "c = ctx\<lparr>ax_p := p, ax_q := q, ax_new_nonce := ae_new_nonce env\<rparr>"
  obtains m w' enc where "auth_step_req_dh env t (ctx, s, w) = (Ok (), (c, s\<lparr>last_msg_id := m\<rparr>, w'))"
    "rsa (0 # sha1 (ae_lib env) (p_q_inner_data c) @ p_q_inner_data c @
       ae_rsa_pad env (235 - length (p_q_inner_data c))) = Some enc"
    "sent w' = sent w @ frame (plain_packet m (req_DH_params c (ae_fingerprint env) enc))"
    "incoming w' = incoming w" "moved w 421 w'"
proof -
  have ok: "ctx_ok c" using assms(1,2) by (simp add: c ctx_ok_def env_ok_def)
  obtain enc where enc: "rsa (0 # sha1 (ae_lib env) (p_q_inner_data c) @ p_q_inner_data c @
       ae_rsa_pad env (235 - length (p_q_inner_data c))) = Some enc" using assms(8) by blast
  then have len: "length enc = 256" using assms(1,7) by (auto simp: env_ok_def)
  have r: "rsa_sha1_encrypt env rsa (p_q_inner_data c) = Ok enc"
    using client_message_bounds(2)[of c] enc len by (simp add: rsa_sha1_encrypt_def)
  have q: "4 dvd length (req_DH_params c (ae_fingerprint env) enc)"
    "length (req_DH_params c (ae_fingerprint env) enc) \<le> 400"
    using client_messages_aligned(2)[OF ok, of "ae_nonce env"] client_message_bounds(3)[of c "ae_fingerprint env" enc]
      assms(1) len by (simp_all add: env_ok_def)
  obtain m w' where "on_snd (rpc_send_unencrypted (ae_send env 2) t (req_DH_params c (ae_fingerprint env) enc)) (c, s, w) =
      (Ok (), (c, s\<lparr>last_msg_id := m\<rparr>, w'))"
    "sent w' = sent w @ frame (plain_packet m (req_DH_params c (ae_fingerprint env) enc))"
    "incoming w' = incoming w" "moved w 421 w'"
    by (rule send_step[OF assms(3) q assms(4,5)])
  moreover from this(1) have "auth_step_req_dh env t (ctx, s, w) = (Ok (), (c, s\<lparr>last_msg_id := m\<rparr>, w'))"
    by (simp add: auth_step_req_dh_def assms(6,7) c[symmetric] r)
  ultimately show ?thesis using that[of m w' enc] enc by simp
qed

lemma step_parse_dh:
  assumes "env_ok env" "sv_ok env sv" "transport_fd t \<ge> 0" "steady 4 (script w)" "800 \<le> moves (script w)"
    and "ax_nonce ctx = ae_nonce env" "ax_server_nonce ctx = sv_nonce sv" "ax_new_nonce ctx = ae_new_nonce env"
    and k: "dh_derive_temp_aes (sha1 (ae_lib env)) (ae_new_nonce env) (sv_nonce sv) = (key, iv)"
    and "incoming w = frame (plain_packet mid (enc_DH_params (ae_lib env) (ae_nonce env) (ae_new_nonce env) sv)) @ rest"
  obtains w' where "auth_step_parse_dh env t (ctx, s, w) =
      (Ok (), (ctx\<lparr>ax_tmp_aes_key := key, ax_tmp_aes_iv := iv, ax_g := uint (sv_g sv),
         ax_dh_prime := sv_prime sv, ax_g_a := sv_g_a sv, ax_server_time := sint (sv_time sv)\<rparr>, s, w'))"
    "sent w' = sent w" "incoming w' = rest" "moved w 722 w'"
proof -
  let ?lib = "ae_lib env" and ?n = "ae_nonce env"
  have n: "length ?n = 16" "length (ae_new_nonce env) = 32" using assms(1) by (simp_all add: env_ok_def)
  have sn: "length (sv_nonce sv) = 16" using assms(2) by (simp add: sv_ok_def)
  define enc where "enc = aes_ige_encrypt (aes_enc ?lib) (sv_plain ?lib ?n sv) key iv []"
  note iv = temp_key_lengths(2)[OF assms(1) n(2) sn k]
  note o = answer_opens[OF assms(2,1) iv enc_def]
  have body: "enc_DH_params ?lib ?n (ae_new_nonce env) sv =
      le_bytes 4 CRC_server_DH_params_ok @ ?n @ sv_nonce sv @ enc_bytes enc"
    by (simp add: enc_DH_params_def k enc_def)
  have b: "4 dvd length (enc_DH_params ?lib ?n (ae_new_nonce env) sv)"
    "length (enc_DH_params ?lib ?n (ae_new_nonce env) sv) \<le> 700"
    using o(3) length_enc_bytes_le[of enc] by (simp_all add: body n sn dvd4_enc dvd_add)
  obtain w' where r: "recv_answer t (ctx, s, w) =
      (Ok (enc_DH_params ?lib ?n (ae_new_nonce env) sv), (ctx, s, w'))"
    "sent w' = sent w" "incoming w' = rest" "moved w 722 w'"
    by (rule recv_step[OF assms(3) b assms(4,5,10)])
  have "enc \<noteq> []" using o(2) by auto
  then have 1: "run_reader (enc_DH_params ?lib ?n (ae_new_nonce env) sv) read_server_DH_params ctx = (Ok enc, ctx)"
    using run_reader_takes[OF takes_DH_params[of ctx enc], of "[]"] b(2) o(3) assms(6,7) n sn
    by (simp add: body)
  let ?c = "ctx\<lparr>ax_tmp_aes_key := key, ax_tmp_aes_iv := iv\<rparr>"
  have small: "length (enc_DH_inner ?n sv) + length (sv_pad sv) < 2 ^ 62"
    using o(5) arg_cong[OF o(4), of length] by simp
  have 2: "decrypt_answer env enc ctx = (Ok (), ?c\<lparr>ax_g := uint (sv_g sv), ax_dh_prime := sv_prime sv,
      ax_g_a := sv_g_a sv, ax_server_time := sint (sv_time sv)\<rparr>)"
    using run_reader_takes[OF takes_DH_inner[OF assms(2), of ?c], of "sv_pad sv"] assms(6-8) n sn o small
    by (simp add: decrypt_answer_def k)
  show ?thesis using that[of w'] r 1 2 by (simp add: auth_step_parse_dh_def bind_def on_fst_def)
qed

text \<open>Both sides raise the same number to the same power.\<close>

lemma be_nat_g:
  assumes "2 \<le> g" "g \<le> 7"
  shows "be_nat (uint32_to_be (word_of_int (uint g))) = unat (g :: u32)"
proof -
  have "2 \<le> unat g" "unat g \<le> 7" using assms by (simp_all add: word_le_nat_alt)
  then have "unat g \<in> {2, 3, 4, 5, 6, 7}" by auto
  then have "g \<in> {2, 3, 4, 5, 6, 7}" by (auto simp: word_unat_eq_iff)
  moreover have "strip_zeros 3 tmp = strip_zeros (Suc (Suc (Suc 0))) tmp" for tmp
    by (simp only: numeral_3_eq_3)
  ultimately show ?thesis by (auto simp: uint32_to_be_def be_nat_def)
qed

definition client_g_b :: "auth_env \<Rightarrow> dh_server \<Rightarrow> byte list" where
  "client_g_b env sv = be_pad (length (sv_prime sv)) (unat (sv_g sv) ^ be_nat (ae_b env) mod be_nat (sv_prime sv))"

lemma keys_agree:
  "be_nat (sv_g_a sv) ^ be_nat (ae_b env) mod be_nat (sv_prime sv) =
   be_nat (client_g_b env sv) ^ sv_a sv mod be_nat (sv_prime sv)"
  by (simp add: sv_g_a_def client_g_b_def power_mod power_mult[symmetric] mult.commute)

text \<open>The third message: the client's \<open>g_b\<close>, hashed, padded and encrypted with the temporary key.\<close>

definition client_answer :: "auth_env \<Rightarrow> dh_server \<Rightarrow> byte list \<Rightarrow> byte list" where
  "client_answer env sv enc = le_bytes 4 CRC_set_client_DH_params @ ae_nonce env @ sv_nonce sv @ enc_bytes enc"

definition client_inner :: "auth_env \<Rightarrow> dh_server \<Rightarrow> byte list" where
  "client_inner env sv = le_bytes 4 CRC_client_DH_inner_data @ ae_nonce env @ sv_nonce sv @
     le_bytes 8 (0 :: u64) @ enc_bytes (client_g_b env sv)"

lemma accept_agreed:
  assumes "sv_ok env sv" "ax_g_a ctx = sv_g_a sv" "ax_dh_prime ctx = sv_prime sv" "ax_new_nonce ctx = ae_new_nonce env"
    and "ak = be_pad (length (sv_prime sv)) (be_nat (sv_g_a sv) ^ be_nat (ae_b env) mod be_nat (sv_prime sv))"
    and "h = new_nonce_hash1 (sha1 (ae_lib env)) (ae_new_nonce env) (sv_key sv (client_g_b env sv))"
  shows "accept_key env h ak (ctx, s, w) = (Ok (), (ctx, s\<lparr>auth_key := sv_key sv (client_g_b env sv),
    has_auth_key := True, server_salt := first_salt ctx\<rparr>, w))"
proof -
  have p: "length (sv_prime sv) \<le> 256" "be_nat (sv_prime sv) \<noteq> 0" using assms(1) by (simp_all add: sv_ok_def)
  note len = length_mod_exp[OF p(2), of "be_nat (sv_g_a sv) ^ be_nat (ae_b env)"]
  have pad: "replicate (256 - length ak) 0 @ ak = sv_key sv (client_g_b env sv)"
    using be_pad_widen[OF len(1) p(1)] len(2) by (simp add: assms(5) sv_key_def keys_agree)
  moreover have "length (sv_key sv (client_g_b env sv)) = 256"
    using len(2) p(1) by (simp add: pad[symmetric] assms(5))
  ultimately show ?thesis
    by (simp add: accept_key_def assms(4,6) mtproto_session_set_salt_def mtproto_session_set_auth_key_def)
qed

lemma step_set_client_dh:
  assumes "env_ok env" "sv_ok env sv" "transport_fd t \<ge> 0" "steady 4 (script w)" "1300 \<le> moves (script w)"
    and "ctx_ok ctx" "ax_nonce ctx = ae_nonce env" "ax_server_nonce ctx = sv_nonce sv" "ax_new_nonce ctx = ae_new_nonce env"
    and "ax_g ctx = uint (sv_g sv)" "ax_dh_prime ctx = sv_prime sv" "ax_g_a ctx = sv_g_a sv"
    and "incoming w = frame (plain_packet mid (enc_dh_gen_ok (ae_lib env) (ae_nonce env) (ae_new_nonce env) sv
      (client_g_b env sv))) @ rest"
  obtains m enc c w' where "auth_step_set_client_dh env t (ctx, s, w) =
      (Ok (), (c, s\<lparr>last_msg_id := m, auth_key := sv_key sv (client_g_b env sv), has_auth_key := True,
        server_salt := first_salt ctx\<rparr>, w'))"
    "aes_ige_decrypt (aes_dec (ae_lib env)) enc (ax_tmp_aes_key ctx) (ax_tmp_aes_iv ctx) [] =
       hash_and_pad env (client_inner env sv)"
    "sent w' = sent w @ frame (plain_packet m (client_answer env sv enc))" "incoming w' = rest" "moved w 1143 w'"
proof -
  define c where "c = ctx\<lparr>ax_b := ae_b env\<rparr>"
  have ok: "ctx_ok c" using assms(1,6) by (simp add: c_def ctx_ok_def env_ok_def)
  have p: "length (sv_prime sv) \<le> 256" "be_nat (sv_prime sv) \<noteq> 0" "2 \<le> sv_g sv" "sv_g sv \<le> 7"
    "length (sv_nonce sv) = 16" using assms(2) by (simp_all add: sv_ok_def)
  have n: "length (ae_nonce env) = 16" and sha: "\<forall>x. length (sha1 (ae_lib env) x) = 20"
    and inv: "block_inverse (aes_enc (ae_lib env) k) (aes_dec (ae_lib env) k)" for k
    using assms(1) by (simp_all add: env_ok_def)
  let ?gb = "client_g_b env sv"
  have gb: "crypto_bn_mod_exp (ae_bn env) 256 (uint32_to_be (word_of_int (ax_g c))) (ax_b c) (ax_dh_prime c) = Ok ?gb"
    using mod_exp_ok[OF assms(1) ok] p be_nat_g[OF p(3,4)] by (simp add: c_def assms(10,11) client_g_b_def)
  have lgb: "length ?gb = length (sv_prime sv)" using length_mod_exp(2)[OF p(2)] by (simp add: client_g_b_def)
  have inner: "client_DH_inner_data c ?gb = client_inner env sv"
    by (simp add: client_messages client_inner_def c_def assms(7,8) n p(5))
  define enc where "enc = aes_ige_encrypt (aes_enc (ae_lib env)) (hash_and_pad env (client_inner env sv))
    (ax_tmp_aes_key c) (ax_tmp_aes_iv c) (ae_heap env (length (hash_and_pad env (client_inner env sv))))"
  note hp = length_hash_and_pad[OF assms(1), of "client_inner env sv"]
  have iv: "length (ax_tmp_aes_iv c) = 32" using ok by (simp add: ctx_ok_def)
  have dec: "aes_ige_decrypt (aes_dec (ae_lib env)) enc (ax_tmp_aes_key c) (ax_tmp_aes_iv c) [] =
      hash_and_pad env (client_inner env sv)"
    unfolding enc_def by (rule aes_ige_decrypt_encrypt[where E = "aes_enc (ae_lib env)" and D = "aes_dec (ae_lib env)",
        OF inv iv hp(1,3)])
  have lenc: "length enc \<le> 345"
    using length_answer_cipher[OF assms(1) iv] hp(2) client_message_bounds(4)[of c ?gb] lgb p(1)
    by (simp add: enc_def inner)
  have msg: "set_client_DH_params c enc = client_answer env sv enc"
    by (simp add: client_messages client_answer_def c_def assms(7,8) n p(5))
  have q: "4 dvd length (client_answer env sv enc)" "length (client_answer env sv enc) \<le> 400" "500 \<le> moves (script w)"
    using length_enc_bytes_le[of enc] lenc assms(5) by (simp_all add: client_answer_def n p(5) dvd4_enc dvd_add)
  obtain m w1 where 1: "on_snd (rpc_send_unencrypted (ae_send env 3) t (client_answer env sv enc)) (c, s, w) =
      (Ok (), (c, s\<lparr>last_msg_id := m\<rparr>, w1))"
    "sent w1 = sent w @ frame (plain_packet m (client_answer env sv enc))" "incoming w1 = incoming w" "moved w 421 w1"
    by (rule send_step[OF assms(3) q(1,2) assms(4) q(3)])
  let ?a = "enc_dh_gen_ok (ae_lib env) (ae_nonce env) (ae_new_nonce env) sv ?gb"
  let ?h = "new_nonce_hash1 (sha1 (ae_lib env)) (ae_new_nonce env) (sv_key sv ?gb)"
  have la: "length ?a = 52" using length_nonce_hash[OF sha] by (simp add: enc_dh_gen_ok_def n p(5))
  have b: "4 dvd length ?a" "length ?a \<le> 700" "steady 4 (script w1)" "800 \<le> moves (script w1)"
    "incoming w1 = frame (plain_packet mid ?a) @ rest"
    using la 1(3,4) assms(5,13) by (simp_all add: moved_def)
  obtain w2 where 2: "recv_answer t (c, s\<lparr>last_msg_id := m\<rparr>, w1) = (Ok ?a, (c, s\<lparr>last_msg_id := m\<rparr>, w2))"
    "sent w2 = sent w1" "incoming w2 = rest" "moved w1 722 w2"
    by (rule recv_step[OF assms(3) b])
  have 3: "run_reader ?a read_dh_gen c = (Ok ?h, c)"
    using run_reader_takes[OF takes_dh_gen[of c "sv_nonce sv" ?h], of "[]"] la length_nonce_hash[OF sha] n p(5)
    by (simp add: c_def assms(7) enc_dh_gen_ok_def)
  define ak where "ak = be_pad (length (sv_prime sv)) (be_nat (sv_g_a sv) ^ be_nat (ae_b env) mod be_nat (sv_prime sv))"
  have 4: "crypto_bn_mod_exp (ae_bn env) 256 (ax_g_a c) (ax_b c) (ax_dh_prime c) = Ok ak"
    using mod_exp_ok[OF assms(1) ok] p(2) by (simp add: c_def assms(11,12) ak_def)
  have 5: "accept_key env ?h ak (c, s\<lparr>last_msg_id := m\<rparr>, w2) = (Ok (), (c, s\<lparr>last_msg_id := m,
      auth_key := sv_key sv ?gb, has_auth_key := True, server_salt := first_salt c\<rparr>, w2))"
    using accept_agreed[OF assms(2) _ _ _ ak_def refl, of c "s\<lparr>last_msg_id := m\<rparr>" w2]
    by (simp add: c_def assms(9,11,12))
  have salt: "first_salt c = first_salt ctx" by (simp add: first_salt_def c_def)
  have "auth_step_set_client_dh env t (ctx, s, w) = (Ok (), (c, s\<lparr>last_msg_id := m,
      auth_key := sv_key sv ?gb, has_auth_key := True, server_salt := first_salt c\<rparr>, w2))"
    using 1(1) 2(1) 3 5
    by (simp add: auth_step_set_client_dh_def c_def[symmetric] gb inner enc_def[symmetric] msg 4 Let_def
        bind_def on_fst_def ret_def)
  moreover have "sent w2 = sent w @ frame (plain_packet m (client_answer env sv enc))" "moved w 1143 w2"
    using 1(2) 2(2) moved_trans[OF 1(4) 2(4)] by simp_all
  moreover have "ax_tmp_aes_key c = ax_tmp_aes_key ctx" "ax_tmp_aes_iv c = ax_tmp_aes_iv ctx"
    by (simp_all add: c_def)
  ultimately show ?thesis using that[of c m w2 enc] dec 2(3) by (simp only: salt)
qed

text \<open>The first three steps: the client has the group and the server's share.\<close>

definition agreed_ctx :: "auth_env \<Rightarrow> dh_server \<Rightarrow> auth_key_ctx \<Rightarrow> bool" where
  "agreed_ctx env sv ctx = (ctx_ok ctx \<and> ax_nonce ctx = ae_nonce env \<and> ax_server_nonce ctx = sv_nonce sv \<and>
     ax_new_nonce ctx = ae_new_nonce env \<and> ax_g ctx = uint (sv_g sv) \<and> ax_dh_prime ctx = sv_prime sv \<and>
     ax_g_a ctx = sv_g_a sv \<and> (ax_tmp_aes_key ctx, ax_tmp_aes_iv ctx) =
       dh_derive_temp_aes (sha1 (ae_lib env)) (ae_new_nonce env) (sv_nonce sv))"

lemma three_steps:
  assumes "env_ok env" "sv_ok env sv" "transport_fd t \<ge> 0" "steady 4 (script w)" "3600 \<le> moves (script w)"
    and "pq_factorize (sv_pq sv) = Some (p, q)" "ae_rsa env = Some rsa" "\<forall>x. rsa x \<noteq> None"
    and "incoming w = frame (plain_packet (sv_mid sv 1) (enc_resPQ (ae_nonce env) sv)) @
      frame (plain_packet (sv_mid sv 2) (enc_DH_params (ae_lib env) (ae_nonce env) (ae_new_nonce env) sv)) @ rest"
  obtains c m1 m2 msg2 w' where
    "bind (auth_step_req_pq env t) (\<lambda>_. bind (auth_step_req_dh env t) (\<lambda>_.
       bind (auth_step_parse_dh env t) (\<lambda>_. last_step))) (ctx_init t, s, w) = last_step (c, s\<lparr>last_msg_id := m2\<rparr>, w')"
    "agreed_ctx env sv c" "steady 4 (script w')" "1300 \<le> moves (script w')" "incoming w' = rest"
    "sent w' = sent w @ frame (plain_packet m1 (req_pq_multi (ae_nonce env))) @ frame (plain_packet m2 msg2)"
proof -
  have n: "length (ae_nonce env) = 16" "length (ae_new_nonce env) = 32" "length (sv_nonce sv) = 16"
    using assms(1,2) by (simp_all add: env_ok_def sv_ok_def)
  obtain key iv where k: "dh_derive_temp_aes (sha1 (ae_lib env)) (ae_new_nonce env) (sv_nonce sv) = (key, iv)"
    by fastforce
  define c1 where "c1 = (ctx_init t)\<lparr>ax_nonce := ae_nonce env, ax_server_nonce := sv_nonce sv, ax_pq := sv_pq sv\<rparr>"
  define c2 where "c2 = c1\<lparr>ax_p := p, ax_q := q, ax_new_nonce := ae_new_nonce env\<rparr>"
  define c3 where "c3 = c2\<lparr>ax_tmp_aes_key := key, ax_tmp_aes_iv := iv, ax_g := uint (sv_g sv),
     ax_dh_prime := sv_prime sv, ax_g_a := sv_g_a sv, ax_server_time := sint (sv_time sv)\<rparr>"
  have big: "1300 \<le> moves (script w)" using assms(5) by simp
  obtain m1 w1 where 1: "auth_step_req_pq env t (ctx_init t, s, w) = (Ok (), (c1, s\<lparr>last_msg_id := m1\<rparr>, w1))"
    "sent w1 = sent w @ frame (plain_packet m1 (req_pq_multi (ae_nonce env)))"
    "incoming w1 = frame (plain_packet (sv_mid sv 2) (enc_DH_params (ae_lib env) (ae_nonce env) (ae_new_nonce env) sv)) @ rest"
    "moved w 1143 w1"
    by (rule step_req_pq[OF assms(1-4) big assms(9), where ctx = "ctx_init t", folded c1_def])
  have b1: "ctx_ok c1" "steady 4 (script w1)" "500 \<le> moves (script w1)" "pq_factorize (ax_pq c1) = Some (p, q)"
    using n 1(4) assms(5,6) by (simp_all add: c1_def ctx_ok_def ctx_init_def moved_def)
  obtain m2 w2 e2 where 2: "auth_step_req_dh env t (c1, s\<lparr>last_msg_id := m1\<rparr>, w1) =
      (Ok (), (c2, s\<lparr>last_msg_id := m1, last_msg_id := m2\<rparr>, w2))"
    "sent w2 = sent w1 @ frame (plain_packet m2 (req_DH_params c2 (ae_fingerprint env) e2))"
    "incoming w2 = incoming w1" "moved w1 421 w2"
    by (rule step_req_dh[OF assms(1) b1(1) assms(3) b1(2-4) assms(7,8) c2_def])
  have b2: "ax_nonce c2 = ae_nonce env" "ax_server_nonce c2 = sv_nonce sv" "ax_new_nonce c2 = ae_new_nonce env"
    "steady 4 (script w2)" "800 \<le> moves (script w2)"
    using 1(4) 2(4) assms(5) by (simp_all add: c1_def c2_def moved_def)
  obtain w3 where 3: "auth_step_parse_dh env t (c2, s\<lparr>last_msg_id := m1, last_msg_id := m2\<rparr>, w2) =
      (Ok (), (c3, s\<lparr>last_msg_id := m1, last_msg_id := m2\<rparr>, w3))"
    "sent w3 = sent w2" "incoming w3 = rest" "moved w2 722 w3"
    by (rule step_parse_dh[OF assms(1-3) b2(4,5,1-3) k 2(3)[unfolded 1(3)], folded c3_def])
  have "agreed_ctx env sv c3"
    using b1(1) n temp_key_lengths[OF assms(1) n(2,3) k] length_sv_g_a[OF assms(2)] assms(2)
    by (simp add: agreed_ctx_def k c3_def c2_def c1_def ctx_ok_def sv_ok_def)
  moreover have "steady 4 (script w3)" "1300 \<le> moves (script w3)"
    using 1(4) 2(4) 3(4) assms(5) by (simp_all add: moved_def)
  moreover have "bind (auth_step_req_pq env t) (\<lambda>_. bind (auth_step_req_dh env t) (\<lambda>_.
       bind (auth_step_parse_dh env t) (\<lambda>_. last_step))) (ctx_init t, s, w) = last_step (c3, s\<lparr>last_msg_id := m2\<rparr>, w3)"
    using 1(1) 2(1) 3(1) by (simp add: bind_def)
  ultimately show ?thesis using that 1(2) 2(2) 3(2,3) by (simp add: append_assoc)
qed

text \<open>
  C3. Two parties that follow the protocol end with the same key: over a connection that keeps
  moving, against a server that answers with its group, its share and the proof of its key,
  the exchange succeeds, the session's key is the one the server computes from the client's
  share, the server can open the client's third message with the temporary key and finds that
  share in it, and every byte the server sent has been used.
\<close>

theorem auth_key_agreement:
  assumes "env_ok env" "sv_ok env sv" "transport_fd t \<ge> 0" "steady 4 (script w)" "3600 \<le> moves (script w)"
    and "pq_factorize (sv_pq sv) = Some (p, q)" "ae_rsa env = Some rsa" "\<forall>x. rsa x \<noteq> None"
    and k: "dh_derive_temp_aes (sha1 (ae_lib env)) (ae_new_nonce env) (sv_nonce sv) = (key, iv)"
    and "incoming w = frame (plain_packet (sv_mid sv 1) (enc_resPQ (ae_nonce env) sv)) @
      frame (plain_packet (sv_mid sv 2) (enc_DH_params (ae_lib env) (ae_nonce env) (ae_new_nonce env) sv)) @
      frame (plain_packet (sv_mid sv 3) (enc_dh_gen_ok (ae_lib env) (ae_nonce env) (ae_new_nonce env) sv
        (client_g_b env sv))) @ rest"
  shows "\<exists>s' w' m1 m2 m3 msg2 enc. mtproto_auth_key_gen env t (s, w) = (Ok (), (s', w')) \<and>
    auth_key s' = sv_key sv (client_g_b env sv) \<and> has_auth_key s' \<and>
    aes_ige_decrypt (aes_dec (ae_lib env)) enc key iv [] = hash_and_pad env (client_inner env sv) \<and>
    sent w' = sent w @ frame (plain_packet m1 (req_pq_multi (ae_nonce env))) @ frame (plain_packet m2 msg2) @
      frame (plain_packet m3 (client_answer env sv enc)) \<and> incoming w' = rest"
proof -
  let ?a3 = "frame (plain_packet (sv_mid sv 3) (enc_dh_gen_ok (ae_lib env) (ae_nonce env) (ae_new_nonce env) sv
    (client_g_b env sv)))"
  obtain c m1 m2 msg2 w1 where 1: "bind (auth_step_req_pq env t) (\<lambda>_. bind (auth_step_req_dh env t) (\<lambda>_.
       bind (auth_step_parse_dh env t) (\<lambda>_. auth_step_set_client_dh env t))) (ctx_init t, s, w) =
      auth_step_set_client_dh env t (c, s\<lparr>last_msg_id := m2\<rparr>, w1)"
    "agreed_ctx env sv c" "steady 4 (script w1)" "1300 \<le> moves (script w1)" "incoming w1 = ?a3 @ rest"
    "sent w1 = sent w @ frame (plain_packet m1 (req_pq_multi (ae_nonce env))) @ frame (plain_packet m2 msg2)"
    by (rule three_steps[OF assms(1-8,10), where last_step = "auth_step_set_client_dh env t"])
  note c = 1(2)[unfolded agreed_ctx_def k prod.inject]
  obtain m3 enc c' w2 where 2: "auth_step_set_client_dh env t (c, s\<lparr>last_msg_id := m2\<rparr>, w1) =
      (Ok (), (c', s\<lparr>last_msg_id := m2, last_msg_id := m3, auth_key := sv_key sv (client_g_b env sv),
        has_auth_key := True, server_salt := first_salt c\<rparr>, w2))"
    "aes_ige_decrypt (aes_dec (ae_lib env)) enc (ax_tmp_aes_key c) (ax_tmp_aes_iv c) [] =
       hash_and_pad env (client_inner env sv)"
    "sent w2 = sent w1 @ frame (plain_packet m3 (client_answer env sv enc))" "incoming w2 = rest" "moved w1 1143 w2"
    by (rule step_set_client_dh[OF assms(1-3) 1(3,4) _ _ _ _ _ _ _ 1(5)]) (use c in blast)+
  have "mtproto_auth_key_gen env t (s, w) = (Ok (), (s\<lparr>last_msg_id := m2, last_msg_id := m3,
      auth_key := sv_key sv (client_g_b env sv), has_auth_key := True, server_salt := first_salt c\<rparr>, w2))"
    by (simp only: mtproto_auth_key_gen_def 1(1) 2(1) prod.case)
  moreover have "aes_ige_decrypt (aes_dec (ae_lib env)) enc key iv [] = hash_and_pad env (client_inner env sv)"
    using 2(2) c by simp
  moreover have "sent w2 = sent w @ frame (plain_packet m1 (req_pq_multi (ae_nonce env))) @
      frame (plain_packet m2 msg2) @ frame (plain_packet m3 (client_answer env sv enc))"
    using 2(3) 1(6) by simp
  ultimately show ?thesis using 2(4) by (intro exI conjI) (assumption | simp)+
qed

section \<open>Examples\<close>

definition demo_env :: auth_env where
  "demo_env = \<lparr>ae_lib = toy_lib\<lparr>sha1 := (\<lambda>x. take 20 (toy_hash x))\<rparr>, ae_bn = plain_bn,
     ae_rsa = Some (\<lambda>_. Some (replicate 256 0)), ae_fingerprint = 77, ae_send = (\<lambda>_. toy_draw),
     ae_nonce = replicate 16 1, ae_new_nonce = replicate 32 2, ae_rsa_pad = (\<lambda>n. replicate n 0),
     ae_b = replicate 255 0 @ [7], ae_pad = (\<lambda>n. replicate n 0), ae_heap = (\<lambda>n. replicate n 0)\<rparr>"

definition demo_server :: dh_server where
  "demo_server = \<lparr>sv_nonce = replicate 16 4, sv_pq = 15, sv_fps = [5, 77], sv_g = 3, sv_prime = [23],
     sv_a = 5, sv_time = 0, sv_pad = replicate 8 0, sv_mid = (\<lambda>n. of_nat n)\<rparr>"

definition dh_net :: "io_answer list \<Rightarrow> net" where
  "dh_net sc = \<lparr>script = sc, sent = [],
     incoming = frame (plain_packet (sv_mid demo_server 1) (enc_resPQ (ae_nonce demo_env) demo_server)) @
       frame (plain_packet (sv_mid demo_server 2)
         (enc_DH_params (ae_lib demo_env) (ae_nonce demo_env) (ae_new_nonce demo_env) demo_server)) @
       frame (plain_packet (sv_mid demo_server 3) (enc_dh_gen_ok (ae_lib demo_env) (ae_nonce demo_env)
         (ae_new_nonce demo_env) demo_server (client_g_b demo_env demo_server))),
     open_fds = {3}\<rparr>"

lemma demo_env_ok: "env_ok demo_env"
  using toy_crypto_ok plain_bn_ok
  by (auto simp: env_ok_def demo_env_def toy_lib_def crypto_ok_def)

lemma demo_g_a: "sv_g_a demo_server = [13]"
  by (simp add: sv_g_a_def demo_server_def be_pad_def be_bytes.simps be_nat_def)

lemma demo_server_ok: "sv_ok demo_env demo_server"
  using demo_g_a demo_env_ok
  by (simp add: sv_ok_def sv_plain_def enc_DH_inner_def env_ok_def length_enc_bytes length_enc_prefix)
    (simp add: demo_server_def demo_env_def be_nat_def)

lemma demo_pq: "pq_factorize (sv_pq demo_server) = Some (3, 5)"
  by (simp add: demo_server_def pq_factorize_def pq_attempts.simps rho_loop.simps gcd_loop.simps rho_step_def Let_def)

lemma demo_key: "sv_key demo_server (client_g_b demo_env demo_server) = replicate 255 0 @ [9]"
proof -
  have "be_nat (ae_b demo_env) = 7" using be_nat_zeros[of 255 "[]"] by (simp add: demo_env_def)
  then show ?thesis
    by (simp add: sv_key_def client_g_b_def demo_server_def be_pad_def be_bytes.simps be_nat_def)
qed

theorem auth_key_agreement_witness:
  "\<exists>s' w'. mtproto_auth_key_gen demo_env demo_transport (mtproto_session_init 6, dh_net (replicate 4000 (Moves 4))) =
     (Ok (), (s', w')) \<and> auth_key s' = replicate 255 0 @ [9] \<and> incoming w' = []"
proof -
  let ?w = "dh_net (replicate 4000 (Moves 4))"
  obtain key iv where k: "dh_derive_temp_aes (sha1 (ae_lib demo_env)) (ae_new_nonce demo_env) (sv_nonce demo_server) = (key, iv)"
    by fastforce
  have "transport_fd demo_transport \<ge> 0" "steady 4 (script ?w)" "3600 \<le> moves (script ?w)"
    by (simp_all add: demo_transport_def dh_net_def steady_def moves_def list_all_iff)
  moreover have "ae_rsa demo_env = Some (\<lambda>_. Some (replicate 256 0))" by (simp add: demo_env_def)
  moreover have "incoming ?w = incoming ?w @ []" by simp
  ultimately show ?thesis
    using auth_key_agreement[OF demo_env_ok demo_server_ok _ _ _ demo_pq _ _ k, of demo_transport ?w _ "[]" "mtproto_session_init 6"]
    by (auto simp: dh_net_def demo_key)
qed

theorem auth_key_gen_safe_witness:
  "\<exists>s' w'. mtproto_auth_key_gen demo_env demo_transport (mtproto_session_init 6, dh_net [Broken]) = (Fail, (s', w')) \<and>
     auth_key s' = replicate 256 0 \<and> \<not> has_auth_key s'"
proof -
  obtain res s' w' where run: "mtproto_auth_key_gen demo_env demo_transport (mtproto_session_init 6, dh_net [Broken]) = (res, (s', w'))"
    by (metis surj_pair)
  moreover have "fst (mtproto_auth_key_gen demo_env demo_transport (mtproto_session_init 6, dh_net [Broken])) = Fail"
    by (simp add: mtproto_auth_key_gen_def auth_step_req_pq_def rpc_send_unencrypted_def on_snd_def bind_def
        client_messages wire_simps transport_send_def send_exact_def send_retry.simps sys_socket_send_def
        dh_net_def demo_transport_def demo_env_def mtproto_session_next_msg_id_def Let_def tl_writer_init_def
        fail_def split_beta)
  ultimately show ?thesis using auth_key_gen_safe[OF demo_env_ok run] by (simp add: mtproto_session_init_def)
qed

end
