(* ===== verification/Api_Call.thy ===== *)
theory Api_Call
  imports TL_Ids RPC_Laws
begin

text \<open>
  The call layer of \<open>src/src/infrastructure/api_call.c\<close>: a query is wrapped with the
  client's description, sent, and the incoming frames are read until one carries a
  result; service frames update the session or are skipped, and a refused salt is
  answered with one more attempt.
\<close>

section \<open>The query\<close>

text \<open>A string field is \<open>None\<close> for a \<open>NULL\<close> pointer.\<close>

record api_config =
  api_id :: int
  api_hash :: "byte list option"
  device_model :: "byte list option"
  system_version :: "byte list option"
  app_version :: "byte list option"
  system_lang_code :: "byte list option"
  lang_pack :: "byte list option"
  lang_code :: "byte list option"
  start_dc :: int
  start_dc_set :: int

definition api_config_init :: api_config where
  "api_config_init = \<lparr>api_id = 0, api_hash = None, device_model = Some (ascii ''tg-cli''),
     system_version = Some (ascii ''Linux''), app_version = Some (ascii ''0.1.0''),
     system_lang_code = Some (ascii ''en''), lang_pack = Some [], lang_code = Some (ascii ''en''),
     start_dc = 0, start_dc_set = 0\<rparr>"

abbreviation (input) CRC_invokeWithLayer :: u32 where "CRC_invokeWithLayer \<equiv> 0xda9b0d0d"
abbreviation (input) CRC_initConnection :: u32 where "CRC_initConnection \<equiv> 0xc1cd5ea9"
abbreviation (input) TL_LAYER :: int where "TL_LAYER \<equiv> 185"

text \<open>\<open>s ? s : ""\<close>\<close>

definition or_empty :: "byte list option \<Rightarrow> byte list option" where
  "or_empty s = (case s of None \<Rightarrow> Some [] | Some t \<Rightarrow> Some t)"

definition api_wrap_query :: "api_config \<Rightarrow> byte list \<Rightarrow> nat \<Rightarrow> byte list outcome" where
  "api_wrap_query cfg query max_len =
     (let w = tl_write_uint32 tl_writer_init CRC_invokeWithLayer;
          w = tl_write_int32 w TL_LAYER;
          w = tl_write_uint32 w CRC_initConnection;
          w = tl_write_int32 w 0;
          w = tl_write_int32 w (api_id cfg);
          w = tl_write_string w (or_empty (device_model cfg));
          w = tl_write_string w (or_empty (system_version cfg));
          w = tl_write_string w (or_empty (app_version cfg));
          w = tl_write_string w (or_empty (system_lang_code cfg));
          w = tl_write_string w (or_empty (lang_pack cfg));
          w = tl_write_string w (or_empty (lang_code cfg));
          w = tl_write_raw w query
      in if wr_len w > max_len then Fail else Ok (wr_data w))"

section \<open>Service frames\<close>

datatype svc = SVC_RESULT | SVC_BAD_SALT | SVC_SKIP | SVC_ERROR

text \<open>The recursion into a container ends because its bodies are shorter than it is.\<close>

definition behind_crc :: "byte list \<Rightarrow> tl_reader \<Rightarrow> bool" where
  "behind_crc d r = (rd_data r = d \<and> rd_len r = length d \<and> 4 \<le> rd_pos r \<and> rd_pos r \<le> length d)"

lemma behind_crc_read:
  "behind_crc d r \<Longrightarrow> read_le32 r = (Ok v, r') \<Longrightarrow> behind_crc d r'"
  "behind_crc d r \<Longrightarrow> read_le64 r = (Ok q, r') \<Longrightarrow> behind_crc d r'"
  by (auto simp: behind_crc_def read_le32_def read_le64_def peek_def split: if_splits)

lemma behind_crc_body:
  assumes "behind_crc d r" "read_container_body i s n r = (Ok m, r')"
  shows "behind_crc d r' \<and> length (cm_body m) < length d"
  using assms
  by (auto simp: read_container_body_def behind_crc_def peek_def bind_def ret_def tl_read_skip_def
      size_add_def split: if_splits option.splits)

lemma bind_OkD:
  assumes "bind m f s = (Ok v, s')"
  obtains x s1 where "m s = (Ok x, s1)" "f x s1 = (Ok v, s')"
  using assms by (auto simp: bind_def split: prod.splits outcome.splits)

lemma behind_crc_msg:
  assumes "behind_crc d r" "read_container_msg r = (Ok m, r')"
  shows "behind_crc d r' \<and> length (cm_body m) < length d"
proof -
  have "bind tl_read_uint64 (\<lambda>i. bind tl_read_uint32 (\<lambda>s. bind tl_read_uint32
      (read_container_body i s))) r = (Ok m, r')"
    using assms(2) by (auto simp: read_container_msg_def split: if_splits)
  then obtain i r1 s r2 n r3 where
    r: "read_le64 r = (Ok i, r1)" "read_le32 r1 = (Ok s, r2)" "read_le32 r2 = (Ok n, r3)"
      "read_container_body i s n r3 = (Ok m, r')"
    by (auto elim!: bind_OkD simp: tl_read_uint64_def tl_read_uint32_def)
  from behind_crc_read(2)[OF assms(1) r(1)] have "behind_crc d r1" .
  from behind_crc_read(1)[OF this r(2)] have "behind_crc d r2" .
  from behind_crc_read(1)[OF this r(3)] have "behind_crc d r3" .
  from behind_crc_body[OF this r(4)] show ?thesis .
qed

lemma behind_crc_msgs:
  "behind_crc d r \<Longrightarrow> read_container_msgs n r = (Ok ms, r') \<Longrightarrow> \<forall>m \<in> set ms. length (cm_body m) < length d"
proof (induction n arbitrary: r ms r')
  case (Suc n)
  from Suc.prems(2) obtain m r1 ms' r2 where r: "read_container_msg r = (Ok m, r1)"
    "read_container_msgs n r1 = (Ok ms', r2)" "ms = m # ms'"
    by (auto elim!: bind_OkD simp: ret_def)
  with behind_crc_msg[OF Suc.prems(1) r(1)] Suc.IH[OF _ r(2)] show ?case by auto
qed (auto simp: ret_def)

lemma container_bodies_shorter:
  assumes "rpc_parse_container data k = Ok ms" "le_word (take 4 data) = CRC_msg_container"
  shows "\<forall>m \<in> set ms. length (cm_body m) < length data"
proof -
  let ?r = "tl_reader_init data (length data)"
  have long: "4 \<le> length data" using assms(1) by (auto simp: rpc_parse_container_def split: if_splits)
  let ?m = "bind tl_read_uint32 (\<lambda>_. bind tl_read_uint32 (\<lambda>n.
      if unat n > k then fail else read_container_msgs (unat n)))"
  define r3 where "r3 = snd (?m ?r)"
  have "fst (?m ?r) = Ok ms" using assms long by (simp add: rpc_parse_container_def)
  then have "?m ?r = (Ok ms, r3)" unfolding r3_def by (simp add: prod_eq_iff)
  then obtain v r1 where r1: "read_le32 ?r = (Ok v, r1)" "bind tl_read_uint32 (\<lambda>n.
      if unat n > k then fail else read_container_msgs (unat n)) r1 = (Ok ms, r3)"
    unfolding tl_read_uint32_def by (rule bind_OkD)
  from r1(2) obtain n r2 where r2: "read_le32 r1 = (Ok n, r2)"
      "(if unat n > k then fail else read_container_msgs (unat n)) r2 = (Ok ms, r3)"
    unfolding tl_read_uint32_def by (rule bind_OkD)
  then have r3: "read_container_msgs (unat n) r2 = (Ok ms, r3)"
    by (simp add: fail_def split: if_splits)
  have "behind_crc data r1"
    using r1(1) long by (auto simp: behind_crc_def read_le32_def peek_def tl_reader_init_def split: if_splits)
  from behind_crc_msgs[OF behind_crc_read(1)[OF this r2(1)] r3] show ?thesis .
qed

definition longest_body :: "rpc_container_msg list \<Rightarrow> nat" where
  "longest_body ms = foldr (\<lambda>m. max (length (cm_body m))) ms 0"

lemma longest_body_less: "\<forall>m \<in> set ms. length (cm_body m) < k \<Longrightarrow> 0 < k \<Longrightarrow> longest_body ms < k"
  by (induction ms) (simp_all add: longest_body_def)

text \<open>
  \<open>classify_msgs\<close> is the loop over a container's messages; a result of the container
  parser other than 0 makes the frame an error. The code calls itself for every level of
  nested containers; the stack this takes is not modelled.
\<close>

function classify_service_frame :: "byte list \<Rightarrow> (mtproto_session, svc) cfun"
  and classify_msgs :: "rpc_container_msg list \<Rightarrow> bool \<Rightarrow> (mtproto_session, svc) cfun" where
  "classify_service_frame resp s =
     (if length resp < 4 then (Ok SVC_ERROR, s)
      else let crc = le_word (take 4 resp) :: u32 in
        if crc = TL_bad_server_salt then
          (if length resp < 28 then (Ok SVC_ERROR, s)
           else (Ok SVC_BAD_SALT, s\<lparr>server_salt := le_word (take 8 (drop 20 resp))\<rparr>))
        else if crc = TL_bad_msg_notification then (Ok SVC_ERROR, s)
        else if crc = TL_new_session_created then
          (Ok SVC_SKIP, if length resp \<ge> 28 then s\<lparr>server_salt := le_word (take 8 (drop 20 resp))\<rparr> else s)
        else if crc = TL_msgs_ack \<or> crc = TL_pong then (Ok SVC_SKIP, s)
        else if crc = TL_msg_container then
          (case rpc_parse_container resp 16 of
             Ok msgs \<Rightarrow> classify_msgs msgs False s
           | Fail \<Rightarrow> (Ok SVC_ERROR, s) | Oob \<Rightarrow> (Oob, s) | Fuel \<Rightarrow> (Fuel, s))
        else (Ok SVC_RESULT, s))"
| "classify_msgs [] has_result s = (Ok (if has_result then SVC_RESULT else SVC_SKIP), s)"
| "classify_msgs (m # ms) has_result s =
     (case classify_service_frame (cm_body m) s of
        (Ok sub, s') \<Rightarrow>
          (case sub of
             SVC_ERROR \<Rightarrow> (Ok SVC_ERROR, s')
           | SVC_BAD_SALT \<Rightarrow> (Ok SVC_BAD_SALT, s')
           | SVC_RESULT \<Rightarrow> classify_msgs ms True s'
           | SVC_SKIP \<Rightarrow> classify_msgs ms has_result s')
      | (Fail, s') \<Rightarrow> (Fail, s') | (Oob, s') \<Rightarrow> (Oob, s') | (Fuel, s') \<Rightarrow> (Fuel, s'))"
  by pat_completeness auto
termination
proof (relation "inv_image (less_than <*lex*> less_than) (\<lambda>x. case x of
     Inl (resp, _) \<Rightarrow> (length resp, 0) | Inr (ms, _, _) \<Rightarrow> (longest_body ms, Suc (length ms)))",
   goal_cases)
  case (2 resp s crc ms)
  then have "longest_body ms < length resp"
    using container_bodies_shorter[of resp 16 ms] by (intro longest_body_less) auto
  then show ?case by simp
qed (auto simp: longest_body_def)

declare classify_service_frame.simps [simp del] classify_msgs.simps [simp]

section \<open>The call\<close>

abbreviation (input) SERVICE_FRAME_LIMIT :: nat where "SERVICE_FRAME_LIMIT \<equiv> 64"
abbreviation (input) API_BUF_SIZE :: nat where "API_BUF_SIZE \<equiv> 1024 * 1024"

text \<open>
  The loop that drains service frames, with the number of attempts left: \<open>None\<close> when a
  new salt was stored, the frame when it carries a result.
\<close>

primrec drain :: "crypto_lib \<Rightarrow> transport \<Rightarrow> nat \<Rightarrow> (mtproto_session \<times> net, byte list option) cfun" where
  "drain lib t 0 sw = (Fail, sw)"
| "drain lib t (Suc n) sw =
     (case rpc_recv_encrypted lib (fst sw) t API_BUF_SIZE (snd sw) of
        (Ok raw, w) \<Rightarrow>
          (case classify_service_frame raw (fst sw) of
             (Ok klass, s) \<Rightarrow>
               (case klass of
                  SVC_ERROR \<Rightarrow> (Fail, (s, w))
                | SVC_BAD_SALT \<Rightarrow> (Ok None, (s, w))
                | SVC_SKIP \<Rightarrow> drain lib t n (s, w)
                | SVC_RESULT \<Rightarrow> (Ok (Some raw), (s, w)))
           | (Fail, s) \<Rightarrow> (Fail, (s, w)) | (Oob, s) \<Rightarrow> (Oob, (s, w)) | (Fuel, s) \<Rightarrow> (Fuel, (s, w)))
      | (Fail, w) \<Rightarrow> (Fail, (fst sw, w)) | (Oob, w) \<Rightarrow> (Oob, (fst sw, w)) | (Fuel, w) \<Rightarrow> (Fuel, (fst sw, w)))"

declare drain.simps(2) [simp del]

text \<open>The first \<open>rpc_result\<close> of a container, or the frame itself.\<close>

definition is_rpc_result :: "byte list \<Rightarrow> bool" where
  "is_rpc_result body = (length body \<ge> 4 \<and> le_word (take 4 body) = TL_rpc_result)"

definition find_result :: "byte list \<Rightarrow> byte list outcome" where
  "find_result payload =
     (if length payload \<ge> 4 \<and> le_word (take 4 payload) = TL_msg_container then
        (case rpc_parse_container payload 16 of
           Ok msgs \<Rightarrow> (case find (\<lambda>m. is_rpc_result (cm_body m)) msgs of
               None \<Rightarrow> Ok payload | Some m \<Rightarrow> Ok (cm_body m))
         | Fail \<Rightarrow> Ok payload | Oob \<Rightarrow> Oob | Fuel \<Rightarrow> Fuel)
      else Ok payload)"

text \<open>Everything between the received frame and the caller's buffer.\<close>

definition unwrap_response :: "inflater \<Rightarrow> byte list \<Rightarrow> nat \<Rightarrow> byte list outcome" where
  "unwrap_response gunzip raw max_len =
     (case find_result raw of
        Ok payload \<Rightarrow>
          (case rpc_unwrap_result payload of
             Ok (req_msg_id, inner) \<Rightarrow> rpc_unwrap_gzip gunzip inner max_len
           | _ \<Rightarrow> rpc_unwrap_gzip gunzip payload max_len)
      | Fail \<Rightarrow> Fail | Oob \<Rightarrow> Oob | Fuel \<Rightarrow> Fuel)"

text \<open>The result is the flag \<open>bad_salt\<close> (as \<open>None\<close>) or the response.\<close>

definition api_call_once ::
  "crypto_lib \<Rightarrow> inflater \<Rightarrow> api_config \<Rightarrow> draw \<Rightarrow> transport \<Rightarrow> byte list \<Rightarrow> nat \<Rightarrow>
   (mtproto_session \<times> net, byte list option) cfun" where
  "api_call_once lib gunzip cfg d t query max_len sw =
     (case api_wrap_query cfg query API_BUF_SIZE of
        Ok wrapped \<Rightarrow>
          bind (rpc_send_encrypted lib d t wrapped True) (\<lambda>_.
          bind (drain lib t SERVICE_FRAME_LIMIT) (\<lambda>r.
            case r of
              None \<Rightarrow> ret None
            | Some raw \<Rightarrow> (\<lambda>sw. case unwrap_response gunzip raw max_len of
                Ok resp \<Rightarrow> (Ok (Some resp), sw)
              | Fail \<Rightarrow> (Fail, sw) | Oob \<Rightarrow> (Oob, sw) | Fuel \<Rightarrow> (Fuel, sw)))) sw
      | Fail \<Rightarrow> (Fail, sw) | Oob \<Rightarrow> (Oob, sw) | Fuel \<Rightarrow> (Fuel, sw))"

definition api_call ::
  "crypto_lib \<Rightarrow> inflater \<Rightarrow> api_config \<Rightarrow> draw \<Rightarrow> draw \<Rightarrow> transport \<Rightarrow> byte list \<Rightarrow> nat \<Rightarrow>
   (mtproto_session \<times> net, byte list) cfun" where
  "api_call lib gunzip cfg d1 d2 t query max_len =
     bind (api_call_once lib gunzip cfg d1 t query max_len) (\<lambda>r.
       case r of
         Some resp \<Rightarrow> ret resp
       | None \<Rightarrow> bind (api_call_once lib gunzip cfg d2 t query max_len) (\<lambda>r.
           case r of Some resp \<Rightarrow> ret resp | None \<Rightarrow> fail))"

section \<open>The wrapped query\<close>

definition wrap_prefix :: "api_config \<Rightarrow> byte list" where
  "wrap_prefix cfg =
     le_bytes 4 CRC_invokeWithLayer @ le_bytes 4 (185 :: u32) @ le_bytes 4 CRC_initConnection @
     le_bytes 4 (0 :: u32) @ le_bytes 4 (word_of_int (api_id cfg) :: u32) @
     concat (map (\<lambda>s. enc_bytes (case s of None \<Rightarrow> [] | Some t \<Rightarrow> cstr t))
       [device_model cfg, system_version cfg, app_version cfg, system_lang_code cfg,
        lang_pack cfg, lang_code cfg])"

lemma write_or_empty:
  "wr_data (tl_write_string w (or_empty s)) = wr_data w @ enc_bytes (case s of None \<Rightarrow> [] | Some t \<Rightarrow> cstr t)"
  by (cases s) (simp_all add: or_empty_def wire_simps cstr_def)

text \<open>
  A query is sent as \<open>invokeWithLayer\<close> 185 of \<open>initConnection\<close> with no flags, the
  application's identifier and the six description strings, a missing string as the empty
  one, and then the query itself, unchanged; a result that would not fit is refused.
\<close>

lemma api_wrap_query_layout:
  "api_wrap_query cfg query max_len =
     (if length (wrap_prefix cfg) + length query > max_len then Fail else Ok (wrap_prefix cfg @ query))"
  by (simp add: api_wrap_query_def Let_def wr_sync_len wire_simps write_or_empty wrap_prefix_def)

section \<open>Classification\<close>

lemma salt_self: "\<exists>x. s = s\<lparr>server_salt := x\<rparr>" for s :: mtproto_session
  by (rule exI[of _ "server_salt s"]) simp

text \<open>
  Classifying always gives an answer, which depends on the frame alone, and touches
  nothing of the session but the salt.
\<close>

lemma classify_ok:
  "length resp < 2 ^ 62 \<Longrightarrow>
     \<exists>k x. classify_service_frame resp s = (Ok k, s\<lparr>server_salt := x\<rparr>)"
  "\<forall>m \<in> set ms. length (cm_body m) < 2 ^ 62 \<Longrightarrow>
     \<exists>k x. classify_msgs ms h s = (Ok k, s\<lparr>server_salt := x\<rparr>)"
proof (induction resp s and ms h s rule: classify_service_frame_classify_msgs.induct)
  case (1 resp s)
  show ?case
  proof (cases "4 \<le> length resp \<and> le_word (take 4 resp) = TL_msg_container")
    case True
    show ?thesis
    proof (cases "rpc_parse_container resp 16")
      case (Ok ms)
      have "\<forall>m \<in> set ms. length (cm_body m) < 2 ^ 62"
        using container_bodies_shorter[OF Ok] True "1.prems" by auto
      then show ?thesis using "1.IH"[OF _ refl] True Ok
        by (subst classify_service_frame.simps) (simp add: not_less)
    next
      case Fail
      then show ?thesis using True salt_self[of s] by (subst classify_service_frame.simps) auto
    qed (use parse_container_in[OF "1.prems" refl, of 16] in auto)
  next
    case False
    then show ?thesis using salt_self[of s]
      by (subst classify_service_frame.simps) (auto simp: Let_def)
  qed
next
  case (2 h s)
  then show ?case using salt_self[of s] by auto
next
  case (3 m ms h s)
  then obtain k x where one: "classify_service_frame (cm_body m) s = (Ok k, s\<lparr>server_salt := x\<rparr>)" by auto
  show ?case
  proof (cases k)
    case SVC_RESULT
    with "3.IH"(2)[OF one[symmetric] refl] 3 one show ?thesis by fastforce
  next
    case SVC_SKIP
    with "3.IH"(3)[OF one[symmetric] refl] 3 one show ?thesis by fastforce
  qed (use one in auto)
qed

lemma classify_indep:
  "fst (classify_service_frame resp s) = fst (classify_service_frame resp t)"
  "fst (classify_msgs ms h s) = fst (classify_msgs ms h t)"
proof (induction resp s and ms h s arbitrary: t and t rule: classify_service_frame_classify_msgs.induct)
  case (1 resp s)
  show ?case
  proof (cases "4 \<le> length resp \<and> le_word (take 4 resp) = TL_msg_container")
    case True
    have eq: "classify_service_frame resp u = (case rpc_parse_container resp 16 of
        Ok msgs \<Rightarrow> classify_msgs msgs False u
      | Fail \<Rightarrow> (Ok SVC_ERROR, u) | Oob \<Rightarrow> (Oob, u) | Fuel \<Rightarrow> (Fuel, u))" for u
      using True by (subst classify_service_frame.simps) simp
    have "fst (classify_msgs ms False s) = fst (classify_msgs ms False t)"
      if "rpc_parse_container resp 16 = Ok ms" for ms
      by (rule "1.IH"[OF _ refl]) (use True that in auto)
    then show ?thesis unfolding eq by (cases "rpc_parse_container resp 16") simp_all
  next
    case False
    then show ?thesis by (simp add: classify_service_frame.simps[of resp] Let_def)
  qed
next
  case (3 m ms h s)
  obtain r s1 where one: "classify_service_frame (cm_body m) s = (r, s1)" by fastforce
  moreover obtain r' t1 where two: "classify_service_frame (cm_body m) t = (r', t1)" by fastforce
  ultimately have "r' = r" using "3.IH"(1)[of t] by simp
  show ?case
  proof (cases r)
    case (Ok k)
    note hit = one[unfolded Ok, symmetric]
    show ?thesis
    proof (cases k)
      case SVC_RESULT
      with "3.IH"(2)[OF hit refl SVC_RESULT, of t1] one two \<open>r' = r\<close> Ok show ?thesis by simp
    next
      case SVC_SKIP
      with "3.IH"(3)[OF hit refl SVC_SKIP, of t1] one two \<open>r' = r\<close> Ok show ?thesis by simp
    qed (use one two \<open>r' = r\<close> Ok in auto)
  qed (use one two \<open>r' = r\<close> in auto)
qed simp

lemma classify_result:
  "classify_service_frame (le_bytes 4 TL_rpc_result @ rest) s = (Ok SVC_RESULT, s)"
  by (simp add: classify_service_frame.simps)

text \<open>Receiving looks at the key and the identifier of the session only.\<close>

lemma rpc_recv_salt: "rpc_recv_encrypted lib (s\<lparr>server_salt := x\<rparr>) = rpc_recv_encrypted lib s"
proof -
  have sel: "session_id (s\<lparr>server_salt := x\<rparr>) = session_id s" "auth_key (s\<lparr>server_salt := x\<rparr>) = auth_key s"
    "has_auth_key (s\<lparr>server_salt := x\<rparr>) = has_auth_key s" by simp_all
  show ?thesis unfolding rpc_recv_encrypted_def open_packet_def auth_key_id_def fun_eq_iff sel by simp
qed

section \<open>Runs of the loop\<close>

text \<open>\<open>delivers lib s t w raws w'\<close>: successive receives from \<open>w\<close> yield the frames \<open>raws\<close>.\<close>

inductive delivers :: "crypto_lib \<Rightarrow> mtproto_session \<Rightarrow> transport \<Rightarrow> net \<Rightarrow> byte list list \<Rightarrow> net \<Rightarrow> bool"
  for lib s t where
  none: "delivers lib s t w [] w"
| more: "rpc_recv_encrypted lib s t (1024 * 1024) w = (Ok raw, w1) \<Longrightarrow> delivers lib s t w1 raws w2 \<Longrightarrow>
    delivers lib s t w (raw # raws) w2"

inductive_cases delivers_Cons: "delivers lib s t w (raw # raws) w'"
inductive_cases delivers_Nil: "delivers lib s t w [] w'"

lemma delivers_salt: "delivers lib (s\<lparr>server_salt := x\<rparr>) t w raws w' = delivers lib s t w raws w'"
proof
  show "delivers lib s t w raws w'" if "delivers lib (s\<lparr>server_salt := x\<rparr>) t w raws w'"
    using that by induction (auto simp: rpc_recv_salt intro: delivers.intros)
  show "delivers lib (s\<lparr>server_salt := x\<rparr>) t w raws w'" if "delivers lib s t w raws w'"
    using that by induction (auto simp: rpc_recv_salt intro: delivers.intros)
qed

text \<open>A frame the loop skips, and the salt a run of such frames leaves.\<close>

definition skipped :: "byte list \<Rightarrow> bool" where
  "skipped raw = (length raw < 2 ^ 62 \<and>
     fst (classify_service_frame raw (mtproto_session_init 0)) = Ok SVC_SKIP)"

definition absorb :: "byte list list \<Rightarrow> mtproto_session \<Rightarrow> mtproto_session" where
  "absorb raws s = fold (\<lambda>raw s. snd (classify_service_frame raw s)) raws s"

lemma skipped_classify:
  assumes "skipped raw"
  obtains x where "classify_service_frame raw s = (Ok SVC_SKIP, s\<lparr>server_salt := x\<rparr>)"
  using classify_ok(1)[of raw s] classify_indep(1)[of raw s "mtproto_session_init 0"] assms that
  by (auto simp: skipped_def)

lemma drain_skips:
  assumes "delivers lib s t w (raws @ rest) w'" "\<forall>raw \<in> set raws. skipped raw" "length raws \<le> n"
  shows "\<exists>w1 x. drain lib t n (s, w) = drain lib t (n - length raws) (absorb raws s, w1) \<and>
    absorb raws s = s\<lparr>server_salt := x\<rparr> \<and> delivers lib s t w1 rest w'"
  using assms
proof (induction raws arbitrary: n s w)
  case Nil
  then show ?case using salt_self[of s] by (auto simp: absorb_def)
next
  case (Cons raw raws)
  then obtain m where n: "n = Suc m" by (cases n) auto
  from Cons.prems(1) obtain w1 where recv: "rpc_recv_encrypted lib s t (1024 * 1024) w = (Ok raw, w1)"
    "delivers lib s t w1 (raws @ rest) w'" by (auto elim: delivers_Cons)
  obtain x where c: "classify_service_frame raw s = (Ok SVC_SKIP, s\<lparr>server_salt := x\<rparr>)"
    using Cons.prems(2) skipped_classify[of raw s] by auto
  let ?s = "s\<lparr>server_salt := x\<rparr>"
  have step: "drain lib t n (s, w) = drain lib t m (?s, w1)" "absorb (raw # raws) s = absorb raws ?s"
    using recv c by (simp_all add: n absorb_def drain.simps(2))
  obtain w2 y where "drain lib t m (?s, w1) = drain lib t (m - length raws) (absorb raws ?s, w2)"
    "absorb raws ?s = ?s\<lparr>server_salt := y\<rparr>" "delivers lib ?s t w2 rest w'"
    using Cons.IH[of ?s w1 m] recv(2) Cons.prems(2,3) n by (auto simp: delivers_salt)
  then show ?case unfolding step by (auto simp: n delivers_salt)
qed

text \<open>Two kinds of frames that end the loop.\<close>

definition enc_result :: "u64 \<Rightarrow> byte list \<Rightarrow> byte list" where
  "enc_result req inner = le_bytes 4 TL_rpc_result @ le_bytes 8 req @ inner"

definition enc_bad_salt :: "u64 \<Rightarrow> u32 \<Rightarrow> u32 \<Rightarrow> u64 \<Rightarrow> byte list" where
  "enc_bad_salt bad_msg_id bad_msg_seqno code new_salt =
     le_bytes 4 TL_bad_server_salt @ le_bytes 8 bad_msg_id @ le_bytes 4 bad_msg_seqno @
     le_bytes 4 code @ le_bytes 8 new_salt"

lemma classify_bad_salt:
  "classify_service_frame (enc_bad_salt m q e new_salt) s = (Ok SVC_BAD_SALT, s\<lparr>server_salt := new_salt\<rparr>)"
  by (simp add: classify_service_frame.simps enc_bad_salt_def)

lemma unwrap_enc_result: "unwrap_response gunzip (enc_result req inner) max_len = rpc_unwrap_gzip gunzip inner max_len"
  by (simp add: unwrap_response_def find_result_def rpc_unwrap_result_def enc_result_def)

lemma drain_result:
  assumes "delivers lib s t w (raws @ [enc_result req inner]) w'" "\<forall>raw \<in> set raws. skipped raw"
    and "length raws < n"
  shows "drain lib t n (s, w) = (Ok (Some (enc_result req inner)), (absorb raws s, w'))"
proof -
  from drain_skips[OF assms(1,2), of n] assms(3) obtain w1 x where
    d: "drain lib t n (s, w) = drain lib t (n - length raws) (absorb raws s, w1)"
    "absorb raws s = s\<lparr>server_salt := x\<rparr>" "delivers lib s t w1 [enc_result req inner] w'" by auto
  obtain k where k: "n - length raws = Suc k" using assms(3) by (cases "n - length raws") auto
  have "rpc_recv_encrypted lib s t (1024 * 1024) w1 = (Ok (enc_result req inner), w')"
    using d(3) by (auto elim!: delivers_Cons delivers_Nil)
  then show ?thesis unfolding d(1) k d(2)
    by (simp add: drain.simps(2) rpc_recv_salt enc_result_def classify_result)
qed

lemma drain_bad_salt:
  assumes "delivers lib s t w (raws @ [enc_bad_salt m q e new_salt]) w'" "\<forall>raw \<in> set raws. skipped raw"
    and "length raws < n"
  shows "drain lib t n (s, w) = (Ok None, (s\<lparr>server_salt := new_salt\<rparr>, w'))"
proof -
  from drain_skips[OF assms(1,2), of n] assms(3) obtain w1 x where
    d: "drain lib t n (s, w) = drain lib t (n - length raws) (absorb raws s, w1)"
    "absorb raws s = s\<lparr>server_salt := x\<rparr>" "delivers lib s t w1 [enc_bad_salt m q e new_salt] w'" by auto
  obtain k where k: "n - length raws = Suc k" using assms(3) by (cases "n - length raws") auto
  have "rpc_recv_encrypted lib s t (1024 * 1024) w1 = (Ok (enc_bad_salt m q e new_salt), w')"
    using d(3) by (auto elim!: delivers_Cons delivers_Nil)
  then show ?thesis unfolding d(1) k d(2)
    by (simp add: drain.simps(2) rpc_recv_salt classify_bad_salt)
qed

text \<open>One attempt, given what its send and its receives do.\<close>

definition sends_query where
  "sends_query lib cfg d t query s w s1 w1 \<longleftrightarrow>
     length (wrap_prefix cfg @ query) \<le> 1024 * 1024 \<and>
     rpc_send_encrypted lib d t (wrap_prefix cfg @ query) True (s, w) = (Ok (), (s1, w1))"

lemma api_wrap_fits:
  "length (wrap_prefix cfg @ query) \<le> 1024 * 1024 \<Longrightarrow>
   api_wrap_query cfg query (1024 * 1024) = Ok (wrap_prefix cfg @ query)"
  by (simp add: api_wrap_query_def Let_def wr_sync_len wire_simps write_or_empty wrap_prefix_def)

lemma once_eq:
  assumes "sends_query lib cfg d t query s w s1 w1"
  shows "api_call_once lib gunzip cfg d t query max_len (s, w) =
    bind (drain lib t 64) (\<lambda>r. case r of None \<Rightarrow> ret None
      | Some raw \<Rightarrow> (\<lambda>sw. case unwrap_response gunzip raw max_len of
          Ok resp \<Rightarrow> (Ok (Some resp), sw)
        | Fail \<Rightarrow> (Fail, sw) | Oob \<Rightarrow> (Oob, sw) | Fuel \<Rightarrow> (Fuel, sw))) (s1, w1)"
  using assms api_wrap_fits[of cfg query]
  by (simp add: api_call_once_def sends_query_def bind_OkI)

lemma api_call_result:
  assumes "sends_query lib cfg d1 t query s w s1 w1"
    and "delivers lib s1 t w1 (raws @ [enc_result req inner]) w2"
    and "\<forall>raw \<in> set raws. skipped raw" "length raws < 64"
    and "rpc_unwrap_gzip gunzip inner max_len = Ok resp"
  shows "api_call lib gunzip cfg d1 d2 t query max_len (s, w) = (Ok resp, (absorb raws s1, w2))"
proof -
  have "api_call_once lib gunzip cfg d1 t query max_len (s, w) = (Ok (Some resp), (absorb raws s1, w2))"
    using drain_result[OF assms(2,3,4)] assms(5)
    by (simp add: once_eq[OF assms(1)] bind_OkI unwrap_enc_result)
  then show ?thesis by (simp add: api_call_def bind_OkI ret_def)
qed

section \<open>What a server sends besides the result\<close>

text \<open>
  The service messages as the protocol lays them out, alone or together in a container, and
  the salts they announce. An answer is the result alone or in a container with such messages.
\<close>

datatype service = Msgs_ack "byte list" | Pong "byte list" | New_session u64 u64 u64

type_synonym service_msg = "u64 \<times> u32 \<times> service"

datatype service_frame = Single service | Bundle "service_msg list"

datatype answer = Bare | Among "service_msg list" u64 u32 "service_msg list"

primrec enc_service :: "service \<Rightarrow> byte list" where
  "enc_service (Msgs_ack b) = le_bytes 4 (0x62d6b459 :: u32) @ b"
| "enc_service (Pong b) = le_bytes 4 (0x347773c5 :: u32) @ b"
| "enc_service (New_session first_msg_id unique_id salt) =
     le_bytes 4 (0x9ec20908 :: u32) @ le_bytes 8 first_msg_id @ le_bytes 8 unique_id @ le_bytes 8 salt"

primrec service_salts :: "service \<Rightarrow> u64 list" where
  "service_salts (Msgs_ack b) = []"
| "service_salts (Pong b) = []"
| "service_salts (New_session first_msg_id unique_id salt) = [salt]"

definition msg_of :: "service_msg \<Rightarrow> rpc_container_msg" where
  "msg_of m = \<lparr>cm_msg_id = fst m, cm_seqno = fst (snd m), cm_body = enc_service (snd (snd m))\<rparr>"

definition msg_salts :: "service_msg list \<Rightarrow> u64 list" where
  "msg_salts ms = concat (map (\<lambda>m. service_salts (snd (snd m))) ms)"

primrec enc_frame :: "service_frame \<Rightarrow> byte list" where
  "enc_frame (Single f) = enc_service f"
| "enc_frame (Bundle ms) = enc_container (map msg_of ms)"

primrec frame_salts :: "service_frame \<Rightarrow> u64 list" where
  "frame_salts (Single f) = service_salts f"
| "frame_salts (Bundle ms) = msg_salts ms"

primrec enc_answer :: "u64 \<Rightarrow> byte list \<Rightarrow> answer \<Rightarrow> byte list" where
  "enc_answer req inner Bare = enc_result req inner"
| "enc_answer req inner (Among pre i q post) = enc_container
     (map msg_of pre @ [\<lparr>cm_msg_id = i, cm_seqno = q, cm_body = enc_result req inner\<rparr>] @ map msg_of post)"

primrec answer_salts :: "answer \<Rightarrow> u64 list" where
  "answer_salts Bare = []"
| "answer_salts (Among pre i q post) = msg_salts (pre @ post)"

text \<open>A container has at most 16 messages with aligned bodies; a frame has at most 1 MiB.\<close>

definition bundle_ok :: "rpc_container_msg list \<Rightarrow> bool" where
  "bundle_ok ms = (list_all msg_ok ms \<and> length ms \<le> 16)"

definition frame_ok :: "service_frame \<Rightarrow> bool" where
  "frame_ok f = (length (enc_frame f) \<le> 1024 * 1024 \<and>
     (case f of Single _ \<Rightarrow> True | Bundle ms \<Rightarrow> bundle_ok (map msg_of ms)))"

definition answer_ok :: "u64 \<Rightarrow> byte list \<Rightarrow> answer \<Rightarrow> bool" where
  "answer_ok req inner a = (length (enc_answer req inner a) \<le> 1024 * 1024 \<and>
     (case a of Bare \<Rightarrow> True | Among pre i q post \<Rightarrow> bundle_ok
       (map msg_of pre @ [\<lparr>cm_msg_id = i, cm_seqno = q, cm_body = enc_result req inner\<rparr>] @ map msg_of post)))"

definition take_over :: "u64 list \<Rightarrow> mtproto_session \<Rightarrow> mtproto_session" where
  "take_over salts s = s\<lparr>server_salt := last (server_salt s # salts)\<rparr>"

lemma take_over_append: "take_over (xs @ ys) s = take_over ys (take_over xs s)"
  by (simp add: take_over_def)

lemma take_over_Nil [simp]: "take_over [] s = s"
  by (simp add: take_over_def)

lemma classify_service: "classify_service_frame (enc_service f) s = (Ok SVC_SKIP, take_over (service_salts f) s)"
  by (cases f) (simp_all add: classify_service_frame.simps take_over_def)

lemma classify_service_msgs:
  "classify_msgs (map msg_of ms @ rest) h s = classify_msgs rest h (take_over (msg_salts ms) s)"
  by (induction ms arbitrary: s) (simp_all add: msg_of_def msg_salts_def classify_service take_over_append)

lemma classify_container:
  assumes "bundle_ok ms" "length (enc_container ms) \<le> 1024 * 1024"
  shows "classify_service_frame (enc_container ms) s = classify_msgs ms False s"
    and "rpc_parse_container (enc_container ms) 16 = Ok ms"
proof -
  show parse: "rpc_parse_container (enc_container ms) 16 = Ok ms"
    by (rule parse_enc_container) (use assms in \<open>simp_all add: bundle_ok_def\<close>)
  have "4 \<le> length (enc_container ms)" "le_word (take 4 (enc_container ms)) = TL_msg_container"
    by (simp_all add: enc_container_def)
  then show "classify_service_frame (enc_container ms) s = classify_msgs ms False s"
    by (subst classify_service_frame.simps) (simp add: parse)
qed

lemma classify_frame:
  assumes "frame_ok f"
  shows "classify_service_frame (enc_frame f) s = (Ok SVC_SKIP, take_over (frame_salts f) s)"
proof (cases f)
  case (Bundle ms)
  then have ok: "bundle_ok (map msg_of ms)" "length (enc_container (map msg_of ms)) \<le> 1024 * 1024"
    using assms by (simp_all add: frame_ok_def)
  show ?thesis using classify_service_msgs[of ms "[]" False s] by (simp add: Bundle classify_container(1)[OF ok])
qed (simp add: classify_service)

lemma frame_skipped: "frame_ok f \<Longrightarrow> skipped (enc_frame f)"
  using classify_frame[of f] by (simp add: skipped_def) (simp add: frame_ok_def)

lemma absorb_frames:
  "list_all frame_ok fs \<Longrightarrow> absorb (map enc_frame fs) s = take_over (concat (map frame_salts fs)) s"
  by (induction fs arbitrary: s) (simp_all add: absorb_def classify_frame take_over_append)

lemma answer_found:
  assumes "answer_ok req inner a"
  shows "classify_service_frame (enc_answer req inner a) s = (Ok SVC_RESULT, take_over (answer_salts a) s)"
    and "unwrap_response gunzip (enc_answer req inner a) max_len = rpc_unwrap_gzip gunzip inner max_len"
proof -
  have "classify_service_frame (enc_answer req inner a) s = (Ok SVC_RESULT, take_over (answer_salts a) s) \<and>
      unwrap_response gunzip (enc_answer req inner a) max_len = rpc_unwrap_gzip gunzip inner max_len"
  proof (cases a)
    case Bare
    show ?thesis
      using unwrap_enc_result[of gunzip req inner max_len] classify_result[of "le_bytes 8 req @ inner" s]
      by (simp add: Bare enc_result_def)
  next
    case (Among pre i q post)
    let ?r = "\<lparr>cm_msg_id = i, cm_seqno = q, cm_body = enc_result req inner\<rparr>"
    let ?ms = "map msg_of pre @ [?r] @ map msg_of post"
    have ok: "bundle_ok ?ms" "length (enc_container ?ms) \<le> 1024 * 1024"
      using assms by (simp_all add: answer_ok_def Among)
    note parsed = classify_container[OF ok]
    have res: "classify_service_frame (enc_result req inner) u = (Ok SVC_RESULT, u)" for u
      using classify_result[of "le_bytes 8 req @ inner" u] by (simp add: enc_result_def)
    have "classify_msgs ?ms False s = (Ok SVC_RESULT, take_over (msg_salts (pre @ post)) s)"
    proof -
      have "classify_msgs (map msg_of post) True u = (Ok SVC_RESULT, take_over (msg_salts post) u)" for u
        using classify_service_msgs[of post "[]" True u] by simp
      moreover have "msg_salts (pre @ post) = msg_salts pre @ msg_salts post" by (simp add: msg_salts_def)
      ultimately show ?thesis by (simp add: classify_service_msgs res take_over_append)
    qed
    moreover have "find (\<lambda>m. is_rpc_result (cm_body m)) ?ms = Some ?r"
    proof -
      have "\<not> is_rpc_result (enc_service f)" for f by (cases f) (simp_all add: is_rpc_result_def)
      then have "find (\<lambda>m. is_rpc_result (cm_body m)) (map msg_of pre @ ?r # zs) = Some ?r" for zs
        by (induction pre) (simp_all add: msg_of_def, simp add: is_rpc_result_def enc_result_def)
      then show ?thesis by simp
    qed
    moreover have "4 \<le> length (enc_container ?ms)" "le_word (take 4 (enc_container ?ms)) = TL_msg_container"
      by (simp_all add: enc_container_def)
    ultimately show ?thesis
      using parsed by (simp add: Among unwrap_response_def find_result_def rpc_unwrap_result_def enc_result_def)
  qed
  then show "classify_service_frame (enc_answer req inner a) s = (Ok SVC_RESULT, take_over (answer_salts a) s)"
    and "unwrap_response gunzip (enc_answer req inner a) max_len = rpc_unwrap_gzip gunzip inner max_len"
    by simp_all
qed

lemma drain_answer:
  assumes "delivers lib s t w (map enc_frame fs @ [enc_answer req inner a]) w'"
    and "list_all frame_ok fs" "answer_ok req inner a" "length fs < n"
  shows "drain lib t n (s, w) =
    (Ok (Some (enc_answer req inner a)), (take_over (concat (map frame_salts fs) @ answer_salts a) s, w'))"
proof -
  have "\<forall>raw \<in> set (map enc_frame fs). skipped raw" using assms(2) frame_skipped by (auto simp: list_all_iff)
  from drain_skips[OF assms(1) this, of n] assms(4) obtain w1 x where
    d: "drain lib t n (s, w) = drain lib t (n - length fs) (absorb (map enc_frame fs) s, w1)"
    "absorb (map enc_frame fs) s = s\<lparr>server_salt := x\<rparr>" "delivers lib s t w1 [enc_answer req inner a] w'" by auto
  obtain k where k: "n - length fs = Suc k" using assms(4) by (cases "n - length fs") auto
  have "rpc_recv_encrypted lib s t (1024 * 1024) w1 = (Ok (enc_answer req inner a), w')"
    using d(3) by (auto elim!: delivers_Cons delivers_Nil)
  then have "drain lib t (Suc k) (absorb (map enc_frame fs) s, w1) =
      (Ok (Some (enc_answer req inner a)), (take_over (answer_salts a) (absorb (map enc_frame fs) s), w'))"
    by (simp add: drain.simps(2) d(2) rpc_recv_salt answer_found(1)[OF assms(3)])
  then show ?thesis by (simp add: d(1) k absorb_frames[OF assms(2)] take_over_append)
qed

text \<open>
  C23. If the query goes out and the server answers with up to 63 service frames and then
  the result, the caller gets the unpacked result, whichever mix of acknowledgements, pongs
  and notices of a new session came before it, alone or in containers of up to 16 messages,
  and whether the result comes alone or in such a container. The session has then the last
  salt that one of them announced, or its own if none did.
\<close>

theorem api_call_returns_result:
  assumes "sends_query lib cfg d1 t query s w s1 w1"
    and "delivers lib s1 t w1 (map enc_frame fs @ [enc_answer req inner a]) w2"
    and "list_all frame_ok fs" "answer_ok req inner a" "length fs < 64"
    and "rpc_unwrap_gzip gunzip inner max_len = Ok resp"
  shows "api_call lib gunzip cfg d1 d2 t query max_len (s, w) =
    (Ok resp, (s1\<lparr>server_salt := last (server_salt s1 # concat (map frame_salts fs) @ answer_salts a)\<rparr>, w2))"
proof -
  have "api_call_once lib gunzip cfg d1 t query max_len (s, w) =
      (Ok (Some resp), (take_over (concat (map frame_salts fs) @ answer_salts a) s1, w2))"
    using drain_answer[OF assms(2-5)] answer_found(2)[OF assms(4)] assms(6)
    by (simp add: once_eq[OF assms(1)] bind_OkI)
  then show ?thesis by (simp add: api_call_def bind_OkI ret_def take_over_def)
qed

text \<open>
  C22. If the server refuses the salt, the query is sent a second time under the salt the
  server has named, and the result of the second attempt is returned.
\<close>

theorem api_call_retries_with_new_salt:
  assumes "sends_query lib cfg d1 t query s w s1 w1"
    and "delivers lib s1 t w1 (raws @ [enc_bad_salt m q e new_salt]) w2"
    and "\<forall>raw \<in> set raws. skipped raw" "length raws < 64"
    and "sends_query lib cfg d2 t query (s1\<lparr>server_salt := new_salt\<rparr>) w2 s3 w3"
    and "delivers lib s3 t w3 (raws' @ [enc_result req inner]) w4"
    and "\<forall>raw \<in> set raws'. skipped raw" "length raws' < 64"
    and "rpc_unwrap_gzip gunzip inner max_len = Ok resp"
  shows "api_call lib gunzip cfg d1 d2 t query max_len (s, w) = (Ok resp, (absorb raws' s3, w4))"
proof -
  have "api_call_once lib gunzip cfg d1 t query max_len (s, w) = (Ok None, (s1\<lparr>server_salt := new_salt\<rparr>, w2))"
    using drain_bad_salt[OF assms(2,3,4)] by (simp add: once_eq[OF assms(1)] bind_OkI ret_def)
  moreover have "api_call_once lib gunzip cfg d2 t query max_len (s1\<lparr>server_salt := new_salt\<rparr>, w2)
      = (Ok (Some resp), (absorb raws' s3, w4))"
    using drain_result[OF assms(6,7,8)] assms(9)
    by (simp add: once_eq[OF assms(5)] bind_OkI unwrap_enc_result)
  ultimately show ?thesis by (simp add: api_call_def bind_OkI ret_def)
qed

text \<open>
  C24. A call that sees nothing but service frames gives up after 64 of them with an
  error: such a frame is never handed to the caller as a response.
\<close>

theorem api_call_gives_up:
  assumes "sends_query lib cfg d1 t query s w s1 w1"
    and "delivers lib s1 t w1 raws w2" "\<forall>raw \<in> set raws. skipped raw" "length raws = 64"
  shows "fst (api_call lib gunzip cfg d1 d2 t query max_len (s, w)) = Fail"
proof -
  obtain w' x where "drain lib t 64 (s1, w1) = drain lib t 0 (absorb raws s1, w')"
    using drain_skips[of lib s1 t w1 raws "[]" w2 64] assms(2-4) by auto
  then have "api_call_once lib gunzip cfg d1 t query max_len (s, w) = (Fail, (absorb raws s1, w'))"
    by (simp add: once_eq[OF assms(1)] bind_FailI)
  then show ?thesis by (simp add: api_call_def bind_FailI)
qed

section \<open>Safety of a call\<close>

lemma find_result_in:
  assumes "length raw < 2 ^ 62"
  shows "\<exists>payload. find_result raw = Ok payload \<and> length payload \<le> length raw"
proof (cases "length raw \<ge> 4 \<and> le_word (take 4 raw) = TL_msg_container")
  case True
  show ?thesis
  proof (cases "rpc_parse_container raw 16")
    case (Ok ms)
    have "length (cm_body m) < length raw" if "m \<in> set ms" for m
      using container_bodies_shorter[OF Ok] True that by auto
    then show ?thesis using True Ok
      by (auto simp: find_result_def find_Some_iff split: option.splits intro: less_imp_le)
  qed (use True parse_container_in[OF assms refl, of 16] in \<open>auto simp: find_result_def\<close>)
qed (auto simp: find_result_def)

lemma unwrap_response_in:
  assumes "inflater_ok gunzip"
    and "length raw < 2 ^ 62" "unwrap_response gunzip raw max_len = res"
  shows "case res of Ok out \<Rightarrow> length out \<le> max_len | Fail \<Rightarrow> True | _ \<Rightarrow> False"
proof -
  obtain p where p: "find_result raw = Ok p" "length p \<le> length raw"
    using find_result_in[OF assms(2)] by blast
  have gz: "case rpc_unwrap_gzip gunzip q max_len of Ok out \<Rightarrow> length out \<le> max_len | Fail \<Rightarrow> True | _ \<Rightarrow> False"
    if "length q \<le> length p" for q
  proof -
    have "length q < 2 ^ 62" using that p(2) assms(2) by simp
    from unwrap_gzip_in[OF assms(1) this refl, of max_len] show ?thesis by blast
  qed
  show ?thesis
  proof (cases "rpc_unwrap_result p")
    case (Ok r)
    then obtain req inner where r: "r = (req, inner)" "length inner \<le> length p"
      by (cases r) (auto simp: rpc_unwrap_result_def split: if_splits)
    then show ?thesis using gz[OF r(2)] assms(3) p(1) Ok by (simp add: unwrap_response_def)
  qed (use gz[of p] assms(3) p(1) in \<open>simp_all add: unwrap_response_def\<close>)
qed

text \<open>
  What may be handed to a caller: a frame whose constructor is none of the service messages',
  or a container with a message that may be.
\<close>

inductive carries_answer :: "byte list \<Rightarrow> bool" where
  alone: "4 \<le> length raw \<Longrightarrow> le_word (take 4 raw) \<notin>
      {TL_bad_server_salt, TL_bad_msg_notification, TL_new_session_created, TL_msgs_ack, TL_pong, TL_msg_container} \<Longrightarrow>
    carries_answer raw"
| inside: "le_word (take 4 raw) = TL_msg_container \<Longrightarrow> rpc_parse_container raw 16 = Ok ms \<Longrightarrow> m \<in> set ms \<Longrightarrow>
    carries_answer (cm_body m) \<Longrightarrow> carries_answer raw"

lemma result_carries_answer:
  "fst (classify_service_frame resp s) = Ok SVC_RESULT \<Longrightarrow> carries_answer resp"
  "fst (classify_msgs ms h s) = Ok SVC_RESULT \<Longrightarrow> h \<or> (\<exists>m \<in> set ms. carries_answer (cm_body m))"
proof (induction resp s and ms h s rule: classify_service_frame_classify_msgs.induct)
  case (1 resp s)
  show ?case
  proof (cases "4 \<le> length resp \<and> le_word (take 4 resp) = TL_msg_container")
    case True
    then obtain ms where ms: "rpc_parse_container resp 16 = Ok ms" "fst (classify_msgs ms False s) = Ok SVC_RESULT"
      using "1.prems" by (subst (asm) classify_service_frame.simps) (auto split: outcome.splits)
    then have "\<exists>m \<in> set ms. carries_answer (cm_body m)" using "1.IH"[OF _ refl] True by auto
    then show ?thesis using True ms(1) by (auto intro: carries_answer.inside)
  next
    case False
    then show ?thesis
      using "1.prems" by (subst (asm) classify_service_frame.simps)
        (auto simp: Let_def intro!: carries_answer.alone split: if_splits)
  qed
next
  case (3 m ms h s)
  then show ?case by (auto split: prod.splits outcome.splits svc.splits)
qed (simp split: if_splits)

text \<open>One send of the query and the frames received after it, \<open>raw\<close> the last of them.\<close>

definition received_after ::
  "crypto_lib \<Rightarrow> api_config \<Rightarrow> draw \<Rightarrow> transport \<Rightarrow> byte list \<Rightarrow> mtproto_session \<times> net \<Rightarrow> byte list \<Rightarrow> net \<Rightarrow> bool" where
  "received_after lib cfg d t query sw raw w' \<longleftrightarrow>
     (\<exists>s1 w1 raws. sends_query lib cfg d t query (fst sw) (snd sw) s1 w1 \<and>
       delivers lib s1 t w1 (raws @ [raw]) w' \<and> length raws < 64)"

lemma drain_received:
  assumes "drain lib t n (s, w) = (Ok r, (s', w'))"
  shows "\<exists>raws raw x. delivers lib s t w (raws @ [raw]) w' \<and> length raws < n \<and> s' = s\<lparr>server_salt := x\<rparr> \<and>
    (r = None \<or> r = Some raw)"
  using assms
proof (induction n arbitrary: s w)
  case (Suc n)
  obtain q w1 where recv: "rpc_recv_encrypted lib s t (1024 * 1024) w = (q, w1)" by fastforce
  then obtain raw where raw: "q = Ok raw" using Suc.prems by (cases q) (simp_all add: drain.simps(2))
  have "length raw < 2 ^ 62" using rpc_recv_encrypted_no_oob[OF recv] raw by simp
  then obtain k x where c: "classify_service_frame raw s = (Ok k, s\<lparr>server_salt := x\<rparr>)"
    using classify_ok(1)[of raw s] by auto
  have one: "delivers lib s t w ([] @ [raw]) w1" using recv raw by (auto intro: delivers.intros)
  show ?case
  proof (cases k)
    case SVC_SKIP
    then have "drain lib t n (s\<lparr>server_salt := x\<rparr>, w1) = (Ok r, (s', w'))"
      using Suc.prems recv raw c by (simp add: drain.simps(2))
    from Suc.IH[OF this] obtain raws last y where rest: "delivers lib s t w1 (raws @ [last]) w'" "length raws < n"
        "s' = s\<lparr>server_salt := y\<rparr>" "r = None \<or> r = Some last"
      by (auto simp: delivers_salt)
    have "delivers lib s t w ((raw # raws) @ [last]) w'"
      using delivers.more[OF recv[unfolded raw] rest(1)] by simp
    then show ?thesis using rest by (metis length_Cons Suc_less_eq)
  next
    case SVC_RESULT
    then have "r = Some raw" "s' = s\<lparr>server_salt := x\<rparr>" "w' = w1"
      using Suc.prems recv raw c by (simp_all add: drain.simps(2))
    then show ?thesis using one by (metis length_0_conv zero_less_Suc)
  next
    case SVC_BAD_SALT
    then have "r = None" "s' = s\<lparr>server_salt := x\<rparr>" "w' = w1"
      using Suc.prems recv raw c by (simp_all add: drain.simps(2))
    then show ?thesis using one by (metis length_0_conv zero_less_Suc)
  qed (use Suc.prems recv raw c in \<open>simp add: drain.simps(2)\<close>)
qed simp

lemma drain_in:
  assumes "drain lib t n (s, w) = (res, (s', w'))"
  shows "res \<noteq> Oob \<and> has_auth_key s' = has_auth_key s \<and>
    (\<forall>raw. res = Ok (Some raw) \<longrightarrow> length raw \<le> 1024 * 1024 \<and>
      fst (classify_service_frame raw s') = Ok SVC_RESULT)"
  using assms
proof (induction n arbitrary: s w)
  case (Suc n)
  obtain r w1 where recv: "rpc_recv_encrypted lib s t (1024 * 1024) w = (r, w1)" by fastforce
  note in_recv = rpc_recv_encrypted_no_oob[OF recv]
  show ?case
  proof (cases r)
    case (Ok raw)
    have small: "length raw \<le> 1024 * 1024" using in_recv Ok by simp
    then obtain k x where c: "classify_service_frame raw s = (Ok k, s\<lparr>server_salt := x\<rparr>)"
      using classify_ok(1)[of raw s] by auto
    show ?thesis
    proof (cases k)
      case SVC_SKIP
      then have "drain lib t n (s\<lparr>server_salt := x\<rparr>, w1) = (res, (s', w'))"
        using Suc.prems recv Ok c by (simp add: drain.simps(2))
      from Suc.IH[OF this] show ?thesis by simp
    next
      case SVC_RESULT
      then have "res = Ok (Some raw)" "s' = s\<lparr>server_salt := x\<rparr>"
        using Suc.prems recv Ok c by (simp_all add: drain.simps(2))
      then show ?thesis using c SVC_RESULT small classify_indep(1)[of raw s s'] by simp
    qed (use Suc.prems recv Ok c in \<open>auto simp: drain.simps(2)\<close>)
  qed (use Suc.prems recv in_recv in \<open>auto simp: drain.simps(2)\<close>)
qed auto

lemma send_keeps:
  assumes "rpc_send_encrypted lib d t data c (s, w) = (res, (s', w'))"
  shows "auth_key s' = auth_key s" "session_id s' = session_id s" "server_salt s' = server_salt s"
  using assms
  by (auto simp: rpc_send_encrypted_def mtproto_session_next_msg_id_def mtproto_session_next_seq_no_def Let_def
      split: if_splits prod.splits)

lemma api_call_once_in:
  assumes "inflater_ok gunzip"
    and "lib_ok lib (draw_pad d)" "length (wrap_prefix cfg @ query) \<le> 1024 * 1024 - 44"
    and "api_call_once lib gunzip cfg d t query max_len (s, w) = (res, (s', w'))"
  shows "res \<noteq> Oob" "res = Ok (Some resp) \<Longrightarrow> length resp \<le> max_len \<and>
      (\<exists>raw. carries_answer raw \<and> unwrap_response gunzip raw max_len = Ok resp \<and>
        received_after lib cfg d t query (s, w) raw w')"
    "res = Ok None \<Longrightarrow> (\<exists>raw. received_after lib cfg d t query (s, w) raw w') \<and>
      auth_key s' = auth_key s \<and> session_id s' = session_id s"
proof -
  let ?q = "wrap_prefix cfg @ query"
  have fits: "length ?q \<le> 1024 * 1024" using assms(3) by linarith
  note wrap = api_wrap_fits[OF this]
  obtain r1 s1 w1 where send: "rpc_send_encrypted lib d t ?q True (s, w) = (r1, (s1, w1))"
    by (metis prod.exhaust)
  obtain r2 s2 w2 where dr: "drain lib t 64 (s1, w1) = (r2, (s2, w2))" by (metis prod.exhaust)
  note d = drain_in[OF dr]
  have run: "(res, (s', w')) = (case r1 of
      Ok _ \<Rightarrow> (case r2 of
        Ok None \<Rightarrow> (Ok None, (s2, w2))
      | Ok (Some raw) \<Rightarrow> (case unwrap_response gunzip raw max_len of
          Ok resp \<Rightarrow> (Ok (Some resp), (s2, w2))
        | Fail \<Rightarrow> (Fail, (s2, w2)) | Oob \<Rightarrow> (Oob, (s2, w2)) | Fuel \<Rightarrow> (Fuel, (s2, w2)))
      | Fail \<Rightarrow> (Fail, (s2, w2)) | Oob \<Rightarrow> (Oob, (s2, w2)) | Fuel \<Rightarrow> (Fuel, (s2, w2)))
    | Fail \<Rightarrow> (Fail, (s1, w1)) | Oob \<Rightarrow> (Oob, (s1, w1)) | Fuel \<Rightarrow> (Fuel, (s1, w1)))"
    using assms(4) wrap send dr
    by (cases r1; cases r2) (auto simp: api_call_once_def bind_def ret_def split: outcome.splits option.splits)
  have unwrap: "unwrap_response gunzip raw max_len \<noteq> Oob \<and>
      (\<forall>resp. unwrap_response gunzip raw max_len = Ok resp \<longrightarrow> length resp \<le> max_len)" if "r2 = Ok (Some raw)" for raw
    using unwrap_response_in[OF assms(1) _ refl, of raw max_len] d that by auto
  show "res \<noteq> Oob"
    using run d rpc_send_encrypted_no_oob[OF assms(2,3) send] unwrap by (auto split: outcome.splits option.splits)
  have received: "received_after lib cfg d t query (s, w) raw w2" if "r1 = Ok ()" "delivers lib s1 t w1 (raws @ [raw]) w2"
      "length raws < 64" for raws raw
    using send fits that by (auto simp: received_after_def sends_query_def)
  show "length resp \<le> max_len \<and> (\<exists>raw. carries_answer raw \<and> unwrap_response gunzip raw max_len = Ok resp \<and>
        received_after lib cfg d t query (s, w) raw w')" if got: "res = Ok (Some resp)"
  proof -
    obtain raw where raw: "r1 = Ok ()" "r2 = Ok (Some raw)" "unwrap_response gunzip raw max_len = Ok resp" "w' = w2"
      using run got by (auto split: outcome.splits option.splits)
    from drain_received[OF dr[unfolded raw(2)]] obtain raws where "delivers lib s1 t w1 (raws @ [raw]) w2" "length raws < 64"
      by auto
    moreover have "carries_answer raw" using result_carries_answer(1)[of raw s2] d raw(2) by auto
    ultimately show ?thesis using received[OF raw(1)] raw unwrap[OF raw(2)] by blast
  qed
  show "(\<exists>raw. received_after lib cfg d t query (s, w) raw w') \<and> auth_key s' = auth_key s \<and> session_id s' = session_id s"
    if "res = Ok None"
  proof -
    have none: "r1 = Ok ()" "r2 = Ok None" "s' = s2" "w' = w2" using run that by (auto split: outcome.splits option.splits)
    from drain_received[OF dr[unfolded none(2)]] obtain raws raw x where "delivers lib s1 t w1 (raws @ [raw]) w2"
        "length raws < 64" "s2 = s1\<lparr>server_salt := x\<rparr>" by auto
    then show ?thesis using received[OF none(1)] none send_keeps[OF send] by auto
  qed
qed

text \<open>
  Where the frame may come from: the attempt with the first draw, or the one with the second
  draw, under the same key and session number and over what the first attempt has left.
\<close>

definition call_received ::
  "crypto_lib \<Rightarrow> api_config \<Rightarrow> draw \<Rightarrow> draw \<Rightarrow> transport \<Rightarrow> byte list \<Rightarrow> mtproto_session \<times> net \<Rightarrow> byte list \<Rightarrow> net \<Rightarrow> bool" where
  "call_received lib cfg d1 d2 t query sw raw w' \<longleftrightarrow>
     received_after lib cfg d1 t query sw raw w' \<or>
     (\<exists>refused s2 w2. received_after lib cfg d1 t query sw refused w2 \<and>
       auth_key s2 = auth_key (fst sw) \<and> session_id s2 = session_id (fst sw) \<and>
       received_after lib cfg d2 t query (s2, w2) raw w')"

lemma api_call_in:
  assumes "inflater_ok gunzip"
    and "lib_ok lib (draw_pad d1)" "lib_ok lib (draw_pad d2)"
    and "length (wrap_prefix cfg @ query) \<le> 1024 * 1024 - 44"
    and "api_call lib gunzip cfg d1 d2 t query max_len (s, w) = (res, (s', w'))"
  shows "res \<noteq> Oob \<and> (\<forall>resp. res = Ok resp \<longrightarrow> length resp \<le> max_len \<and>
    (\<exists>raw. carries_answer raw \<and> unwrap_response gunzip raw max_len = Ok resp \<and>
      call_received lib cfg d1 d2 t query (s, w) raw w'))"
proof -
  obtain r1 s1 w1 where one: "api_call_once lib gunzip cfg d1 t query max_len (s, w) = (r1, (s1, w1))"
    by (metis prod.exhaust)
  obtain r2 s2 w2 where two: "api_call_once lib gunzip cfg d2 t query max_len (s1, w1) = (r2, (s2, w2))"
    by (metis prod.exhaust)
  note first = api_call_once_in[OF assms(1,2,4) one] and second = api_call_once_in[OF assms(1,3,4) two]
  have eq: "(res, (s', w')) = (case r1 of
      Ok (Some resp) \<Rightarrow> (Ok resp, (s1, w1))
    | Ok None \<Rightarrow> (case r2 of
        Ok (Some resp) \<Rightarrow> (Ok resp, (s2, w2)) | Ok None \<Rightarrow> (Fail, (s2, w2))
      | Fail \<Rightarrow> (Fail, (s2, w2)) | Oob \<Rightarrow> (Oob, (s2, w2)) | Fuel \<Rightarrow> (Fuel, (s2, w2)))
    | Fail \<Rightarrow> (Fail, (s1, w1)) | Oob \<Rightarrow> (Oob, (s1, w1)) | Fuel \<Rightarrow> (Fuel, (s1, w1)))"
    using assms(5) one two
    by (auto simp: api_call_def bind_def ret_def fail_def split: outcome.splits option.splits)
  have "res \<noteq> Oob" using eq first(1) second(1) by (auto split: outcome.splits option.splits)
  moreover have "length resp \<le> max_len \<and> (\<exists>raw. carries_answer raw \<and> unwrap_response gunzip raw max_len = Ok resp \<and>
      call_received lib cfg d1 d2 t query (s, w) raw w')" if "res = Ok resp" for resp
  proof (cases "r1 = Ok None")
    case True
    then have "r2 = Ok (Some resp)" "w' = w2" using eq that by (auto split: outcome.splits option.splits)
    then show ?thesis using first(3)[OF True] second(2) by (auto simp: call_received_def)
  next
    case False
    then have "r1 = Ok (Some resp)" "w' = w1" using eq that by (auto split: outcome.splits option.splits)
    then show ?thesis using first(2) by (auto simp: call_received_def)
  qed
  ultimately show ?thesis by blast
qed

text \<open>
  C9. As long as the wrapped query has at most 1,048,532 bytes, a call touches no memory
  outside its buffers, whatever the peer sends. What it returns fits the caller's buffer and
  is the unpacked content of the last frame that was received, within 64 frames, after the
  query was sent the first time or, under the same key and session number, the second time.
  That frame is no service message: its constructor is none of these, or it is a container
  with a message that is none.
\<close>

theorem api_call_safe:
  assumes "inflater_ok gunzip"
    and "lib_ok lib (draw_pad d1)" "lib_ok lib (draw_pad d2)"
    and "length (wrap_prefix cfg @ query) \<le> 1024 * 1024 - 44"
    and "api_call lib gunzip cfg d1 d2 t query max_len (s, w) = (res, (s', w'))"
  shows "res \<noteq> Oob \<and> (\<forall>resp. res = Ok resp \<longrightarrow> length resp \<le> max_len \<and>
    (\<exists>raw. carries_answer raw \<and> unwrap_response gunzip raw max_len = Ok resp \<and>
      call_received lib cfg d1 d2 t query (s, w) raw w'))"
  by (rule api_call_in[OF assms])

end
