(* ===== verification/Api_Wire.thy ===== *)
theory Api_Wire
  imports Api_Call
begin

text \<open>
  The stack from the wire to the caller: transport, encryption, RPC framing and call loop
  together. A server that answers a query with sealed packets is understood, on any
  connection that keeps moving bytes.
\<close>

section \<open>The server's packets\<close>

record server_packet =
  sp_pad :: "nat \<Rightarrow> byte list"
  sp_salt :: u64
  sp_mid :: u64
  sp_seq :: u32
  sp_body :: "byte list"

definition packet_bytes :: "crypto_lib \<Rightarrow> mtproto_session \<Rightarrow> server_packet \<Rightarrow> byte list" where
  "packet_bytes lib s p = sealed lib (sp_pad p) 8 s
     (inner_message (sp_salt p) (session_id s) (sp_mid p) (sp_seq p) (sp_body p))"

definition packet_ok :: "crypto_lib \<Rightarrow> server_packet \<Rightarrow> bool" where
  "packet_ok lib p = (lib_ok lib (sp_pad p) \<and> length (sp_body p) \<le> 1048000)"

lemma sealed_aligned:
  assumes "lib_ok lib pad" "length plain < 2 ^ 62"
  shows "length (sealed lib pad x s plain) mod 4 = 0" "sealed lib pad x s plain \<noteq> []"
proof -
  have four: "(24 + a + b) mod 4 = 0" if "(a + b) mod 16 = 0" for a b :: nat using that by presburger
  show "length (sealed lib pad x s plain) mod 4 = 0"
    unfolding length_sealed[OF assms] using gen_padding_bounds(3)[of "length plain"] assms(2)
    by (intro four) simp
  have "length (sealed lib pad x s plain) \<noteq> 0" using length_sealed[OF assms] by simp
  then show "sealed lib pad x s plain \<noteq> []" by (metis list.size(3))
qed

lemma packet_bytes_size:
  assumes "packet_ok lib p"
  shows "length (packet_bytes lib s p) \<le> length (sp_body p) + 83"
    "length (packet_bytes lib s p) mod 4 = 0" "packet_bytes lib s p \<noteq> []"
proof -
  let ?m = "inner_message (sp_salt p) (session_id s) (sp_mid p) (sp_seq p) (sp_body p)"
  have lib: "lib_ok lib (sp_pad p)" and len: "length ?m < 2 ^ 62" using assms by (simp_all add: packet_ok_def)
  show "length (packet_bytes lib s p) \<le> length (sp_body p) + 83"
    using sealed_bound[OF lib len, of 8 s] by (simp add: packet_bytes_def)
  show "length (packet_bytes lib s p) mod 4 = 0" "packet_bytes lib s p \<noteq> []"
    unfolding packet_bytes_def by (rule sealed_aligned[OF lib len])+
qed

lemma packet_delivered:
  assumes "packet_ok lib p" "has_auth_key s" "transport_fd t \<ge> 0"
    and "incoming w = frame (packet_bytes lib s p) @ rest" "steady 4 (script w)"
    and "length (sp_body p) + 85 \<le> moves (script w)"
  obtains w' where "rpc_recv_encrypted lib s t (1024 * 1024) w = (Ok (sp_body p), w')"
    "incoming w' = rest" "steady 4 (script w')" "moves (script w) \<le> moves (script w') + length (sp_body p) + 85"
proof -
  let ?d = "packet_bytes lib s p"
  have body: "length (sp_body p) \<le> 1048000" and lib: "lib_ok lib (sp_pad p)"
    using assms(1) by (simp_all add: packet_ok_def)
  note size = packet_bytes_size[OF assms(1), of s]
  have "length ?d < 2 ^ 26" "length ?d + 1 < moves (script w)" "length ?d \<le> 1024 * 1024"
    using size(1) body assms(6) by simp_all
  from transport_recv_steady[OF assms(3) size(3,2) this(1) assms(5) this(2,3) assms(4)]
  obtain out w' where recv: "transport_recv t (1024 * 1024) w = (Ok out, w')" and
    left: "steady 4 (script w')" "moves (script w) \<le> moves (script w') + length ?d + 2" by blast
  have "length (sp_body p) \<le> 1024 * 1024" "length (sp_body p) < 2 ^ 20" using body by simp_all
  from recv_sealed[OF lib assms(2) this assms(4)[unfolded packet_bytes_def] recv]
  show ?thesis using that[of w'] left size(1) by simp
qed

definition packet_moves :: "server_packet list \<Rightarrow> nat" where
  "packet_moves ps = sum_list (map (\<lambda>p. length (sp_body p) + 85) ps)"

lemma packets_delivered:
  assumes "list_all (packet_ok lib) ps" "has_auth_key s" "transport_fd t \<ge> 0"
    and "incoming w = concat (map (\<lambda>p. frame (packet_bytes lib s p)) ps) @ rest"
    and "steady 4 (script w)" "packet_moves ps \<le> moves (script w)"
  shows "\<exists>w'. delivers lib s t w (map sp_body ps) w' \<and> incoming w' = rest"
  using assms
proof (induction ps arbitrary: w)
  case Nil
  then show ?case by (auto intro: delivers.none)
next
  case (Cons p ps)
  have inc: "incoming w = frame (packet_bytes lib s p) @ concat (map (\<lambda>p. frame (packet_bytes lib s p)) ps) @ rest"
    using Cons.prems(4) by simp
  have "packet_ok lib p" "length (sp_body p) + 85 \<le> moves (script w)"
    using Cons.prems(1,6) by (simp_all add: packet_moves_def)
  then obtain w1 where one: "rpc_recv_encrypted lib s t (1024 * 1024) w = (Ok (sp_body p), w1)"
    "incoming w1 = concat (map (\<lambda>p. frame (packet_bytes lib s p)) ps) @ rest" "steady 4 (script w1)"
    "moves (script w) \<le> moves (script w1) + length (sp_body p) + 85"
    using packet_delivered[OF _ Cons.prems(2,3) inc Cons.prems(5)] by metis
  moreover have "packet_moves ps \<le> moves (script w1)"
    using one(4) Cons.prems(6) by (simp add: packet_moves_def)
  ultimately obtain w' where "delivers lib s t w1 (map sp_body ps) w'" "incoming w' = rest"
    using Cons.IH[of w1] Cons.prems(1-3) by auto
  then show ?case using delivers.more[OF one(1)] by auto
qed

lemma packet_bytes_cong:
  "auth_key s' = auth_key s \<Longrightarrow> session_id s' = session_id s \<Longrightarrow> packet_bytes lib s' = packet_bytes lib s"
  by (simp add: fun_eq_iff packet_bytes_def sealed_def auth_key_id_def)

lemma query_sent:
  assumes "lib_ok lib (draw_pad d)" "length (wrap_prefix cfg @ query) \<le> 1024 * 1024 - 44"
    and "has_auth_key s" "transport_fd t \<ge> 0" "drawn d True s = (mid, seq, s')"
    and "steady 4 (script w)" "length (wrap_prefix cfg @ query) + 84 < moves (script w)"
  obtains w' where "sends_query lib cfg d t query s w s' w'" "incoming w' = incoming w"
    "steady 4 (script w')" "moves (script w) \<le> moves (script w') + length (wrap_prefix cfg @ query) + 84"
proof -
  let ?q = "wrap_prefix cfg @ query"
  let ?m = "inner_message (server_salt s') (session_id s') mid seq ?q"
  let ?d = "sealed lib (draw_pad d) 0 s' ?m"
  have small: "length ?m < 2 ^ 62" "length ?q < 2 ^ 62" "\<not> length ?q > 1024 * 1024 - 44"
    using assms(2) by simp_all
  note al = sealed_aligned[OF assms(1) small(1), of 0 s']
  have bound: "length ?d \<le> length ?q + 83" using sealed_bound[OF assms(1) small(1), of 0 s'] by simp
  then have "length ?d < 2 ^ 26" "length ?d < 2 ^ 64" "length ?d < moves (script w)"
    using assms(2,7) by simp_all
  then obtain w' where send: "transport_send t ?d w = (Ok (), w')" "steady 4 (script w')"
    "moves (script w) \<le> moves (script w') + length ?d + 1"
    using transport_send_steady[OF assms(4) al(2,1) _ assms(6)] by blast
  have "incoming w' = incoming w" using transport_send_sent[OF \<open>length ?d < 2 ^ 64\<close> send(1)] by simp
  moreover have "sends_query lib cfg d t query s w s' w'"
    unfolding sends_query_def
    using rpc_send_encrypted_eq[OF assms(1) small(2) assms(3,5), of t w] small(3) send(1) assms(2) by simp
  ultimately show ?thesis using that[of w'] send bound by simp
qed

text \<open>
  C2. From the wire to the caller: on a connection that stays up and moves at least four
  bytes per answered call, if the bytes coming in are the sealed packets of up to 63
  service messages and then of the result, in this order, a call of at most 1,048,532
  bytes returns the unpacked result.
\<close>

theorem api_call_end_to_end:
  assumes "lib_ok lib (draw_pad d1)" "length (wrap_prefix cfg @ query) \<le> 1024 * 1024 - 44"
    and "has_auth_key s" "transport_fd t \<ge> 0" "drawn d1 True s = (mid, seq, s1)"
    and "list_all (packet_ok lib) (ps @ [p])" "length ps < 64"
    and "\<forall>raw \<in> set (map sp_body ps). skipped raw" "sp_body p = enc_result req inner"
    and "incoming w = concat (map (\<lambda>p. frame (packet_bytes lib s p)) (ps @ [p]))" "steady 4 (script w)"
    and "length (wrap_prefix cfg @ query) + 85 + packet_moves (ps @ [p]) \<le> moves (script w)"
    and "rpc_unwrap_gzip gunzip inner max_len = Ok resp"
  shows "\<exists>w'. api_call lib gunzip cfg d1 d2 t query max_len (s, w) =
    (Ok resp, (absorb (map sp_body ps) s1, w')) \<and> incoming w' = []"
proof -
  have "length (wrap_prefix cfg @ query) + 84 < moves (script w)" using assms(12) by simp
  with assms(1-5,11) obtain w1 where q: "sends_query lib cfg d1 t query s w s1 w1" "incoming w1 = incoming w"
    "steady 4 (script w1)" "moves (script w) \<le> moves (script w1) + length (wrap_prefix cfg @ query) + 84"
    by (rule query_sent)
  note keep = drawn_keeps[OF assms(5)]
  have "incoming w1 = concat (map (\<lambda>p. frame (packet_bytes lib s1 p)) (ps @ [p])) @ []"
    using q(2) assms(10) packet_bytes_cong[OF keep(1,3)] by simp
  moreover have "packet_moves (ps @ [p]) \<le> moves (script w1)" using q(4) assms(12) by linarith
  ultimately obtain w2 where "delivers lib s1 t w1 (map sp_body (ps @ [p])) w2" "incoming w2 = []"
    using packets_delivered[OF assms(6) _ assms(4) _ q(3)] keep(2) assms(3) by blast
  moreover from this(1) have "delivers lib s1 t w1 (map sp_body ps @ [enc_result req inner]) w2"
    using assms(9) by simp
  ultimately show ?thesis
    using api_call_result[OF q(1) _ assms(8) _ assms(13)] assms(7) by auto
qed

section \<open>Examples\<close>

definition demo_packet :: "byte list \<Rightarrow> server_packet" where
  "demo_packet body = \<lparr>sp_pad = (\<lambda>n. replicate n 3), sp_salt = 7, sp_mid = 8, sp_seq = 9, sp_body = body\<rparr>"

definition ack_body :: "byte list" where
  "ack_body = le_bytes 4 TL_msgs_ack"

definition result_body :: "byte list" where
  "result_body = enc_result 5 [5, 6, 7, 8]"

definition salt_body :: "byte list" where
  "salt_body = enc_bad_salt 1 2 3 99"

definition demo_wire :: "byte list list \<Rightarrow> net" where
  "demo_wire bodies = \<lparr>script = replicate 20000 (Moves 4), sent = [],
     incoming = concat (map (\<lambda>b. frame (packet_bytes toy_lib demo_session (demo_packet b))) bodies),
     open_fds = {3}\<rparr>"

lemma demo_wire_steady: "steady 4 (script (demo_wire bs))" "moves (script (demo_wire bs)) = 20000"
  by (simp_all add: demo_wire_def steady_def moves_def list_all_iff)

lemma demo_packet_ok: "length b \<le> 1048000 \<Longrightarrow> packet_ok toy_lib (demo_packet b)"
  using toy_lib_ok by (simp add: packet_ok_def demo_packet_def)

lemma demo_bodies [simp]: "length ack_body = 4" "length result_body = 16" "length salt_body = 28"
  "sp_body (demo_packet b) = b"
  by (simp_all add: ack_body_def result_body_def salt_body_def enc_result_def enc_bad_salt_def demo_packet_def)

lemma ack_skipped: "skipped ack_body"
  by (simp add: skipped_def ack_body_def classify_service_frame.simps)

lemma absorb_acks: "absorb (replicate n ack_body) s = s"
  by (induction n) (simp_all add: absorb_def ack_body_def classify_service_frame.simps)

lemma demo_query_length: "length (wrap_prefix api_config_init @ [1, 2, 3, 4]) \<le> 200"
  by (simp add: wrap_prefix_def api_config_init_def cstr_def ascii_def length_enc_bytes length_enc_prefix)

lemma demo_pad: "lib_ok toy_lib (draw_pad toy_draw)"
  using toy_lib_ok by (simp add: toy_draw_def)

lemma demo_fd: "transport_fd demo_transport \<ge> 0"
  by (simp add: demo_transport_def)

lemma demo_unwrap: "rpc_unwrap_gzip (\<lambda>_ _. None) [5, 6, 7, 8] 100 = Ok [5, 6, 7, 8]"
  by (simp add: rpc_unwrap_gzip_def le_word_def)

text \<open>What the demo connection does when the client's query goes out.\<close>

lemma demo_sends:
  assumes "has_auth_key s" "steady 4 (script w)" "10000 \<le> moves (script w)"
  obtains s1 w1 where "sends_query toy_lib api_config_init toy_draw demo_transport [1, 2, 3, 4] s w s1 w1"
    "auth_key s1 = auth_key s" "session_id s1 = session_id s" "has_auth_key s1" "incoming w1 = incoming w"
    "steady 4 (script w1)" "moves (script w) \<le> moves (script w1) + 300"
proof -
  obtain mid seq s1 where d: "drawn toy_draw True s = (mid, seq, s1)" by (metis prod.exhaust)
  have "length (wrap_prefix api_config_init @ [1, 2, 3, 4]) \<le> 1024 * 1024 - 44"
    "length (wrap_prefix api_config_init @ [1, 2, 3, 4]) + 84 < moves (script w)"
    using demo_query_length assms(3) by simp_all
  from query_sent[OF demo_pad this(1) assms(1) demo_fd d assms(2) this(2)] obtain w1 where
    "sends_query toy_lib api_config_init toy_draw demo_transport [1, 2, 3, 4] s w s1 w1"
    "incoming w1 = incoming w" "steady 4 (script w1)"
    "moves (script w) \<le> moves (script w1) + length (wrap_prefix api_config_init @ [1, 2, 3, 4]) + 84" by blast
  with that[of s1 w1] drawn_keeps[OF d] assms(1) demo_query_length show ?thesis by simp
qed

lemma demo_delivers:
  assumes "has_auth_key s" "auth_key s = auth_key demo_session" "session_id s = session_id demo_session"
    and "incoming w = incoming (demo_wire bodies)" "list_all (\<lambda>b. length b \<le> 60) bodies" "length bodies \<le> 64"
    and "steady 4 (script w)" "9300 \<le> moves (script w)"
  shows "\<exists>w'. delivers toy_lib s demo_transport w bodies w'"
proof -
  let ?ps = "map demo_packet bodies"
  have "incoming w = concat (map (\<lambda>p. frame (packet_bytes toy_lib s p)) ?ps) @ []"
    using assms(4) packet_bytes_cong[OF assms(2,3)] by (simp add: demo_wire_def comp_def)
  moreover have "list_all (packet_ok toy_lib) ?ps"
    using assms(5) demo_packet_ok by (auto simp: list_all_iff)
  moreover have "sum_list (map (\<lambda>b. length b + 85) bs) \<le> length bs * 145"
    if "list_all (\<lambda>b. length b \<le> 60) bs" for bs :: "byte list list"
    using that by (induction bs) auto
  then have "packet_moves ?ps \<le> moves (script w)"
    using assms(5,6,8) by (fastforce simp: packet_moves_def comp_def)
  ultimately show ?thesis
    using packets_delivered[OF _ assms(1) demo_fd _ assms(7), of toy_lib ?ps "[]"] by (auto simp: comp_def)
qed

text \<open>An acknowledgement, a notice with a new salt, and the result in a container behind an acknowledgement.\<close>

definition demo_frames :: "service_frame list" where
  "demo_frames = [Single (Msgs_ack []), Single (New_session 1 2 55)]"

definition demo_answer :: answer where
  "demo_answer = Among [(9, 0, Msgs_ack [])] 10 1 []"

lemma demo_frames_ok: "list_all frame_ok demo_frames" "answer_ok 5 [5, 6, 7, 8] demo_answer"
  by (simp_all add: demo_frames_def demo_answer_def frame_ok_def answer_ok_def bundle_ok_def msg_ok_def msg_of_def
      enc_container_def enc_container_msg_def enc_result_def)

theorem api_call_returns_result_witness:
  "\<exists>s' w'. api_call toy_lib (\<lambda>_ _. None) api_config_init toy_draw toy_draw demo_transport [1, 2, 3, 4] 100
     (demo_session, demo_wire (map enc_frame demo_frames @ [enc_answer 5 [5, 6, 7, 8] demo_answer])) =
       (Ok [5, 6, 7, 8], (s', w')) \<and> server_salt s' = 55"
proof -
  let ?bs = "map enc_frame demo_frames @ [enc_answer 5 [5, 6, 7, 8] demo_answer]"
  obtain s1 w1 where q: "sends_query toy_lib api_config_init toy_draw demo_transport [1, 2, 3, 4]
      demo_session (demo_wire ?bs) s1 w1"
    "auth_key s1 = auth_key demo_session" "session_id s1 = session_id demo_session" "has_auth_key s1"
    "incoming w1 = incoming (demo_wire ?bs)" "steady 4 (script w1)"
    "moves (script (demo_wire ?bs)) \<le> moves (script w1) + 300"
    using demo_sends[OF demo_session_key demo_wire_steady(1), of ?bs] demo_wire_steady(2) by auto
  have "list_all (\<lambda>b. length b \<le> 60) ?bs" "length ?bs \<le> 64"
    by (simp_all add: demo_frames_def demo_answer_def msg_of_def enc_container_def enc_container_msg_def enc_result_def)
  then obtain w2 where "delivers toy_lib s1 demo_transport w1 ?bs w2"
    using demo_delivers[OF q(4,2,3,5) _ _ q(6)] q(7) demo_wire_steady(2) by auto
  from api_call_returns_result[OF q(1) this demo_frames_ok _ demo_unwrap] show ?thesis
    by (auto simp: demo_frames_def demo_answer_def msg_salts_def)
qed

theorem api_call_gives_up_witness:
  "fst (api_call toy_lib (\<lambda>_ _. None) api_config_init toy_draw toy_draw demo_transport [1, 2, 3, 4] 100
     (demo_session, demo_wire (replicate 64 ack_body))) = Fail"
proof -
  let ?acks = "replicate 64 ack_body"
  obtain s1 w1 where q: "sends_query toy_lib api_config_init toy_draw demo_transport [1, 2, 3, 4]
      demo_session (demo_wire ?acks) s1 w1"
    "auth_key s1 = auth_key demo_session" "session_id s1 = session_id demo_session" "has_auth_key s1"
    "incoming w1 = incoming (demo_wire ?acks)" "steady 4 (script w1)"
    "moves (script (demo_wire ?acks)) \<le> moves (script w1) + 300"
    using demo_sends[OF demo_session_key demo_wire_steady(1), of ?acks] demo_wire_steady(2) by auto
  obtain w2 where "delivers toy_lib s1 demo_transport w1 ?acks w2"
    using demo_delivers[OF q(4,2,3,5) _ _ q(6)] q(7) demo_wire_steady(2) by (auto simp: list_all_iff)
  from api_call_gives_up[OF q(1) this] ack_skipped show ?thesis by auto
qed

theorem api_call_retries_with_new_salt_witness:
  "\<exists>w s' w'. api_call toy_lib (\<lambda>_ _. None) api_config_init toy_draw toy_draw demo_transport [1, 2, 3, 4] 100
     (demo_session, w) = (Ok [5, 6, 7, 8], (s', w')) \<and> server_salt s' = 99"
proof -
  let ?p = "demo_packet salt_body"
  let ?w = "demo_wire [salt_body, result_body]"
  obtain s1 w1 where q: "sends_query toy_lib api_config_init toy_draw demo_transport [1, 2, 3, 4] demo_session ?w s1 w1"
    "auth_key s1 = auth_key demo_session" "session_id s1 = session_id demo_session" "has_auth_key s1"
    "incoming w1 = incoming ?w" "steady 4 (script w1)" "moves (script ?w) \<le> moves (script w1) + 300"
    using demo_sends[OF demo_session_key demo_wire_steady(1), of "[salt_body, result_body]"] demo_wire_steady(2)
    by auto
  have inc: "incoming w1 = frame (packet_bytes toy_lib s1 ?p) @ incoming (demo_wire [result_body])"
    using q(5) packet_bytes_cong[OF q(2,3)] by (simp add: demo_wire_def)
  have pk: "packet_ok toy_lib ?p" "length (sp_body ?p) + 85 \<le> moves (script w1)"
    using demo_packet_ok[of salt_body] q(7) demo_wire_steady(2) by simp_all
  obtain w2 where r: "rpc_recv_encrypted toy_lib s1 demo_transport (1024 * 1024) w1 = (Ok salt_body, w2)"
    "incoming w2 = incoming (demo_wire [result_body])" "steady 4 (script w2)"
    "moves (script w1) \<le> moves (script w2) + 113"
    using packet_delivered[OF pk(1) q(4) demo_fd inc q(6) pk(2)] by (simp add: add.assoc) blast
  have bad: "delivers toy_lib s1 demo_transport w1 ([] @ [enc_bad_salt 1 2 3 99]) w2"
    using r(1) by (auto simp: salt_body_def intro: delivers.intros)
  let ?s = "s1\<lparr>server_salt := 99\<rparr>"
  obtain s3 w3 where q2: "sends_query toy_lib api_config_init toy_draw demo_transport [1, 2, 3, 4] ?s w2 s3 w3"
    "auth_key s3 = auth_key ?s" "session_id s3 = session_id ?s" "has_auth_key s3"
    "incoming w3 = incoming w2" "steady 4 (script w3)" "moves (script w2) \<le> moves (script w3) + 300"
    using demo_sends[of ?s w2] q(4,7) r(3,4) demo_wire_steady(2) by auto
  have salt: "server_salt s3 = 99"
    using q2(1) send_keeps(3) by (fastforce simp: sends_query_def)
  obtain w4 where "delivers toy_lib s3 demo_transport w3 [result_body] w4"
    using demo_delivers[OF q2(4) _ _ _ _ _ q2(6), of "[result_body]"] q2(2,3,5,7) q(2,3,7) r(2,4)
      demo_wire_steady(2) by auto
  then have res: "delivers toy_lib s3 demo_transport w3 ([] @ [enc_result 5 [5, 6, 7, 8]]) w4"
    by (simp add: result_body_def)
  from api_call_retries_with_new_salt[OF q(1) bad _ _ q2(1) res _ _ demo_unwrap] salt show ?thesis
    by (auto simp: absorb_def)
qed

theorem api_call_safe_witness:
  "\<exists>s' w' raw. api_call toy_lib (\<lambda>_ _. None) api_config_init toy_draw toy_draw demo_transport [1, 2, 3, 4] 100
     (demo_session, demo_wire [ack_body, result_body]) = (Ok [5, 6, 7, 8], (s', w')) \<and> carries_answer raw \<and>
     call_received toy_lib api_config_init toy_draw toy_draw demo_transport [1, 2, 3, 4]
       (demo_session, demo_wire [ack_body, result_body]) raw w'"
proof -
  let ?w = "demo_wire [ack_body, result_body]"
  obtain s1 w1 where q: "sends_query toy_lib api_config_init toy_draw demo_transport [1, 2, 3, 4] demo_session ?w s1 w1"
    "auth_key s1 = auth_key demo_session" "session_id s1 = session_id demo_session" "has_auth_key s1"
    "incoming w1 = incoming ?w" "steady 4 (script w1)" "moves (script ?w) \<le> moves (script w1) + 300"
    using demo_sends[OF demo_session_key demo_wire_steady(1), of "[ack_body, result_body]"] demo_wire_steady(2)
    by auto
  obtain w2 where "delivers toy_lib s1 demo_transport w1 [ack_body, result_body] w2"
    using demo_delivers[OF q(4,2,3,5) _ _ q(6)] q(7) demo_wire_steady(2) by auto
  then have "delivers toy_lib s1 demo_transport w1 ([ack_body] @ [enc_result 5 [5, 6, 7, 8]]) w2"
    by (simp add: result_body_def)
  from api_call_result[OF q(1) this _ _ demo_unwrap] ack_skipped
  have run: "api_call toy_lib (\<lambda>_ _. None) api_config_init toy_draw toy_draw demo_transport [1, 2, 3, 4] 100
      (demo_session, ?w) = (Ok [5, 6, 7, 8], (absorb [ack_body] s1, w2))" by simp
  have "inflater_ok (\<lambda>_ _. None)" by (simp add: inflater_ok_def)
  moreover have "length (wrap_prefix api_config_init @ [1, 2, 3, 4]) \<le> 1024 * 1024 - 44"
    using demo_query_length by simp
  ultimately show ?thesis using api_call_safe[OF _ demo_pad demo_pad _ run] run by blast
qed

theorem api_call_end_to_end_witness:
  "\<exists>s' w'. api_call toy_lib (\<lambda>_ _. None) api_config_init toy_draw toy_draw demo_transport [1, 2, 3, 4] 100
     (demo_session, demo_wire [ack_body, ack_body, result_body]) = (Ok [5, 6, 7, 8], (s', w')) \<and> incoming w' = []"
proof -
  let ?ps = "[demo_packet ack_body, demo_packet ack_body]" and ?p = "demo_packet result_body"
  let ?w = "demo_wire [ack_body, ack_body, result_body]"
  obtain mid seq s1 where d: "drawn toy_draw True demo_session = (mid, seq, s1)" by (metis prod.exhaust)
  have "\<exists>w'. api_call toy_lib (\<lambda>_ _. None) api_config_init toy_draw toy_draw demo_transport [1, 2, 3, 4] 100
     (demo_session, ?w) = (Ok [5, 6, 7, 8], (absorb (map sp_body ?ps) s1, w')) \<and> incoming w' = []"
    by (rule api_call_end_to_end[OF demo_pad _ demo_session_key demo_fd d, where ps = ?ps and p = ?p])
      (use demo_query_length demo_packet_ok[of ack_body] demo_packet_ok[of result_body] ack_skipped demo_unwrap
        demo_wire_steady[of "[ack_body, ack_body, result_body]"]
        in \<open>auto simp: packet_moves_def demo_wire_def result_body_def enc_result_def\<close>)
  then show ?thesis by blast
qed

end
