(* ===== verification/Client.thy ===== *)
theory Client
  imports TL_State TL_Extract Api_Wire
begin

text \<open>
  What the callers of \<open>api_call\<close> share: the environment of a call, the first checks on an
  answer and the report of a server error. A client function works on the session and the
  network, on the caller's \<open>RpcError\<close> if there is one, and on the structure it fills.
\<close>

section \<open>Environment\<close>

text \<open>
  Call number \<open>k\<close> of a function takes the draws \<open>2 * k\<close> and \<open>2 * k + 1\<close> for its two
  attempts.
\<close>

record client_env =
  cl_lib :: crypto_lib
  cl_gunzip :: inflater
  cl_cfg :: api_config
  cl_transport :: transport
  cl_draws :: "nat \<Rightarrow> draw"

type_synonym link = "mtproto_session \<times> net"
type_synonym 'a request = "(link \<times> rpc_error option, 'a) cfun"
type_synonym ('o, 'a) client = "((link \<times> rpc_error option) \<times> 'o, 'a) cfun"

definition client_call :: "client_env \<Rightarrow> nat \<Rightarrow> byte list \<Rightarrow> nat \<Rightarrow> (link, byte list) cfun" where
  "client_call E k query max_len =
     api_call (cl_lib E) (cl_gunzip E) (cl_cfg E) (cl_draws E (2 * k)) (cl_draws E (2 * k + 1))
       (cl_transport E) query max_len"

section \<open>Answers\<close>

text \<open>\<open>if (err) { err->error_code = 0; ... }\<close>\<close>

definition clear_err :: "unit request" where
  "clear_err = put_out (\<lambda>_. \<lparr>error_code = 0, error_msg = [], migrate_dc = -1, flood_wait_secs = 0\<rparr>)"

text \<open>\<open>if (err) rpc_parse_error(resp, resp_len, err);\<close>\<close>

definition report_err :: "byte list \<Rightarrow> unit request" where
  "report_err resp = (case rpc_parse_error resp of
     Ok e \<Rightarrow> put_out (\<lambda>_. e) | Fail \<Rightarrow> skip | Oob \<Rightarrow> lift Oob | Fuel \<Rightarrow> lift Fuel)"

text \<open>
  A call, the length check, the constructor, and the branch for \<open>rpc_error\<close>; the second
  form is that of the functions whose error structure is local.
\<close>

definition rpc_answer :: "client_env \<Rightarrow> nat \<Rightarrow> byte list \<Rightarrow> nat \<Rightarrow> (u32 \<times> byte list) request" where
  "rpc_answer E k query max_len =
     bind (on_fst (client_call E k query max_len)) (\<lambda>resp.
       if length resp < 4 then fail
       else let top = le_word (take 4 resp) in
         if top = TL_rpc_error then bind (report_err resp) (\<lambda>_. fail)
         else ret (top, resp))"

definition rpc_answer_local ::
  "client_env \<Rightarrow> nat \<Rightarrow> byte list \<Rightarrow> nat \<Rightarrow> nat \<Rightarrow> (link, u32 \<times> byte list) cfun" where
  "rpc_answer_local E k query max_len min_len =
     bind (client_call E k query max_len) (\<lambda>resp.
       if length resp < min_len then fail
       else let top = le_word (take 4 resp) in
         if top = TL_rpc_error then fail else ret (top, resp))"

text \<open>A query that has to fit a buffer of \<open>cap\<close> bytes.\<close>

definition query_of :: "tl_writer \<Rightarrow> nat \<Rightarrow> ('s, byte list) cfun" where
  "query_of w cap = (if wr_len w > cap then fail else ret (wr_data w))"

text \<open>A pointer from \<open>tl_read_bytes\<close> that is used with the length it stored: 0 for \<open>NULL\<close>.\<close>

definition bytes_of :: "byte list option \<Rightarrow> byte list" where
  "bytes_of v = (case v of None \<Rightarrow> [] | Some bs \<Rightarrow> bs)"

text \<open>A read into \<open>*out\<close> where \<open>out\<close> may be \<open>NULL\<close>.\<close>

definition read_to :: "('r, 'a) cfun \<Rightarrow> ('a \<Rightarrow> 'o \<Rightarrow> 'o) \<Rightarrow> ('r \<times> 'o, unit) cfun" where
  "read_to m f = bind (on_fst m) (\<lambda>x. upd (f x))"

text \<open>\<open>if (r.len - r.pos >= n) body\<close>\<close>

definition when_avail :: "nat \<Rightarrow> (tl_reader \<times> 'o, unit) cfun \<Rightarrow> (tl_reader \<times> 'o, unit) cfun" where
  "when_avail n m ro = (if avail (fst ro) \<ge> n then m ro else (Ok (), ro))"

text \<open>\<open>if (tl_reader_ok(&r) && r.len - r.pos >= n) body\<close>\<close>

definition when_ready :: "nat \<Rightarrow> (tl_reader \<times> 'o, unit) cfun \<Rightarrow> (tl_reader \<times> 'o, unit) cfun" where
  "when_ready n m ro = (if tl_reader_ok (fst ro) \<and> avail (fst ro) \<ge> n then m ro else (Ok (), ro))"

text \<open>A block with a local variable; on success its value goes into the caller's structure.\<close>

definition with_local ::
  "'l \<Rightarrow> ('r \<times> 'l, unit) cfun \<Rightarrow> ('l \<Rightarrow> 'c \<Rightarrow> 'c) \<Rightarrow> ('r \<times> 'c, unit) cfun" where
  "with_local x m f s = (case m (fst s, x) of (res, (r, y)) \<Rightarrow>
     (case res of
        Ok _ \<Rightarrow> (Ok (), (r, f y (snd s)))
      | Fail \<Rightarrow> (Fail, (r, snd s)) | Oob \<Rightarrow> (Oob, (r, snd s)) | Fuel \<Rightarrow> (Fuel, (r, snd s))))"

text \<open>A call whose failure is a case of its own: \<open>if (f(...) != 0) ...\<close>.\<close>

definition attempt :: "('s, 'a) cfun \<Rightarrow> ('s, 'a option) cfun" where
  "attempt m s = (case m s of
     (Ok v, s') \<Rightarrow> (Ok (Some v), s') | (Fail, s') \<Rightarrow> (Ok None, s') | (Oob, s') \<Rightarrow> (Oob, s') | (Fuel, s') \<Rightarrow> (Fuel, s'))"

text \<open>Sequencing of results without a state.\<close>

definition obind :: "'a outcome \<Rightarrow> ('a \<Rightarrow> 'b outcome) \<Rightarrow> 'b outcome" where
  "obind res f = (case res of Ok x \<Rightarrow> f x | Fail \<Rightarrow> Fail | Oob \<Rightarrow> Oob | Fuel \<Rightarrow> Fuel)"

lemma obind_Ok [simp]: "obind (Ok x) f = f x"
  by (simp add: obind_def)

lemma bind_ret_right: "bind m ret = m"
  by (rule ext) (simp add: bind_def ret_def split: prod.splits outcome.splits)

section \<open>Safety\<close>

text \<open>
  The laws of the libraries, and a client description that leaves room for the query.
\<close>

definition client_ok :: "client_env \<Rightarrow> bool" where
  "client_ok E = (inflater_ok (cl_gunzip E) \<and> (\<forall>k. lib_ok (cl_lib E) (draw_pad (cl_draws E k))) \<and>
     length (wrap_prefix (cl_cfg E)) \<le> 8192)"

abbreviation (input) anywhere :: "'s \<Rightarrow> bool" where "anywhere \<equiv> \<lambda>_. True"

lemma safe_anywhereI: "(\<And>s. fst (m s) \<noteq> Oob) \<Longrightarrow> safe anywhere m"
  by (simp add: safe_def)

lemma client_call_in:
  assumes "client_ok E" "length query \<le> 1000000"
  shows "safe anywhere (client_call E k query max_len)"
    and "yields (client_call E k query max_len) (\<lambda>resp. length resp \<le> max_len)"
proof -
  have in_call: "fst (client_call E k query max_len sw) \<noteq> Oob \<and>
      (\<forall>resp. fst (client_call E k query max_len sw) = Ok resp \<longrightarrow> length resp \<le> max_len)" for sw
  proof -
    obtain s w where sw: "sw = (s, w)" by (rule prod.exhaust)
    obtain res s' w' where run: "client_call E k query max_len (s, w) = (res, (s', w'))"
      by (metis prod.exhaust)
    have "length (wrap_prefix (cl_cfg E) @ query) \<le> 1024 * 1024 - 44"
      using assms by (simp add: client_ok_def)
    with api_call_in[OF _ _ _ _ run[unfolded client_call_def]] assms(1) show ?thesis
      by (simp add: sw run client_ok_def)
  qed
  show "safe anywhere (client_call E k query max_len)" using in_call by (intro safe_anywhereI) simp
  show "yields (client_call E k query max_len) (\<lambda>resp. length resp \<le> max_len)"
    using in_call by (auto simp: yields_def)
qed

lemma local_reader_in:
  assumes "keeps (within (mem_inv d) (length d)) m" "length d < 2 ^ 62"
  shows "no_fault (fst (m (tl_reader_init d (length d))))"
proof -
  have "within (mem_inv d) (length d) (tl_reader_init d (length d))"
    using assms(2) by (simp add: within_def mem_inv_def rd_at_init rd_at_wf remaining_def)
  with assms(1) show ?thesis by (simp add: keeps_def)
qed

lemma rpc_parse_error_in:
  assumes "length data < 2 ^ 62"
  shows "rpc_parse_error data \<noteq> Oob"
proof -
  have "keeps (within (mem_inv data) (length data)) (bind tl_read_uint32 (\<lambda>_. bind tl_read_int32 (\<lambda>code.
      bind tl_read_string (\<lambda>str. case str of None \<Rightarrow> ret (f code) | Some str \<Rightarrow> ret (g code str)))))"
    for f :: "int \<Rightarrow> rpc_error" and g
    by (intro keeps_rules)
  from local_reader_in[OF this assms] show ?thesis
    unfolding rpc_parse_error_def Let_def no_fault_def by simp
qed

lemma safe_report [safe_rules]:
  "length resp < 2 ^ 62 \<Longrightarrow> safe anywhere (report_err resp)"
  using rpc_parse_error_in[of resp]
  by (auto simp: report_err_def safe_def put_out_def ret_def lift_def split: outcome.splits)

lemma safe_query [safe_rules]: "safe I (query_of w cap)"
  by (simp add: query_of_def safe_simple)

lemma yields_query: "wr_sync w \<Longrightarrow> yields (query_of w cap) (\<lambda>q. q = wr_data w \<and> length q \<le> cap)"
  by (simp add: query_of_def yields_simple wr_sync_len)

lemma rpc_answer_in:
  assumes "client_ok E" "length query \<le> 1000000" "max_len < 2 ^ 62"
  shows "safe anywhere (rpc_answer E k query max_len)"
    and "yields (rpc_answer E k query max_len) (\<lambda>(top, resp). 4 \<le> length resp \<and> length resp \<le> max_len)"
proof -
  note call = client_call_in[OF assms(1,2), of k max_len]
  have "safe (beside anywhere anywhere) (rpc_answer E k query max_len)"
    unfolding rpc_answer_def
    by (rule safe_bind_yields[OF safe_beside(1)[OF call(1)] yields_lifted(2)[OF call(2)]])
      (use assms(3) in \<open>auto intro!: safe_rules simp: Let_def beside_def[abs_def]\<close>)
  then show "safe anywhere (rpc_answer E k query max_len)" by (simp add: beside_def[abs_def])
  show "yields (rpc_answer E k query max_len) (\<lambda>(top, resp). 4 \<le> length resp \<and> length resp \<le> max_len)"
    unfolding rpc_answer_def Let_def
    by (rule yields_bind_value[OF yields_lifted(2)[OF call(2)]])
      (auto intro!: yields_if yields_simple yields_bind)
qed

lemma rpc_answer_local_in:
  assumes "client_ok E" "length query \<le> 1000000"
  shows "safe anywhere (rpc_answer_local E k query max_len min_len)"
    and "yields (rpc_answer_local E k query max_len min_len)
      (\<lambda>(top, resp). min_len \<le> length resp \<and> length resp \<le> max_len)"
  unfolding rpc_answer_local_def Let_def
  by (auto intro!: safe_rules client_call_in[OF assms] yields_bind_value[OF client_call_in(2)[OF assms]]
      yields_if yields_simple)

text \<open>The shapes in which the client functions use them.\<close>

lemma safe_answered:
  assumes "client_ok E" "length query \<le> 1000000" "max_len < 2 ^ 62"
    and "\<And>top resp. 4 \<le> length resp \<Longrightarrow> length resp \<le> max_len \<Longrightarrow> safe (beside anywhere J) (f top resp)"
  shows "safe (beside anywhere J) (bind (on_fst (rpc_answer E k query max_len)) (\<lambda>(top, resp). f top resp))"
  by (rule safe_bind_yields[OF safe_beside(1)[OF rpc_answer_in(1)[OF assms(1-3)]]
      yields_lifted(2)[OF rpc_answer_in(2)[OF assms(1-3)]]]) (use assms(4) in auto)

lemma safe_answered_local:
  assumes "client_ok E" "length query \<le> 1000000"
    and "\<And>top resp. min_len \<le> length resp \<Longrightarrow> length resp \<le> max_len \<Longrightarrow>
      safe (beside anywhere J) (f top resp)"
  shows "safe (beside anywhere J)
    (bind (on_fst (rpc_answer_local E k query max_len min_len)) (\<lambda>(top, resp). f top resp))"
  by (rule safe_bind_yields[OF safe_beside(1)[OF rpc_answer_local_in(1)[OF assms(1,2)]]
      yields_lifted(2)[OF rpc_answer_local_in(2)[OF assms(1,2)]]]) (use assms(3) in auto)

lemma safe_queried:
  assumes "wr_sync w" "\<And>q. length q \<le> cap \<Longrightarrow> safe I (f q)"
  shows "safe I (bind (query_of w cap) f)"
  by (rule safe_bind_yields[OF safe_query yields_query[OF assms(1)]]) (use assms(2) in auto)

lemma safe_upd [safe_rules]: "(\<And>c. J c \<Longrightarrow> J (f c)) \<Longrightarrow> safe (beside I J) (upd f)"
  by (simp add: safe_def beside_def upd_def)

lemma safe_clear [safe_rules]: "safe anywhere clear_err"
  by (simp add: safe_def clear_err_def put_out_def)

lemma keeps_read_to [keeps_rules]:
  assumes "keeps I m" "\<And>x c. J c \<Longrightarrow> J (f x c)"
  shows "keeps (beside I J) (read_to m f)"
  unfolding read_to_def by (intro keeps_rules assms)

lemma keeps_when_avail [keeps_rules]:
  "keeps I m \<Longrightarrow> keeps I (when_avail n m)" "keeps I m \<Longrightarrow> keeps I (when_ready n m)"
  by (simp_all add: keeps_def when_avail_def when_ready_def)

lemma keeps_with_local:
  assumes "keeps (beside I K) m" "K x" "\<And>y c. K y \<Longrightarrow> J c \<Longrightarrow> J (f y c)"
  shows "keeps (beside I J) (with_local x m f)"
proof (rule keepsI)
  fix s assume s: "beside I J s"
  obtain res r y where m: "m (fst s, x) = (res, (r, y))" by (metis prod.exhaust)
  have "beside I K (fst s, x)" using s assms(2) by (simp add: beside_def)
  from keepsD[OF assms(1) this m] show "no_fault (fst (with_local x m f s)) \<and> beside I J (snd (with_local x m f s))"
    using s assms(3) by (cases res) (simp_all add: with_local_def m beside_def)
qed

lemma keeps_put_beside [keeps_rules]:
  "(\<And>v. J v \<Longrightarrow> J (map_option f v)) \<Longrightarrow> keeps (beside I J) (put_out f)"
  by (simp add: keeps_def beside_def put_out_def)

lemma safe_get_bind:
  assumes "\<And>c. J c \<Longrightarrow> safe (beside I J) (f c)"
  shows "safe (beside I J) (bind get f)"
  using assms by (auto simp: safe_def bind_def get_def beside_def)

lemma safe_answered_plain:
  assumes "client_ok E" "length query \<le> 1000000" "max_len < 2 ^ 62"
    and "\<And>top resp. safe anywhere (f top resp)"
  shows "safe anywhere (bind (rpc_answer E k query max_len) (\<lambda>(top, resp). f top resp))"
  using safe_bind[OF rpc_answer_in(1)[OF assms(1-3)], where f = "\<lambda>(top, resp). f top resp"] assms(4)
  by (simp add: split_beta)

section \<open>Encoded answers\<close>

lemma takes_st_when:
  "(bit flags i \<Longrightarrow> takes_st m bs c () c') \<Longrightarrow>
   takes_st (when_bit flags i m) (opt flags i bs) c () (if bit flags i then c' else c)"
  by (simp add: when_bit_def opt_def takes_st_fields)

lemma takes_st_seqs:
  "takes_st (seqs []) [] c () c"
  "takes_st m bs c () c1 \<Longrightarrow> takes_st (seqs (m' # ms)) cs c1 () c' \<Longrightarrow>
    takes_st (seqs (m # m' # ms)) (bs @ cs) c () c'"
  "takes_st m bs c () c1 \<Longrightarrow> takes_st (seqs [m]) bs c () c1"
  using takes_st_bind[of m bs c "()" c1 "\<lambda>_. seqs (m' # ms)" cs "()" c']
  by (simp_all add: takes_st_fields bind_ret_right)

lemma takes_read_to: "takes m bs x \<Longrightarrow> takes_st (read_to m f) bs c () (f x c)"
  unfolding read_to_def using takes_st_read[OF _ takes_st_fields(1), of m bs x f c] by simp

lemma answered_local:
  assumes "client_call E k query max_len link = (Ok resp, link')" "min_len \<le> length resp"
    and "le_word (take 4 resp) \<noteq> TL_rpc_error"
  shows "rpc_answer_local E k query max_len min_len link = (Ok (le_word (take 4 resp), resp), link')"
  using assms by (simp add: rpc_answer_local_def bind_def ret_def Let_def)

section \<open>An example connection\<close>

text \<open>
  A server that answers one call after the other with the given objects, as long as the
  connection moves; \<open>n\<close> bounds the socket calls that are left.
\<close>

definition demo_client :: client_env where
  "demo_client = \<lparr>cl_lib = toy_lib, cl_gunzip = (\<lambda>_ _. None), cl_cfg = api_config_init,
     cl_transport = demo_transport, cl_draws = (\<lambda>_. toy_draw)\<rparr>"

definition demo_answers :: "byte list list \<Rightarrow> byte list" where
  "demo_answers inners =
     concat (map (\<lambda>b. frame (packet_bytes toy_lib demo_session (demo_packet (enc_result 5 b)))) inners)"

definition demo_link :: "byte list list \<Rightarrow> nat \<Rightarrow> link" where
  "demo_link inners n = (demo_session,
     \<lparr>script = replicate n (Moves 4), sent = [], incoming = demo_answers inners, open_fds = {3}\<rparr>)"

definition answering :: "byte list list \<Rightarrow> nat \<Rightarrow> link \<Rightarrow> bool" where
  "answering inners n link = (has_auth_key (fst link) \<and> auth_key (fst link) = auth_key demo_session \<and>
     session_id (fst link) = session_id demo_session \<and> steady 4 (script (snd link)) \<and>
     n \<le> moves (script (snd link)) \<and> incoming (snd link) = demo_answers inners)"

lemma demo_link_answering: "answering inners n (demo_link inners n)"
  using demo_session_key
  by (simp add: answering_def demo_link_def steady_def moves_def list_all_iff)

lemma demo_client_ok: "client_ok demo_client"
  using demo_pad demo_query_length by (simp add: client_ok_def demo_client_def inflater_ok_def)

lemma demo_call:
  assumes "answering (inner # inners) n link" "length query + length inner + 500 + m \<le> n"
    and "length query \<le> 1000000" "length inner \<le> 1000000" "length inner \<le> max_len"
    and "length inner < 4 \<or> le_word (take 4 inner) \<noteq> CRC_gzip_packed"
  obtains link' where "client_call demo_client k query max_len link = (Ok inner, link')"
    "answering inners m link'"
proof -
  obtain s w where link: "link = (s, w)" by (rule prod.exhaust)
  note at = assms(1)[unfolded answering_def link fst_conv snd_conv]
  let ?q = "wrap_prefix api_config_init @ query"
  have "length (wrap_prefix api_config_init) \<le> 196" using demo_query_length by simp
  then have q: "length ?q \<le> 1024 * 1024 - 44" "length ?q + 84 < moves (script w)"
    "length ?q + 84 + (length inner + 12 + 85) + m \<le> moves (script w)"
    using assms(2,3) at by simp_all
  obtain mid seq s1 where d: "drawn toy_draw True s = (mid, seq, s1)" by (metis prod.exhaust)
  note keep = drawn_keeps[OF d]
  obtain w1 where send: "sends_query toy_lib api_config_init toy_draw demo_transport query s w s1 w1"
    "incoming w1 = incoming w" "steady 4 (script w1)" "moves (script w) \<le> moves (script w1) + length ?q + 84"
    using query_sent[OF demo_pad q(1) _ demo_fd d _ q(2)] at by metis
  let ?p = "demo_packet (enc_result 5 inner)"
  have body: "length (sp_body ?p) = length inner + 12" by (simp add: enc_result_def)
  have "packet_bytes toy_lib s1 = packet_bytes toy_lib demo_session"
    using keep at by (intro packet_bytes_cong) simp_all
  then have inc: "incoming w1 = frame (packet_bytes toy_lib s1 ?p) @ demo_answers inners"
    using send(2) at by (simp add: demo_answers_def)
  have "packet_ok toy_lib ?p" by (rule demo_packet_ok) (use assms(4) in \<open>simp add: enc_result_def\<close>)
  moreover have "has_auth_key s1" using keep at by simp
  moreover have "length (sp_body ?p) + 85 \<le> moves (script w1)" using q(3) send(4) body by linarith
  ultimately obtain w2 where recv: "rpc_recv_encrypted toy_lib s1 demo_transport (1024 * 1024) w1 = (Ok (sp_body ?p), w2)"
    "incoming w2 = demo_answers inners" "steady 4 (script w2)"
    "moves (script w1) \<le> moves (script w2) + length (sp_body ?p) + 85"
    using packet_delivered[OF _ _ demo_fd inc send(3)] by metis
  have "delivers toy_lib s1 demo_transport w1 ([] @ [enc_result 5 inner]) w2"
    using delivers.more[OF recv(1) delivers.none] by simp
  moreover have "rpc_unwrap_gzip (\<lambda>_ _. None) inner max_len = Ok inner"
    using assms(5,6) by (auto simp: rpc_unwrap_gzip_def)
  ultimately have "client_call demo_client k query max_len link = (Ok inner, (s1, w2))"
    using api_call_result[OF send(1), of "[]"] by (simp add: client_call_def demo_client_def link absorb_def)
  moreover have "answering inners m (s1, w2)"
    using keep at recv body q(3) send(4) by (simp add: answering_def)
  ultimately show ?thesis by (rule that)
qed

end
