(* ===== verification/Auth_2FA.thy ===== *)
theory Auth_2FA
  imports Client Crypto_BN TL_Extract
begin

text \<open>
  Two-factor login of \<open>src/src/infrastructure/auth_2fa.c\<close>: the account's password
  parameters, the SRP proof and \<open>auth.checkPassword\<close>. The proof is compared with the
  formula of the protocol and with a server that holds the verifier.
\<close>

section \<open>The password parameters\<close>

abbreviation (input) CRC_account_getPassword :: u32 where "CRC_account_getPassword \<equiv> 0x548a30f5"
abbreviation (input) CRC_auth_checkPassword :: u32 where "CRC_auth_checkPassword \<equiv> 0xd18b4d16"
abbreviation (input) CRC_KdfAlgoPBKDF2 :: u32 where
  "CRC_KdfAlgoPBKDF2 \<equiv> TL_passwordKdfAlgoSHA256SHA256PBKDF2HMACSHA512iter100000SHA256ModPow"
abbreviation (input) SRP_PRIME_LEN :: nat where "SRP_PRIME_LEN \<equiv> 256"
abbreviation (input) SRP_SALT_MAX :: nat where "SRP_SALT_MAX \<equiv> 128"

text \<open>The salts are the bytes below their length fields.\<close>

record account_2fa_password =
  pw_has :: bool
  pw_srp_id :: int
  pw_B :: "byte list"
  pw_g :: int
  pw_p :: "byte list"
  pw_salt1 :: "byte list"
  pw_salt2 :: "byte list"

definition password_zero :: account_2fa_password where
  "password_zero = \<lparr>pw_has = False, pw_srp_id = 0, pw_B = replicate SRP_PRIME_LEN 0, pw_g = 0,
     pw_p = replicate SRP_PRIME_LEN 0, pw_salt1 = [], pw_salt2 = []\<rparr>"

definition parse_password_kdf_algo :: "(tl_reader \<times> account_2fa_password, unit) cfun" where
  "parse_password_kdf_algo =
     bind (on_fst (need_ok 4)) (\<lambda>_. bind (on_fst tl_read_uint32) (\<lambda>crc.
       if crc = TL_passwordKdfAlgoUnknown then fail
       else if crc \<noteq> CRC_KdfAlgoPBKDF2 then fail
       else
         bind (on_fst tl_read_bytes) (\<lambda>salt1. bind (on_fst tl_read_bytes) (\<lambda>salt2.
           if length (bytes_of salt1) > SRP_SALT_MAX \<or> length (bytes_of salt2) > SRP_SALT_MAX then fail
           else
             bind (on_fst (need 4)) (\<lambda>_. bind (on_fst tl_read_int32) (\<lambda>g.
             bind (on_fst tl_read_bytes) (\<lambda>p.
               if length (bytes_of p) \<noteq> SRP_PRIME_LEN then fail
               else upd (\<lambda>out. out\<lparr>pw_salt1 := bytes_of salt1, pw_salt2 := bytes_of salt2,
                 pw_g := g, pw_p := bytes_of p\<rparr>))))))))"

text \<open>The parameter fields and the ephemeral key, present when a password is set.\<close>

definition read_srp_B :: "(tl_reader \<times> account_2fa_password, unit) cfun" where
  "read_srp_B =
     bind (on_fst tl_read_bytes) (\<lambda>srpB.
       if srpB = None \<or> length (bytes_of srpB) = 0 \<or> length (bytes_of srpB) > SRP_PRIME_LEN then fail
       else
         bind (upd (\<lambda>out. out\<lparr>pw_B :=
           replicate (SRP_PRIME_LEN - length (bytes_of srpB)) 0 @ bytes_of srpB\<rparr>)) (\<lambda>_.
         bind (on_fst (need 8)) (\<lambda>_.
           read_to tl_read_int64 (\<lambda>i out. out\<lparr>pw_srp_id := i\<rparr>))))"

definition read_account_password :: "(tl_reader \<times> account_2fa_password, unit) cfun" where
  "read_account_password =
     bind (on_fst tl_read_uint32) (\<lambda>_. bind (on_fst tl_read_uint32) (\<lambda>flags.
     bind (upd (\<lambda>out. out\<lparr>pw_has := bit flags 2\<rparr>)) (\<lambda>_.
     seqs
       [when_bit flags 2 parse_password_kdf_algo,
        when_bit flags 2 read_srp_B,
        on_fst (when_bit flags 3 tl_skip_string),
        on_fst (when_bit flags 4 tl_skip_string)])))"

definition auth_2fa_get_password :: "client_env \<Rightarrow> (account_2fa_password, unit) client" where
  "auth_2fa_get_password E =
     bind (upd (\<lambda>_. password_zero)) (\<lambda>_.
     bind (on_fst (rpc_answer E 0 (wr_data (tl_write_uint32 tl_writer_init CRC_account_getPassword)) 2048))
       (\<lambda>(top, resp).
         if top \<noteq> TL_account_password then fail
         else on_snd (run_reader resp read_account_password)))"

section \<open>The proof\<close>

text \<open>
  \<open>kdf\<close> is OpenSSL's \<open>PKCS5_PBKDF2_HMAC\<close> with SHA-512: password, salt, iterations and
  output length; \<open>None\<close> is a failure.
\<close>

type_synonym kdf = "byte list \<Rightarrow> byte list \<Rightarrow> nat \<Rightarrow> nat \<Rightarrow> byte list option"

definition bytes_xor_eq :: "byte list \<Rightarrow> byte list \<Rightarrow> byte list" where
  "bytes_xor_eq dst src = map2 xor dst src"

definition sh_sha256 :: "hash \<Rightarrow> byte list \<Rightarrow> byte list \<Rightarrow> byte list" where
  "sh_sha256 H salt data = H (salt @ data @ salt)"

definition compute_x :: "hash \<Rightarrow> kdf \<Rightarrow> byte list \<Rightarrow> byte list \<Rightarrow> byte list \<Rightarrow> byte list outcome" where
  "compute_x H kdf password salt1 salt2 =
     (let inner = sh_sha256 H salt1 password;
          ph1 = sh_sha256 H salt2 inner
      in case kdf ph1 salt1 100000 64 of
           None \<Rightarrow> Fail
         | Some pbkdf2_out \<Rightarrow> Ok (sh_sha256 H salt2 pbkdf2_out))"

definition pack_g :: "int \<Rightarrow> byte list" where
  "pack_g g = (let gu = word_of_int g :: u32 in
     replicate (SRP_PRIME_LEN - 4) 0 @
       [ucast (drop_bit 24 gu), ucast (drop_bit 16 gu), ucast (drop_bit 8 gu), ucast gu])"

text \<open>The private exponent is the caller's or 256 random bytes; the result is \<open>A\<close> and \<open>M1\<close>.\<close>

definition srp_compute ::
  "hash \<Rightarrow> bn_lib \<Rightarrow> kdf \<Rightarrow> byte list option \<Rightarrow> account_2fa_password \<Rightarrow> byte list \<Rightarrow> byte list option \<Rightarrow>
   (byte list \<times> byte list) outcome" where
  "srp_compute H bn kdf rand P password a_in =
     (let g_bytes = pack_g (pw_g P) in
      case (case a_in of Some a \<Rightarrow> Some a | None \<Rightarrow> rand) of
        None \<Rightarrow> Fail
      | Some a \<Rightarrow>
          obind (crypto_bn_mod_exp bn SRP_PRIME_LEN g_bytes a (pw_p P)) (\<lambda>A.
          obind (compute_x H kdf password (pw_salt1 P) (pw_salt2 P)) (\<lambda>x.
          obind (crypto_bn_mod_exp bn SRP_PRIME_LEN g_bytes x (pw_p P)) (\<lambda>v.
            let k = H (pw_p P @ g_bytes);
                u = H (A @ pw_B P)
            in
          obind (crypto_bn_mod_mul bn SRP_PRIME_LEN k v (pw_p P)) (\<lambda>kv.
          obind (crypto_bn_mod_sub bn SRP_PRIME_LEN (pw_B P) kv (pw_p P)) (\<lambda>base.
          obind (crypto_bn_mod_exp bn SRP_PRIME_LEN base a (pw_p P)) (\<lambda>base_a.
          obind (crypto_bn_mod_exp bn SRP_PRIME_LEN base x (pw_p P)) (\<lambda>base_x.
          obind (crypto_bn_mod_exp bn SRP_PRIME_LEN base_x u (pw_p P)) (\<lambda>base_xu.
          obind (crypto_bn_mod_mul bn SRP_PRIME_LEN base_a base_xu (pw_p P)) (\<lambda>S.
            let K = H S;
                h_p = bytes_xor_eq (H (pw_p P)) (H g_bytes);
                h_s1 = H (pw_salt1 P);
                h_s2 = H (pw_salt2 P)
            in Ok (A, H (h_p @ h_s1 @ h_s2 @ A @ pw_B P @ K))))))))))))"

definition auth_2fa_srp_compute ::
  "hash \<Rightarrow> bn_lib \<Rightarrow> kdf \<Rightarrow> byte list option \<Rightarrow> account_2fa_password \<Rightarrow> byte list \<Rightarrow> byte list option \<Rightarrow>
   (byte list \<times> byte list) outcome" where
  "auth_2fa_srp_compute H bn kdf rand params password a_priv_in =
     (if \<not> pw_has params then Fail else srp_compute H bn kdf rand params password a_priv_in)"

section \<open>Checking the password\<close>

text \<open>The user's identifier out of \<open>auth.authorization\<close>; the pointer may be \<open>NULL\<close>.\<close>

definition read_user_id :: "(tl_reader \<times> int option, unit) cfun" where
  "read_user_id =
     bind (on_fst tl_read_uint32) (\<lambda>_. bind (on_fst tl_read_uint32) (\<lambda>flags. seqs
       [on_fst (when_bit flags 1 need_int32),
        bind (on_fst tl_read_uint32) (\<lambda>user_crc.
          if user_crc = TL_user \<or> user_crc = TL_user2 \<or> user_crc = TL_userFull then
            bind (on_fst tl_read_uint32) (\<lambda>_.
              when_avail 8 (bind (on_fst tl_read_int64) (\<lambda>uid. put_out (\<lambda>_. uid))))
          else put_out (\<lambda>_. 0))]))"

definition auth_2fa_check_password ::
  "client_env \<Rightarrow> bn_lib \<Rightarrow> kdf \<Rightarrow> byte list option \<Rightarrow> account_2fa_password \<Rightarrow> byte list \<Rightarrow>
   (int option, unit) client" where
  "auth_2fa_check_password E bn kdf rand params password =
     (if \<not> pw_has params then fail
      else bind (lift (srp_compute (sha256 (cl_lib E)) bn kdf rand params password None)) (\<lambda>(A, M1).
        let w = tl_write_uint32 tl_writer_init CRC_auth_checkPassword;
            w = tl_write_uint32 w TL_inputCheckPasswordSRP;
            w = tl_write_int64 w (pw_srp_id params);
            w = tl_write_bytes w A;
            w = tl_write_bytes w M1
        in
        bind (query_of w 512) (\<lambda>query.
        bind (on_fst (rpc_answer E 0 query 2048)) (\<lambda>(top, resp).
          if top \<noteq> TL_auth_authorization then fail
          else on_snd (run_reader resp read_user_id)))))"

section \<open>The formula of the protocol\<close>

lemma length_pack_g [simp]: "length (pack_g g) = 256"
  by (simp add: pack_g_def Let_def)

text \<open>The generator, prime, multiplier and verifier as numbers.\<close>

definition srp_g :: "account_2fa_password \<Rightarrow> nat" where
  "srp_g P = be_nat (pack_g (pw_g P))"

definition srp_k :: "hash \<Rightarrow> account_2fa_password \<Rightarrow> nat" where
  "srp_k H P = be_nat (H (pw_p P @ pack_g (pw_g P)))"

definition srp_verifier :: "account_2fa_password \<Rightarrow> byte list \<Rightarrow> nat" where
  "srp_verifier P x = srp_g P ^ be_nat x mod be_nat (pw_p P)"

text \<open>\<open>M1\<close> for a shared secret.\<close>

definition srp_proof :: "hash \<Rightarrow> account_2fa_password \<Rightarrow> byte list \<Rightarrow> nat \<Rightarrow> byte list" where
  "srp_proof H P A S =
     H (bytes_xor_eq (H (pw_p P)) (H (pack_g (pw_g P))) @ H (pw_salt1 P) @ H (pw_salt2 P) @
        A @ pw_B P @ H (be_pad 256 S))"

text \<open>\<open>S = (B - k * v) ^ (a + u * x) mod p\<close>\<close>

definition srp_secret :: "hash \<Rightarrow> account_2fa_password \<Rightarrow> byte list \<Rightarrow> byte list \<Rightarrow> byte list \<Rightarrow> nat" where
  "srp_secret H P x a A =
     (let N = be_nat (pw_p P);
          u = be_nat (H (A @ pw_B P));
          base = nat ((int (be_nat (pw_B P)) - int (srp_k H P * srp_verifier P x)) mod int N)
      in base ^ (be_nat a + u * be_nat x) mod N)"

lemma split_exponent: "(b ^ a mod n) * ((b ^ x mod n) ^ u mod n) mod n = b ^ (a + u * x) mod (n :: nat)"
proof -
  have "(b ^ x mod n) ^ u mod n = b ^ (u * x) mod n"
    by (simp add: power_mod mult.commute flip: power_mult)
  then show ?thesis by (simp add: mod_mult_eq power_add)
qed

lemma srp_compute_eq:
  assumes "bn_ok bn" "length (pw_p P) = 256" "0 < be_nat (pw_p P)"
    and "compute_x H kdf password (pw_salt1 P) (pw_salt2 P) = Ok x"
    and "A = be_pad 256 (srp_g P ^ be_nat a mod be_nat (pw_p P))"
  shows "srp_compute H bn kdf rand P password (Some a) = Ok (A, srp_proof H P A (srp_secret H P x a A))"
proof -
  have "length (pw_p P) \<le> 256" using assms(2) by simp
  note ops = crypto_bn_eq[OF assms(1) this]
  have kv: "(int B - int (k * v mod N)) mod int N = (int B - int (k * v)) mod int N" for B k v N
    by (simp add: of_nat_mod mod_diff_right_eq)
  show ?thesis
    using assms(2,3)
    by (simp add: srp_compute_def Let_def ops assms(4,5) srp_proof_def srp_secret_def srp_k_def
        srp_verifier_def srp_g_def[symmetric] kv split_exponent del: of_nat_mult)
qed

section \<open>Agreement with the server\<close>

text \<open>
  The server knows the verifier and its private \<open>b\<close>; it published \<open>B = k * v + g ^ b\<close> and
  computes \<open>(A * v ^ u) ^ b\<close>.
\<close>

definition srp_server_B :: "hash \<Rightarrow> account_2fa_password \<Rightarrow> nat \<Rightarrow> nat \<Rightarrow> byte list" where
  "srp_server_B H P v b = be_pad 256 ((srp_k H P * v + srp_g P ^ b) mod be_nat (pw_p P))"

definition srp_server_secret :: "hash \<Rightarrow> account_2fa_password \<Rightarrow> nat \<Rightarrow> nat \<Rightarrow> byte list \<Rightarrow> nat" where
  "srp_server_secret H P v b A =
     (be_nat A * v ^ be_nat (H (A @ pw_B P))) ^ b mod be_nat (pw_p P)"

lemma base_is_power:
  "nat ((int ((kv + h) mod n) - int kv) mod int n) = h mod n" if "0 < n" for kv h n :: nat
proof -
  have "(int ((kv + h) mod n) - int kv) mod int n = (int (kv + h) - int kv) mod int n"
    by (simp add: of_nat_mod mod_diff_left_eq)
  then show ?thesis by (simp flip: of_nat_mod)
qed

lemma mod_power_cong: "c mod n = d mod n \<Longrightarrow> c ^ e mod n = d ^ e mod (n :: nat)"
  by (metis power_mod)

lemma mod_mult_power: "c * d ^ e mod n = (c mod n) * (d mod n) ^ e mod (n :: nat)"
proof -
  have "d ^ e mod n = (d mod n) ^ e mod n" by (simp add: power_mod)
  then show ?thesis by (metis mod_mult_left_eq mod_mult_right_eq)
qed

lemma secrets_agree:
  assumes "0 < be_nat (pw_p P)" "pw_B P = srp_server_B H P (srp_verifier P x) b"
    and "A = be_pad 256 (srp_g P ^ be_nat a mod be_nat (pw_p P))"
  shows "srp_secret H P x a A = srp_server_secret H P (srp_verifier P x) b A"
proof -
  define N u g where "N = be_nat (pw_p P)" and "u = be_nat (H (A @ pw_B P))" and "g = srp_g P"
  have base: "nat ((int (be_nat (pw_B P)) - int (srp_k H P * srp_verifier P x)) mod int N) = g ^ b mod N"
    using base_is_power[OF assms(1)] by (simp add: assms(2) srp_server_B_def N_def g_def del: of_nat_mult)
  have "srp_secret H P x a A = (g ^ b mod N) ^ (be_nat a + u * be_nat x) mod N"
    using base by (simp add: srp_secret_def Let_def N_def[symmetric] u_def[symmetric])
  also have "\<dots> = (g ^ be_nat a * (g ^ be_nat x) ^ u) ^ b mod N"
    by (simp only: power_mod) (simp add: algebra_simps flip: power_mult power_add)
  also have "\<dots> = ((g ^ be_nat a mod N) * (g ^ be_nat x mod N) ^ u) ^ b mod N"
    by (rule mod_power_cong[OF mod_mult_power])
  finally show ?thesis
    by (simp add: srp_server_secret_def srp_verifier_def N_def g_def u_def assms(3))
qed

text \<open>
  C7. With the right password the client proves itself: whatever exponents the two sides
  draw, the values \<open>A\<close> and \<open>M1\<close> that the client computes by its three exponentiations are
  \<open>g ^ a mod p\<close> and the proof over the secret that the server derives from its verifier.
\<close>

theorem srp_agreement:
  assumes "bn_ok bn" "length (pw_p P) = 256" "0 < be_nat (pw_p P)"
    and "compute_x H kdf password (pw_salt1 P) (pw_salt2 P) = Ok x"
    and "pw_B P = srp_server_B H P (srp_verifier P x) b"
    and "A = be_pad 256 (srp_g P ^ be_nat a mod be_nat (pw_p P))"
  shows "srp_compute H bn kdf rand P password (Some a) =
    Ok (A, srp_proof H P A (srp_server_secret H P (srp_verifier P x) b A))"
  using srp_compute_eq[OF assms(1-4,6)] secrets_agree[OF assms(3,5,6)] by simp

definition demo_hash :: hash where
  "demo_hash d = replicate 31 0 @ [if d = [] then 1 else last d]"

definition demo_password :: account_2fa_password where
  "demo_password = \<lparr>pw_has = True, pw_srp_id = 1, pw_B = be_pad 256 12, pw_g = 5,
     pw_p = replicate 255 0 @ [23], pw_salt1 = [], pw_salt2 = []\<rparr>"

lemma be_nat_byte: "be_nat [b] = unat b" "be_nat [0, 0, 0, b] = unat b"
  by (simp_all add: be_nat_def)

lemma demo_bytes:
  "pack_g 5 = replicate 252 0 @ [0, 0, 0, 5]"
  "demo_hash (d @ [b]) = replicate 31 0 @ [b]" "demo_hash [] = replicate 31 0 @ [1]"
  "pw_p demo_password = replicate 255 0 @ [23]" "pw_g demo_password = 5"
  "pw_salt1 demo_password = []" "pw_salt2 demo_password = []"
  by (simp_all add: demo_password_def demo_hash_def pack_g_def Let_def)

lemma demo_password_numbers:
  "be_nat (pw_p demo_password) = 23" "srp_g demo_password = 5" "srp_k demo_hash demo_password = 5"
proof -
  show "be_nat (pw_p demo_password) = 23" by (simp only: demo_bytes be_nat_zeros be_nat_byte) simp
  show "srp_g demo_password = 5"
    by (simp only: srp_g_def demo_bytes be_nat_zeros be_nat_byte) simp
  have "pw_p demo_password @ pack_g (pw_g demo_password) =
      (replicate 255 0 @ [23] @ replicate 252 0 @ [0, 0, 0]) @ [5]"
    by (simp only: demo_bytes append_assoc append_Cons append_Nil)
  then show "srp_k demo_hash demo_password = 5"
    by (simp only: srp_k_def demo_bytes(2) be_nat_zeros be_nat_byte) simp
qed

lemma demo_x: "compute_x demo_hash (\<lambda>p _ _ n. Some (p @ p)) [104, 3]
    (pw_salt1 demo_password) (pw_salt2 demo_password) = Ok (replicate 31 0 @ [3])"
proof -
  have "demo_hash [104, 3] = replicate 31 0 @ [3]" using demo_bytes(2)[of "[104]" 3] by simp
  moreover have "demo_hash ((replicate 31 0 @ [3]) @ replicate 31 0 @ [3]) = replicate 31 0 @ [3]"
    using demo_bytes(2)[of "(replicate 31 0 @ [3]) @ replicate 31 0" 3] by simp
  ultimately show ?thesis
    by (simp only: compute_x_def sh_sha256_def Let_def append_Nil append_Nil2 option.case demo_bytes(2,6,7))
qed

theorem srp_agreement_witness:
  "srp_compute demo_hash plain_bn (\<lambda>p _ _ n. Some (p @ p)) None demo_password [104, 3] (Some [4]) =
   Ok (be_pad 256 4, srp_proof demo_hash demo_password (be_pad 256 4)
     (srp_server_secret demo_hash demo_password 10 6 (be_pad 256 4)))"
proof -
  have v: "srp_verifier demo_password (replicate 31 0 @ [3]) = 10"
    by (simp only: srp_verifier_def demo_password_numbers be_nat_zeros be_nat_byte) simp
  have B: "pw_B demo_password = srp_server_B demo_hash demo_password 10 6"
    by (simp add: srp_server_B_def demo_password_numbers) (simp add: demo_password_def)
  have A: "be_pad 256 4 = be_pad 256 (srp_g demo_password ^ be_nat [4] mod be_nat (pw_p demo_password))"
    by (simp add: demo_password_numbers be_nat_byte)
  show ?thesis
    using srp_agreement[OF plain_bn_ok _ _ demo_x B[folded v] A, of None]
    by (simp add: demo_password_numbers v) (simp add: demo_bytes)
qed

end
