(* ===== verification/Auth_Session.thy ===== *)
theory Auth_Session
  imports Auth_2FA
begin

text \<open>
  The login requests of \<open>src/src/infrastructure/auth_session.c\<close>, the transfer of an
  authorization to another data centre (\<open>auth_transfer.c\<close>) and the logout request
  (\<open>auth_logout.c\<close>).
\<close>

section \<open>Requests\<close>

abbreviation (input) CRC_auth_sendCode :: u32 where "CRC_auth_sendCode \<equiv> 0xa677244f"
abbreviation (input) CRC_codeSettings :: u32 where "CRC_codeSettings \<equiv> 0xad253d78"
abbreviation (input) CRC_auth_sentCode :: u32 where "CRC_auth_sentCode \<equiv> 0x5e002502"
abbreviation (input) CRC_auth_sentCodeTypeApp :: u32 where "CRC_auth_sentCodeTypeApp \<equiv> 0x3dbb5986"
abbreviation (input) CRC_auth_sentCodeTypeSms :: u32 where "CRC_auth_sentCodeTypeSms \<equiv> 0xc000bba2"
abbreviation (input) CRC_auth_sentCodeTypeCall :: u32 where "CRC_auth_sentCodeTypeCall \<equiv> 0x5353e5a7"
abbreviation (input) CRC_auth_sentCodeTypeFlashCall :: u32 where "CRC_auth_sentCodeTypeFlashCall \<equiv> 0xab03c6d9"
abbreviation (input) CRC_auth_resendCode :: u32 where "CRC_auth_resendCode \<equiv> 0x3ef1a9bf"
abbreviation (input) CRC_auth_signIn :: u32 where "CRC_auth_signIn \<equiv> 0x8d52a951"
abbreviation (input) CRC_auth_signUp :: u32 where "CRC_auth_signUp \<equiv> 0x80eee427"
abbreviation (input) CRC_auth_authorization :: u32 where "CRC_auth_authorization \<equiv> 0x2ea2c0d4"
abbreviation (input) CRC_auth_authorizationSignUpRequired :: u32 where
  "CRC_auth_authorizationSignUpRequired \<equiv> 0x44747e9a"
abbreviation (input) CRC_auth_logOut :: u32 where "CRC_auth_logOut \<equiv> 0x3e72ba19"
abbreviation (input) CRC_auth_loggedOut :: u32 where "CRC_auth_loggedOut \<equiv> 0xc3a2835f"
abbreviation (input) AUTH_CODE_HASH_MAX :: nat where "AUTH_CODE_HASH_MAX \<equiv> 128"
abbreviation (input) AUTH_TRANSFER_BYTES_MAX :: nat where "AUTH_TRANSFER_BYTES_MAX \<equiv> 1024"

definition build_send_code :: "api_config \<Rightarrow> byte list \<Rightarrow> nat \<Rightarrow> ('s, byte list) cfun" where
  "build_send_code cfg phone max_len =
     (let w = tl_write_uint32 tl_writer_init CRC_auth_sendCode;
          w = tl_write_string w (Some phone);
          w = tl_write_int32 w (api_id cfg);
          w = tl_write_string w (or_empty (api_hash cfg));
          w = tl_write_uint32 w CRC_codeSettings;
          w = tl_write_uint32 w 0
      in query_of w max_len)"

definition build_sign_in :: "byte list \<Rightarrow> byte list \<Rightarrow> byte list \<Rightarrow> nat \<Rightarrow> ('s, byte list) cfun" where
  "build_sign_in phone hash code max_len =
     (let w = tl_write_uint32 tl_writer_init CRC_auth_signIn;
          w = tl_write_uint32 w 1;
          w = tl_write_string w (Some phone);
          w = tl_write_string w (Some hash);
          w = tl_write_string w (Some code)
      in query_of w max_len)"

definition build_sign_up ::
  "byte list \<Rightarrow> byte list \<Rightarrow> byte list \<Rightarrow> byte list option \<Rightarrow> nat \<Rightarrow> ('s, byte list) cfun" where
  "build_sign_up phone hash first_name last_name max_len =
     (let w = tl_write_uint32 tl_writer_init CRC_auth_signUp;
          w = tl_write_string w (Some phone);
          w = tl_write_string w (Some hash);
          w = tl_write_string w (Some first_name);
          w = tl_write_string w (or_empty last_name)
      in query_of w max_len)"

definition build_logout_request :: "nat \<Rightarrow> ('s, byte list) cfun" where
  "build_logout_request max_len = query_of (tl_write_uint32 tl_writer_init CRC_auth_logOut) max_len"

section \<open>Sending the code\<close>

record auth_sent_code =
  phone_code_hash :: "byte list"
  sc_timeout :: int
  sc_code_type :: u32
  sc_next_type :: u32

definition read_sent_code_type :: "(tl_reader, u32) cfun" where
  "read_sent_code_type r =
     (if \<not> tl_reader_ok r then (Ok 0, r)
      else bind tl_read_uint32 (\<lambda>type_crc.
        if type_crc = CRC_auth_sentCodeTypeApp \<or> type_crc = CRC_auth_sentCodeTypeSms \<or>
           type_crc = CRC_auth_sentCodeTypeCall then bind tl_read_int32 (\<lambda>_. ret type_crc)
        else if type_crc = CRC_auth_sentCodeTypeFlashCall then bind tl_read_string (\<lambda>_. ret type_crc)
        else ret 0) r)"

definition read_sent_code :: "(tl_reader \<times> auth_sent_code, unit) cfun" where
  "read_sent_code =
     bind (on_fst tl_read_uint32) (\<lambda>_. bind (on_fst tl_read_uint32) (\<lambda>flags.
     bind (on_fst read_sent_code_type) (\<lambda>code_type.
     bind (upd (\<lambda>out. out\<lparr>sc_code_type := code_type\<rparr>)) (\<lambda>_.
       if code_type = 0 then fail
       else bind (on_fst tl_read_string) (\<lambda>hash.
         case hash of
           None \<Rightarrow> fail
         | Some hash \<Rightarrow>
             if length (cstr hash) \<ge> AUTH_CODE_HASH_MAX then fail
             else seqs
               [upd (\<lambda>out. out\<lparr>phone_code_hash := cstr hash, sc_next_type := 0\<rparr>),
                when_bit flags 1 (read_to tl_read_uint32 (\<lambda>v out. out\<lparr>sc_next_type := v\<rparr>)),
                upd (\<lambda>out. out\<lparr>sc_timeout := 0\<rparr>),
                when_bit flags 2 (read_to tl_read_int32 (\<lambda>v out. out\<lparr>sc_timeout := v\<rparr>))])))))"

definition auth_send_code :: "client_env \<Rightarrow> byte list \<Rightarrow> (auth_sent_code, unit) client" where
  "auth_send_code E phone =
     bind (on_fst clear_err) (\<lambda>_.
     bind (build_send_code (cl_cfg E) phone 4096) (\<lambda>query.
     bind (on_fst (rpc_answer E 0 query 65536)) (\<lambda>(constructor, resp).
       if constructor \<noteq> CRC_auth_sentCode then fail
       else on_snd (run_reader resp read_sent_code))))"

definition read_resent_code :: "(tl_reader \<times> auth_sent_code, unit) cfun" where
  "read_resent_code =
     bind (on_fst tl_read_uint32) (\<lambda>_. bind (on_fst tl_read_uint32) (\<lambda>flags. seqs
       [read_to read_sent_code_type (\<lambda>v sent. sent\<lparr>sc_code_type := v\<rparr>),
        bind (on_fst tl_read_string) (\<lambda>_. upd (\<lambda>sent. sent\<lparr>sc_next_type := 0\<rparr>)),
        when_bit flags 1 (read_to tl_read_uint32 (\<lambda>v sent. sent\<lparr>sc_next_type := v\<rparr>)),
        when_bit flags 2 (read_to tl_read_int32 (\<lambda>v sent. sent\<lparr>sc_timeout := v\<rparr>))]))"

definition auth_resend_code :: "client_env \<Rightarrow> byte list \<Rightarrow> (auth_sent_code, unit) client" where
  "auth_resend_code E phone =
     bind (on_fst clear_err) (\<lambda>_. bind get (\<lambda>sent.
       let w = tl_write_uint32 tl_writer_init CRC_auth_resendCode;
           w = tl_write_uint32 w 0;
           w = tl_write_string w (Some phone);
           w = tl_write_string w (Some (phone_code_hash sent))
       in
       bind (query_of w 1024) (\<lambda>query.
       bind (on_fst (rpc_answer E 0 query 65536)) (\<lambda>(constructor, resp).
         if constructor \<noteq> CRC_auth_sentCode then fail
         else on_snd (run_reader resp read_resent_code)))))"

section \<open>Signing in\<close>

definition parse_authorization :: "(tl_reader \<times> int option, unit) cfun" where
  "parse_authorization =
     bind (on_fst tl_read_uint32) (\<lambda>_. bind (on_fst tl_read_uint32) (\<lambda>flags. seqs
       [on_fst (when_bit flags 1 int32),
        bind (on_fst tl_read_uint32) (\<lambda>user_crc.
          if user_crc \<noteq> TL_user \<and> user_crc \<noteq> TL_user2 \<and> user_crc \<noteq> TL_userFull then put_out (\<lambda>_. 0)
          else bind (on_fst tl_read_uint32) (\<lambda>_. bind (on_fst tl_read_int64) (\<lambda>uid. put_out (\<lambda>_. uid))))]))"

text \<open>The outputs are \<open>user_id_out\<close> and \<open>signup_required\<close>.\<close>

definition auth_sign_in ::
  "client_env \<Rightarrow> byte list \<Rightarrow> byte list \<Rightarrow> byte list \<Rightarrow> (int option \<times> int option, unit) client" where
  "auth_sign_in E phone hash code =
     bind (upd (apsnd (map_option (\<lambda>_. 0)))) (\<lambda>_.
     bind (on_fst clear_err) (\<lambda>_.
     bind (build_sign_in phone hash code 4096) (\<lambda>query.
     bind (on_fst (rpc_answer E 0 query 65536)) (\<lambda>(constructor, resp).
       if constructor = CRC_auth_authorizationSignUpRequired then
         bind (upd (apsnd (map_option (\<lambda>_. 1)))) (\<lambda>_. fail)
       else if constructor \<noteq> CRC_auth_authorization then fail
       else on_snd (on_fst (run_reader resp parse_authorization))))))"

definition auth_sign_up ::
  "client_env \<Rightarrow> byte list \<Rightarrow> byte list \<Rightarrow> byte list \<Rightarrow> byte list option \<Rightarrow> (int option, unit) client" where
  "auth_sign_up E phone hash first_name last_name =
     bind (on_fst clear_err) (\<lambda>_.
     bind (build_sign_up phone hash first_name last_name 4096) (\<lambda>query.
     bind (on_fst (rpc_answer E 0 query 65536)) (\<lambda>(constructor, resp).
       if constructor \<noteq> CRC_auth_authorization then fail
       else on_snd (run_reader resp parse_authorization))))"

section \<open>Transfer to another data centre\<close>

record auth_exported =
  ex_id :: int
  ex_bytes :: "byte list"

definition read_exported :: "(tl_reader \<times> auth_exported, unit) cfun" where
  "read_exported =
     bind (on_fst tl_read_uint32) (\<lambda>_.
     bind (read_to tl_read_int64 (\<lambda>i out. out\<lparr>ex_id := i\<rparr>)) (\<lambda>_.
     bind (on_fst tl_read_bytes) (\<lambda>bytes.
       if bytes = None \<or> length (bytes_of bytes) = 0 \<or> length (bytes_of bytes) > AUTH_TRANSFER_BYTES_MAX
       then fail
       else upd (\<lambda>out. out\<lparr>ex_bytes := bytes_of bytes\<rparr>))))"

definition auth_transfer_export :: "client_env \<Rightarrow> int \<Rightarrow> (auth_exported, unit) client" where
  "auth_transfer_export E target_dc_id =
     bind (on_fst clear_err) (\<lambda>_.
     bind (upd (\<lambda>_. \<lparr>ex_id = 0, ex_bytes = []\<rparr>)) (\<lambda>_.
       let w = tl_write_uint32 tl_writer_init TL_auth_exportAuthorization;
           w = tl_write_int32 w target_dc_id
       in
       bind (query_of w 64) (\<lambda>query.
       bind (on_fst (rpc_answer E 0 query 65536)) (\<lambda>(top, resp).
         if top \<noteq> TL_auth_exportedAuthorization then fail
         else on_snd (run_reader resp read_exported)))))"

definition auth_transfer_import :: "client_env \<Rightarrow> auth_exported \<Rightarrow> unit request" where
  "auth_transfer_import E tok =
     (if length (ex_bytes tok) = 0 \<or> length (ex_bytes tok) > AUTH_TRANSFER_BYTES_MAX then fail
      else
        bind clear_err (\<lambda>_.
          let w = tl_write_uint32 tl_writer_init TL_auth_importAuthorization;
              w = tl_write_int64 w (ex_id tok);
              w = tl_write_bytes w (ex_bytes tok)
          in
          bind (rpc_answer E 0 (wr_data w) 65536) (\<lambda>(top, resp).
            if top \<noteq> TL_auth_authorization \<and> top \<noteq> TL_auth_authorizationSignUpRequired then fail
            else skip)))"

section \<open>Logging out\<close>

text \<open>An answer with error code 401 counts as a logout.\<close>

definition auth_logout_rpc :: "client_env \<Rightarrow> (link, unit) cfun" where
  "auth_logout_rpc E =
     bind (build_logout_request 64) (\<lambda>query.
     bind (client_call E 0 query 4096) (\<lambda>resp.
       if length resp < 4 then fail
       else let constructor = le_word (take 4 resp) :: u32 in
         if constructor = TL_rpc_error then
           bind (lift (rpc_parse_error resp)) (\<lambda>err. if error_code err = 401 then skip else fail)
         else if constructor \<noteq> CRC_auth_loggedOut then fail
         else skip))"

section \<open>Safety\<close>

lemma keeps_sent_code_type [keeps_rules]: "keeps (within (mem_inv d) k) read_sent_code_type"
proof -
  have "keeps (within (mem_inv d) k) (bind tl_read_uint32 (\<lambda>type_crc.
        if type_crc = CRC_auth_sentCodeTypeApp \<or> type_crc = CRC_auth_sentCodeTypeSms \<or>
           type_crc = CRC_auth_sentCodeTypeCall then bind tl_read_int32 (\<lambda>_. ret type_crc)
        else if type_crc = CRC_auth_sentCodeTypeFlashCall then bind tl_read_string (\<lambda>_. ret type_crc)
        else ret 0))"
    by (intro keeps_rules)
  then show ?thesis by (simp add: keeps_def read_sent_code_type_def)
qed

text \<open>What the callers' structures keep: their arrays hold what is in them.\<close>

definition password_ok :: "account_2fa_password \<Rightarrow> bool" where
  "password_ok P = (length (pw_B P) = 256 \<and> length (pw_p P) = 256 \<and> length (pw_salt1 P) \<le> 128 \<and>
     length (pw_salt2 P) \<le> 128)"

definition sent_code_ok :: "auth_sent_code \<Rightarrow> bool" where
  "sent_code_ok c = (length (phone_code_hash c) < 128)"

definition exported_ok :: "auth_exported \<Rightarrow> bool" where
  "exported_ok e = (length (ex_bytes e) \<le> 1024)"

lemma keeps_login_readers [keeps_rules]:
  "keeps (reading d password_ok) read_account_password"
  "keeps (reading d anywhere) read_user_id"
  "keeps (reading d sent_code_ok) read_sent_code"
  "keeps (reading d sent_code_ok) read_resent_code"
  "keeps (reading d anywhere) parse_authorization"
  "keeps (reading d exported_ok) read_exported"
  unfolding read_account_password_def parse_password_kdf_algo_def read_srp_B_def read_user_id_def
    read_sent_code_def read_resent_code_def parse_authorization_def read_exported_def
  by (intro keeps_rules; simp add: password_ok_def sent_code_ok_def exported_ok_def)+

lemma safe_auth_requests:
  assumes "client_ok E"
  shows "safe (beside anywhere password_ok) (auth_2fa_get_password E)"
    and "safe (beside anywhere sent_code_ok) (auth_send_code E phone)"
    and "safe (beside anywhere sent_code_ok) (auth_resend_code E phone)"
    and "safe (beside anywhere (beside anywhere anywhere)) (auth_sign_in E phone hash code)"
    and "safe (beside anywhere anywhere) (auth_sign_up E phone hash first_name last_name)"
    and "safe (beside anywhere exported_ok) (auth_transfer_export E dc)"
  unfolding auth_2fa_get_password_def auth_send_code_def auth_resend_code_def auth_sign_in_def
    auth_sign_up_def auth_transfer_export_def build_send_code_def build_sign_in_def build_sign_up_def Let_def
  by (rule safe_queried safe_answered[OF assms] safe_get_bind safe_rules keeps_login_readers
      | (simp add: wire_simps password_ok_def password_zero_def exported_ok_def beside_def; fail))+

lemma srp_compute_in:
  assumes "bn_ok bn" "length (pw_p P) = 256"
  shows "srp_compute H bn kdf rand P password a_in \<noteq> Oob"
proof -
  have "length (pw_p P) \<le> 256" using assms(2) by simp
  note ops = crypto_bn_eq[OF assms(1) this]
  show ?thesis
    by (auto simp: srp_compute_def Let_def ops obind_def compute_x_def split: option.splits)
qed

lemma safe_auth_rest:
  assumes "client_ok E"
  shows "bn_ok bn \<Longrightarrow> password_ok P \<Longrightarrow>
      safe (beside anywhere anywhere) (auth_2fa_check_password E bn kdf rand P password)"
    and "safe anywhere (auth_transfer_import E tok)"
    and "safe anywhere (auth_logout_rpc E)"
proof -
  show "safe (beside anywhere anywhere) (auth_2fa_check_password E bn kdf rand P password)"
    if "bn_ok bn" "password_ok P"
    using srp_compute_in[OF that(1), of P] that(2)
    unfolding auth_2fa_check_password_def Let_def
    by - (rule safe_queried safe_answered[OF assms] safe_rules keeps_login_readers
      | (simp add: wire_simps password_ok_def; fail))+
  have len: "length (wr_data (tl_write_bytes (tl_write_int64 (tl_write_uint32 tl_writer_init c) i) b))
      \<le> 1000000" if "\<not> (length b = 0 \<or> 1024 < length b)" for c i b
    using length_enc_bytes_le[of b] that by (simp add: wire_simps)
  show "safe anywhere (auth_transfer_import E tok)"
    unfolding auth_transfer_import_def Let_def
    by (rule safe_answered_plain[OF assms] safe_rules | (rule len, assumption) | (simp; fail))+
  show "safe anywhere (auth_logout_rpc E)"
    unfolding auth_logout_rpc_def build_logout_request_def Let_def
    by (rule safe_queried safe_bind_yields[OF client_call_in[OF assms]] safe_rules rpc_parse_error_in
      | (simp add: wire_simps; fail))+
qed

section \<open>The identifier of the user who signed in\<close>

lemma flags2_and_id:
  "le_bytes 4 (f :: u32) @ take 4 (le_bytes 8 (i :: u64)) = le_bytes 8 (push_bit 32 i OR ucast f :: u64)"
proof (rule nth_equalityI)
  fix k assume "k < length (le_bytes 4 f @ take 4 (le_bytes 8 i))"
  then have "k < 8" by simp
  moreover obtain j where "k < 4 \<or> k = j + 4" by (metis le_add_diff_inverse2 not_less)
  ultimately show "(le_bytes 4 f @ take 4 (le_bytes 8 i)) ! k = le_bytes 8 (push_bit 32 i OR ucast f :: u64) ! k"
    by (cases "k < 4") (auto intro!: bit_word_eqI simp: le_bytes_def nth_append bit_simps
        dest!: bit_imp_le_length[of f])
qed simp

lemma takes_put_out: "takes_st (put_out f) [] c () (map_option f c)"
  by (simp add: takes_st_def put_out_def)

text \<open>
  \<open>auth.signIn\<close> and \<open>auth.authorization\<close> on the wire, the latter with the number of days
  before the user if flag 1 is set.
\<close>

definition enc_sign_in :: "byte list \<Rightarrow> byte list \<Rightarrow> byte list \<Rightarrow> byte list" where
  "enc_sign_in phone hash code = le_bytes 4 (0x8d52a951 :: u32) @ le_bytes 4 (1 :: u32) @
     enc_bytes phone @ enc_bytes hash @ enc_bytes code"

definition enc_authorization :: "u32 \<Rightarrow> u32 \<Rightarrow> wire_user \<Rightarrow> byte list \<Rightarrow> byte list" where
  "enc_authorization flags days u rest = le_bytes 4 (0x2ea2c0d4 :: u32) @ le_bytes 4 flags @
     opt flags 1 (le_bytes 4 days) @ enc_user u @ rest"

lemma takes_authorization:
  fixes top flags days c uf :: u32 and q :: u64
  assumes "c = TL_user \<or> c = TL_user2 \<or> c = TL_userFull"
  shows "takes_st parse_authorization (le_bytes 4 top @ le_bytes 4 flags @ opt flags 1 (le_bytes 4 days) @
    le_bytes 4 c @ le_bytes 4 uf @ le_bytes 8 q) v () (map_option (\<lambda>_. sint q) v)"
proof -
  have "takes_st (bind (on_fst tl_read_uint32) (\<lambda>_. bind (on_fst tl_read_int64) (\<lambda>uid. put_out (\<lambda>_. uid))))
      (le_bytes 4 uf @ le_bytes 8 q @ []) v () (map_option (\<lambda>_. sint q) v)"
    by (intro takes_st_rules takes_put_out)
  then have user: "takes_st (bind (on_fst tl_read_uint32) (\<lambda>user_crc.
      if user_crc \<noteq> TL_user \<and> user_crc \<noteq> TL_user2 \<and> user_crc \<noteq> TL_userFull then put_out (\<lambda>_. 0)
      else bind (on_fst tl_read_uint32) (\<lambda>_. bind (on_fst tl_read_int64) (\<lambda>uid. put_out (\<lambda>_. uid)))))
      (le_bytes 4 c @ le_bytes 4 uf @ le_bytes 8 q) v () (map_option (\<lambda>_. sint q) v)"
    using assms by (intro takes_st_rules) auto
  have "takes (when_bit flags 1 int32) (opt flags 1 (le_bytes 4 days)) ()"
    by (simp add: when_bit_def opt_def takes_ret takes_discards(1))
  from takes_st_seqs(2)[OF takes_st_on_fst[OF this] takes_st_seqs(3)[OF user]] show ?thesis
    unfolding parse_authorization_def by (intro takes_reads[THEN takes_st_read]) simp
qed

text \<open>
  C34. A sign-in that the server answers with \<open>auth.authorization\<close> succeeds, but the user
  number it reports is not the user's: the query has the phone number, the code's hash and
  the code, and of the user object in the answer the second flags word is taken for the low
  half of the number and the low half of the number for its high half. This holds for an
  answer with or without the number of days that flag 1 announces.
\<close>

theorem sign_in_misreads_user_id:
  assumes "0 \<notin> set phone" "0 \<notin> set hash" "0 \<notin> set code" "length (enc_sign_in phone hash code) \<le> 4096"
    and "wire_user_ok u" "length (enc_authorization flags days u rest) < 2 ^ 61"
    and "client_call E 0 (enc_sign_in phone hash code) 65536 link = (Ok (enc_authorization flags days u rest), link')"
  shows "auth_sign_in E phone hash code ((link, Some err), (Some uid, Some signup)) =
    (Ok (), ((link', Some \<lparr>error_code = 0, error_msg = [], migrate_dc = -1, flood_wait_secs = 0\<rparr>),
      (Some (sint (push_bit 32 (wu_id u) OR ucast (wu_flags2 u) :: u64)), Some 0)))"
proof -
  let ?q = "push_bit 32 (wu_id u) OR ucast (wu_flags2 u) :: u64"
  let ?resp = "enc_authorization flags days u rest"
  obtain tail where tail: "enc_user u = le_bytes 4 (wu_ctor u) @ le_bytes 4 (wu_flags u) @ le_bytes 8 ?q @ tail"
    unfolding enc_user_def enc_user_body_def flags2_and_id[symmetric]
    by (metis append_assoc append_take_drop_id)
  have "wu_ctor u = TL_user \<or> wu_ctor u = TL_user2 \<or> wu_ctor u = TL_userFull"
    using assms(5) by (auto simp: wire_user_ok_def)
  from run_reader_takes[OF takes_authorization[OF this, of CRC_auth_authorization flags days "wu_flags u" ?q "Some uid"],
      where post = "tail @ rest"] assms(6)
  have read: "run_reader ?resp parse_authorization (Some uid) = (Ok (), Some (sint ?q))"
    by (simp add: tail enc_authorization_def)
  have query: "build_sign_in phone hash code 4096 s = (Ok (enc_sign_in phone hash code), s)"
    for s :: "(link \<times> rpc_error option) \<times> int option \<times> int option"
    using assms(1-4)
    by (simp add: build_sign_in_def query_of_def Let_def wr_sync_len wire_simps enc_sign_in_def ret_def cstr_id)
  have "le_word (take 4 ?resp) = CRC_auth_authorization" "4 \<le> length ?resp"
    by (simp_all add: enc_authorization_def)
  then show ?thesis
    using assms(7) read query
    by (simp add: auth_sign_in_def bind_def on_fst_def on_snd_def upd_def clear_err_def put_out_def
        rpc_answer_def ret_def Let_def)
qed

definition demo_sign_in :: "byte list" where
  "demo_sign_in = enc_authorization 2 30 sample_user []"

theorem sign_in_misreads_user_id_witness:
  "wu_id sample_user = 42 \<and>
   (\<exists>link'. auth_sign_in demo_client [49, 50] [65] [53] ((demo_link [demo_sign_in] 2000, Some \<lparr>error_code = 0,
       error_msg = [], migrate_dc = -1, flood_wait_secs = 0\<rparr>), (Some 0, Some 0)) =
     (Ok (), ((link', Some \<lparr>error_code = 0, error_msg = [], migrate_dc = -1, flood_wait_secs = 0\<rparr>),
       (Some 180388626432, Some 0))))"
proof -
  let ?q = "enc_sign_in [49, 50] [65] [53]"
  have size: "length demo_sign_in = length (enc_user sample_user) + 12" "le_word (take 4 demo_sign_in) = CRC_auth_authorization"
    by (simp_all add: demo_sign_in_def enc_authorization_def opt_def)
  have q: "length ?q = 20" by (simp add: enc_sign_in_def length_enc_bytes length_enc_prefix)
  have fits: "length ?q + length demo_sign_in + 500 + 0 \<le> 2000" "length ?q \<le> 1000000"
    "length demo_sign_in \<le> 1000000" "length demo_sign_in \<le> 65536"
    "length demo_sign_in < 4 \<or> le_word (take 4 demo_sign_in) \<noteq> CRC_gzip_packed"
    using sample_user_ok by (simp_all add: size q)
  obtain link' where call: "client_call demo_client 0 ?q 65536 (demo_link [demo_sign_in] 2000) = (Ok demo_sign_in, link')"
    by (rule demo_call[OF demo_link_answering fits])
  have "length demo_sign_in < 2 ^ 61" using fits(3) by simp
  from sign_in_misreads_user_id[OF _ _ _ _ _ this[unfolded demo_sign_in_def] call[unfolded demo_sign_in_def]]
  show ?thesis using q sample_user_ok by (auto simp: sample_user_def demo_sign_in_def)
qed

end
