(* ===== verification/Domain_Write.thy ===== *)
theory Domain_Write
  imports Client
begin

text \<open>
  The message commands of \<open>src/src/domain/write/\<close>: send, edit, delete, forward and
  mark-as-read. Each builds one query, makes one call and looks at the constructor of the
  answer.
\<close>

section \<open>Peers\<close>

datatype history_peer_kind =
  HISTORY_PEER_SELF | HISTORY_PEER_USER | HISTORY_PEER_CHAT | HISTORY_PEER_CHANNEL

record history_peer =
  hp_kind :: history_peer_kind
  hp_peer_id :: int
  hp_access_hash :: int

definition write_input_peer :: "tl_writer \<Rightarrow> history_peer \<Rightarrow> tl_writer" where
  "write_input_peer w p = (case hp_kind p of
     HISTORY_PEER_SELF \<Rightarrow> tl_write_uint32 w TL_inputPeerSelf
   | HISTORY_PEER_USER \<Rightarrow>
       tl_write_int64 (tl_write_int64 (tl_write_uint32 w TL_inputPeerUser) (hp_peer_id p)) (hp_access_hash p)
   | HISTORY_PEER_CHAT \<Rightarrow> tl_write_int64 (tl_write_uint32 w TL_inputPeerChat) (hp_peer_id p)
   | HISTORY_PEER_CHANNEL \<Rightarrow>
       tl_write_int64 (tl_write_int64 (tl_write_uint32 w TL_inputPeerChannel) (hp_peer_id p)) (hp_access_hash p))"

abbreviation (input) CRC_messages_sendMessage :: u32 where "CRC_messages_sendMessage \<equiv> 0x0d9d75a4"
abbreviation (input) CRC_updateShortSentMessage :: u32 where "CRC_updateShortSentMessage \<equiv> 0x9015e101"
abbreviation (input) CRC_updateMessageID :: u32 where "CRC_updateMessageID \<equiv> 0x4e90bfd6"
abbreviation (input) CRC_inputReplyToMessage :: u32 where "CRC_inputReplyToMessage \<equiv> 0x22c0f6d5"
abbreviation (input) CRC_messages_editMessage :: u32 where "CRC_messages_editMessage \<equiv> 0x48f71778"
abbreviation (input) CRC_messages_deleteMessages :: u32 where "CRC_messages_deleteMessages \<equiv> 0xe58e95d2"
abbreviation (input) CRC_channels_deleteMessages :: u32 where "CRC_channels_deleteMessages \<equiv> 0x84c1fd4e"
abbreviation (input) CRC_inputChannel :: u32 where "CRC_inputChannel \<equiv> 0xf35aec28"
abbreviation (input) CRC_messages_forwardMessages :: u32 where "CRC_messages_forwardMessages \<equiv> 0xc661bbc4"
abbreviation (input) CRC_messages_readHistory :: u32 where "CRC_messages_readHistory \<equiv> 0x0e306d3a"
abbreviation (input) CRC_channels_readHistory :: u32 where "CRC_channels_readHistory \<equiv> 0xcc104937"

section \<open>Sending\<close>

text \<open>
  The random identifier: eight bytes of the system's generator, or two values of \<open>rand()\<close>
  if that fails.
\<close>

definition random_id :: "byte list option \<Rightarrow> nat \<Rightarrow> nat \<Rightarrow> u64" where
  "random_id rand_buf r1 r2 = (case rand_buf of
     Some bs \<Rightarrow> le_word bs
   | None \<Rightarrow> push_bit 32 (word_of_nat r1) OR word_of_nat r2)"

definition write_send :: "history_peer \<Rightarrow> byte list \<Rightarrow> int \<Rightarrow> u64 \<Rightarrow> tl_writer" where
  "write_send peer message reply_to rid =
     (let w = tl_write_uint32 tl_writer_init CRC_messages_sendMessage;
          w = tl_write_uint32 w (if reply_to > 0 then 1 else 0);
          w = write_input_peer w peer;
          w = (if reply_to > 0 then
                 tl_write_int32 (tl_write_uint32 (tl_write_uint32 w CRC_inputReplyToMessage) 0) reply_to
               else w);
          w = tl_write_string w (Some message)
      in tl_write_int64 w (sint rid))"

text \<open>The scan for \<open>updateMessageID\<close> with our identifier, at every byte offset.\<close>

definition is_message_id :: "byte list \<Rightarrow> u64 \<Rightarrow> nat \<Rightarrow> bool" where
  "is_message_id resp rid i =
     (le_word (take 4 (drop i resp)) = CRC_updateMessageID \<and> le_word (take 8 (drop (i + 8) resp)) = rid)"

definition scan_message_id :: "byte list \<Rightarrow> u64 \<Rightarrow> int option" where
  "scan_message_id resp rid =
     (case find (is_message_id resp rid) [0..<length resp - 15] of
        None \<Rightarrow> None
      | Some i \<Rightarrow> Some (sint (le_word (take 4 (drop (i + 4) resp)) :: u32)))"

definition read_short_sent :: "(tl_reader \<times> int option, unit) cfun" where
  "read_short_sent =
     bind (on_fst tl_read_uint32) (\<lambda>_. bind (on_fst tl_read_uint32) (\<lambda>_.
       when_ready 4 (bind (on_fst tl_read_int32) (\<lambda>i. put_out (\<lambda>_. i)))))"

definition domain_send_message_reply ::
  "client_env \<Rightarrow> byte list option \<Rightarrow> nat \<Rightarrow> nat \<Rightarrow> history_peer \<Rightarrow> byte list \<Rightarrow> int \<Rightarrow>
   (int option, unit) client" where
  "domain_send_message_reply E rand_buf r1 r2 peer message reply_to_msg_id =
     (let mlen = length (cstr message); rid = random_id rand_buf r1 r2 in
      if mlen = 0 \<or> mlen > 4096 then fail
      else
        bind (query_of (write_send peer message reply_to_msg_id rid) 8192) (\<lambda>query.
        bind (on_fst (rpc_answer E 0 query 8192)) (\<lambda>(top, resp).
        bind (put_out (\<lambda>_. 0)) (\<lambda>_.
          if top = CRC_updateShortSentMessage then on_snd (run_reader resp read_short_sent)
          else if top = TL_updates \<or> top = TL_updatesCombined then
            (if length resp \<ge> 16 then
               (case scan_message_id resp rid of None \<Rightarrow> skip | Some mid \<Rightarrow> put_out (\<lambda>_. mid))
             else skip)
          else skip))))"

definition domain_send_message ::
  "client_env \<Rightarrow> byte list option \<Rightarrow> nat \<Rightarrow> nat \<Rightarrow> history_peer \<Rightarrow> byte list \<Rightarrow> (int option, unit) client" where
  "domain_send_message E rand_buf r1 r2 peer message =
     domain_send_message_reply E rand_buf r1 r2 peer message 0"

section \<open>Editing\<close>

definition write_edit :: "history_peer \<Rightarrow> int \<Rightarrow> byte list \<Rightarrow> tl_writer" where
  "write_edit peer msg_id new_text =
     (let w = tl_write_uint32 tl_writer_init CRC_messages_editMessage;
          w = tl_write_uint32 w (push_bit 11 1);
          w = write_input_peer w peer;
          w = tl_write_int32 w msg_id
      in tl_write_string w (Some new_text))"

definition domain_edit_message :: "client_env \<Rightarrow> history_peer \<Rightarrow> int \<Rightarrow> byte list \<Rightarrow> unit request" where
  "domain_edit_message E peer msg_id new_text =
     (let mlen = length (cstr new_text) in
      if mlen = 0 \<or> mlen > 4096 then fail
      else if msg_id \<le> 0 then fail
      else bind (query_of (write_edit peer msg_id new_text) 8192) (\<lambda>query.
           bind (rpc_answer E 0 query 4096) (\<lambda>(top, resp). skip)))"

section \<open>Deleting\<close>

definition write_ids :: "tl_writer \<Rightarrow> int list \<Rightarrow> tl_writer" where
  "write_ids w ids =
     foldl tl_write_int32 (tl_write_uint32 (tl_write_uint32 w TL_VECTOR_CTOR) (word_of_nat (length ids))) ids"

definition write_delete :: "history_peer \<Rightarrow> int list \<Rightarrow> bool \<Rightarrow> tl_writer" where
  "write_delete peer ids revoke =
     (let w = tl_writer_init;
          w = (if hp_kind peer = HISTORY_PEER_CHANNEL then
                 tl_write_int64 (tl_write_int64
                   (tl_write_uint32 (tl_write_uint32 w CRC_channels_deleteMessages) CRC_inputChannel)
                   (hp_peer_id peer)) (hp_access_hash peer)
               else tl_write_uint32 (tl_write_uint32 w CRC_messages_deleteMessages) (if revoke then 1 else 0))
      in write_ids w ids)"

definition domain_delete_messages ::
  "client_env \<Rightarrow> history_peer \<Rightarrow> int list \<Rightarrow> bool \<Rightarrow> unit request" where
  "domain_delete_messages E peer ids revoke =
     (if length ids = 0 \<or> length ids > 100 then fail
      else bind (query_of (write_delete peer ids revoke) 1024) (\<lambda>query.
           bind (rpc_answer E 0 query 1024) (\<lambda>(top, resp). skip)))"

section \<open>Forwarding\<close>

text \<open>One random identifier per message, zero where the generator fails.\<close>

definition write_forward :: "history_peer \<Rightarrow> history_peer \<Rightarrow> int list \<Rightarrow> (nat \<Rightarrow> byte list option) \<Rightarrow> tl_writer" where
  "write_forward from_peer to_peer ids rnd =
     (let w = tl_write_uint32 tl_writer_init CRC_messages_forwardMessages;
          w = tl_write_uint32 w 0;
          w = write_input_peer w from_peer;
          w = write_ids w ids;
          w = tl_write_uint32 (tl_write_uint32 w TL_VECTOR_CTOR) (word_of_nat (length ids));
          w = foldl (\<lambda>w i. tl_write_int64 w (case rnd i of None \<Rightarrow> 0 | Some bs \<Rightarrow> sint (le_word bs :: u64)))
                w [0..<length ids]
      in write_input_peer w to_peer)"

definition domain_forward_messages ::
  "client_env \<Rightarrow> history_peer \<Rightarrow> history_peer \<Rightarrow> int list \<Rightarrow> (nat \<Rightarrow> byte list option) \<Rightarrow> unit request" where
  "domain_forward_messages E from_peer to_peer ids rnd =
     (if length ids = 0 \<or> length ids > 100 then fail
      else bind (query_of (write_forward from_peer to_peer ids rnd) 2048) (\<lambda>query.
           bind (rpc_answer E 0 query 4096) (\<lambda>(top, resp). skip)))"

section \<open>Marking as read\<close>

definition build_messages_request :: "history_peer \<Rightarrow> int \<Rightarrow> nat \<Rightarrow> ('s, byte list) cfun" where
  "build_messages_request peer max_id cap =
     (if hp_kind peer = HISTORY_PEER_CHANNEL then fail
      else query_of (tl_write_int32
        (write_input_peer (tl_write_uint32 tl_writer_init CRC_messages_readHistory) peer) max_id) cap)"

definition build_channels_request :: "history_peer \<Rightarrow> int \<Rightarrow> nat \<Rightarrow> ('s, byte list) cfun" where
  "build_channels_request peer max_id cap =
     (let w = tl_write_uint32 tl_writer_init CRC_channels_readHistory;
          w = tl_write_uint32 w CRC_inputChannel;
          w = tl_write_int64 w (hp_peer_id peer);
          w = tl_write_int64 w (hp_access_hash peer);
          w = tl_write_int32 w max_id
      in query_of w cap)"

definition domain_mark_read :: "client_env \<Rightarrow> history_peer \<Rightarrow> int \<Rightarrow> unit request" where
  "domain_mark_read E peer max_id =
     (let is_channel = (hp_kind peer = HISTORY_PEER_CHANNEL) in
      bind (if is_channel then build_channels_request peer max_id 64
            else build_messages_request peer max_id 64) (\<lambda>query.
      bind (rpc_answer E 0 query 512) (\<lambda>(top, resp).
        if is_channel \<and> top = TL_boolFalse then fail else skip)))"

section \<open>The queries\<close>

definition enc_input_peer :: "history_peer \<Rightarrow> byte list" where
  "enc_input_peer p = (case hp_kind p of
     HISTORY_PEER_SELF \<Rightarrow> le_bytes 4 TL_inputPeerSelf
   | HISTORY_PEER_USER \<Rightarrow> le_bytes 4 TL_inputPeerUser @ le_bytes 8 (word_of_int (hp_peer_id p) :: u64) @
       le_bytes 8 (word_of_int (hp_access_hash p) :: u64)
   | HISTORY_PEER_CHAT \<Rightarrow> le_bytes 4 TL_inputPeerChat @ le_bytes 8 (word_of_int (hp_peer_id p) :: u64)
   | HISTORY_PEER_CHANNEL \<Rightarrow> le_bytes 4 TL_inputPeerChannel @ le_bytes 8 (word_of_int (hp_peer_id p) :: u64) @
       le_bytes 8 (word_of_int (hp_access_hash p) :: u64))"

lemma wr_data_input_peer [wire_simps]: "wr_data (write_input_peer w p) = wr_data w @ enc_input_peer p"
  by (cases "hp_kind p") (simp_all add: write_input_peer_def enc_input_peer_def wire_simps)

lemma wr_sync_input_peer [simp]: "wr_sync (write_input_peer w p) = wr_sync w"
  by (cases "hp_kind p") (simp_all add: write_input_peer_def)

lemma length_enc_input_peer: "length (enc_input_peer p) \<le> 20"
  by (cases "hp_kind p") (simp_all add: enc_input_peer_def)

definition enc_ids :: "int list \<Rightarrow> byte list" where
  "enc_ids ids = le_bytes 4 TL_VECTOR_CTOR @ le_bytes 4 (word_of_nat (length ids) :: u32) @
     concat (map (\<lambda>i. le_bytes 4 (word_of_int i :: u32)) ids)"

lemma wr_fold_writes:
  assumes "\<And>w x. wr_data (f w x) = wr_data w @ g x" "\<And>w x. wr_sync (f w x) = wr_sync w"
  shows "wr_data (foldl f w xs) = wr_data w @ concat (map g xs)" "wr_sync (foldl f w xs) = wr_sync w"
  by (induction xs arbitrary: w) (simp_all add: assms)

lemma wr_ids [simp]:
  "wr_data (write_ids w ids) = wr_data w @ enc_ids ids" "wr_sync (write_ids w ids) = wr_sync w"
proof -
  have int: "wr_data (tl_write_int32 w i) = wr_data w @ le_bytes 4 (word_of_int i :: u32)" for w i
    by (simp add: wire_simps)
  note fold = wr_fold_writes[of tl_write_int32, OF int wr_sync_writes(2)]
  show "wr_data (write_ids w ids) = wr_data w @ enc_ids ids" "wr_sync (write_ids w ids) = wr_sync w"
    by (simp_all add: write_ids_def enc_ids_def fold wire_simps)
qed

lemma length_concat_bytes: "length (concat (map (\<lambda>x. le_bytes n (f x)) xs)) = n * length xs"
  by (induction xs) simp_all

lemma length_enc_ids: "length (enc_ids ids) = 8 + 4 * length ids"
  by (simp add: enc_ids_def length_concat_bytes)

definition enc_send :: "history_peer \<Rightarrow> byte list \<Rightarrow> int \<Rightarrow> u64 \<Rightarrow> byte list" where
  "enc_send peer message reply_to rid =
     le_bytes 4 CRC_messages_sendMessage @ le_bytes 4 (if reply_to > 0 then 1 else 0 :: u32) @
     enc_input_peer peer @
     (if reply_to > 0 then le_bytes 4 CRC_inputReplyToMessage @ le_bytes 4 (0 :: u32) @
        le_bytes 4 (word_of_int reply_to :: u32) else []) @
     enc_bytes message @ le_bytes 8 rid"

lemma write_send_data:
  "wr_data (write_send peer message reply_to rid) = enc_send peer (cstr message) reply_to rid"
  "wr_sync (write_send peer message reply_to rid)"
  by (simp_all add: write_send_def enc_send_def Let_def wire_simps)

lemma write_edit_data:
  "wr_data (write_edit peer msg_id t) = le_bytes 4 CRC_messages_editMessage @
     le_bytes 4 (push_bit 11 1 :: u32) @ enc_input_peer peer @ le_bytes 4 (word_of_int msg_id :: u32) @
     enc_bytes (cstr t)"
  "wr_sync (write_edit peer msg_id t)"
  by (simp_all add: write_edit_def Let_def wire_simps)

lemma write_forward_data:
  "wr_sync (write_forward p q ids rnd)"
  "length (wr_data (write_forward p q ids rnd)) =
     24 + 12 * length ids + length (enc_input_peer p) + length (enc_input_peer q)"
proof -
  let ?r = "\<lambda>i. case rnd i of None \<Rightarrow> 0 | Some bs \<Rightarrow> sint (le_word bs :: u64)"
  have step: "wr_data (tl_write_int64 w (?r i)) = wr_data w @ le_bytes 8 (word_of_int (?r i) :: u64)"
    "wr_sync (tl_write_int64 w (?r i)) = wr_sync w" for w i
    by (simp_all add: wire_simps)
  note fold = wr_fold_writes[of "\<lambda>w i. tl_write_int64 w (?r i)", OF step]
  show "wr_sync (write_forward p q ids rnd)" "length (wr_data (write_forward p q ids rnd)) =
     24 + 12 * length ids + length (enc_input_peer p) + length (enc_input_peer q)"
    by (simp_all add: write_forward_def Let_def fold wire_simps length_enc_ids length_concat_bytes)
qed

lemma write_delete_data:
  "wr_sync (write_delete peer ids revoke)" "length (wr_data (write_delete peer ids revoke)) \<le> 32 + 4 * length ids"
  by (simp_all add: write_delete_def Let_def wire_simps length_enc_ids)

text \<open>No request is refused for its size: the buffers are large enough for what passes the checks.\<close>

lemma write_queries_fit:
  "length (cstr t) \<le> 4096 \<Longrightarrow> wr_len (write_send peer t reply_to rid) \<le> 8192"
  "length (cstr t) \<le> 4096 \<Longrightarrow> wr_len (write_edit peer msg_id t) \<le> 8192"
  "length ids \<le> 100 \<Longrightarrow> wr_len (write_delete peer ids revoke) \<le> 1024"
  "length ids \<le> 100 \<Longrightarrow> wr_len (write_forward peer to_peer ids rnd) \<le> 2048"
  using length_enc_bytes_le[of "cstr t"] length_enc_input_peer[of peer] length_enc_input_peer[of to_peer]
    write_delete_data(2)[of peer ids revoke]
  by (simp_all add: wr_sync_len write_send_data write_edit_data write_delete_data(1) write_forward_data
      enc_send_def)

section \<open>Safety\<close>

lemma keeps_short_sent [keeps_rules]: "keeps (reading d anywhere) read_short_sent"
  unfolding read_short_sent_def by (intro keeps_rules) simp

lemma safe_put_snd [safe_rules]: "safe (beside anywhere anywhere) (put_out f)"
  by (simp add: safe_def beside_def put_out_def)

lemma yields_read_request:
  "yields (if hp_kind peer = HISTORY_PEER_CHANNEL then build_channels_request peer max_id 64
      else build_messages_request peer max_id 64) (\<lambda>q. length q \<le> 64)"
  "safe I (if hp_kind peer = HISTORY_PEER_CHANNEL then build_channels_request peer max_id 64
      else build_messages_request peer max_id 64)"
  by (auto simp: build_channels_request_def build_messages_request_def query_of_def Let_def wr_sync_len
      intro: yields_simple safe_rules)

lemma safe_domain_write:
  assumes "client_ok E"
  shows "safe (beside anywhere anywhere) (domain_send_message_reply E rand_buf r1 r2 peer message reply_to)"
    and "safe anywhere (domain_edit_message E peer msg_id t)"
    and "safe anywhere (domain_delete_messages E peer ids revoke)"
    and "safe anywhere (domain_forward_messages E peer to_peer ids rnd)"
    and "safe anywhere (domain_mark_read E peer max_id)"
  unfolding domain_send_message_reply_def domain_edit_message_def domain_delete_messages_def
    domain_forward_messages_def domain_mark_read_def Let_def
  by (rule safe_queried safe_answered[OF assms] safe_answered_plain[OF assms]
      safe_bind_yields[OF yields_read_request(2,1)] safe_rules keeps_short_sent
      write_send_data write_edit_data write_delete_data write_forward_data
      | (simp; fail))+

section \<open>What sending does\<close>

lemma find_first:
  assumes "\<forall>i < k. \<not> P i" "P k" "k < n"
  shows "find P [0..<n] = Some k"
  unfolding find_Some_iff using assms by (intro exI[of _ k]) auto

text \<open>
  C6. A message of at most 4096 bytes always goes out: it is not refused for its size, and the
  query is \<open>messages.sendMessage\<close> with the peer, the reply header if there is one, the text and
  the random identifier. If the server answers with updates that map this identifier to a
  message, the caller is told that message's number.
\<close>

theorem send_message_correct:
  fixes mid :: u32
  assumes "0 < length message" "length message \<le> 4096" "0 \<notin> set message"
    and "rid = random_id rand_buf r1 r2"
    and "client_call E 0 (enc_send peer message reply_to rid) 8192 link = (Ok resp, link')"
    and "resp = le_bytes 4 TL_updates @ pre @ le_bytes 4 CRC_updateMessageID @ le_bytes 4 mid @
           le_bytes 8 rid @ post"
    and "\<forall>i < 4 + length pre. \<not> is_message_id resp rid i"
  shows "domain_send_message_reply E rand_buf r1 r2 peer message reply_to ((link, err), Some v) =
    (Ok (), ((link', err), Some (sint mid)))"
proof -
  have msg: "cstr message = message" using assms(3) by (rule cstr_id)
  have fits: "wr_len (write_send peer message reply_to rid) \<le> 8192"
    using write_queries_fit(1)[of message] assms(2) by (simp add: msg)
  have at: "is_message_id resp rid (4 + length pre)"
    by (simp add: is_message_id_def assms(6))
  have found: "find (is_message_id resp rid) [0..<length resp - 15] = Some (4 + length pre)"
    by (rule find_first[OF assms(7) at]) (simp add: assms(6))
  have "drop (4 + length pre + 4) resp = le_bytes 4 mid @ le_bytes 8 rid @ post"
    by (simp add: assms(6))
  with found have scan: "scan_message_id resp rid = Some (sint mid)"
    by (simp add: scan_message_id_def)
  have top: "le_word (take 4 resp) = TL_updates" "16 \<le> length resp" by (simp_all add: assms(6))
  have "rpc_answer E 0 (enc_send peer message reply_to rid) 8192 (link, err) = (Ok (TL_updates, resp), (link', err))"
    using assms(5) top by (simp add: rpc_answer_def bind_def on_fst_def ret_def Let_def)
  then show ?thesis
    using assms(1,2) fits scan top(2)
    by (simp add: domain_send_message_reply_def msg assms(4)[symmetric] Let_def query_of_def write_send_data
        bind_def on_fst_def put_out_def ret_def)
qed

definition self_peer :: history_peer where
  "self_peer = \<lparr>hp_kind = HISTORY_PEER_SELF, hp_peer_id = 0, hp_access_hash = 0\<rparr>"

definition demo_updates :: "byte list" where
  "demo_updates = le_bytes 4 TL_updates @ [] @ le_bytes 4 CRC_updateMessageID @ le_bytes 4 (77 :: u32) @
     le_bytes 8 (5 :: u64) @ []"

lemma demo_updates_scan: "\<forall>i < 4 + length ([] :: byte list). \<not> is_message_id demo_updates 5 i"
proof -
  have bytes: "demo_updates = [0x40, 0x42, 0xae, 0x74, 0xd6, 0xbf, 0x90, 0x4e] @ le_bytes 4 (77 :: u32) @ le_bytes 8 (5 :: u64)"
    by (simp add: demo_updates_def le_bytes_def upt_rec)
  have four: "le_word [a, b, c, d] = (ucast a OR push_bit 8 (ucast b) OR push_bit 16 (ucast c) OR
      push_bit 24 (ucast d) :: u32)" for a b c d :: byte
    by (simp add: le_word_def upt_rec or.assoc)
  have "le_word [0x40, 0x42, 0xae, 0x74] \<noteq> CRC_updateMessageID"
    "le_word [0x42, 0xae, 0x74, 0xd6] \<noteq> CRC_updateMessageID"
    "le_word [0xae, 0x74, 0xd6, 0xbf] \<noteq> CRC_updateMessageID"
    "le_word [0x74, 0xd6, 0xbf, 0x90] \<noteq> CRC_updateMessageID"
    unfolding four by simp_all
  moreover have "i < 4 \<Longrightarrow> i = 0 \<or> i = 1 \<or> i = 2 \<or> i = 3" for i :: nat by linarith
  ultimately show ?thesis
    unfolding bytes is_message_id_def by fastforce
qed

theorem send_message_correct_witness:
  "\<exists>link'. domain_send_message_reply demo_client (Some (le_bytes 8 (5 :: u64))) 0 0 self_peer [104, 105] 0
     ((demo_link [demo_updates] 2000, None), Some 0) = (Ok (), ((link', None), Some 77))"
proof -
  have rid: "5 = random_id (Some (le_bytes 8 (5 :: u64))) 0 0" by (simp add: random_id_def)
  have len: "length (enc_send self_peer [104, 105] 0 5) \<le> 100"
    by (simp add: enc_send_def self_peer_def enc_input_peer_def length_enc_bytes length_enc_prefix)
  have upd: "length demo_updates = 20" "le_word (take 4 demo_updates) = TL_updates"
    by (simp_all add: demo_updates_def)
  have fits: "length (enc_send self_peer [104, 105] 0 5) + length demo_updates + 500 + 0 \<le> 2000"
    "length (enc_send self_peer [104, 105] 0 5) \<le> 1000000" "length demo_updates \<le> 1000000"
    "length demo_updates \<le> 8192" "length demo_updates < 4 \<or> le_word (take 4 demo_updates) \<noteq> CRC_gzip_packed"
    using len upd by simp_all
  obtain link' where "client_call demo_client 0 (enc_send self_peer [104, 105] 0 5) 8192
      (demo_link [demo_updates] 2000) = (Ok demo_updates, link')"
    by (rule demo_call[OF demo_link_answering fits])
  note sent = send_message_correct[OF _ _ _ rid this demo_updates_def demo_updates_scan, of None 0]
  show ?thesis by (rule exI, rule trans[OF sent]) simp_all
qed

end
