(* ===== verification/Domain_History.thy ===== *)
theory Domain_History
  imports Domain_Write TL_Extract
begin

text \<open>
  Message history of \<open>src/src/domain/read/history.c\<close>: the parser of a \<open>Message\<close>, the
  rendering of service messages, and \<open>messages.getHistory\<close>. The parser's parts are shared
  with the search and the update commands, as the sources repeat them.
\<close>

section \<open>Entries\<close>

abbreviation (input) HISTORY_TEXT_MAX :: nat where "HISTORY_TEXT_MAX \<equiv> 512"
abbreviation (input) CRC_messageActionEmpty :: u32 where "CRC_messageActionEmpty \<equiv> 0xb6aef7b0"
abbreviation (input) CRC_messageActionChatCreate :: u32 where "CRC_messageActionChatCreate \<equiv> 0xbd47cbad"
abbreviation (input) CRC_messageActionChatEditTitle :: u32 where "CRC_messageActionChatEditTitle \<equiv> 0xb5a1ce5a"
abbreviation (input) CRC_messageActionChatEditPhoto :: u32 where "CRC_messageActionChatEditPhoto \<equiv> 0x7fcb13a8"
abbreviation (input) CRC_messageActionChatDeletePhoto :: u32 where "CRC_messageActionChatDeletePhoto \<equiv> 0x95e3fbef"
abbreviation (input) CRC_messageActionChatAddUser :: u32 where "CRC_messageActionChatAddUser \<equiv> 0x15cefd00"
abbreviation (input) CRC_messageActionChatDeleteUser :: u32 where "CRC_messageActionChatDeleteUser \<equiv> 0xa43f30cc"
abbreviation (input) CRC_messageActionChatJoinedByLink :: u32 where "CRC_messageActionChatJoinedByLink \<equiv> 0x031224c3"
abbreviation (input) CRC_messageActionChannelCreate :: u32 where "CRC_messageActionChannelCreate \<equiv> 0x95d2ac92"
abbreviation (input) CRC_messageActionChatMigrateTo :: u32 where "CRC_messageActionChatMigrateTo \<equiv> 0xe1037f92"
abbreviation (input) CRC_messageActionChannelMigrateFrom :: u32 where "CRC_messageActionChannelMigrateFrom \<equiv> 0xea3948e9"
abbreviation (input) CRC_messageActionPinMessage :: u32 where "CRC_messageActionPinMessage \<equiv> 0x94bd38ed"
abbreviation (input) CRC_messageActionHistoryClear :: u32 where "CRC_messageActionHistoryClear \<equiv> 0x9fbab604"
abbreviation (input) CRC_messageActionPhoneCall :: u32 where "CRC_messageActionPhoneCall \<equiv> 0x80e11a7f"
abbreviation (input) CRC_messageActionScreenshotTaken :: u32 where "CRC_messageActionScreenshotTaken \<equiv> 0x4792929b"
abbreviation (input) CRC_messageActionCustomAction :: u32 where "CRC_messageActionCustomAction \<equiv> 0xfae69f56"
abbreviation (input) CRC_messageActionGroupCall :: u32 where "CRC_messageActionGroupCall \<equiv> 0x7a0d7f42"
abbreviation (input) CRC_messageActionGroupCallScheduled :: u32 where "CRC_messageActionGroupCallScheduled \<equiv> 0xb3a07661"
abbreviation (input) CRC_messageActionInviteToGroupCall :: u32 where "CRC_messageActionInviteToGroupCall \<equiv> 0x502f92f7"
abbreviation (input) CRC_phoneCallDiscardReasonMissed :: u32 where "CRC_phoneCallDiscardReasonMissed \<equiv> 0x85e42301"
abbreviation (input) CRC_phoneCallDiscardReasonDisconnect :: u32 where "CRC_phoneCallDiscardReasonDisconnect \<equiv> 0xe095c1a0"
abbreviation (input) CRC_phoneCallDiscardReasonHangup :: u32 where "CRC_phoneCallDiscardReasonHangup \<equiv> 0x57adc690"
abbreviation (input) CRC_phoneCallDiscardReasonBusy :: u32 where "CRC_phoneCallDiscardReasonBusy \<equiv> 0xfaf7e8c9"
abbreviation (input) CRC_messages_getHistory :: u32 where "CRC_messages_getHistory \<equiv> 0x4423e6c5"

record history_entry =
  he_id :: int
  he_date :: int
  he_out :: bool
  he_text :: "byte list"
  he_truncated :: bool
  he_complex :: bool
  he_is_service :: bool
  he_media :: media_kind
  he_media_id :: int
  he_media_dc :: int
  he_media_info :: media_info
  he_peer_id :: int

definition entry_zero :: history_entry where
  "entry_zero = \<lparr>he_id = 0, he_date = 0, he_out = False, he_text = [], he_truncated = False,
     he_complex = False, he_is_service = False, he_media = MEDIA_NONE, he_media_id = 0, he_media_dc = 0,
     he_media_info = media_zero, he_peer_id = 0\<rparr>"

type_synonym 'a entry_reader = "(tl_reader \<times> history_entry, 'a) cfun"

definition set_text :: "byte list \<Rightarrow> history_entry \<Rightarrow> history_entry" where
  "set_text src e =
     (if length src \<ge> HISTORY_TEXT_MAX then e\<lparr>he_text := take (HISTORY_TEXT_MAX - 1) src, he_truncated := True\<rparr>
      else e\<lparr>he_text := src\<rparr>)"

text \<open>\<open>snprintf(buf, sizeof(buf), ...); set_text(out, buf); return 0;\<close>\<close>

definition say :: "byte list \<Rightarrow> unit entry_reader" where
  "say s = upd (set_text (clip HISTORY_TEXT_MAX s))"

text \<open>Conversions \<open>%d\<close>, \<open>%lld\<close> and \<open>%08x\<close>.\<close>

definition dec_int :: "int \<Rightarrow> byte list" where
  "dec_int i = (if i < 0 then 45 # decimal (nat (- i)) else decimal (nat i))"

definition hex8 :: "u32 \<Rightarrow> byte list" where
  "hex8 v = map (\<lambda>k. let d = unat (drop_bit (4 * k) v AND 15) in word_of_nat (if d < 10 then 48 + d else 87 + d))
     (rev [0..<8])"

text \<open>\<open>if (body != 0) { ...; return -1; }\<close>\<close>

definition on_fail :: "('s, 'a) cfun \<Rightarrow> ('s \<Rightarrow> 's) \<Rightarrow> ('s, 'a) cfun" where
  "on_fail m h s = (case m s of
     (Ok x, s') \<Rightarrow> (Ok x, s') | (Fail, s') \<Rightarrow> (Fail, h s') | (Oob, s') \<Rightarrow> (Oob, s') | (Fuel, s') \<Rightarrow> (Fuel, s'))"

definition or_complex :: "(tl_reader, 'a) cfun \<Rightarrow> 'a entry_reader" where
  "or_complex m = on_fail (on_fst m) (apsnd (\<lambda>e. e\<lparr>he_complex := True\<rparr>))"

section \<open>The request\<close>

definition history_request :: "history_peer \<Rightarrow> int \<Rightarrow> int \<Rightarrow> tl_writer" where
  "history_request peer offset_id limit =
     (let w = tl_write_uint32 tl_writer_init CRC_messages_getHistory;
          w = write_input_peer w peer;
          w = tl_write_int32 w offset_id;
          w = tl_write_int32 w 0;
          w = tl_write_int32 w 0;
          w = tl_write_int32 w limit;
          w = tl_write_int32 w 0;
          w = tl_write_int32 w 0
      in tl_write_int64 w 0)"

section \<open>Service messages\<close>

definition skip_long_vector :: walker where
  "skip_long_vector = seqs [need 8, expect TL_vector,
     with_u32 (\<lambda>n. if n > 4096 then fail else seqs [need (unat n * 8), times (unat n) int64])]"

definition read_long_vector_first :: "(tl_reader, int) cfun" where
  "read_long_vector_first =
     bind (need 8) (\<lambda>_. bind (expect TL_vector) (\<lambda>_. bind tl_read_uint32 (\<lambda>n.
       if n > 4096 then fail
       else bind (need (unat n * 8)) (\<lambda>_.
         if n = 0 then ret 0
         else bind tl_read_int64 (\<lambda>v. bind (times (unat n - 1) int64) (\<lambda>_. ret v))))))"

definition discard_reason :: "u32 \<Rightarrow> byte list" where
  "discard_reason rcrc =
     (if rcrc = CRC_phoneCallDiscardReasonMissed then ascii ''missed''
      else if rcrc = CRC_phoneCallDiscardReasonDisconnect then ascii ''disconnected''
      else if rcrc = CRC_phoneCallDiscardReasonHangup then ascii ''hangup''
      else if rcrc = CRC_phoneCallDiscardReasonBusy then ascii ''busy''
      else ascii ''completed'')"

text \<open>A string that has to be there.\<close>

definition title_string :: "(byte list \<Rightarrow> unit entry_reader) \<Rightarrow> unit entry_reader" where
  "title_string f = bind (on_fst tl_read_string) (\<lambda>s. case s of None \<Rightarrow> fail | Some s \<Rightarrow> f (cstr s))"

definition action_phone_call :: "unit entry_reader" where
  "action_phone_call =
     bind (on_fst (need 12)) (\<lambda>_. bind (on_fst tl_read_uint32) (\<lambda>pflags. bind (on_fst int64) (\<lambda>_.
     bind (if bit pflags 0 then bind (on_fst (need 4)) (\<lambda>_. bind (on_fst tl_read_uint32) (\<lambda>c. ret (discard_reason c)))
           else ret (ascii ''completed'')) (\<lambda>reason.
     bind (if bit pflags 1 then bind (on_fst (need 4)) (\<lambda>_. on_fst tl_read_int32) else ret 0) (\<lambda>duration.
       say (ascii ''called (duration '' @ dec_int duration @ ascii ''s, '' @ reason @ ascii '')''))))))"

definition action_group_call :: "unit entry_reader" where
  "action_group_call =
     bind (on_fst (need 4)) (\<lambda>_. bind (on_fst tl_read_uint32) (\<lambda>gflags. seqs
       [on_fst (need 20), on_fst uint32, on_fst int64, on_fst int64,
        when_bit gflags 0 (on_fst need_int32),
        say (ascii ''started video chat'')]))"

definition parse_service_action :: "unit entry_reader" where
  "parse_service_action =
     bind (upd (\<lambda>e. e\<lparr>he_is_service := True\<rparr>)) (\<lambda>_.
     bind (on_fail (on_fst (need 4)) (apsnd (set_text (ascii ''[service action truncated]'')))) (\<lambda>_.
     bind (on_fst tl_read_uint32) (\<lambda>acrc.
       if acrc = CRC_messageActionEmpty then say []
       else if acrc = CRC_messageActionChatCreate then
         title_string (\<lambda>title. bind (on_fst skip_long_vector) (\<lambda>_.
           say (ascii ''created group '' @ [39] @ title @ [39])))
       else if acrc = CRC_messageActionChatEditTitle then
         title_string (\<lambda>title. say (ascii ''changed title to '' @ [39] @ title @ [39]))
       else if acrc = CRC_messageActionChatEditPhoto then
         bind (on_fail (on_fst tl_skip_photo) (apsnd (set_text (ascii ''changed group photo'')))) (\<lambda>_.
           say (ascii ''changed group photo''))
       else if acrc = CRC_messageActionChatDeletePhoto then say (ascii ''removed group photo'')
       else if acrc = CRC_messageActionChatAddUser then
         bind (on_fst read_long_vector_first) (\<lambda>first. say (ascii ''added @'' @ dec_int first))
       else if acrc = CRC_messageActionChatDeleteUser then
         bind (on_fst (need 8)) (\<lambda>_. bind (on_fst tl_read_int64) (\<lambda>uid. say (ascii ''removed @'' @ dec_int uid)))
       else if acrc = CRC_messageActionChatJoinedByLink then
         bind (on_fst need_int64) (\<lambda>_. say (ascii ''joined via invite link''))
       else if acrc = CRC_messageActionChannelCreate then
         title_string (\<lambda>title. say (ascii ''created channel '' @ [39] @ title @ [39]))
       else if acrc = CRC_messageActionChatMigrateTo then
         bind (on_fst (need 8)) (\<lambda>_. bind (on_fst tl_read_int64) (\<lambda>cid.
           say (ascii ''migrated to channel '' @ dec_int cid)))
       else if acrc = CRC_messageActionChannelMigrateFrom then
         title_string (\<lambda>title. bind (on_fst (need 8)) (\<lambda>_. bind (on_fst tl_read_int64) (\<lambda>cid.
           say (ascii ''migrated from group '' @ dec_int cid @ ascii '' '' @ [39] @ title @ [39]))))
       else if acrc = CRC_messageActionPinMessage then
         upd (\<lambda>e. if he_text e = [] then set_text (ascii ''pinned message'') e else e)
       else if acrc = CRC_messageActionHistoryClear then say (ascii ''history cleared'')
       else if acrc = CRC_messageActionPhoneCall then action_phone_call
       else if acrc = CRC_messageActionScreenshotTaken then say (ascii ''took screenshot'')
       else if acrc = CRC_messageActionCustomAction then title_string (\<lambda>msg. upd (set_text msg))
       else if acrc = CRC_messageActionGroupCall then action_group_call
       else if acrc = CRC_messageActionGroupCallScheduled then
         bind (on_fst (seqs [need 24, uint32, int64, int64])) (\<lambda>_. bind (on_fst tl_read_int32) (\<lambda>sched.
           say (ascii ''scheduled video chat for '' @ dec_int sched)))
       else if acrc = CRC_messageActionInviteToGroupCall then
         bind (on_fst (seqs [need 20, uint32, int64, int64, skip_long_vector])) (\<lambda>_.
           say (ascii ''invited to video chat''))
       else say (ascii ''[service action 0x'' @ hex8 acrc @ ascii '']''))))"

text \<open>The pinned message's number, looked up in the reply header without moving the cursor.\<close>

definition peek_pinned :: "unit entry_reader" where
  "peek_pinned s = (let r = fst s in
     if avail r \<ge> 12 then
       (case peek r (rd_pos r) 12 of
          None \<Rightarrow> (Oob, s)
        | Some bs \<Rightarrow>
            (Ok (), if (le_word (take 4 bs) :: u32) = 0xafbc09db \<and> bit (le_word (take 4 (drop 4 bs)) :: u32) 4
               then apsnd (set_text (clip HISTORY_TEXT_MAX
                 (ascii ''pinned message '' @ dec_int (sint (le_word (drop 8 bs) :: u32))))) s
               else s))
     else (Ok (), s))"

text \<open>
  The text set before the action is put back if the action leaves an empty one; this also
  happens on the error path.
\<close>

definition keep_text :: "unit entry_reader \<Rightarrow> unit entry_reader" where
  "keep_text m s = (let saved = he_text (snd s) in case m s of (res, (r, e)) \<Rightarrow>
     (res, (r, if he_text e = [] \<and> saved \<noteq> [] then e\<lparr>he_text := saved\<rparr> else e)))"

definition domain_history_parse_service :: "u32 \<Rightarrow> unit entry_reader" where
  "domain_history_parse_service flags = seqs
     [upd (\<lambda>e. e\<lparr>he_is_service := True\<rparr>),
      when_bit flags 8 (or_complex tl_skip_peer),
      or_complex tl_skip_peer,
      when_bit flags 3 peek_pinned,
      when_bit flags 3 (or_complex tl_skip_message_reply_header),
      or_complex (need 4),
      read_to tl_read_int32 (\<lambda>v e. e\<lparr>he_date := v\<rparr>),
      keep_text parse_service_action,
      when_bit flags 25 (when_avail 4 (on_fst int32))]"

section \<open>Messages\<close>

text \<open>The fields before the text; \<open>peer\<close> handles the mandatory peer.\<close>

definition message_head :: "unit entry_reader \<Rightarrow> u32 \<Rightarrow> u32 \<Rightarrow> unit entry_reader" where
  "message_head peer flags flags2 = seqs
     [when_bit flags 8 (or_complex tl_skip_peer),
      peer,
      when_bit flags 28 (or_complex tl_skip_peer),
      when_bit flags 2 (or_complex tl_skip_message_fwd_header),
      when_bit flags 11 (or_complex need_int64),
      when_bit flags2 0 (or_complex need_int64),
      when_bit flags 3 (or_complex tl_skip_message_reply_header),
      or_complex (need 4),
      read_to tl_read_int32 (\<lambda>v e. e\<lparr>he_date := v\<rparr>)]"

definition message_text :: "unit entry_reader" where
  "message_text = bind (on_fst tl_read_string) (\<lambda>msg.
     case msg of None \<Rightarrow> skip | Some s \<Rightarrow> upd (set_text (cstr s)))"

text \<open>The attachment; \<open>keep_info\<close> is whether its details are stored in the entry.\<close>

definition message_media :: "bool \<Rightarrow> unit entry_reader" where
  "message_media keep_info s =
     (case tl_skip_message_media_ex (fst s, Some media_zero) of
        (res, (r, out)) \<Rightarrow>
          let mi = (case out of None \<Rightarrow> media_zero | Some m \<Rightarrow> m); e = snd s in
          case res of
            Ok _ \<Rightarrow> (Ok (), (r, e\<lparr>he_media := kind mi,
              he_media_id := (if kind mi = MEDIA_PHOTO then photo_id mi
                else if kind mi = MEDIA_DOCUMENT then document_id mi else 0),
              he_media_dc := dc_id mi,
              he_media_info := (if keep_info then mi else he_media_info e)\<rparr>))
          | Fail \<Rightarrow> (Fail, (r, e\<lparr>he_media := kind mi, he_complex := True\<rparr>))
          | Oob \<Rightarrow> (Oob, (r, e))
          | Fuel \<Rightarrow> (Fuel, (r, e)))"

definition message_trailer :: "u32 \<Rightarrow> u32 \<Rightarrow> unit entry_reader" where
  "message_trailer flags flags2 = seqs
     [when_bit flags 6 (or_complex tl_skip_reply_markup),
      when_bit flags 7 (or_complex tl_skip_message_entities_vector),
      when_bit flags 10 (or_complex (seqs [need 8, int32, int32])),
      when_bit flags 23 (or_complex tl_skip_message_replies),
      when_bit flags 15 (or_complex need_int32),
      when_bit flags 16 (or_complex tl_skip_string),
      when_bit flags 17 (or_complex need_int64),
      when_bit flags 20 (or_complex tl_skip_message_reactions),
      when_bit flags 22 (or_complex tl_skip_restriction_reason_vector),
      when_bit flags 25 (or_complex need_int32),
      when_bit flags2 30 (or_complex need_int32),
      when_bit flags2 2 (or_complex need_int64),
      when_bit flags2 3 (or_complex tl_skip_factcheck)]"

definition message_body :: "unit entry_reader \<Rightarrow> bool \<Rightarrow> u32 \<Rightarrow> u32 \<Rightarrow> unit entry_reader" where
  "message_body peer keep_info flags flags2 = seqs
     [message_head peer flags flags2,
      message_text,
      when_bit flags 9 (message_media keep_info),
      message_trailer flags flags2]"

definition parse_message_with :: "unit entry_reader \<Rightarrow> bool \<Rightarrow> unit entry_reader" where
  "parse_message_with peer keep_info =
     bind (on_fst reader_ok) (\<lambda>_. bind (on_fst tl_read_uint32) (\<lambda>crc.
       if crc = TL_messageEmpty then
         bind (on_fst tl_read_uint32) (\<lambda>flags. seqs
           [read_to tl_read_int32 (\<lambda>v e. e\<lparr>he_id := v\<rparr>),
            when_bit flags 0 (on_fst (seqs [uint32, int64]))])
       else if crc \<noteq> TL_message \<and> crc \<noteq> TL_messageService then fail
       else
         bind (on_fst tl_read_uint32) (\<lambda>flags.
         bind (if crc = TL_message then on_fst tl_read_uint32 else ret 0) (\<lambda>flags2.
         bind (upd (\<lambda>e. e\<lparr>he_out := bit flags 1\<rparr>)) (\<lambda>_.
         bind (read_to tl_read_int32 (\<lambda>v e. e\<lparr>he_id := v\<rparr>)) (\<lambda>_.
           if crc = TL_messageService then domain_history_parse_service flags
           else message_body peer keep_info flags flags2))))))"

definition parse_message :: "unit entry_reader" where
  "parse_message = parse_message_with (or_complex tl_skip_peer) True"

text \<open>
  The loop over a vector of messages: entries that carry an identifier or a text are
  stored until the array is full; it stops at a message it cannot get past.
\<close>

fun collect_messages ::
  "unit entry_reader \<Rightarrow> nat \<Rightarrow> nat \<Rightarrow> (tl_reader \<times> history_entry list, unit) cfun" where
  "collect_messages m 0 limit s = (Ok (), s)"
| "collect_messages m (Suc n) limit (r, out) =
     (if length out \<ge> limit then (Ok (), (r, out))
      else case m (r, entry_zero) of (res, (r', e)) \<Rightarrow>
        let out' = (if he_id e \<noteq> 0 \<or> he_text e \<noteq> [] then out @ [e] else out) in
        case res of
          Ok _ \<Rightarrow> collect_messages m n limit (r', out')
        | Fail \<Rightarrow> (Ok (), (r', out'))
        | Oob \<Rightarrow> (Oob, (r', out'))
        | Fuel \<Rightarrow> (Fuel, (r', out')))"

text \<open>The counters in front of the vector, the vector and the loop.\<close>

definition read_messages :: "unit entry_reader \<Rightarrow> u32 \<Rightarrow> nat \<Rightarrow> (tl_reader \<times> history_entry list, unit) cfun" where
  "read_messages m tcrc limit =
     bind (on_fst (seqs (if tcrc = TL_messages_messagesSlice then [uint32, int32]
       else if tcrc = TL_messages_channelMessages then [uint32, int32, int32] else []))) (\<lambda>_.
     bind (on_fst (expect TL_vector)) (\<lambda>_. bind (on_fst tl_read_uint32) (\<lambda>count.
       collect_messages m (unat count) limit)))"

definition is_messages :: "u32 \<Rightarrow> bool" where
  "is_messages tcrc = (tcrc = TL_messages_messages \<or> tcrc = TL_messages_messagesSlice \<or>
     tcrc = TL_messages_channelMessages)"

text \<open>The output array holds \<open>limit\<close> entries; the result are those written.\<close>

definition domain_get_history ::
  "client_env \<Rightarrow> history_peer \<Rightarrow> int \<Rightarrow> int \<Rightarrow> (link \<times> history_entry list, unit) cfun" where
  "domain_get_history E peer offset_id limit =
     (if limit \<le> 0 then fail
      else
        bind (upd (\<lambda>_. [])) (\<lambda>_.
        bind (query_of (history_request peer offset_id limit) 128) (\<lambda>query.
        bind (on_fst (rpc_answer_local E 0 query 262144 8)) (\<lambda>(top, resp).
          if \<not> is_messages top then fail
          else on_snd (run_reader resp (bind (on_fst uint32) (\<lambda>_. read_messages parse_message top (nat limit))))))))"

definition domain_get_history_self ::
  "client_env \<Rightarrow> int \<Rightarrow> int \<Rightarrow> (link \<times> history_entry list, unit) cfun" where
  "domain_get_history_self E = domain_get_history E self_peer"

section \<open>Safety\<close>

text \<open>An entry whose arrays hold what is in them, and an array of such entries.\<close>

definition entry_ok :: "history_entry \<Rightarrow> bool" where
  "entry_ok e = (length (he_text e) < 512 \<and> media_ok (he_media_info e))"

definition entries_ok :: "nat \<Rightarrow> history_entry list \<Rightarrow> bool" where
  "entries_ok limit out = (length out \<le> limit \<and> list_all entry_ok out)"

lemma entry_ok_zero [simp]: "entry_ok entry_zero"
  by (simp add: entry_ok_def entry_zero_def media_ok_def media_zero_def)

lemma entry_ok_set_text: "entry_ok e \<Longrightarrow> entry_ok (set_text s e)"
  by (simp add: entry_ok_def set_text_def)

lemma entry_ok_upd [simp]:
  "entry_ok (e\<lparr>he_id := i\<rparr>) = entry_ok e" "entry_ok (e\<lparr>he_date := i\<rparr>) = entry_ok e"
  "entry_ok (e\<lparr>he_out := b\<rparr>) = entry_ok e" "entry_ok (e\<lparr>he_complex := b\<rparr>) = entry_ok e"
  "entry_ok (e\<lparr>he_is_service := b\<rparr>) = entry_ok e" "entry_ok (e\<lparr>he_peer_id := i\<rparr>) = entry_ok e"
  by (simp_all add: entry_ok_def)

lemma keeps_on_fail [keeps_rules]:
  "keeps I m \<Longrightarrow> (\<And>s. I s \<Longrightarrow> I (h s)) \<Longrightarrow> keeps I (on_fail m h)"
  by (auto simp: keeps_def on_fail_def split: prod.splits outcome.splits)

abbreviation (input) entry_reading where "entry_reading d \<equiv> reading d entry_ok"

lemma keeps_or_complex [keeps_rules]:
  "keeps (within (mem_inv d) (length d)) m \<Longrightarrow> keeps (entry_reading d) (or_complex m)"
  unfolding or_complex_def by (intro keeps_rules) (auto simp: beside_def)

lemma keeps_say [keeps_rules]: "keeps (entry_reading d) (say t)"
  unfolding say_def by (intro keeps_rules) (simp add: entry_ok_set_text)

lemma keeps_title_string [keeps_rules]:
  "(\<And>t. keeps (entry_reading d) (f t)) \<Longrightarrow> keeps (entry_reading d) (title_string f)"
  unfolding title_string_def by (intro keeps_rules)

lemma keeps_long_vectors [keeps_rules]:
  "keeps (within (mem_inv d) k) skip_long_vector" "keeps (within (mem_inv d) k) read_long_vector_first"
  unfolding skip_long_vector_def read_long_vector_first_def by (intro keeps_rules)+

lemma keeps_action_calls [keeps_rules]:
  "keeps (entry_reading d) action_phone_call" "keeps (entry_reading d) action_group_call"
  unfolding action_phone_call_def action_group_call_def by (intro keeps_rules)+

lemma keeps_service_action [keeps_rules]: "keeps (entry_reading d) parse_service_action"
  unfolding parse_service_action_def
  by (intro keeps_rules) (auto simp: beside_def entry_ok_set_text)

text \<open>
  The look-ahead is safe because it follows a peer that was read in full: then the cursor is
  not past the end, and the unsigned difference it is guarded by does not wrap.
\<close>

lemma skip_peer_pos:
  assumes "rd_wf r" "tl_skip_peer r = (Ok x, r')"
  shows "rd_pos r' \<le> rd_len r'"
proof -
  have pos: "rd_pos r + 12 \<le> rd_len r"
    using assms by (auto simp: tl_skip_peer_def ctor_def bind_def need_ok_def tl_reader_ok_def avail_def
        rd_wf_def size_sub_small split: if_splits)
  define r1 where "r1 = r\<lparr>rd_pos := rd_pos r + 4\<rparr>"
  have wf1: "rd_wf r1" using assms(1) pos by (simp add: r1_def rd_wf_def)
  have "read_le32 r = (Ok (le_word (take 4 (drop (rd_pos r) (rd_data r)))), r1)"
    using read_le32_wf[OF assms(1)] pos by (simp add: r1_def)
  moreover have "\<exists>q. read_le64 r1 = (Ok q, r1\<lparr>rd_pos := rd_pos r + 12\<rparr>)"
    using read_le64_wf[OF wf1] pos by (simp add: r1_def)
  ultimately show ?thesis
    using assms(2) pos
    by (auto simp: tl_skip_peer_def ctor_def bind_def need_ok_def int64_def tl_read_int64_def
        tl_read_uint32_def ret_def fail_def r1_def split: if_splits)
qed

lemma peek_pinned_in:
  assumes "entry_reading d s" "rd_pos (fst s) \<le> rd_len (fst s)"
  shows "no_fault (fst (peek_pinned s)) \<and> entry_reading d (snd (peek_pinned s))"
proof (cases "avail (fst s) \<ge> 12")
  case True
  then have "rd_pos (fst s) + 12 \<le> rd_len (fst s)"
    using assms size_sub_small[of "rd_pos (fst s)" "rd_len (fst s)"]
    by (auto simp: beside_def within_def mem_inv_def rd_wf_def avail_def)
  then have "\<exists>bs. peek (fst s) (rd_pos (fst s)) 12 = Some bs"
    using assms by (auto simp: peek_def beside_def within_def mem_inv_def rd_wf_def)
  then show ?thesis
    using assms by (auto simp: peek_pinned_def Let_def beside_def entry_ok_set_text)
qed (use assms in \<open>simp add: peek_pinned_def\<close>)

lemma keeps_peer_then_peek:
  assumes "\<And>x. keeps (entry_reading d) (m x)"
  shows "keeps (entry_reading d)
    (bind (or_complex tl_skip_peer) (\<lambda>_. bind (when_bit flags 3 peek_pinned) m))"
proof (rule keepsI)
  fix s assume s: "entry_reading d s"
  let ?p = "or_complex tl_skip_peer"
  obtain res s1 where p: "?p s = (res, s1)" by (rule prod.exhaust)
  have keep: "keeps (entry_reading d) ?p" by (intro keeps_rules)
  note one = keepsD[OF keep s p]
  show "no_fault (fst (bind ?p (\<lambda>_. bind (when_bit flags 3 peek_pinned) m) s)) \<and>
      entry_reading d (snd (bind ?p (\<lambda>_. bind (when_bit flags 3 peek_pinned) m) s))"
  proof (cases res)
    case (Ok x)
    have "tl_skip_peer (fst s) = (Ok x, fst s1)"
      using p Ok by (auto simp: or_complex_def on_fail_def on_fst_def split: prod.splits outcome.splits)
    from skip_peer_pos[OF _ this] have "rd_pos (fst s1) \<le> rd_len (fst s1)"
      using s by (simp add: beside_def within_def mem_inv_def)
    with one have "no_fault (fst (when_bit flags 3 peek_pinned s1)) \<and>
        entry_reading d (snd (when_bit flags 3 peek_pinned s1))"
      using peek_pinned_in[of d s1] by (simp add: when_bit_def ret_def)
    moreover obtain res2 s2 where "when_bit flags 3 peek_pinned s1 = (res2, s2)" by (rule prod.exhaust)
    ultimately show ?thesis
      using assms p Ok by (cases res2; cases s2) (auto simp: bind_def keeps_def)
  qed (use one p in \<open>auto simp: bind_def\<close>)
qed

lemma keeps_keep_text [keeps_rules]:
  assumes "keeps (entry_reading d) m"
  shows "keeps (entry_reading d) (keep_text m)"
proof (rule keepsI)
  fix s assume s: "entry_reading d s"
  obtain res r e where m: "m s = (res, (r, e))" by (metis prod.exhaust)
  from keepsD[OF assms s m] s show "no_fault (fst (keep_text m s)) \<and> entry_reading d (snd (keep_text m s))"
    by (auto simp: keep_text_def m Let_def beside_def entry_ok_def)
qed

lemma keeps_parse_service [keeps_rules]: "keeps (entry_reading d) (domain_history_parse_service flags)"
  unfolding domain_history_parse_service_def seqs.simps
  by (rule keeps_peer_then_peek keeps_rules | (simp; fail))+

lemma keeps_message_media [keeps_rules]: "keeps (entry_reading d) (message_media keep_info)"
proof (rule keepsI)
  fix s assume s: "entry_reading d s"
  then have at: "with_out (within (mem_inv d) (length d)) media_ok (fst s, Some media_zero)"
    by (simp add: with_out_def beside_def media_ok_zero)
  obtain res r out where m: "tl_skip_message_media_ex (fst s, Some media_zero) = (res, (r, out))"
    by (metis prod.exhaust)
  from keepsD[OF mem.keeps_skip_message_media_ex at m]
  show "no_fault (fst (message_media keep_info s)) \<and> entry_reading d (snd (message_media keep_info s))"
    using s by (cases res; cases out) (auto simp: message_media_def m Let_def beside_def entry_ok_def
        with_out_def media_ok_zero)
qed

lemma keeps_parse_message_with [keeps_rules]:
  assumes "keeps (entry_reading d) peer"
  shows "keeps (entry_reading d) (parse_message_with peer keep_info)"
  unfolding parse_message_with_def message_body_def message_head_def message_text_def message_trailer_def
  by (intro keeps_rules assms) (simp_all add: entry_ok_set_text)

lemma keeps_collect_messages [keeps_rules]:
  assumes "keeps (entry_reading d) m"
  shows "keeps (reading d (entries_ok limit)) (collect_messages m n limit)"
proof (induction n)
  case 0
  then show ?case by (simp add: keeps_def)
next
  case (Suc n)
  show ?case
  proof (rule keepsI)
    fix s assume s: "reading d (entries_ok limit) s"
    obtain r out where ro: "s = (r, out)" by (rule prod.exhaust)
    obtain res r' e where one: "m (r, entry_zero) = (res, (r', e))" by (metis prod.exhaust)
    have "entry_reading d (r, entry_zero)" using s by (simp add: ro beside_def)
    from keepsD[OF assms this one] have step: "no_fault res" "within (mem_inv d) (length d) r'" "entry_ok e"
      by (simp_all add: beside_def)
    let ?out = "if he_id e \<noteq> 0 \<or> he_text e \<noteq> [] then out @ [e] else out"
    have next_state: "length out < limit \<Longrightarrow> reading d (entries_ok limit) (r', ?out)"
      using s step by (simp add: ro beside_def entries_ok_def)
    have "no_fault (fst (collect_messages m n limit (r', ?out))) \<and>
        reading d (entries_ok limit) (snd (collect_messages m n limit (r', ?out)))" if "length out < limit"
      using Suc next_state[OF that] unfolding keeps_def by blast
    then show "no_fault (fst (collect_messages m (Suc n) limit s)) \<and>
        reading d (entries_ok limit) (snd (collect_messages m (Suc n) limit s))"
      using s step(1) next_state one by (cases res) (simp_all add: ro Let_def not_le)
  qed
qed

lemma keeps_read_messages [keeps_rules]:
  "keeps (entry_reading d) m \<Longrightarrow> keeps (reading d (entries_ok limit)) (read_messages m tcrc limit)"
  unfolding read_messages_def by (intro keeps_rules) (auto intro!: keeps_rules)

lemma history_request_data:
  "wr_sync (history_request peer offset_id limit)"
  "length (wr_data (history_request peer offset_id limit)) = length (enc_input_peer peer) + 36"
  by (simp_all add: history_request_def Let_def wire_simps)

lemma safe_get_history:
  assumes "client_ok E"
  shows "safe (beside anywhere (entries_ok (nat limit))) (domain_get_history E peer offset_id limit)"
  unfolding domain_get_history_def parse_message_def
  by (rule safe_queried history_request_data
      safe_answered_local[OF assms]
      safe_rules keeps_rules | (simp add: entries_ok_def; fail))+

section \<open>Encoded messages\<close>

lemma takes_or_complex: "takes m bs x \<Longrightarrow> takes_st (or_complex m) bs c x c"
  by (simp add: takes_st_def takes_def or_complex_def on_fail_def on_fst_def)

lemma takes_complex_need:
  assumes "takes_st (seqs ms) bs c () c'" "n \<le> length bs"
  shows "takes_st (seqs (or_complex (need n) # ms)) bs c () c'"
  using assms
  by (simp add: takes_st_def bind_def or_complex_def on_fail_def on_fst_def need_rd_at)

lemma takes_when_complex:
  "(bit flags i \<Longrightarrow> takes m bs ()) \<Longrightarrow> takes_st (when_bit flags i (or_complex m)) (opt flags i bs) c () c"
  using takes_st_when[of flags i "or_complex m" bs c c] takes_or_complex[of m bs "()" c] by simp

text \<open>
  A message on the wire. Optional fields are present when their bit is set; fields that are
  only skipped are given by their bytes, and the attachment also by what it contains.
\<close>

record wire_message =
  wm_flags :: u32
  wm_flags2 :: u32
  wm_id :: u32
  wm_from :: "byte list"
  wm_peer :: "byte list"
  wm_saved :: "byte list"
  wm_fwd :: "byte list"
  wm_via :: u64
  wm_business :: u64
  wm_reply :: "byte list"
  wm_date :: u32
  wm_text :: "byte list"
  wm_media :: "byte list"
  wm_info :: media_info
  wm_markup :: "byte list"
  wm_entities :: "byte list"
  wm_views :: u32
  wm_forwards :: u32
  wm_replies :: "byte list"
  wm_edited :: u32
  wm_author :: "byte list"
  wm_group :: u64
  wm_reactions :: "byte list"
  wm_restrictions :: "byte list"
  wm_ttl :: u32
  wm_shortcut :: u32
  wm_effect :: u64
  wm_factcheck :: "byte list"

definition enc_message_head :: "wire_message \<Rightarrow> byte list" where
  "enc_message_head m = opt (wm_flags m) 8 (wm_from m) @ wm_peer m @ opt (wm_flags m) 28 (wm_saved m) @
     opt (wm_flags m) 2 (wm_fwd m) @ opt (wm_flags m) 11 (le_bytes 8 (wm_via m)) @
     opt (wm_flags2 m) 0 (le_bytes 8 (wm_business m)) @ opt (wm_flags m) 3 (wm_reply m) @
     le_bytes 4 (wm_date m)"

definition enc_message_trailer :: "wire_message \<Rightarrow> byte list" where
  "enc_message_trailer m = opt (wm_flags m) 6 (wm_markup m) @ opt (wm_flags m) 7 (wm_entities m) @
     opt (wm_flags m) 10 (le_bytes 4 (wm_views m) @ le_bytes 4 (wm_forwards m)) @
     opt (wm_flags m) 23 (wm_replies m) @ opt (wm_flags m) 15 (le_bytes 4 (wm_edited m)) @
     opt (wm_flags m) 16 (enc_bytes (wm_author m)) @ opt (wm_flags m) 17 (le_bytes 8 (wm_group m)) @
     opt (wm_flags m) 20 (wm_reactions m) @ opt (wm_flags m) 22 (wm_restrictions m) @
     opt (wm_flags m) 25 (le_bytes 4 (wm_ttl m)) @ opt (wm_flags2 m) 30 (le_bytes 4 (wm_shortcut m)) @
     opt (wm_flags2 m) 2 (le_bytes 8 (wm_effect m)) @ opt (wm_flags2 m) 3 (wm_factcheck m)"

definition enc_message :: "wire_message \<Rightarrow> byte list" where
  "enc_message m = le_bytes 4 TL_message @ le_bytes 4 (wm_flags m) @ le_bytes 4 (wm_flags2 m) @
     le_bytes 4 (wm_id m) @ enc_message_head m @ enc_bytes (wm_text m) @
     opt (wm_flags m) 9 (wm_media m) @ enc_message_trailer m"

definition wire_message_ok :: "wire_message \<Rightarrow> bool" where
  "wire_message_ok m = (takes tl_skip_peer (wm_peer m) () \<and> text_ok (wm_text m) \<and> text_ok (wm_author m) \<and>
     (bit (wm_flags m) 8 \<longrightarrow> takes tl_skip_peer (wm_from m) ()) \<and>
     (bit (wm_flags m) 28 \<longrightarrow> takes tl_skip_peer (wm_saved m) ()) \<and>
     (bit (wm_flags m) 2 \<longrightarrow> takes tl_skip_message_fwd_header (wm_fwd m) ()) \<and>
     (bit (wm_flags m) 3 \<longrightarrow> takes tl_skip_message_reply_header (wm_reply m) ()) \<and>
     (bit (wm_flags m) 9 \<longrightarrow>
       takes_out tl_skip_message_media_ex (wm_media m) (Some media_zero) (Some (wm_info m))) \<and>
     (bit (wm_flags m) 6 \<longrightarrow> takes tl_skip_reply_markup (wm_markup m) ()) \<and>
     (bit (wm_flags m) 7 \<longrightarrow> takes tl_skip_message_entities_vector (wm_entities m) ()) \<and>
     (bit (wm_flags m) 23 \<longrightarrow> takes tl_skip_message_replies (wm_replies m) ()) \<and>
     (bit (wm_flags m) 20 \<longrightarrow> takes tl_skip_message_reactions (wm_reactions m) ()) \<and>
     (bit (wm_flags m) 22 \<longrightarrow> takes tl_skip_restriction_reason_vector (wm_restrictions m) ()) \<and>
     (bit (wm_flags2 m) 3 \<longrightarrow> takes tl_skip_factcheck (wm_factcheck m) ()))"

text \<open>What a message should look like to the user.\<close>

definition put_media :: "bool \<Rightarrow> media_info \<Rightarrow> history_entry \<Rightarrow> history_entry" where
  "put_media keep_info mi e = e\<lparr>he_media := kind mi,
     he_media_id := (if kind mi = MEDIA_PHOTO then photo_id mi
       else if kind mi = MEDIA_DOCUMENT then document_id mi else 0),
     he_media_dc := dc_id mi,
     he_media_info := (if keep_info then mi else he_media_info e)\<rparr>"

definition message_view :: "bool \<Rightarrow> int \<Rightarrow> wire_message \<Rightarrow> history_entry" where
  "message_view keep_info peer_id m =
     (let e = entry_zero\<lparr>he_id := sint (wm_id m), he_date := sint (wm_date m), he_out := bit (wm_flags m) 1,
        he_text := take 511 (wm_text m), he_truncated := (512 \<le> length (wm_text m)), he_peer_id := peer_id\<rparr>
      in if bit (wm_flags m) 9 then put_media keep_info (wm_info m) e else e)"

lemma takes_message_media:
  assumes "takes_out tl_skip_message_media_ex bs (Some media_zero) (Some mi)"
  shows "takes_st (message_media keep_info) bs c () (put_media keep_info mi c)"
  unfolding takes_st_def message_media_def put_media_def
  using takes_outD[OF assms] by simp

lemma takes_message_head:
  assumes "wire_message_ok m" "takes_st peer (wm_peer m) c () c'"
  shows "takes_st (message_head peer (wm_flags m) (wm_flags2 m)) (enc_message_head m) c ()
    (c'\<lparr>he_date := sint (wm_date m)\<rparr>)"
proof -
  show ?thesis
    unfolding message_head_def enc_message_head_def
    by (rule takes_st_seqs(2) takes_st_seqs(3) takes_complex_need takes_when_complex takes_needs assms(2)
        takes_read_to[OF takes_reads(2)]
      | (use assms(1) in \<open>simp add: wire_message_ok_def; fail\<close>))+
qed

lemma takes_message_trailer:
  assumes "wire_message_ok m"
  shows "takes_st (message_trailer (wm_flags m) (wm_flags2 m)) (enc_message_trailer m) c () c"
proof -
  have views: "takes (seqs [need 8, int32, int32]) (le_bytes 4 (wm_views m) @ le_bytes 4 (wm_forwards m)) ()"
    by (intro takes_need takes_seqs_Cons takes_seqs_single takes_discards) simp_all
  show ?thesis
    unfolding message_trailer_def enc_message_trailer_def
    by (rule takes_st_seqs(2) takes_st_seqs(3) takes_when_complex takes_needs views takes_skip_string
      | (use assms in \<open>simp add: wire_message_ok_def text_ok_def; fail\<close>))+
qed

lemma takes_message_text:
  assumes "text_ok t"
  shows "takes_st message_text (enc_bytes t) c ()
    (c\<lparr>he_text := take 511 t, he_truncated := (512 \<le> length t \<or> he_truncated c)\<rparr>)"
proof -
  have "set_text t c = c\<lparr>he_text := take 511 t, he_truncated := (512 \<le> length t \<or> he_truncated c)\<rparr>"
    by (auto simp: set_text_def)
  moreover have "takes tl_read_string (enc_bytes t) (Some t)" "cstr t = t"
    using assms takes_read_string[of t] by (simp_all add: text_ok_def cstr_id)
  moreover from takes_st_read[OF this(1), of "\<lambda>msg. case msg of None \<Rightarrow> skip | Some s \<Rightarrow> upd (set_text (cstr s))" "[]" c "()"]
  have "takes_st message_text (enc_bytes t) c () (set_text (cstr t) c)"
    unfolding message_text_def by (simp add: takes_st_fields)
  ultimately show ?thesis by simp
qed

lemma takes_message_body:
  assumes "wire_message_ok m" "takes_st peer (wm_peer m) c () (c\<lparr>he_peer_id := p\<rparr>)"
    and "c = entry_zero\<lparr>he_id := sint (wm_id m), he_out := bit (wm_flags m) 1\<rparr>"
  shows "takes_st (message_body peer keep_info (wm_flags m) (wm_flags2 m))
    (enc_message_head m @ enc_bytes (wm_text m) @ opt (wm_flags m) 9 (wm_media m) @ enc_message_trailer m) c ()
    (message_view keep_info p m)"
proof -
  let ?c1 = "c\<lparr>he_peer_id := p, he_date := sint (wm_date m)\<rparr>"
  let ?c2 = "?c1\<lparr>he_text := take 511 (wm_text m), he_truncated := (512 \<le> length (wm_text m) \<or> he_truncated ?c1)\<rparr>"
  have ok: "text_ok (wm_text m)" "bit (wm_flags m) 9 \<Longrightarrow>
      takes_out tl_skip_message_media_ex (wm_media m) (Some media_zero) (Some (wm_info m))"
    using assms(1) by (simp_all add: wire_message_ok_def)
  have "takes_st (message_body peer keep_info (wm_flags m) (wm_flags2 m))
    (enc_message_head m @ enc_bytes (wm_text m) @ opt (wm_flags m) 9 (wm_media m) @ enc_message_trailer m) c ()
    (if bit (wm_flags m) 9 then put_media keep_info (wm_info m) ?c2 else ?c2)"
    unfolding message_body_def
    by (rule takes_st_seqs(2) takes_st_seqs(3) takes_message_head[OF assms(1,2)] takes_message_text[OF ok(1)]
        takes_st_when takes_message_media[OF ok(2)] takes_message_trailer[OF assms(1)] | assumption)+
  moreover have "(if bit (wm_flags m) 9 then put_media keep_info (wm_info m) ?c2 else ?c2) = message_view keep_info p m"
    by (simp add: message_view_def assms(3) entry_zero_def put_media_def Let_def)
  ultimately show ?thesis by (simp only:)
qed

lemma takes_parse_message_with:
  assumes "wire_message_ok m"
    and "takes_st peer (wm_peer m) (entry_zero\<lparr>he_id := sint (wm_id m), he_out := bit (wm_flags m) 1\<rparr>) ()
      (entry_zero\<lparr>he_id := sint (wm_id m), he_out := bit (wm_flags m) 1, he_peer_id := p\<rparr>)"
  shows "takes_st (parse_message_with peer keep_info) (enc_message m) entry_zero () (message_view keep_info p m)"
proof -
  let ?c = "entry_zero\<lparr>he_out := bit (wm_flags m) 1\<rparr>"
  let ?rest = "enc_message_head m @ enc_bytes (wm_text m) @ opt (wm_flags m) 9 (wm_media m) @ enc_message_trailer m"
  let ?b = "entry_zero\<lparr>he_id := sint (wm_id m), he_out := bit (wm_flags m) 1\<rparr>"
  have body: "takes_st (message_body peer keep_info (wm_flags m) (wm_flags2 m)) ?rest ?b () (message_view keep_info p m)"
    by (rule takes_message_body[OF assms(1) _ refl]) (use assms(2) in simp)
  have "takes_st (bind (on_fst tl_read_uint32) (\<lambda>crc.
       if crc = TL_messageEmpty then
         bind (on_fst tl_read_uint32) (\<lambda>flags. seqs
           [read_to tl_read_int32 (\<lambda>v e. e\<lparr>he_id := v\<rparr>),
            when_bit flags 0 (on_fst (seqs [uint32, int64]))])
       else if crc \<noteq> TL_message \<and> crc \<noteq> TL_messageService then fail
       else
         bind (on_fst tl_read_uint32) (\<lambda>flags.
         bind (if crc = TL_message then on_fst tl_read_uint32 else ret 0) (\<lambda>flags2.
         bind (upd (\<lambda>e. e\<lparr>he_out := bit flags 1\<rparr>)) (\<lambda>_.
         bind (read_to tl_read_int32 (\<lambda>v e. e\<lparr>he_id := v\<rparr>)) (\<lambda>_.
           if crc = TL_messageService then domain_history_parse_service flags
           else message_body peer keep_info flags flags2)))))) (enc_message m) entry_zero () (message_view keep_info p m)"
    unfolding enc_message_def
    by (rule takes_st_read[OF takes_reads(1)], simp, rule takes_st_read[OF takes_reads(1)],
        rule takes_st_read[OF takes_reads(1)], rule takes_st_upd,
        rule takes_st_bind[OF takes_read_to[OF takes_reads(2)]]) (use body in \<open>simp add: entry_zero_def\<close>)
  moreover have "0 < length (enc_message m)" by (simp add: enc_message_def)
  ultimately show ?thesis
    unfolding parse_message_with_def takes_st_def
    by (auto simp: bind_def[of "on_fst reader_ok"] on_fst_def reader_ok_def tl_reader_ok_def)
qed

section \<open>A vector of messages\<close>

lemma collect_encoded:
  assumes "\<And>x. x \<in> set xs \<Longrightarrow> takes_st m (enc x) entry_zero () (view x) \<and> he_id (view x) \<noteq> 0"
    and "length pre + length (concat (map enc xs)) + length post < 2 ^ 62"
  shows "\<exists>r. collect_messages m (length xs) limit (rd_at pre (concat (map enc xs) @ post), out) =
    (Ok (), (r, out @ take (limit - length out) (map view xs)))"
  using assms
proof (induction xs arbitrary: pre out)
  case (Cons x xs)
  show ?case
  proof (cases "length out \<ge> limit")
    case False
    have "m (rd_at pre (enc x @ concat (map enc xs) @ post), entry_zero) =
        (Ok (), (rd_at (pre @ enc x) (concat (map enc xs) @ post), view x))"
      using Cons.prems(1)[of x] Cons.prems(2) by (simp add: takes_st_def)
    moreover obtain r where "collect_messages m (length xs) limit
        (rd_at (pre @ enc x) (concat (map enc xs) @ post), out @ [view x]) =
        (Ok (), (r, (out @ [view x]) @ take (limit - length (out @ [view x])) (map view xs)))"
      using Cons.IH[of "pre @ enc x" "out @ [view x]"] Cons.prems by fastforce
    moreover have "limit - length out = Suc (limit - Suc (length out))" using False by simp
    ultimately show ?thesis using False Cons.prems(1)[of x] by simp
  qed simp
qed simp

text \<open>
  An answer with a vector of messages, as the three forms of \<open>messages.Messages\<close> have it when
  their optional counters are absent; the chats and users that follow are \<open>rest\<close>.
\<close>

definition enc_messages :: "u32 \<Rightarrow> u32 list \<Rightarrow> wire_message list \<Rightarrow> byte list \<Rightarrow> byte list" where
  "enc_messages tcrc counters ms rest =
     le_bytes 4 tcrc @ concat (map (le_bytes 4) counters) @ le_bytes 4 TL_vector @
     le_bytes 4 (word_of_nat (length ms) :: u32) @ concat (map enc_message ms) @ rest"

definition counters_of :: "u32 \<Rightarrow> nat" where
  "counters_of tcrc = (if tcrc = TL_messages_messagesSlice then 2
     else if tcrc = TL_messages_channelMessages then 3 else 0)"

lemma takes_counters:
  assumes "length counters = counters_of tcrc"
  shows "takes (seqs (if tcrc = TL_messages_messagesSlice then [uint32, int32]
      else if tcrc = TL_messages_channelMessages then [uint32, int32, int32] else []))
    (concat (map (le_bytes 4) (counters :: u32 list))) ()"
proof -
  have two: "takes (seqs [uint32, int32]) (le_bytes 4 a @ le_bytes 4 b) ()"
    "takes (seqs [uint32, int32, int32]) (le_bytes 4 a @ le_bytes 4 b @ le_bytes 4 c) ()" for a b c :: u32
    by (intro takes_seqs_Cons takes_seqs_single takes_discards)+
  show ?thesis
    using assms two
    by (auto simp: counters_of_def length_Suc_conv numeral_2_eq_2 numeral_3_eq_3 takes_ret
        simp del: seqs.simps(2))
qed

lemma read_messages_encoded:
  assumes "is_messages tcrc" "length counters = counters_of tcrc" "length ms < 2 ^ 32"
    and "\<And>x. x \<in> set ms \<Longrightarrow> takes_st m (enc_message x) entry_zero () (view x) \<and> he_id (view x) \<noteq> 0"
    and "length (enc_messages tcrc counters ms rest) < 2 ^ 62"
  shows "run_reader (enc_messages tcrc counters ms rest)
      (bind (on_fst uint32) (\<lambda>_. read_messages m tcrc limit)) [] =
    (Ok (), take limit (map view ms))"
proof -
  let ?hd = "le_bytes 4 tcrc @ concat (map (le_bytes 4) counters) @ le_bytes 4 TL_vector @
     le_bytes 4 (word_of_nat (length ms) :: u32)"
  let ?tl = "concat (map enc_message ms) @ rest"
  have n: "unat (word_of_nat (length ms) :: u32) = length ms" using assms(3) by (simp add: unat_of_nat take_bit_eq_mod)
  define head where "head = bind uint32 (\<lambda>_. bind (seqs (if tcrc = TL_messages_messagesSlice then [uint32, int32]
      else if tcrc = TL_messages_channelMessages then [uint32, int32, int32] else []))
      (\<lambda>_. bind (expect TL_vector) (\<lambda>_. tl_read_uint32)))"
  have "takes head ?hd (word_of_nat (length ms))"
    unfolding head_def
    by (rule takes_bind[OF takes_discards(2)], rule takes_bind[OF takes_counters[OF assms(2)]],
        rule takes_bind[OF takes_expect], rule takes_reads(1))
  then have hd: "on_fst head (rd_at [] (?hd @ ?tl), out) = (Ok (word_of_nat (length ms)), (rd_at ?hd ?tl, out))"
    for out :: "history_entry list"
    using assms(5) by (simp add: takes_def on_fst_def enc_messages_def)
  obtain r where "collect_messages m (length ms) limit (rd_at ?hd ?tl, []) =
      (Ok (), (r, [] @ take (limit - length []) (map view ms)))"
    using collect_encoded[of ms m enc_message view ?hd rest limit "[]"] assms(4,5)
    by (fastforce simp: enc_messages_def)
  then have "bind (on_fst head) (\<lambda>count. collect_messages m (unat count) limit) (rd_at [] (?hd @ ?tl), []) =
      (Ok (), (r, take limit (map view ms)))"
    unfolding bind_def hd by (simp add: n)
  moreover have "bind (on_fst uint32) (\<lambda>_. read_messages m tcrc limit) =
      bind (on_fst head) (\<lambda>count. collect_messages m (unat count) limit)"
    by (simp only: read_messages_def head_def on_fst_bind bind_assoc)
  moreover have "enc_messages tcrc counters ms rest = ?hd @ ?tl" by (simp add: enc_messages_def)
  ultimately show ?thesis
    unfolding run_reader_def rd_at_init by (simp only: case_prod_conv)
qed

definition enc_history_request :: "history_peer \<Rightarrow> int \<Rightarrow> int \<Rightarrow> byte list" where
  "enc_history_request peer offset_id limit =
     le_bytes 4 CRC_messages_getHistory @ enc_input_peer peer @ le_bytes 4 (word_of_int offset_id :: u32) @
     le_bytes 4 (0 :: u32) @ le_bytes 4 (0 :: u32) @ le_bytes 4 (word_of_int limit :: u32) @
     le_bytes 4 (0 :: u32) @ le_bytes 4 (0 :: u32) @ le_bytes 8 (0 :: u64)"

lemma history_query:
  "query_of (history_request peer offset_id limit) 128 s = (Ok (enc_history_request peer offset_id limit), s)"
  using history_request_data[of peer offset_id limit] length_enc_input_peer[of peer]
  by (simp add: query_of_def wr_sync_len ret_def)
    (simp add: history_request_def enc_history_request_def Let_def wire_simps)

lemma takes_plain_peer:
  "wire_message_ok m \<Longrightarrow> takes_st parse_message (enc_message m) entry_zero () (message_view True 0 m)"
  unfolding parse_message_def
  by (rule takes_parse_message_with, assumption)
    (simp add: entry_zero_def wire_message_ok_def takes_or_complex)

lemma message_view_id: "he_id (message_view keep_info p m) = sint (wm_id m)"
  by (simp add: message_view_def Let_def put_media_def)

text \<open>
  C4. The history of a peer is asked for with its id and offset, and every message of the
  answer arrives: for each of them, whichever fields its flags select and in all three forms
  of the answer, the entry has its number, date, direction, its text clipped to 511 bytes with
  a mark, and its attachment; the array receives the first \<open>limit\<close> of them in order.
\<close>

theorem history_returns_messages:
  assumes "0 < limit" "is_messages tcrc" "length counters = counters_of tcrc"
    and "list_all (\<lambda>m. wire_message_ok m \<and> wm_id m \<noteq> 0) ms" "length ms < 2 ^ 32"
    and "length (enc_messages tcrc counters ms rest) < 2 ^ 62"
    and "client_call E 0 (enc_history_request peer offset_id limit) 262144 link =
      (Ok (enc_messages tcrc counters ms rest), link')"
  shows "domain_get_history E peer offset_id limit (link, out) =
    (Ok (), (link', take (nat limit) (map (message_view True 0) ms)))"
proof -
  let ?resp = "enc_messages tcrc counters ms rest"
  have tcrc: "le_word (take 4 ?resp) = tcrc" "8 \<le> length ?resp" by (simp_all add: enc_messages_def)
  then have answer: "rpc_answer_local E 0 (enc_history_request peer offset_id limit) 262144 8 link =
      (Ok (tcrc, ?resp), link')"
    using answered_local[OF assms(7), of 8] assms(2) by (auto simp: is_messages_def)
  have "\<And>x. x \<in> set ms \<Longrightarrow> takes_st parse_message (enc_message x) entry_zero () (message_view True 0 x) \<and>
      he_id (message_view True 0 x) \<noteq> 0"
    using assms(4) by (simp add: list_all_iff message_view_id takes_plain_peer signed_eq_0_iff)
  from read_messages_encoded[OF assms(2,3,5) this assms(6)] show ?thesis
    using assms(1,2) answer
    by (simp add: domain_get_history_def bind_def upd_def history_query on_fst_def on_snd_def)
qed

text \<open>A message to a chat, without optional fields.\<close>

definition demo_message :: "u32 \<Rightarrow> byte list \<Rightarrow> wire_message" where
  "demo_message i t = \<lparr>wm_flags = 2, wm_flags2 = 0, wm_id = i, wm_from = [],
     wm_peer = le_bytes 4 TL_peerChat @ le_bytes 8 (5 :: u64), wm_saved = [], wm_fwd = [], wm_via = 0,
     wm_business = 0, wm_reply = [], wm_date = 1700000000, wm_text = t, wm_media = [], wm_info = media_zero,
     wm_markup = [], wm_entities = [], wm_views = 0, wm_forwards = 0, wm_replies = [], wm_edited = 0,
     wm_author = [], wm_group = 0, wm_reactions = [], wm_restrictions = [], wm_ttl = 0, wm_shortcut = 0,
     wm_effect = 0, wm_factcheck = []\<rparr>"

lemma demo_message_ok: "text_ok t \<Longrightarrow> wire_message_ok (demo_message i t)"
  using takes_skip_peer[of TL_peerChat 5]
  by (simp add: wire_message_ok_def demo_message_def bit_simps text_ok_def)

lemma length_demo_message: "length (enc_message (demo_message i t)) = 32 + length (enc_bytes t)"
  by (simp add: enc_message_def enc_message_head_def enc_message_trailer_def opt_def demo_message_def bit_simps)

definition demo_history :: "byte list" where
  "demo_history = enc_messages TL_messages_messages [] [demo_message 8 [104, 105], demo_message 7 [111]] []"

lemma demo_history_size: "length demo_history = 84"
  by (simp add: demo_history_def enc_messages_def length_demo_message length_enc_bytes length_enc_prefix)

theorem history_returns_messages_witness:
  "\<exists>link'. domain_get_history demo_client self_peer 0 1 (demo_link [demo_history] 2000, []) =
     (Ok (), (link', [message_view True 0 (demo_message 8 [104, 105])]))"
proof -
  let ?q = "enc_history_request self_peer 0 1"
  have len: "length ?q = 40"
    by (simp add: enc_history_request_def enc_input_peer_def self_peer_def)
  have crc: "le_word (take 4 demo_history) = TL_messages_messages"
    by (simp add: demo_history_def enc_messages_def)
  have fits: "length ?q + length demo_history + 500 + 0 \<le> 2000" "length ?q \<le> 1000000"
    "length demo_history \<le> 1000000" "length demo_history \<le> 262144"
    "length demo_history < 4 \<or> le_word (take 4 demo_history) \<noteq> CRC_gzip_packed"
    by (simp_all add: len demo_history_size crc)
  obtain link' where call: "client_call demo_client 0 ?q 262144 (demo_link [demo_history] 2000) = (Ok demo_history, link')"
    by (rule demo_call[OF demo_link_answering fits])
  have ok: "list_all (\<lambda>m. wire_message_ok m \<and> wm_id m \<noteq> 0) [demo_message 8 [104, 105], demo_message 7 [111]]"
    by (simp add: demo_message_ok text_ok_def) (simp add: demo_message_def)
  have "is_messages TL_messages_messages" "length ([] :: u32 list) = counters_of TL_messages_messages"
    by (simp_all add: is_messages_def counters_of_def)
  from history_returns_messages[OF _ this ok _ _ call[unfolded demo_history_def], of "[]"]
  show ?thesis using demo_history_size by (auto simp: demo_history_def)
qed

end
