(* ===== verification/Domain_Search.thy ===== *)
theory Domain_Search
  imports Domain_History
begin

text \<open>
  Message search of \<open>src/src/domain/read/search.c\<close>, in one peer and over all of them. Its
  message parser is that of the history without the attachment's details.
\<close>

abbreviation (input) CRC_messages_search :: u32 where "CRC_messages_search \<equiv> 0x29ee847a"
abbreviation (input) CRC_messages_searchGlobal :: u32 where "CRC_messages_searchGlobal \<equiv> 0x4bc6589a"
abbreviation (input) CRC_inputMessagesFilterEmpty :: u32 where "CRC_inputMessagesFilterEmpty \<equiv> 0x57e9a944"

definition search_parse_message :: "unit entry_reader" where
  "search_parse_message = parse_message_with (or_complex tl_skip_peer) False"

definition parse_top :: "nat \<Rightarrow> (tl_reader \<times> history_entry list, unit) cfun" where
  "parse_top limit =
     bind (on_fst tl_read_uint32) (\<lambda>tcrc.
       if tcrc = TL_rpc_error then fail
       else if \<not> is_messages tcrc then fail
       else read_messages search_parse_message tcrc limit)"

definition search_request :: "history_peer \<Rightarrow> byte list \<Rightarrow> int \<Rightarrow> tl_writer" where
  "search_request peer query limit =
     (let w = tl_write_uint32 tl_writer_init CRC_messages_search;
          w = tl_write_uint32 w 0;
          w = write_input_peer w peer;
          w = tl_write_string w (Some query);
          w = tl_write_uint32 w CRC_inputMessagesFilterEmpty;
          w = tl_write_int32 w 0;
          w = tl_write_int32 w 0;
          w = tl_write_int32 w 0;
          w = tl_write_int32 w 0;
          w = tl_write_int32 w limit;
          w = tl_write_int32 w 0;
          w = tl_write_int32 w 0
      in tl_write_int64 w 0)"

definition search_global_request :: "byte list \<Rightarrow> int \<Rightarrow> tl_writer" where
  "search_global_request query limit =
     (let w = tl_write_uint32 tl_writer_init CRC_messages_searchGlobal;
          w = tl_write_uint32 w 0;
          w = tl_write_string w (Some query);
          w = tl_write_uint32 w CRC_inputMessagesFilterEmpty;
          w = tl_write_int32 w 0;
          w = tl_write_int32 w 0;
          w = tl_write_int32 w 0;
          w = tl_write_uint32 w TL_inputPeerEmpty;
          w = tl_write_int32 w 0
      in tl_write_int32 w limit)"

text \<open>The length check before \<open>parse_top\<close>; its error branch is inside it.\<close>

definition search_call :: "client_env \<Rightarrow> tl_writer \<Rightarrow> int \<Rightarrow> (link \<times> history_entry list, unit) cfun" where
  "search_call E w limit =
     bind (query_of w 2048) (\<lambda>query_buf.
     bind (on_fst (client_call E 0 query_buf 262144)) (\<lambda>resp.
       if length resp < 4 then fail else on_snd (run_reader resp (parse_top (nat limit)))))"

definition domain_search_peer ::
  "client_env \<Rightarrow> history_peer \<Rightarrow> byte list \<Rightarrow> int \<Rightarrow> (link \<times> history_entry list, unit) cfun" where
  "domain_search_peer E peer query limit =
     (if limit \<le> 0 then fail
      else bind (upd (\<lambda>_. [])) (\<lambda>_. search_call E (search_request peer query limit) limit))"

definition domain_search_global ::
  "client_env \<Rightarrow> byte list \<Rightarrow> int \<Rightarrow> (link \<times> history_entry list, unit) cfun" where
  "domain_search_global E query limit =
     (if limit \<le> 0 then fail
      else bind (upd (\<lambda>_. [])) (\<lambda>_. search_call E (search_global_request query limit) limit))"

section \<open>Safety\<close>

lemma keeps_parse_top [keeps_rules]: "keeps (reading d (entries_ok limit)) (parse_top limit)"
  unfolding parse_top_def search_parse_message_def by (intro keeps_rules)

lemma safe_called:
  assumes "client_ok E" "length query \<le> 1000000"
    and "\<And>resp. length resp \<le> max_len \<Longrightarrow> safe (beside anywhere J) (f resp)"
  shows "safe (beside anywhere J) (bind (on_fst (client_call E k query max_len)) f)"
  by (rule safe_bind_yields[OF safe_beside(1)[OF client_call_in(1)[OF assms(1,2)]]
      yields_lifted(2)[OF client_call_in(2)[OF assms(1,2)]]]) (rule assms(3))

lemma safe_search_call:
  assumes "client_ok E" "wr_sync w"
  shows "safe (beside anywhere (entries_ok (nat limit))) (search_call E w limit)"
  unfolding search_call_def
  by (rule safe_queried[OF assms(2)] safe_called[OF assms(1)] safe_rules keeps_parse_top | (simp; fail))+

lemma safe_domain_search:
  assumes "client_ok E"
  shows "safe (beside anywhere (entries_ok (nat limit))) (domain_search_peer E peer query limit)"
    and "safe (beside anywhere (entries_ok (nat limit))) (domain_search_global E query limit)"
  unfolding domain_search_peer_def domain_search_global_def
  by (rule safe_search_call[OF assms] safe_rules
    | (simp add: search_request_def search_global_request_def entries_ok_def Let_def; fail))+

section \<open>What a search returns\<close>

lemma takes_search_message:
  "wire_message_ok m \<Longrightarrow> takes_st search_parse_message (enc_message m) entry_zero () (message_view False 0 m)"
  unfolding search_parse_message_def
  by (rule takes_parse_message_with, assumption)
    (simp add: entry_zero_def wire_message_ok_def takes_or_complex)

lemma parse_top_encoded:
  assumes "is_messages tcrc" "length counters = counters_of tcrc" "length ms < 2 ^ 32"
    and "list_all (\<lambda>m. wire_message_ok m \<and> wm_id m \<noteq> 0) ms"
    and "length (enc_messages tcrc counters ms rest) < 2 ^ 62"
  shows "run_reader (enc_messages tcrc counters ms rest) (parse_top limit) [] =
    (Ok (), take limit (map (message_view False 0) ms))"
proof -
  let ?resp = "enc_messages tcrc counters ms rest"
  have ok: "\<And>x. x \<in> set ms \<Longrightarrow> takes_st search_parse_message (enc_message x) entry_zero () (message_view False 0 x) \<and>
      he_id (message_view False 0 x) \<noteq> 0"
    using assms(4) by (simp add: list_all_iff message_view_id takes_search_message signed_eq_0_iff)
  have "takes uint32 (le_bytes 4 tcrc) ()" "takes tl_read_uint32 (le_bytes 4 tcrc) tcrc"
    by (rule takes_discards takes_reads)+
  then have "parse_top limit (tl_reader_init ?resp (length ?resp), []) =
      bind (on_fst uint32) (\<lambda>_. read_messages search_parse_message tcrc limit) (tl_reader_init ?resp (length ?resp), [])"
    using assms(1,5) unfolding rd_at_init
    by (auto simp: parse_top_def bind_def on_fst_def takes_def enc_messages_def is_messages_def)
  then show ?thesis
    using read_messages_encoded[OF assms(1-3) ok assms(5)] by (simp add: run_reader_def)
qed

end
