(* ===== verification/Domain_Updates.thy ===== *)
theory Domain_Updates
  imports Domain_History
begin

text \<open>
  The update commands of \<open>src/src/domain/read/updates.c\<close>: the server's state counters and
  the difference since a given state.
\<close>

abbreviation (input) CRC_updates_getState :: u32 where "CRC_updates_getState \<equiv> 0xedd4882a"
abbreviation (input) CRC_updates_getDifference :: u32 where "CRC_updates_getDifference \<equiv> 0x19c2f763"
abbreviation (input) CRC_updates_differenceTooLong :: u32 where "CRC_updates_differenceTooLong \<equiv> 0x4afe8f6d"
abbreviation (input) UPDATES_MAX_MESSAGES :: nat where "UPDATES_MAX_MESSAGES \<equiv> 32"

record updates_state =
  ups_pts :: int
  ups_qts :: int
  ups_date :: int
  ups_seq :: int
  ups_unread_count :: int

definition updates_zero :: updates_state where
  "updates_zero = \<lparr>ups_pts = 0, ups_qts = 0, ups_date = 0, ups_seq = 0, ups_unread_count = 0\<rparr>"

record updates_difference =
  ud_messages :: "history_entry list"
  ud_other_updates :: int
  ud_next_state :: updates_state
  ud_too_long :: bool
  ud_empty :: bool

section \<open>Parsing\<close>

text \<open>The mandatory peer, whose number is kept for the filter of the caller.\<close>

definition read_peer_id :: "unit entry_reader" where
  "read_peer_id =
     bind (or_complex (need 12)) (\<lambda>_. bind (on_fst tl_read_uint32) (\<lambda>pcrc. bind (on_fst tl_read_int64) (\<lambda>pid.
       if pcrc = TL_peerUser \<or> pcrc = TL_peerChat \<or> pcrc = TL_peerChannel then upd (\<lambda>e. e\<lparr>he_peer_id := pid\<rparr>)
       else or_complex fail)))"

definition updates_parse_message :: "unit entry_reader" where
  "updates_parse_message = parse_message_with read_peer_id False"

definition parse_state :: "(tl_reader \<times> updates_state, unit) cfun" where
  "parse_state =
     bind (on_fst tl_read_uint32) (\<lambda>crc.
       if crc \<noteq> TL_updates_state then fail
       else seqs
         [read_to tl_read_int32 (\<lambda>v s. s\<lparr>ups_pts := v\<rparr>),
          read_to tl_read_int32 (\<lambda>v s. s\<lparr>ups_qts := v\<rparr>),
          read_to tl_read_int32 (\<lambda>v s. s\<lparr>ups_date := v\<rparr>),
          read_to tl_read_int32 (\<lambda>v s. s\<lparr>ups_seq := v\<rparr>),
          read_to tl_read_int32 (\<lambda>v s. s\<lparr>ups_unread_count := v\<rparr>)])"

section \<open>The commands\<close>

definition send_trivial :: "client_env \<Rightarrow> u32 \<Rightarrow> nat \<Rightarrow> (link, byte list) cfun" where
  "send_trivial E method_crc resp_cap =
     bind (query_of (tl_write_uint32 tl_writer_init method_crc) 32) (\<lambda>query. client_call E 0 query resp_cap)"

definition domain_updates_state :: "client_env \<Rightarrow> (link \<times> updates_state, unit) cfun" where
  "domain_updates_state E =
     bind (upd (\<lambda>_. updates_zero)) (\<lambda>_.
     bind (on_fst (send_trivial E CRC_updates_getState 4096)) (\<lambda>resp.
       if length resp < 4 then fail
       else if le_word (take 4 resp) = TL_rpc_error then fail
       else on_snd (run_reader resp parse_state)))"

definition difference_request :: "updates_state \<Rightarrow> tl_writer" where
  "difference_request st =
     (let w = tl_write_uint32 tl_writer_init CRC_updates_getDifference;
          w = tl_write_uint32 w 0;
          w = tl_write_int32 w (ups_pts st);
          w = tl_write_int32 w (ups_date st)
      in tl_write_int32 w (ups_qts st))"

text \<open>The loop over the new messages, which fills the array of the result.\<close>

definition read_new_messages :: "updates_state \<Rightarrow> (tl_reader \<times> updates_difference, unit) cfun" where
  "read_new_messages st =
     bind (on_fst (expect TL_vector)) (\<lambda>_. bind (on_fst tl_read_uint32) (\<lambda>count.
       with_local [] (collect_messages updates_parse_message (unat count) UPDATES_MAX_MESSAGES)
         (\<lambda>ms d. d\<lparr>ud_messages := ms, ud_next_state := st\<rparr>)))"

definition read_difference :: "updates_state \<Rightarrow> (tl_reader \<times> updates_difference, unit) cfun" where
  "read_difference st =
     bind (on_fst tl_read_uint32) (\<lambda>crc.
       if crc = TL_updates_differenceEmpty then seqs
         [upd (\<lambda>d. d\<lparr>ud_empty := True\<rparr>),
          read_to tl_read_int32 (\<lambda>v d. d\<lparr>ud_next_state := (ud_next_state d)\<lparr>ups_date := v\<rparr>\<rparr>),
          read_to tl_read_int32 (\<lambda>v d. d\<lparr>ud_next_state := (ud_next_state d)\<lparr>ups_seq := v\<rparr>\<rparr>)]
       else if crc = CRC_updates_differenceTooLong then seqs
         [upd (\<lambda>d. d\<lparr>ud_too_long := True\<rparr>),
          read_to tl_read_int32 (\<lambda>v d. d\<lparr>ud_next_state := (ud_next_state d)\<lparr>ups_pts := v\<rparr>\<rparr>)]
       else if crc \<noteq> TL_updates_difference \<and> crc \<noteq> TL_updates_differenceSlice then fail
       else read_new_messages st)"

definition domain_updates_difference ::
  "client_env \<Rightarrow> updates_state \<Rightarrow> (link \<times> updates_difference, unit) cfun" where
  "domain_updates_difference E st =
     bind (upd (\<lambda>_. \<lparr>ud_messages = [], ud_other_updates = 0, ud_next_state = st, ud_too_long = False,
       ud_empty = False\<rparr>)) (\<lambda>_.
     bind (query_of (difference_request st) 64) (\<lambda>query.
     bind (on_fst (rpc_answer_local E 0 query 262144 4)) (\<lambda>(top, resp).
       on_snd (run_reader resp (read_difference st)))))"

section \<open>Safety\<close>

definition difference_ok :: "updates_difference \<Rightarrow> bool" where
  "difference_ok d = entries_ok UPDATES_MAX_MESSAGES (ud_messages d)"

lemma keeps_read_peer_id [keeps_rules]: "keeps (entry_reading d) read_peer_id"
  unfolding read_peer_id_def by (intro keeps_rules) simp

lemma keeps_updates_readers [keeps_rules]:
  "keeps (reading d anywhere) parse_state" "keeps (reading d difference_ok) (read_difference st)"
proof -
  show "keeps (reading d anywhere) parse_state"
    unfolding parse_state_def by (intro keeps_rules) simp_all
  have "keeps (entry_reading d) updates_parse_message"
    unfolding updates_parse_message_def by (intro keeps_rules)
  then have "keeps (reading d difference_ok) (read_new_messages st)"
    unfolding read_new_messages_def
    by (intro keeps_rules keeps_with_local[where K = "entries_ok UPDATES_MAX_MESSAGES"])
      (simp_all add: entries_ok_def difference_ok_def)
  then show "keeps (reading d difference_ok) (read_difference st)"
    unfolding read_difference_def by (intro keeps_rules) (simp_all add: difference_ok_def)
qed

lemma safe_domain_updates:
  assumes "client_ok E"
  shows "safe (beside anywhere anywhere) (domain_updates_state E)"
    and "safe (beside anywhere difference_ok) (domain_updates_difference E st)"
proof -
  have call: "safe anywhere (send_trivial E c cap)" "yields (send_trivial E c cap) (\<lambda>resp. length resp \<le> cap)" for c cap
    unfolding send_trivial_def query_of_def
    using client_call_in[OF assms, of _ 0 cap] by (auto simp: wr_sync_len wire_simps safe_simple yields_simple)
  show "safe (beside anywhere anywhere) (domain_updates_state E)"
    unfolding domain_updates_state_def
    by (rule safe_bind_yields[OF safe_beside(1)[OF call(1)] yields_lifted(2)[OF call(2)]] safe_rules
        keeps_updates_readers | (simp; fail))+
  show "safe (beside anywhere difference_ok) (domain_updates_difference E st)"
    unfolding domain_updates_difference_def
    by (rule safe_queried safe_answered_local[OF assms] safe_rules keeps_updates_readers
      | (simp add: difference_request_def difference_ok_def entries_ok_def Let_def; fail))+
qed

section \<open>What a poll returns\<close>

lemma takes_updates_message:
  assumes "wire_message_ok m" "wm_peer m = le_bytes 4 c @ le_bytes 8 (i :: u64)"
    and "c = TL_peerUser \<or> c = TL_peerChat \<or> c = TL_peerChannel"
  shows "takes_st updates_parse_message (enc_message m) entry_zero () (message_view False (sint i) m)"
proof -
  have peer: "takes_st (bind (on_fst tl_read_uint32) (\<lambda>pcrc. bind (on_fst tl_read_int64) (\<lambda>pid.
       if pcrc = TL_peerUser \<or> pcrc = TL_peerChat \<or> pcrc = TL_peerChannel then upd (\<lambda>e. e\<lparr>he_peer_id := pid\<rparr>)
       else or_complex fail))) (le_bytes 4 c @ le_bytes 8 i) e () (e\<lparr>he_peer_id := sint i\<rparr>)" for e
  proof -
    have "takes_st (if c = TL_peerUser \<or> c = TL_peerChat \<or> c = TL_peerChannel
        then upd (\<lambda>e. e\<lparr>he_peer_id := sint i\<rparr>) else or_complex fail) [] e () (e\<lparr>he_peer_id := sint i\<rparr>)"
      using assms(3) by (auto simp: takes_st_fields)
    then show ?thesis
      by - (rule takes_st_read[OF takes_reads(1)],
        rule takes_st_read[OF takes_reads(4), where cs = "[]", unfolded append_Nil2])
  qed
  have "takes_st read_peer_id (le_bytes 4 c @ le_bytes 8 i) e () (e\<lparr>he_peer_id := sint i\<rparr>)" for e
    using takes_complex_need[of "[bind (on_fst tl_read_uint32) (\<lambda>pcrc. bind (on_fst tl_read_int64) (\<lambda>pid.
       if pcrc = TL_peerUser \<or> pcrc = TL_peerChat \<or> pcrc = TL_peerChannel then upd (\<lambda>e. e\<lparr>he_peer_id := pid\<rparr>)
       else or_complex fail))]" "le_bytes 4 c @ le_bytes 8 i" e "e\<lparr>he_peer_id := sint i\<rparr>" 12] peer[of e]
    by (simp add: read_peer_id_def bind_ret_right)
  then show ?thesis
    unfolding updates_parse_message_def
    by (intro takes_parse_message_with[OF assms(1)]) (simp only: assms(2))
qed

text \<open>The number of the dialog a message is in.\<close>

definition enc_peer :: "u32 \<times> u64 \<Rightarrow> byte list" where
  "enc_peer p = le_bytes 4 (fst p) @ le_bytes 8 (snd p)"

definition in_dialog :: "wire_message \<Rightarrow> u32 \<times> u64 \<Rightarrow> bool" where
  "in_dialog m p = (wire_message_ok m \<and> wm_id m \<noteq> 0 \<and> wm_peer m = enc_peer p \<and>
     fst p \<in> {TL_peerUser, TL_peerChat, TL_peerChannel})"

definition enc_difference :: "u32 \<Rightarrow> wire_message list \<Rightarrow> byte list \<Rightarrow> byte list" where
  "enc_difference crc ms rest = le_bytes 4 crc @ le_bytes 4 TL_vector @
     le_bytes 4 (word_of_nat (length ms) :: u32) @ concat (map enc_message ms) @ rest"

definition enc_difference_request :: "updates_state \<Rightarrow> byte list" where
  "enc_difference_request st = le_bytes 4 CRC_updates_getDifference @ le_bytes 4 (0 :: u32) @
     le_bytes 4 (word_of_int (ups_pts st) :: u32) @ le_bytes 4 (word_of_int (ups_date st) :: u32) @
     le_bytes 4 (word_of_int (ups_qts st) :: u32)"

lemma difference_query:
  "query_of (difference_request st) 64 s = (Ok (enc_difference_request st), s)"
  by (simp add: query_of_def difference_request_def enc_difference_request_def Let_def wr_sync_len wire_simps ret_def)

lemma read_difference_encoded:
  assumes "crc = TL_updates_difference \<or> crc = TL_updates_differenceSlice"
    and "list_all2 in_dialog ms ps" "length ms < 2 ^ 32" "length (enc_difference crc ms rest) < 2 ^ 62"
  shows "run_reader (enc_difference crc ms rest) (read_difference st) d =
    (Ok (), d\<lparr>ud_messages := take 32 (map2 (\<lambda>m p. message_view False (sint (snd p)) m) ms ps),
       ud_next_state := st\<rparr>)"
proof -
  let ?hd = "le_bytes 4 crc @ le_bytes 4 TL_vector @ le_bytes 4 (word_of_nat (length ms) :: u32)"
  let ?view = "\<lambda>(m, p). message_view False (sint (snd p)) m"
  have n: "unat (word_of_nat (length ms) :: u32) = length ms"
    using assms(3) by (simp add: unat_of_nat take_bit_eq_mod)
  have len: "length ps = length ms" using assms(2) by (simp add: list_all2_lengthD)
  then have ms: "ms = map fst (zip ms ps)" by simp
  have one: "takes_st updates_parse_message (enc_message (fst x)) entry_zero () (?view x) \<and> he_id (?view x) \<noteq> 0"
    if "x \<in> set (zip ms ps)" for x
  proof -
    obtain m p where x: "x = (m, p)" by (rule prod.exhaust)
    have "in_dialog m p" using assms(2) that by (auto simp: x list_all2_iff)
    then show ?thesis
      using takes_updates_message[of m "fst p" "snd p"]
      by (auto simp: x in_dialog_def enc_peer_def message_view_id signed_eq_0_iff)
  qed
  obtain r where "collect_messages updates_parse_message (length ms) 32
      (rd_at ?hd (concat (map enc_message ms) @ rest), []) = (Ok (), (r, take 32 (map ?view (zip ms ps))))"
    using collect_encoded[of "zip ms ps" updates_parse_message "\<lambda>x. enc_message (fst x)" ?view ?hd rest 32 "[]"]
      one assms(4) len
    by (fastforce simp: enc_difference_def map_fst_zip comp_def simp flip: map_map[unfolded comp_def])
  then have local: "with_local [] (collect_messages updates_parse_message (length ms) 32)
      (\<lambda>ms d. d\<lparr>ud_messages := ms, ud_next_state := st\<rparr>) (rd_at ?hd (concat (map enc_message ms) @ rest), d) =
      (Ok (), (r, d\<lparr>ud_messages := take 32 (map ?view (zip ms ps)), ud_next_state := st\<rparr>))"
    by (simp add: with_local_def)
  have "takes (bind tl_read_uint32 (\<lambda>_. bind (expect TL_vector) (\<lambda>_. tl_read_uint32))) ?hd (word_of_nat (length ms))"
    by (rule takes_bind[OF takes_reads(1)], rule takes_bind[OF takes_expect], rule takes_reads(1))
  then have "on_fst (bind tl_read_uint32 (\<lambda>_. bind (expect TL_vector) (\<lambda>_. tl_read_uint32)))
      (rd_at [] (enc_difference crc ms rest), d) =
      (Ok (word_of_nat (length ms)), (rd_at ?hd (concat (map enc_message ms) @ rest), d))"
    using assms(4) by (simp add: takes_def on_fst_def enc_difference_def)
  then have "bind (on_fst (bind tl_read_uint32 (\<lambda>_. bind (expect TL_vector) (\<lambda>_. tl_read_uint32))))
      (\<lambda>count. with_local [] (collect_messages updates_parse_message (unat count) 32)
         (\<lambda>ms d. d\<lparr>ud_messages := ms, ud_next_state := st\<rparr>)) (rd_at [] (enc_difference crc ms rest), d) =
      (Ok (), (r, d\<lparr>ud_messages := take 32 (map ?view (zip ms ps)), ud_next_state := st\<rparr>))"
    by (simp add: bind_def[of "on_fst _"] n local)
  moreover have "takes tl_read_uint32 (le_bytes 4 crc) crc" by (rule takes_reads)
  then have "read_difference st (rd_at [] (enc_difference crc ms rest), d) =
      bind (on_fst tl_read_uint32) (\<lambda>_. read_new_messages st) (rd_at [] (enc_difference crc ms rest), d)"
    using assms(1,4) by (auto simp: read_difference_def bind_def on_fst_def takes_def enc_difference_def)
  ultimately show ?thesis
    by (simp add: run_reader_def rd_at_init read_new_messages_def on_fst_bind bind_assoc)
qed

text \<open>
  C35. A poll hands over the first 32 new messages, each with the number of its dialog, and the
  state it returns is the one it was given: the state in the answer is not read, so the next
  poll asks for the same difference again.
\<close>

theorem difference_keeps_state:
  assumes "crc = TL_updates_difference \<or> crc = TL_updates_differenceSlice"
    and "list_all2 in_dialog ms ps" "length ms < 2 ^ 32" "length (enc_difference crc ms rest) < 2 ^ 62"
    and "client_call E 0 (enc_difference_request st) 262144 link = (Ok (enc_difference crc ms rest), link')"
  shows "domain_updates_difference E st (link, out) =
    (Ok (), (link', \<lparr>ud_messages = take 32 (map2 (\<lambda>m p. message_view False (sint (snd p)) m) ms ps),
       ud_other_updates = 0, ud_next_state = st, ud_too_long = False, ud_empty = False\<rparr>))"
proof -
  let ?resp = "enc_difference crc ms rest"
  have "le_word (take 4 ?resp) = crc" "4 \<le> length ?resp" by (simp_all add: enc_difference_def)
  then have "rpc_answer_local E 0 (enc_difference_request st) 262144 4 link = (Ok (crc, ?resp), link')"
    using answered_local[OF assms(5), of 4] assms(1) by auto
  then show ?thesis
    using read_difference_encoded[OF assms(1-4)]
    by (simp add: domain_updates_difference_def bind_def upd_def difference_query on_fst_def on_snd_def)
qed

definition demo_difference :: "byte list" where
  "demo_difference = enc_difference TL_updates_difference [demo_message 8 [104, 105]] []"

lemma demo_difference_size: "length demo_difference = 48" "le_word (take 4 demo_difference) = TL_updates_difference"
  by (simp_all add: demo_difference_def enc_difference_def length_demo_message length_enc_bytes length_enc_prefix)

theorem difference_keeps_state_witness:
  "\<exists>link'. domain_updates_difference demo_client updates_zero (demo_link [demo_difference] 2000,
       \<lparr>ud_messages = [], ud_other_updates = 0, ud_next_state = updates_zero, ud_too_long = False, ud_empty = False\<rparr>) =
     (Ok (), (link', \<lparr>ud_messages = [message_view False 5 (demo_message 8 [104, 105])], ud_other_updates = 0,
       ud_next_state = updates_zero, ud_too_long = False, ud_empty = False\<rparr>))"
proof -
  let ?q = "enc_difference_request updates_zero"
  have fits: "length ?q + length demo_difference + 500 + 0 \<le> 2000" "length ?q \<le> 1000000"
    "length demo_difference \<le> 1000000" "length demo_difference \<le> 262144"
    "length demo_difference < 4 \<or> le_word (take 4 demo_difference) \<noteq> CRC_gzip_packed"
    by (simp_all add: demo_difference_size enc_difference_request_def)
  obtain link' where call: "client_call demo_client 0 ?q 262144 (demo_link [demo_difference] 2000) = (Ok demo_difference, link')"
    by (rule demo_call[OF demo_link_answering fits])
  have "in_dialog (demo_message 8 [104, 105]) (TL_peerChat, 5)"
    using demo_message_ok[of "[104, 105]" 8] by (simp add: in_dialog_def enc_peer_def text_ok_def)
      (simp add: demo_message_def)
  then have "list_all2 in_dialog [demo_message 8 [104, 105]] [(TL_peerChat, 5)]" by simp
  from difference_keeps_state[OF _ this _ _ call[unfolded demo_difference_def]] demo_difference_size(1)
  show ?thesis by (auto simp: demo_difference_def)
qed

end
