(* ===== verification/Client_Lists.thy ===== *)
theory Client_Lists
  imports Client
begin

text \<open>
  The shapes the readers of lists share: extracting an element into a local structure, and
  filling an array of the caller from a vector.
\<close>

section \<open>Results of safe reads\<close>

text \<open>\<open>m\<close> keeps \<open>I\<close>, and what it returns has the property \<open>Q\<close>.\<close>

definition gives :: "('s \<Rightarrow> bool) \<Rightarrow> ('s, 'a) cfun \<Rightarrow> ('a \<Rightarrow> bool) \<Rightarrow> bool" where
  "gives I m Q = (keeps I m \<and> (\<forall>s x s'. I s \<longrightarrow> m s = (Ok x, s') \<longrightarrow> Q x))"

lemma gives_keeps: "gives I m Q \<Longrightarrow> keeps I m" "keeps I m \<Longrightarrow> gives I m (\<lambda>_. True)"
  by (simp_all add: gives_def)

lemma givesD: "gives I m Q \<Longrightarrow> I s \<Longrightarrow> m s = (Ok x, s') \<Longrightarrow> Q x"
  by (simp add: gives_def)

lemma gives_bind:
  assumes "gives I m P" "\<And>x. P x \<Longrightarrow> gives I (f x) Q"
  shows "gives I (bind m f) Q"
proof -
  have one: "(no_fault (fst (bind m f s)) \<and> I (snd (bind m f s))) \<and> (\<forall>x s'. bind m f s = (Ok x, s') \<longrightarrow> Q x)"
    if s: "I s" for s
  proof -
    obtain res s1 where m: "m s = (res, s1)" by (rule prod.exhaust)
    have s1: "no_fault res" "I s1" using keepsD[OF gives_keeps(1)[OF assms(1)] s m] by simp_all
    show ?thesis
    proof (cases res)
      case (Ok x)
      then have f: "gives I (f x) Q" using assms(2) givesD[OF assms(1) s] m by blast
      obtain res2 s2 where run: "f x s1 = (res2, s2)" by (rule prod.exhaust)
      show ?thesis
        using keepsD[OF gives_keeps(1)[OF f] s1(2) run] givesD[OF f s1(2)] run by (simp add: bind_def m Ok)
    qed (use s1 in \<open>simp_all add: bind_def m\<close>)
  qed
  then show ?thesis unfolding gives_def keeps_def by blast
qed

lemma gives_bind_keeps: "keeps I m \<Longrightarrow> (\<And>x. gives I (f x) Q) \<Longrightarrow> gives I (bind m f) Q"
  by (rule gives_bind[OF gives_keeps(2)])

lemma gives_simple: "Q x \<Longrightarrow> gives I (ret x) Q" "gives I fail Q"
  by (simp_all add: gives_def keeps_def ret_def fail_def)

lemma gives_if: "(c \<Longrightarrow> gives I m Q) \<Longrightarrow> (\<not> c \<Longrightarrow> gives I m' Q) \<Longrightarrow> gives I (if c then m else m') Q"
  by simp

lemma gives_unless:
  "gives I m Q \<Longrightarrow> no_fault res \<Longrightarrow> (\<And>x. res = Ok x \<Longrightarrow> Q x) \<Longrightarrow> gives I (\<lambda>s. if c s then (res, s) else m s) Q"
  by (auto simp: gives_def keeps_def)

lemma gives_beside: "gives I m Q \<Longrightarrow> gives (beside I J) (on_fst m) Q"
  by (auto simp: gives_def intro!: keeps_rules) (auto simp: on_fst_def beside_def split: prod.splits)

section \<open>Extracting into a local structure\<close>

text \<open>
  \<open>T x = {0}; if (extract(&r, &x) != 0) ...\<close>: the value, or \<open>None\<close> when the extractor fails.
\<close>

definition extracted :: "'x \<Rightarrow> 'x out_walker \<Rightarrow> (tl_reader \<times> 'o, 'x option) cfun" where
  "extracted x m s = (case m (fst s, Some x) of
     (Ok _, (r, v)) \<Rightarrow> (Ok v, (r, snd s))
   | (Fail, (r, v)) \<Rightarrow> (Ok None, (r, snd s))
   | (Oob, (r, v)) \<Rightarrow> (Oob, (r, snd s))
   | (Fuel, (r, v)) \<Rightarrow> (Fuel, (r, snd s)))"

lemma gives_extracted:
  assumes "keeps (with_out I K) m" "K x"
  shows "gives (beside I J) (extracted x m) (pred_option K)"
proof -
  have run: "no_fault (fst (m (r, Some x))) \<and> with_out I K (snd (m (r, Some x)))" if "I r" for r
    using assms that by (simp add: keeps_def with_out_def)
  have "keeps (beside I J) (extracted x m)"
    by (rule keepsI) (use run in \<open>force simp: extracted_def beside_def with_out_def
      split: prod.splits outcome.splits\<close>)
  moreover have "pred_option K v" if "beside I J s" "extracted x m s = (Ok v, s')" for s v s'
    using run[of "fst s"] that by (auto simp: extracted_def with_out_def beside_def split: prod.splits outcome.splits)
  ultimately show ?thesis by (simp add: gives_def)
qed

lemma takes_extracted:
  assumes "takes_out m bs (Some x) (Some y)"
  shows "takes_st (extracted x m) bs c (Some y) c"
  using assms by (auto simp: takes_st_def takes_out_def extracted_def)

lemma takes_with_local: "takes_st m bs x () y \<Longrightarrow> takes_st (with_local x m f) bs c () (f y c)"
  by (auto simp: takes_st_def with_local_def)

section \<open>Reading while there is input\<close>

lemma keeps_unless:
  "keeps I m \<Longrightarrow> no_fault res \<Longrightarrow> keeps I (\<lambda>s. if c s then (res, s) else m s)"
  by (simp add: keeps_def)

lemma takes_when_more: "takes m bs v \<Longrightarrow> bs \<noteq> [] \<Longrightarrow> takes (\<lambda>r. if \<not> tl_reader_ok r then f r else m r) bs v"
  by (simp add: takes_def tl_reader_ok_def)

lemma keeps_read_bool [keeps_rules]: "keeps (within (mem_inv d) k) tl_read_bool"
proof -
  have eq: "tl_read_bool = bind tl_read_uint32 (\<lambda>magic. if magic = TL_BOOL_TRUE then ret 1
      else if magic = TL_BOOL_FALSE then ret 0 else ret (-1))"
    by (simp add: tl_read_bool_def tl_read_uint32_def)
  show ?thesis unfolding eq by (intro keeps_rules)
qed

section \<open>Filling an array\<close>

text \<open>
  \<open>for (i = 0; i < count && written < max; i++)\<close>: an element gives an entry to store or none,
  and whether the loop goes on. The result is the number of elements that were dealt with.
\<close>

primrec fill_loop :: "('r, 'e option \<times> bool) cfun \<Rightarrow> nat \<Rightarrow> nat \<Rightarrow> ('r \<times> 'e list, nat) cfun" where
  "fill_loop body max_entries 0 s = (Ok 0, s)"
| "fill_loop body max_entries (Suc n) s =
     (if length (snd s) \<ge> max_entries then (Ok 0, s)
      else case body (fst s) of
        (Ok (e, go), r) \<Rightarrow>
          let s' = (r, snd s @ (case e of None \<Rightarrow> [] | Some e \<Rightarrow> [e])) in
          if go then bind (fill_loop body max_entries n) (\<lambda>k. ret (Suc k)) s'
          else (Ok (if e = None then 0 else 1), s')
      | (Fail, r) \<Rightarrow> (Fail, (r, snd s)) | (Oob, r) \<Rightarrow> (Oob, (r, snd s)) | (Fuel, r) \<Rightarrow> (Fuel, (r, snd s)))"

definition filled :: "nat \<Rightarrow> ('e \<Rightarrow> bool) \<Rightarrow> 'e list \<Rightarrow> bool" where
  "filled max_entries P es = (length es \<le> max_entries \<and> list_all P es)"

lemma keeps_fill_loop:
  assumes "gives I body (\<lambda>(e, go). pred_option P e)"
  shows "keeps (beside I (filled max_entries P)) (fill_loop body max_entries n)"
proof (induction n)
  case 0
  then show ?case by (simp add: keeps_def)
next
  case (Suc n)
  show ?case
  proof (rule keepsI)
    fix s assume s: "beside I (filled max_entries P) s"
    obtain res r where one: "body (fst s) = (res, r)" by (rule prod.exhaust)
    have at: "I (fst s)" using s by (simp add: beside_def)
    have r: "no_fault res" "I r" using keepsD[OF gives_keeps(1)[OF assms] at one] by simp_all
    let ?ok = "\<lambda>x. no_fault (fst x) \<and> beside I (filled max_entries P) (snd x)"
    show "?ok (fill_loop body max_entries (Suc n) s)"
    proof (cases "length (snd s) \<ge> max_entries \<or> (\<forall>v. res \<noteq> Ok v)")
      case True
      then show ?thesis using s r one by (cases res) (auto simp: beside_def)
    next
      case False
      then obtain e go where res: "res = Ok (e, go)" by auto
      let ?s = "(r, snd s @ (case e of None \<Rightarrow> [] | Some e \<Rightarrow> [e]))"
      have "pred_option P e" using givesD[OF assms at one[unfolded res]] by simp
      then have s': "beside I (filled max_entries P) ?s"
        using False s r by (auto simp: beside_def filled_def split: option.splits)
      moreover have "keeps (beside I (filled max_entries P)) (bind (fill_loop body max_entries n) (\<lambda>k. ret (Suc k)))"
        by (intro keeps_rules Suc)
      ultimately have "?ok (bind (fill_loop body max_entries n) (\<lambda>k. ret (Suc k)) ?s)"
        unfolding keeps_def by blast
      with False s' show ?thesis by (simp add: one res Let_def)
    qed
  qed
qed

text \<open>On encoded elements that all give an entry.\<close>

lemma fill_encoded:
  assumes "\<And>x. x \<in> set xs \<Longrightarrow> takes body (enc x) (Some (view x), True)"
    and "length pre + length (concat (map enc xs)) + length rest < 2 ^ 62" "length out + length xs \<le> max_entries"
  shows "fill_loop body max_entries (length xs) (rd_at pre (concat (map enc xs) @ rest), out) =
    (Ok (length xs), (rd_at (pre @ concat (map enc xs)) rest, out @ map view xs))"
  using assms
proof (induction xs arbitrary: pre out)
  case (Cons x xs)
  have "body (rd_at pre (enc x @ concat (map enc xs) @ rest)) =
      (Ok (Some (view x), True), rd_at (pre @ enc x) (concat (map enc xs) @ rest))"
    using Cons.prems(1)[of x] Cons.prems(2) by (simp add: takes_def)
  moreover have "fill_loop body max_entries (length xs) (rd_at (pre @ enc x) (concat (map enc xs) @ rest), out @ [view x]) =
      (Ok (length xs), (rd_at ((pre @ enc x) @ concat (map enc xs)) rest, (out @ [view x]) @ map view xs))"
    by (rule Cons.IH) (use Cons.prems in simp_all)
  ultimately show ?case using Cons.prems(3) by (simp add: bind_def ret_def)
qed simp

end
