(* ===== verification/Domain_Users.thy ===== *)
theory Domain_Users
  imports Client_Lists
begin

text \<open>
  Resolving user names (\<open>src/src/domain/read/user_info.c\<close>): the table of 32 recent
  answers with its lifetimes, \<open>contacts.resolveUsername\<close> and \<open>users.getFullUser\<close>. The
  cached resolver refines the uncached one that may repeat an answer it still remembers.
  A call to the clock is the next value of \<open>clock\<close>; the strings the caller passes are
  given without their terminator.
\<close>

abbreviation (input) CRC_contacts_resolveUsername :: u32 where "CRC_contacts_resolveUsername \<equiv> 0xf93ccba3"
abbreviation (input) CRC_users_getFullUser :: u32 where "CRC_users_getFullUser \<equiv> 0xb9f11a99"
abbreviation (input) CRC_users_userFull :: u32 where "CRC_users_userFull \<equiv> 0x3b6d152e"
abbreviation (input) CRC_inputUserSelf :: u32 where "CRC_inputUserSelf \<equiv> 0xf7c1b13f"
abbreviation (input) CRC_inputUser :: u32 where "CRC_inputUser \<equiv> 0x0d313d36"
abbreviation (input) RESOLVE_CACHE_TTL_S :: int where "RESOLVE_CACHE_TTL_S \<equiv> 300"
abbreviation (input) RESOLVE_CACHE_NEG_TTL_S :: int where "RESOLVE_CACHE_NEG_TTL_S \<equiv> 60"
abbreviation (input) RESOLVE_CACHE_MAX :: nat where "RESOLVE_CACHE_MAX \<equiv> 32"

datatype resolved_kind =
  RESOLVED_KIND_UNKNOWN | RESOLVED_KIND_USER | RESOLVED_KIND_CHAT | RESOLVED_KIND_CHANNEL

record resolved_peer =
  rp_kind :: resolved_kind
  rp_id :: int
  rp_access_hash :: int
  rp_title :: "byte list"
  rp_username :: "byte list"
  rp_have_hash :: bool

definition peer_zero :: resolved_peer where
  "peer_zero = \<lparr>rp_kind = RESOLVED_KIND_UNKNOWN, rp_id = 0, rp_access_hash = 0, rp_title = [],
     rp_username = [], rp_have_hash = False\<rparr>"

section \<open>The table of answers\<close>

record rcache_entry =
  rc_valid :: bool
  rc_negative :: bool
  rc_fetched_at :: int
  rc_key :: "byte list"
  rc_value :: resolved_peer

definition resolve_cache_flush :: "rcache_entry list" where
  "resolve_cache_flush = replicate RESOLVE_CACHE_MAX
     \<lparr>rc_valid = False, rc_negative = False, rc_fetched_at = 0, rc_key = [], rc_value = peer_zero\<rparr>"

datatype rcache_result = RCACHE_MISS | RCACHE_HIT_POS resolved_peer | RCACHE_HIT_NEG

definition entry_ttl :: "rcache_entry \<Rightarrow> int" where
  "entry_ttl e = (if rc_negative e then RESOLVE_CACHE_NEG_TTL_S else RESOLVE_CACHE_TTL_S)"

fun rcache_lookup_v2 :: "int \<Rightarrow> rcache_entry list \<Rightarrow> byte list \<Rightarrow> rcache_result \<times> rcache_entry list" where
  "rcache_lookup_v2 now [] name = (RCACHE_MISS, [])"
| "rcache_lookup_v2 now (e # es) name =
     (if rc_valid e \<and> rc_key e = name then
        (if now - rc_fetched_at e \<ge> entry_ttl e then (RCACHE_MISS, e\<lparr>rc_valid := False\<rparr> # es)
         else (if rc_negative e then RCACHE_HIT_NEG else RCACHE_HIT_POS (rc_value e), e # es))
      else case rcache_lookup_v2 now es name of (res, es') \<Rightarrow> (res, e # es'))"

text \<open>The first free slot, or the one that was filled first.\<close>

fun rcache_slot :: "rcache_entry list \<Rightarrow> nat \<Rightarrow> nat \<Rightarrow> int \<Rightarrow> nat" where
  "rcache_slot [] i slot oldest = slot"
| "rcache_slot (e # es) i slot oldest =
     (if \<not> rc_valid e then i
      else if rc_fetched_at e < oldest then rcache_slot es (Suc i) i (rc_fetched_at e)
      else rcache_slot es (Suc i) slot oldest)"

definition rcache_store_entry ::
  "int \<Rightarrow> rcache_entry list \<Rightarrow> byte list \<Rightarrow> resolved_peer option \<Rightarrow> bool \<Rightarrow> rcache_entry list" where
  "rcache_store_entry now c name rp negative =
     c[rcache_slot c 0 0 (rc_fetched_at (c ! 0)) :=
       \<lparr>rc_valid = True, rc_negative = negative, rc_fetched_at = now, rc_key = clip 64 name,
        rc_value = (case rp of None \<Rightarrow> peer_zero | Some v \<Rightarrow> v)\<rparr>]"

definition rcache_store :: "int \<Rightarrow> rcache_entry list \<Rightarrow> byte list \<Rightarrow> resolved_peer \<Rightarrow> rcache_entry list" where
  "rcache_store now c name rp = rcache_store_entry now c name (Some rp) False"

definition rcache_store_negative :: "int \<Rightarrow> rcache_entry list \<Rightarrow> byte list \<Rightarrow> rcache_entry list" where
  "rcache_store_negative now c name = rcache_store_entry now c name None True"

section \<open>Resolving a name\<close>

text \<open>\<open>copy_small\<close> with a string from the reader, which may be \<open>NULL\<close>.\<close>

definition copy_small :: "nat \<Rightarrow> byte list option \<Rightarrow> byte list" where
  "copy_small cap src = (case src of None \<Rightarrow> [] | Some s \<Rightarrow> clip cap (cstr s))"

definition bare_name :: "byte list \<Rightarrow> byte list" where
  "bare_name name = (if take 1 name = [64] then drop 1 name else name)"

definition resolve_request :: "byte list \<Rightarrow> tl_writer" where
  "resolve_request name =
     tl_write_string (tl_write_uint32 tl_writer_init CRC_contacts_resolveUsername) (Some (bare_name name))"

definition opt_string :: "u32 \<Rightarrow> nat \<Rightarrow> nat \<Rightarrow> (tl_reader, byte list) cfun" where
  "opt_string flags n cap = (if bit flags n then bind tl_read_string (\<lambda>s. ret (copy_small cap s)) else ret [])"

definition parse_user_prefix :: "(tl_reader \<times> resolved_peer, unit) cfun" where
  "parse_user_prefix =
     bind (on_fst tl_read_uint32) (\<lambda>flags. bind (on_fst tl_read_uint32) (\<lambda>_.
     bind (read_to tl_read_int64 (\<lambda>v p. p\<lparr>rp_id := v\<rparr>)) (\<lambda>_.
     bind (when_bit flags 0 (read_to tl_read_int64 (\<lambda>v p. p\<lparr>rp_access_hash := v, rp_have_hash := True\<rparr>))) (\<lambda>_.
     bind (on_fst (opt_string flags 1 64)) (\<lambda>firstn. bind (on_fst (opt_string flags 2 64)) (\<lambda>lastn.
     bind (when_bit flags 3 (read_to tl_read_string (\<lambda>s p. p\<lparr>rp_username := copy_small 64 s\<rparr>))) (\<lambda>_.
       if firstn \<noteq> [] \<or> lastn \<noteq> [] then
         upd (\<lambda>p. p\<lparr>rp_title := clip 128 (firstn @ (if firstn \<noteq> [] \<and> lastn \<noteq> [] then [32] else []) @ lastn)\<rparr>)
       else skip)))))))"

definition parse_channel_prefix :: "(tl_reader \<times> resolved_peer, unit) cfun" where
  "parse_channel_prefix =
     bind (on_fst tl_read_uint32) (\<lambda>flags. seqs
       [on_fst uint32,
        read_to tl_read_int64 (\<lambda>v p. p\<lparr>rp_id := v\<rparr>),
        when_bit flags 13 (read_to tl_read_int64 (\<lambda>v p. p\<lparr>rp_access_hash := v, rp_have_hash := True\<rparr>))])"

text \<open>Only the first element of either vector is looked at.\<close>

definition take_hash :: "int \<Rightarrow> resolved_peer \<Rightarrow> resolved_peer \<Rightarrow> resolved_peer" where
  "take_hash raw_id tmp out = (if rp_id tmp = raw_id
     then out\<lparr>rp_access_hash := rp_access_hash tmp, rp_have_hash := rp_have_hash tmp\<rparr> else out)"

definition first_element ::
  "(u32 \<Rightarrow> bool) \<Rightarrow> (tl_reader \<times> resolved_peer, unit) cfun \<Rightarrow> int \<Rightarrow> (tl_reader \<times> resolved_peer, unit) cfun" where
  "first_element known prefix raw_id =
     bind (on_fst tl_read_uint32) (\<lambda>n. if n = 0 then skip else
     bind (on_fst tl_read_uint32) (\<lambda>crc.
       if known crc then with_local peer_zero prefix (take_hash raw_id) else skip))"

definition resolved_kind_of :: "u32 \<Rightarrow> resolved_kind option" where
  "resolved_kind_of pcrc =
     (if pcrc = TL_peerUser then Some RESOLVED_KIND_USER
      else if pcrc = TL_peerChat then Some RESOLVED_KIND_CHAT
      else if pcrc = TL_peerChannel then Some RESOLVED_KIND_CHANNEL else None)"

definition read_resolved :: "(tl_reader \<times> resolved_peer, unit) cfun" where
  "read_resolved =
     bind (on_fst tl_read_uint32) (\<lambda>_. bind (on_fst tl_read_uint32) (\<lambda>pcrc.
     case resolved_kind_of pcrc of None \<Rightarrow> fail | Some rk \<Rightarrow>
     bind (upd (\<lambda>p. p\<lparr>rp_kind := rk\<rparr>)) (\<lambda>_.
     bind (on_fst tl_read_int64) (\<lambda>raw_id.
     bind (upd (\<lambda>p. p\<lparr>rp_id := raw_id\<rparr>)) (\<lambda>_.
     bind (on_fst (expect TL_vector)) (\<lambda>_.
     bind (first_element (\<lambda>crc. crc = TL_channel) parse_channel_prefix raw_id) (\<lambda>_.
     bind (on_fst tl_read_uint32) (\<lambda>vec.
       if vec \<noteq> TL_vector then skip
       else first_element (\<lambda>crc. crc = TL_user \<or> crc = TL_user2) parse_user_prefix raw_id))))))))"

text \<open>
  The part behind the table: \<open>Ok True\<close> is an answer that the name is not in use, \<open>Ok False\<close>
  a peer.
\<close>

definition resolve_fresh :: "client_env \<Rightarrow> byte list \<Rightarrow> (link \<times> resolved_peer, bool) cfun" where
  "resolve_fresh E username =
     bind (query_of (resolve_request username) 128) (\<lambda>query.
     bind (on_fst (client_call E 0 query 65536)) (\<lambda>resp.
       if length resp < 4 then fail
       else let top = le_word (take 4 resp) :: u32 in
         if top = TL_rpc_error then
           bind (lift (rpc_parse_error resp)) (\<lambda>err.
             if starts_with (error_msg err) ''USERNAME_'' then ret True else fail)
         else if top \<noteq> TL_contacts_resolvedPeer then fail
         else bind (on_snd (run_reader resp read_resolved)) (\<lambda>_. ret False)))"

type_synonym resolver = "link \<times> rcache_entry list"

definition echo_peer :: "byte list \<Rightarrow> resolved_peer" where
  "echo_peer username = peer_zero\<lparr>rp_username := clip 64 (bare_name username)\<rparr>"

definition domain_resolve_username ::
  "client_env \<Rightarrow> (nat \<Rightarrow> int) \<Rightarrow> byte list \<Rightarrow> (resolver \<times> resolved_peer, unit) cfun" where
  "domain_resolve_username E clock username s =
     (let link = fst (fst s); out = echo_peer username; bare = bare_name username in
      case rcache_lookup_v2 (clock 0) (snd (fst s)) bare of
        (RCACHE_HIT_POS v, c) \<Rightarrow> (Ok (), ((link, c), v))
      | (RCACHE_HIT_NEG, c) \<Rightarrow> (Fail, ((link, c), out))
      | (RCACHE_MISS, c) \<Rightarrow>
          (case resolve_fresh E username (link, out) of
             (Ok negative, (link', out')) \<Rightarrow>
               if negative then (Fail, ((link', rcache_store_negative (clock 1) c bare), out'))
               else (Ok (), ((link', rcache_store (clock 1) c bare out'), out'))
           | (Fail, (link', out')) \<Rightarrow> (Fail, ((link', c), out'))
           | (Oob, (link', out')) \<Rightarrow> (Oob, ((link', c), out'))
           | (Fuel, (link', out')) \<Rightarrow> (Fuel, ((link', c), out'))))"

section \<open>Full profiles\<close>

record user_full_info =
  uf_id :: int
  uf_bio :: "byte list"
  uf_phone :: "byte list"
  uf_common_chats_count :: int

definition build_get_full_user :: "int \<Rightarrow> int \<Rightarrow> tl_writer" where
  "build_get_full_user uid hash =
     (let w = tl_write_uint32 tl_writer_init CRC_users_getFullUser in
      if uid = 0 then tl_write_uint32 w CRC_inputUserSelf
      else tl_write_int64 (tl_write_int64 (tl_write_uint32 w CRC_inputUser) uid) hash)"

definition parse_user_full :: "(tl_reader \<times> user_full_info, unit) cfun" where
  "parse_user_full =
     bind (on_fst tl_read_uint32) (\<lambda>flags. seqs
       [on_fst int64,
        when_bit flags 5 (read_to tl_read_string (\<lambda>s u. if s = None then u else u\<lparr>uf_bio := copy_small 256 s\<rparr>)),
        when_bit flags 4 (read_to tl_read_string (\<lambda>s u. if s = None then u else u\<lparr>uf_phone := copy_small 32 s\<rparr>)),
        when_bit flags 20 (read_to tl_read_int32 (\<lambda>v u. u\<lparr>uf_common_chats_count := v\<rparr>))])"

definition full_user ::
  "client_env \<Rightarrow> nat \<Rightarrow> int \<Rightarrow> int \<Rightarrow> (link \<times> user_full_info, unit) cfun" where
  "full_user E k uid hash =
     bind (query_of (build_get_full_user uid hash) 64) (\<lambda>query.
     bind (on_fst (rpc_answer_local E k query 65536 4)) (\<lambda>(top, resp).
       if top \<noteq> CRC_users_userFull then fail
       else on_snd (run_reader resp
         (bind (on_fst uint32) (\<lambda>_. bind (on_fst (expect TL_userFull)) (\<lambda>_. parse_user_full))))))"

definition domain_get_user_info ::
  "client_env \<Rightarrow> (nat \<Rightarrow> int) \<Rightarrow> byte list \<Rightarrow> (resolver \<times> user_full_info, unit) cfun" where
  "domain_get_user_info E clock peer s =
     (let zero = \<lparr>uf_id = 0, uf_bio = [], uf_phone = [], uf_common_chats_count = 0\<rparr>;
          call = (\<lambda>k uid hash out rs.
            case full_user E k uid hash (fst rs, out) of
              (res, (link, out')) \<Rightarrow> (res, ((link, snd rs), out')))
      in
      if peer = ascii ''self'' \<or> peer = ascii ''me'' then call 0 0 0 zero (fst s)
      else case domain_resolve_username E clock peer (fst s, peer_zero) of
        (Ok _, (rs, rp)) \<Rightarrow> call 1 (rp_id rp) (rp_access_hash rp) (zero\<lparr>uf_id := rp_id rp\<rparr>) rs
      | (Fail, (rs, rp)) \<Rightarrow> (Fail, (rs, zero))
      | (Oob, (rs, rp)) \<Rightarrow> (Oob, (rs, zero))
      | (Fuel, (rs, rp)) \<Rightarrow> (Fuel, (rs, zero)))"

section \<open>Safety\<close>

definition peer_ok :: "resolved_peer \<Rightarrow> bool" where
  "peer_ok p = (length (rp_title p) < 128 \<and> length (rp_username p) < 64)"

definition full_ok :: "user_full_info \<Rightarrow> bool" where
  "full_ok u = (length (uf_bio u) < 256 \<and> length (uf_phone u) < 32)"

definition cache_ok :: "rcache_entry list \<Rightarrow> bool" where
  "cache_ok c = (length c = RESOLVE_CACHE_MAX \<and>
     (\<forall>e\<in>set c. length (rc_key e) < 64 \<and> peer_ok (rc_value e)))"

abbreviation (input) resolver_ok :: "resolver \<Rightarrow> bool" where "resolver_ok \<equiv> beside anywhere cache_ok"

lemma copy_small_length: "0 < cap \<Longrightarrow> length (copy_small cap s) < cap"
  by (auto simp: copy_small_def split: option.splits)

lemma peers_ok: "peer_ok peer_zero" "peer_ok (echo_peer name)"
  "peer_ok p \<Longrightarrow> peer_ok (take_hash i q p)"
  by (auto simp: peer_ok_def peer_zero_def echo_peer_def take_hash_def)

lemma keeps_resolve_readers [keeps_rules]:
  "keeps (within (mem_inv d) k) (opt_string flags n cap)"
  "keeps (reading d peer_ok) read_resolved" "keeps (reading d full_ok) parse_user_full"
proof -
  have str: "keeps (within (mem_inv d) k) (opt_string flags n cap)" for k flags n cap
    unfolding opt_string_def by (intro keeps_rules)
  then show "keeps (within (mem_inv d) k) (opt_string flags n cap)" .
  have "keeps (reading d peer_ok) parse_user_prefix" "keeps (reading d peer_ok) parse_channel_prefix"
    unfolding parse_user_prefix_def parse_channel_prefix_def
    by ((intro keeps_rules str)?; simp add: peer_ok_def copy_small_length)+
  moreover have "keeps (reading d peer_ok) m \<Longrightarrow> keeps (reading d peer_ok) (first_element K m i)" for K m i
    unfolding first_element_def
    by (intro keeps_rules keeps_with_local[where K = peer_ok] peers_ok)
  ultimately show "keeps (reading d peer_ok) read_resolved"
    unfolding read_resolved_def by (intro keeps_rules) (simp_all add: peer_ok_def)
  show "keeps (reading d full_ok) parse_user_full"
    unfolding parse_user_full_def by (intro keeps_rules) (simp_all add: full_ok_def copy_small_length)
qed

lemma resolve_sync: "wr_sync (resolve_request name)" "wr_sync (build_get_full_user i h)"
  by (simp_all add: resolve_request_def build_get_full_user_def Let_def)

lemma safe_resolve_fresh:
  assumes "client_ok E"
  shows "safe (beside anywhere peer_ok) (resolve_fresh E name)"
  unfolding resolve_fresh_def Let_def
  by (rule safe_queried[OF resolve_sync(1)] safe_bind_yields[OF safe_beside(1)[OF client_call_in(1)[OF assms]]
      yields_lifted(2)[OF client_call_in(2)[OF assms]]] safe_rules rpc_parse_error_in keeps_resolve_readers | (simp; fail))+

lemma rcache_slot_bound:
  "slot < i + length es \<Longrightarrow> i + length es = n \<Longrightarrow> rcache_slot es i slot oldest < n"
  by (induction es i slot oldest rule: rcache_slot.induct) auto

lemma rcache_lookup_keeps:
  assumes "rcache_lookup_v2 now c name = (res, c')"
  shows "length c' = length c"
    and "\<forall>e\<in>set c'. \<exists>e0\<in>set c. rc_key e = rc_key e0 \<and> rc_value e = rc_value e0"
    and "\<And>v. res = RCACHE_HIT_POS v \<Longrightarrow> \<exists>e\<in>set c. v = rc_value e"
  using assms
  by (induction now c name arbitrary: res c' rule: rcache_lookup_v2.induct)
    (fastforce split: if_splits prod.splits)+

lemma cache_ok_store:
  assumes "cache_ok c" "\<And>v. rp = Some v \<Longrightarrow> peer_ok v"
  shows "cache_ok (rcache_store_entry now c name rp neg)"
  using assms set_update_subset_insert[of c]
  by (fastforce simp: cache_ok_def rcache_store_entry_def peers_ok split: option.splits)

lemma cache_ok_lookup:
  assumes "cache_ok c" "rcache_lookup_v2 now c name = (res, c')"
  shows "cache_ok c'" "\<And>v. res = RCACHE_HIT_POS v \<Longrightarrow> peer_ok v"
  using assms(1) rcache_lookup_keeps[OF assms(2)] unfolding cache_ok_def by metis+

lemma safe_resolve_username:
  assumes "client_ok E"
  shows "safe (beside resolver_ok peer_ok) (domain_resolve_username E clock name)"
proof (rule safeI)
  fix s assume s: "beside resolver_ok peer_ok s"
  obtain link c out where st: "s = ((link, c), out)" by (metis prod.exhaust)
  have ok: "cache_ok c" using s by (simp add: st beside_def)
  obtain res c1 where l: "rcache_lookup_v2 (clock 0) c (bare_name name) = (res, c1)" by (rule prod.exhaust)
  note ok1 = cache_ok_lookup[OF ok l]
  obtain r link2 out2 where f: "resolve_fresh E name (link, echo_peer name) = (r, (link2, out2))"
    by (metis prod.exhaust)
  have "r \<noteq> Oob \<and> peer_ok out2"
    using safeD[OF safe_resolve_fresh[OF assms] _ f] by (simp add: beside_def peers_ok)
  then show "fst (domain_resolve_username E clock name s) \<noteq> Oob \<and>
      beside resolver_ok peer_ok (snd (domain_resolve_username E clock name s))"
    using ok1
    by (auto simp: domain_resolve_username_def Let_def st l f beside_def peers_ok rcache_store_def
        rcache_store_negative_def intro!: cache_ok_store split: rcache_result.splits outcome.splits)
qed

lemma safe_full_user:
  assumes "client_ok E"
  shows "safe (beside anywhere full_ok) (full_user E k uid hash)"
  unfolding full_user_def
  by (rule safe_queried[OF resolve_sync(2)] safe_answered_local[OF assms] safe_rules keeps_rules
      | (simp; fail))+

lemma safe_user_info:
  assumes "client_ok E"
  shows "safe (beside resolver_ok full_ok) (domain_get_user_info E clock peer)"
proof (rule safeI)
  fix s assume s: "beside resolver_ok full_ok s"
  obtain rs out where st: "s = (rs, out)" by (rule prod.exhaust)
  have ok: "resolver_ok rs" using s by (simp add: st beside_def)
  have call: "r \<noteq> Oob \<and> full_ok u'" if "full_user E k i h (l, u) = (r, (l', u'))" "full_ok u"
    for k i h l u r l' u'
    using safeD[OF safe_full_user[OF assms] _ that(1)] that(2) by (simp add: beside_def)
  have res: "r \<noteq> Oob \<and> cache_ok (snd rs')"
    if "domain_resolve_username E clock peer (rs, peer_zero) = (r, (rs', p))" for r rs' p
    using safeD[OF safe_resolve_username[OF assms] _ that] ok by (simp add: beside_def peers_ok)
  have zero: "full_ok \<lparr>uf_id = i, uf_bio = [], uf_phone = [], uf_common_chats_count = 0\<rparr>" for i
    by (simp add: full_ok_def)
  show "fst (domain_get_user_info E clock peer s) \<noteq> Oob \<and>
      beside resolver_ok full_ok (snd (domain_get_user_info E clock peer s))"
    using ok
    by (auto simp: domain_get_user_info_def Let_def st beside_def zero
        dest!: res call split: prod.splits outcome.splits)
qed

section \<open>The resolver without a table\<close>

text \<open>
  The specification keeps every answer of the server, the newest first, with its time. A
  call either repeats the newest answer for the name, while it is younger than its lifetime,
  or asks the server.
\<close>

type_synonym resolver_log = "(byte list \<times> int \<times> resolved_peer option) list"

definition lifetime :: "resolved_peer option \<Rightarrow> int" where
  "lifetime a = (case a of None \<Rightarrow> 60 | Some _ \<Rightarrow> 300)"

definition recent :: "resolver_log \<Rightarrow> int \<Rightarrow> byte list \<Rightarrow> resolved_peer option option" where
  "recent log now name = (case map_of log name of
     None \<Rightarrow> None | Some (t, a) \<Rightarrow> if now - t < lifetime a then Some a else None)"

inductive resolver_spec ::
  "client_env \<Rightarrow> (nat \<Rightarrow> int) \<Rightarrow> byte list \<Rightarrow> link \<times> resolver_log \<Rightarrow>
   unit outcome \<times> resolved_peer \<Rightarrow> link \<times> resolver_log \<Rightarrow> bool" for E clock name where
  known: "recent log (clock 0) (bare_name name) = Some (Some v) \<Longrightarrow>
    resolver_spec E clock name (link, log) (Ok (), v) (link, log)"
| unknown: "recent log (clock 0) (bare_name name) = Some None \<Longrightarrow>
    resolver_spec E clock name (link, log) (Fail, echo_peer name) (link, log)"
| found: "resolve_fresh E name (link, echo_peer name) = (Ok False, (link', out)) \<Longrightarrow>
    resolver_spec E clock name (link, log) (Ok (), out) (link', (bare_name name, clock 1, Some out) # log)"
| absent: "resolve_fresh E name (link, echo_peer name) = (Ok True, (link', out)) \<Longrightarrow>
    resolver_spec E clock name (link, log) (Fail, out) (link', (bare_name name, clock 1, None) # log)"
| broken: "resolve_fresh E name (link, echo_peer name) = (res, (link', out)) \<Longrightarrow> \<forall>b. res \<noteq> Ok b \<Longrightarrow>
    resolver_spec E clock name (link, log) (obind res (\<lambda>_. Ok ()), out) (link', log)"

text \<open>The table remembers a part of the answers, each name at most once.\<close>

definition remembers :: "resolver_log \<Rightarrow> rcache_entry list \<Rightarrow> bool" where
  "remembers log c = (c \<noteq> [] \<and> distinct (map rc_key (filter rc_valid c)) \<and>
     (\<forall>e\<in>set c. rc_valid e \<longrightarrow>
       map_of log (rc_key e) = Some (rc_fetched_at e, if rc_negative e then None else Some (rc_value e))))"

lemma lookup_keys:
  assumes "rcache_lookup_v2 now c name = (res, c')"
  shows "filter rc_valid c' = filter rc_valid c \<or>
    (res = RCACHE_MISS \<and> (\<exists>xs e ys. filter rc_valid c = xs @ e # ys \<and> filter rc_valid c' = xs @ ys \<and> rc_key e = name))"
  using assms
proof (induction now c name arbitrary: res c' rule: rcache_lookup_v2.induct)
  case (2 now e es name)
  show ?case
  proof (cases "rc_valid e \<and> rc_key e = name")
    case True
    then show ?thesis using "2.prems" by (auto split: if_splits intro: exI[of _ "[]"])
  next
    case False
    obtain r es' where rec: "rcache_lookup_v2 now es name = (r, es')" by (rule prod.exhaust)
    have at: "res = r" "c' = e # es'" using "2.prems" False rec by auto
    from "2.IH"[OF False rec] consider "filter rc_valid es' = filter rc_valid es"
      | xs d ys where "r = RCACHE_MISS" "filter rc_valid es = xs @ d # ys" "filter rc_valid es' = xs @ ys"
        "rc_key d = name" by blast
    then show ?thesis
    proof cases
      case 2
      then have "filter rc_valid (e # es) = ((if rc_valid e then [e] else []) @ xs) @ d # ys"
        "filter rc_valid c' = ((if rc_valid e then [e] else []) @ xs) @ ys" by (simp_all add: at)
      with 2 at show ?thesis by metis
    qed (simp add: at)
  qed
qed simp

lemma lookup_hit:
  assumes "rcache_lookup_v2 now c name = (res, c')" "res \<noteq> RCACHE_MISS"
  shows "\<exists>e\<in>set c. rc_valid e \<and> rc_key e = name \<and> now - rc_fetched_at e < entry_ttl e \<and>
    res = (if rc_negative e then RCACHE_HIT_NEG else RCACHE_HIT_POS (rc_value e))"
  using assms
  by (induction now c name arbitrary: res c' rule: rcache_lookup_v2.induct)
    (fastforce split: if_splits prod.splits)+

lemma lookup_miss:
  assumes "rcache_lookup_v2 now c name = (RCACHE_MISS, c')" "distinct (map rc_key (filter rc_valid c))"
  shows "name \<notin> rc_key ` set (filter rc_valid c')"
  using assms
  by (induction now c name arbitrary: c' rule: rcache_lookup_v2.induct)
    (fastforce split: if_splits prod.splits)+

lemma lookup_sub:
  "rcache_lookup_v2 now c name = (res, c') \<Longrightarrow> set (filter rc_valid c') \<subseteq> set (filter rc_valid c)"
  using lookup_keys by fastforce

lemma remembers_lookup:
  assumes "remembers log c" "rcache_lookup_v2 now c name = (res, c')"
  shows "remembers log c'"
    and "res = RCACHE_MISS \<Longrightarrow> name \<notin> rc_key ` set (filter rc_valid c')"
    and "res = RCACHE_HIT_POS v \<Longrightarrow> recent log now name = Some (Some v)"
    and "res = RCACHE_HIT_NEG \<Longrightarrow> recent log now name = Some None"
proof -
  have "distinct (map rc_key (filter rc_valid c'))"
    using lookup_keys[OF assms(2)] assms(1) unfolding remembers_def by fastforce
  moreover have "c' \<noteq> []" using rcache_lookup_keeps(1)[OF assms(2)] assms(1) by (auto simp: remembers_def)
  ultimately show "remembers log c'"
    using lookup_sub[OF assms(2)] assms(1) unfolding remembers_def by auto
  show "name \<notin> rc_key ` set (filter rc_valid c')" if "res = RCACHE_MISS"
    using lookup_miss assms that unfolding remembers_def by blast
  have hit: "recent log now name = Some (if rc_negative e then None else Some (rc_value e))"
    if "e \<in> set c" "rc_valid e" "rc_key e = name" "now - rc_fetched_at e < entry_ttl e" for e
    using that assms(1) by (auto simp: remembers_def recent_def lifetime_def entry_ttl_def)
  show "recent log now name = Some (Some v)" if "res = RCACHE_HIT_POS v"
    using lookup_hit[OF assms(2)] that hit by (fastforce split: if_splits)
  show "recent log now name = Some None" if "res = RCACHE_HIT_NEG"
    using lookup_hit[OF assms(2)] that hit by (fastforce split: if_splits)
qed

lemma distinct_update:
  "distinct (map rc_key (filter rc_valid c)) \<Longrightarrow> rc_key e \<notin> rc_key ` set (filter rc_valid c) \<Longrightarrow>
   distinct (map rc_key (filter rc_valid (c[i := e])))"
proof (induction c arbitrary: i)
  case (Cons x c)
  have "set (filter rc_valid (c[j := e])) \<subseteq> insert e (set (filter rc_valid c))" for j
    using set_update_subset_insert[of c j e] by auto
  with Cons show ?case by (cases i) (fastforce split: if_splits)+
qed simp

lemma remembers_store:
  assumes "remembers log c" "name \<notin> rc_key ` set (filter rc_valid c)" "length name < 64"
    and "a = (if neg then None else rp)" "neg \<or> rp \<noteq> None"
  shows "remembers ((name, now, a) # log) (rcache_store_entry now c name rp neg)"
proof -
  let ?e = "\<lparr>rc_valid = True, rc_negative = neg, rc_fetched_at = now, rc_key = clip 64 name,
      rc_value = (case rp of None \<Rightarrow> peer_zero | Some v \<Rightarrow> v)\<rparr>"
  let ?i = "rcache_slot c 0 0 (rc_fetched_at (c ! 0))"
  have key: "clip 64 name = name" using assms(3) by (simp add: clip_def)
  have "distinct (map rc_key (filter rc_valid (c[?i := ?e])))"
    by (rule distinct_update) (use assms(1,2) in \<open>simp_all add: remembers_def key\<close>)
  moreover have "map_of ((name, now, a) # log) (rc_key e) =
      Some (rc_fetched_at e, if rc_negative e then None else Some (rc_value e))"
    if "e \<in> set (c[?i := ?e])" "rc_valid e" for e
  proof (cases "e = ?e")
    case True
    then show ?thesis using assms(4,5) by (auto simp: key)
  next
    case False
    then have "e \<in> set c" using that(1) set_update_subset_insert[of c ?i ?e] by blast
    moreover have "rc_key e \<noteq> name" using calculation assms(2) that(2) by auto
    ultimately show ?thesis using assms(1) that(2) by (simp add: remembers_def)
  qed
  moreover have "c[?i := ?e] \<noteq> []" using assms(1) by (simp add: remembers_def)
  ultimately show ?thesis by (simp add: remembers_def rcache_store_entry_def)
qed

lemma lookup_entry:
  assumes "distinct (map rc_key (filter rc_valid c))" "e \<in> set c" "rc_valid e" "rc_key e = name"
  shows "fst (rcache_lookup_v2 now c name) = (if now - rc_fetched_at e \<ge> entry_ttl e then RCACHE_MISS
    else if rc_negative e then RCACHE_HIT_NEG else RCACHE_HIT_POS (rc_value e))"
  using assms
proof (induction c)
  case (Cons a c)
  show ?case
  proof (cases "a = e")
    case False
    then have "e \<in> set c" using Cons.prems(2) by simp
    moreover have "\<not> (rc_valid a \<and> rc_key a = name)" using calculation Cons.prems by auto
    ultimately show ?thesis using Cons by (auto split: prod.splits if_splits)
  qed (use Cons.prems in simp)
qed simp

text \<open>What has just been stored is found until its lifetime is over.\<close>

lemma lookup_stored:
  assumes "remembers log c" "rcache_lookup_v2 t0 c name = (RCACHE_MISS, c1)" "length name < 64"
  shows "fst (rcache_lookup_v2 now (rcache_store t c1 name v) name) =
      (if now - t < RESOLVE_CACHE_TTL_S then RCACHE_HIT_POS v else RCACHE_MISS)"
    and "fst (rcache_lookup_v2 now (rcache_store_negative t c1 name) name) =
      (if now - t < RESOLVE_CACHE_NEG_TTL_S then RCACHE_HIT_NEG else RCACHE_MISS)"
proof -
  note mem = remembers_lookup[OF assms(1,2)]
  have nonempty: "c1 \<noteq> []" using mem(1) by (simp add: remembers_def)
  then have slot: "rcache_slot c1 0 0 (rc_fetched_at (c1 ! 0)) < length c1" by (intro rcache_slot_bound) simp_all
  have "fst (rcache_lookup_v2 now (rcache_store_entry t c1 name rp neg) name) =
      (if now - t \<ge> (if neg then 60 else 300) then RCACHE_MISS else if neg then RCACHE_HIT_NEG
       else RCACHE_HIT_POS (case rp of None \<Rightarrow> peer_zero | Some v \<Rightarrow> v))" if "neg \<or> rp \<noteq> None" for rp neg
  proof -
    have "distinct (map rc_key (filter rc_valid (rcache_store_entry t c1 name rp neg)))"
      using remembers_store[OF mem(1) mem(2)[OF refl] assms(3) refl that] by (simp add: remembers_def)
    from lookup_entry[OF this[unfolded rcache_store_entry_def] set_update_memI[OF slot], of name] assms(3)
    show ?thesis by (simp add: rcache_store_entry_def entry_ttl_def clip_def)
  qed
  from this[of False "Some v"] this[of True None] show
    "fst (rcache_lookup_v2 now (rcache_store t c1 name v) name) =
      (if now - t < RESOLVE_CACHE_TTL_S then RCACHE_HIT_POS v else RCACHE_MISS)"
    "fst (rcache_lookup_v2 now (rcache_store_negative t c1 name) name) =
      (if now - t < RESOLVE_CACHE_NEG_TTL_S then RCACHE_HIT_NEG else RCACHE_MISS)"
    by (auto simp: rcache_store_def rcache_store_negative_def)
qed

lemma resolver_step:
  assumes "remembers log c" "length (bare_name name) < 64"
    and "domain_resolve_username E clock name ((link, c), out) = (res, ((link', c'), out'))"
  shows "\<exists>log'. resolver_spec E clock name (link, log) (res, out') (link', log') \<and> remembers log' c'"
proof -
  obtain lr c1 where l: "rcache_lookup_v2 (clock 0) c (bare_name name) = (lr, c1)" by (rule prod.exhaust)
  note mem = remembers_lookup[OF assms(1) l]
  show ?thesis
  proof (cases lr)
    case RCACHE_MISS
    obtain r link2 out2 where f: "resolve_fresh E name (link, echo_peer name) = (r, (link2, out2))"
      by (metis prod.exhaust)
    note run = assms(3)[unfolded domain_resolve_username_def Let_def fst_conv snd_conv l RCACHE_MISS prod.case
        rcache_result.case f]
    show ?thesis
    proof (cases r)
      case (Ok b)
      have "resolver_spec E clock name (link, log) (res, out')
          (link', (bare_name name, clock 1, if b then None else Some out2) # log)"
        using run Ok f resolver_spec.found[of E name link] resolver_spec.absent[of E name link]
        by (cases b) auto
      moreover have "remembers ((bare_name name, clock 1, if b then None else Some out2) # log) c'"
        using run Ok remembers_store[OF mem(1) mem(2)[OF RCACHE_MISS] assms(2),
          where rp = "if b then None else Some out2" and neg = b and now = "clock 1", OF refl]
        by (cases b) (auto simp: rcache_store_def rcache_store_negative_def)
      ultimately show ?thesis by blast
    next
      case Fail
      with run resolver_spec.broken[OF f, of clock log] mem(1) show ?thesis by (auto simp: obind_def)
    next
      case Oob
      with run resolver_spec.broken[OF f, of clock log] mem(1) show ?thesis by (auto simp: obind_def)
    next
      case Fuel
      with run resolver_spec.broken[OF f, of clock log] mem(1) show ?thesis by (auto simp: obind_def)
    qed
  qed (use assms(3) mem in \<open>auto simp: domain_resolve_username_def Let_def l
      intro!: exI[of _ log] resolver_spec.known resolver_spec.unknown\<close>)
qed

text \<open>A sequence of calls, each with its own clock values and name.\<close>

fun resolve_all ::
  "client_env \<Rightarrow> ((nat \<Rightarrow> int) \<times> byte list) list \<Rightarrow> resolver \<Rightarrow> (unit outcome \<times> resolved_peer) list \<times> resolver" where
  "resolve_all E [] rs = ([], rs)"
| "resolve_all E ((clock, name) # calls) rs =
     (case domain_resolve_username E clock name (rs, peer_zero) of (res, (rs', out)) \<Rightarrow>
      case resolve_all E calls rs' of (results, rs'') \<Rightarrow> ((res, out) # results, rs''))"

inductive resolver_specs ::
  "client_env \<Rightarrow> ((nat \<Rightarrow> int) \<times> byte list) list \<Rightarrow> link \<times> resolver_log \<Rightarrow>
   (unit outcome \<times> resolved_peer) list \<Rightarrow> link \<times> resolver_log \<Rightarrow> bool" for E where
  stop: "resolver_specs E [] st [] st"
| call: "resolver_spec E clock name st r st1 \<Longrightarrow> resolver_specs E calls st1 rs st2 \<Longrightarrow>
    resolver_specs E ((clock, name) # calls) st (r # rs) st2"

lemma resolve_all_simulates:
  assumes "resolve_all E calls (link, c) = (results, (link', c'))" "remembers log c"
    and "\<forall>(clock, name)\<in>set calls. length (bare_name name) < 64"
  shows "\<exists>log'. resolver_specs E calls (link, log) results (link', log')"
  using assms
proof (induction calls arbitrary: link c results log)
  case Nil
  then show ?case by (auto intro: resolver_specs.stop)
next
  case (Cons x calls)
  obtain clock name where x: "x = (clock, name)" by (rule prod.exhaust)
  obtain res link1 c1 out where step:
    "domain_resolve_username E clock name ((link, c), peer_zero) = (res, ((link1, c1), out))"
    by (metis prod.exhaust)
  obtain results1 where rest: "resolve_all E calls (link1, c1) = (results1, (link', c'))"
    "results = (res, out) # results1"
    using Cons.prems(1) by (auto simp: x step split: prod.splits)
  obtain log1 where log1: "resolver_spec E clock name (link, log) (res, out) (link1, log1)" "remembers log1 c1"
    using resolver_step[OF Cons.prems(2) _ step] Cons.prems(3) by (auto simp: x)
  with Cons.IH[OF rest(1) log1(2)] Cons.prems(3) show ?case
    by (auto simp: x rest(2) intro: resolver_specs.call)
qed

lemma remembers_flushed: "remembers [] resolve_cache_flush"
  by (simp add: remembers_def resolve_cache_flush_def)

text \<open>
  C36. From an empty table, any sequence of calls with names of at most 63 bytes gives the
  results and the network traffic of a resolver without a table that may repeat the newest
  answer it got for the same name, if that answer is less than 300 seconds old, or less than
  60 if it said that the name is not in use; every other call asks the server. Lifetimes,
  the reuse of slots and the eviction of the oldest entry never show in any other way.
\<close>

theorem resolver_refines:
  assumes "resolve_all E calls (link, resolve_cache_flush) = (results, (link', c'))"
    and "\<forall>(clock, name)\<in>set calls. length (bare_name name) < 64"
  shows "\<exists>log. resolver_specs E calls (link, []) results (link', log)"
  by (rule resolve_all_simulates[OF assms(1) remembers_flushed assms(2)])

section \<open>An example\<close>

definition enc_resolved :: "u64 \<Rightarrow> u32 \<Rightarrow> u64 \<Rightarrow> byte list" where
  "enc_resolved i flags2 h = le_bytes 4 TL_contacts_resolvedPeer @ le_bytes 4 TL_peerUser @ le_bytes 8 i @
     le_bytes 4 TL_vector @ le_bytes 4 (0 :: u32) @ le_bytes 4 TL_vector @ le_bytes 4 (1 :: u32) @
     le_bytes 4 TL_user @ le_bytes 4 (1 :: u32) @ le_bytes 4 flags2 @ le_bytes 8 i @ le_bytes 8 h"

lemma takes_user_prefix:
  "takes_st parse_user_prefix (le_bytes 4 (1 :: u32) @ le_bytes 4 (flags2 :: u32) @ le_bytes 8 (i :: u64) @ le_bytes 8 (h :: u64))
    p () (p\<lparr>rp_id := sint i, rp_access_hash := sint h, rp_have_hash := True\<rparr>)"
  unfolding parse_user_prefix_def
  apply (rule takes_st_read[OF takes_reads(1)] takes_st_bind[OF takes_read_to[OF takes_reads(4)]])+
  using takes_read_to[OF takes_reads(4), of "\<lambda>v p. p\<lparr>rp_access_hash := v, rp_have_hash := True\<rparr>" h "p\<lparr>rp_id := sint i\<rparr>"]
  by (simp add: when_bit_def bit_1_iff opt_string_def on_fst_ret bind_ret_right)

lemma takes_read_resolved:
  "takes_st read_resolved (enc_resolved i flags2 h) p ()
    (p\<lparr>rp_kind := RESOLVED_KIND_USER, rp_id := sint i, rp_access_hash := sint h, rp_have_hash := True\<rparr>)"
  unfolding read_resolved_def first_element_def enc_resolved_def
  apply (rule takes_st_read[OF takes_reads(1)])+
  apply (simp add: resolved_kind_of_def)
  apply (rule takes_st_upd takes_st_read[OF takes_reads(4)] takes_st_read[OF takes_expect])+
  apply (simp add: bind_assoc)
  apply ((rule takes_st_read[OF takes_reads(1)])+, simp)+
  using takes_with_local[OF takes_user_prefix[of flags2 i h peer_zero], of "take_hash (sint i)"
      "p\<lparr>rp_kind := RESOLVED_KIND_USER, rp_id := sint i\<rparr>"]
  by (simp add: take_hash_def)

definition enc_resolve_request :: "byte list \<Rightarrow> byte list" where
  "enc_resolve_request name = le_bytes 4 CRC_contacts_resolveUsername @ enc_bytes (cstr (bare_name name))"

lemma resolve_query:
  "length (enc_resolve_request name) \<le> 128 \<Longrightarrow>
   query_of (resolve_request name) 128 s = (Ok (enc_resolve_request name), s)"
  by (simp add: query_of_def resolve_request_def enc_resolve_request_def wr_sync_len wire_simps ret_def)

lemma resolve_fresh_found:
  assumes "client_call E 0 (enc_resolve_request name) 65536 link = (Ok (enc_resolved i flags2 h), link')"
    and "length (enc_resolve_request name) \<le> 128"
  shows "resolve_fresh E name (link, p) = (Ok False, (link',
    p\<lparr>rp_kind := RESOLVED_KIND_USER, rp_id := sint i, rp_access_hash := sint h, rp_have_hash := True\<rparr>))"
proof -
  let ?resp = "enc_resolved i flags2 h"
  have len: "length ?resp = 60" "le_word (take 4 ?resp) = TL_contacts_resolvedPeer"
    by (simp_all add: enc_resolved_def)
  then have "run_reader ?resp read_resolved p = (Ok (),
      p\<lparr>rp_kind := RESOLVED_KIND_USER, rp_id := sint i, rp_access_hash := sint h, rp_have_hash := True\<rparr>)"
    using run_reader_takes[OF takes_read_resolved[of i flags2 h p], of "[]"] by simp
  then show ?thesis
    using assms len by (simp add: resolve_fresh_def bind_def resolve_query on_fst_def on_snd_def ret_def)
qed

definition resolved_bob :: resolved_peer where
  "resolved_bob = \<lparr>rp_kind = RESOLVED_KIND_USER, rp_id = 7, rp_access_hash = 9, rp_title = [], rp_username = [98],
     rp_have_hash = True\<rparr>"

theorem resolver_refines_witness:
  "\<exists>link log. resolver_specs demo_client [(\<lambda>_. 0, [98]), (\<lambda>_. 10, [64, 98])]
     (demo_link [enc_resolved 7 0 9] 1000, []) [(Ok (), resolved_bob), (Ok (), resolved_bob)] (link, log)"
proof -
  let ?q = "enc_resolve_request [98]" and ?e = "\<lparr>rc_valid = False, rc_negative = False, rc_fetched_at = 0, rc_key = [],
      rc_value = peer_zero\<rparr>" and ?calls = "[(\<lambda>_. 0, [98]), (\<lambda>_. 10, [64, 98])] :: ((nat \<Rightarrow> int) \<times> byte list) list"
  have q: "length ?q = 8" by (simp add: enc_resolve_request_def bare_name_def cstr_def length_enc_bytes length_enc_prefix)
  have fits: "length ?q + length (enc_resolved 7 0 9) + 500 + 0 \<le> 1000" "length ?q \<le> 1000000"
    "length (enc_resolved 7 0 9) \<le> 1000000" "length (enc_resolved 7 0 9) \<le> 65536"
    "length (enc_resolved 7 0 9) < 4 \<or> le_word (take 4 (enc_resolved 7 0 9)) \<noteq> CRC_gzip_packed"
    by (simp_all add: q enc_resolved_def)
  obtain link' where call: "client_call demo_client 0 ?q 65536 (demo_link [enc_resolved 7 0 9] 1000) =
      (Ok (enc_resolved 7 0 9), link')"
    by (rule demo_call[OF demo_link_answering fits])
  have bare: "bare_name [98] = [98]" "bare_name [64, 98] = [98]" by (simp_all add: bare_name_def)
  have miss: "rcache_lookup_v2 now (replicate n ?e) name = (RCACHE_MISS, replicate n ?e)" for now n name
    by (induction n) simp_all
  have flush: "resolve_cache_flush = ?e # replicate 31 ?e" by (simp add: resolve_cache_flush_def eval_nat_numeral)
  have echo: "(echo_peer [98])\<lparr>rp_kind := RESOLVED_KIND_USER, rp_id := 7, rp_access_hash := 9, rp_have_hash := True\<rparr> = resolved_bob"
    by (simp add: echo_peer_def peer_zero_def resolved_bob_def bare clip_def)
  have fresh: "resolve_fresh demo_client [98] (demo_link [enc_resolved 7 0 9] 1000, echo_peer [98]) =
      (Ok False, (link', resolved_bob))"
    using resolve_fresh_found[OF call, of "echo_peer [98]"] by (simp add: q echo)
  have "resolve_all demo_client ?calls (demo_link [enc_resolved 7 0 9] 1000, resolve_cache_flush) =
      ([(Ok (), resolved_bob), (Ok (), resolved_bob)], (link', rcache_store 0 resolve_cache_flush [98] resolved_bob))"
    by (simp add: domain_resolve_username_def Let_def bare flush miss fresh rcache_store_def
        rcache_store_entry_def entry_ttl_def clip_def)
  from resolver_refines[OF this] have "\<exists>log. resolver_specs demo_client ?calls
      (demo_link [enc_resolved 7 0 9] 1000, []) [(Ok (), resolved_bob), (Ok (), resolved_bob)] (link', log)"
    by (simp add: bare)
  then show ?thesis by (rule exI)
qed

end
