(* ===== verification/Domain_Contacts.thy ===== *)
theory Domain_Contacts
  imports Client_Lists
begin

text \<open>
  The contact list (\<open>src/src/domain/read/contacts.c\<close>) and the user's own profile
  (\<open>src/src/domain/read/self.c\<close>): the answer to \<open>contacts.getContacts\<close> is joined with the users
  behind it.
\<close>

abbreviation (input) CRC_contacts_getContacts :: u32 where "CRC_contacts_getContacts \<equiv> 0x5dd69e12"
abbreviation (input) CRC_contact :: u32 where "CRC_contact \<equiv> 0x145ade0b"
abbreviation (input) CONTACTS_MAX :: nat where "CONTACTS_MAX \<equiv> 512"

record contact_entry =
  ce_user_id :: int
  ce_access_hash :: int
  ce_mutual :: bool
  ce_name :: "byte list"
  ce_username :: "byte list"

section \<open>Contacts\<close>

definition contacts_request :: tl_writer where
  "contacts_request = tl_write_int64 (tl_write_uint32 tl_writer_init CRC_contacts_getContacts) 0"

text \<open>One element of the vector; an unknown constructor ends the loop.\<close>

definition read_contact :: "(tl_reader, contact_entry option \<times> bool) cfun" where
  "read_contact r =
     (if \<not> tl_reader_ok r then (Ok (None, False), r)
      else bind tl_read_uint32 (\<lambda>ccrc.
        if ccrc \<noteq> CRC_contact then ret (None, False)
        else bind tl_read_int64 (\<lambda>uid. bind tl_read_bool (\<lambda>b.
          ret (Some \<lparr>ce_user_id = uid, ce_access_hash = 0, ce_mutual = (b = 1), ce_name = [], ce_username = []\<rparr>,
            True)))) r)"

text \<open>The first entry with the user's number gets the user's names.\<close>

fun join_contact :: "user_summary \<Rightarrow> contact_entry list \<Rightarrow> contact_entry list" where
  "join_contact us [] = []"
| "join_contact us (e # es) =
     (if ce_user_id e = us_id us
      then e\<lparr>ce_access_hash := us_access_hash us, ce_name := clip 128 (us_name us),
        ce_username := clip 64 (us_username us)\<rparr> # es
      else e # join_contact us es)"

primrec contact_users :: "nat \<Rightarrow> (tl_reader \<times> contact_entry list, unit) cfun" where
  "contact_users 0 s = (Ok (), s)"
| "contact_users (Suc n) s =
     (if \<not> tl_reader_ok (fst s) then (Ok (), s)
      else bind (extracted no_user tl_extract_user) (\<lambda>us. case us of
        None \<Rightarrow> skip
      | Some us \<Rightarrow> bind (upd (join_contact us)) (\<lambda>_. contact_users n)) s)"

definition read_contacts :: "nat \<Rightarrow> (tl_reader \<times> contact_entry list, unit) cfun" where
  "read_contacts max_entries =
     bind (on_fst uint32) (\<lambda>_. bind (on_fst (expect TL_vector)) (\<lambda>_.
     bind (on_fst tl_read_uint32) (\<lambda>count.
     bind (fill_loop read_contact max_entries (unat count)) (\<lambda>_.
     bind (on_fst int32) (\<lambda>_.
     bind (on_fst tl_read_uint32) (\<lambda>uvec.
       if uvec \<noteq> TL_vector then skip
       else bind (on_fst tl_read_uint32) (\<lambda>ucount. contact_users (unat ucount))))))))"

definition domain_get_contacts :: "client_env \<Rightarrow> int \<Rightarrow> (link \<times> contact_entry list, unit) cfun" where
  "domain_get_contacts E max_entries =
     (if max_entries \<le> 0 then fail
      else
        bind (upd (\<lambda>_. [])) (\<lambda>_.
        bind (query_of contacts_request 32) (\<lambda>query.
        bind (on_fst (rpc_answer_local E 0 query 65536 4)) (\<lambda>(top, resp).
          if top = TL_contacts_contactsNotModified then skip
          else if top \<noteq> TL_contacts_contacts then fail
          else on_snd (run_reader resp (read_contacts (min (nat max_entries) CONTACTS_MAX)))))))"

section \<open>The own profile\<close>

record self_info =
  si_id :: int
  si_first_name :: "byte list"
  si_last_name :: "byte list"
  si_username :: "byte list"
  si_phone :: "byte list"
  si_is_premium :: bool
  si_is_bot :: bool

definition self_zero :: self_info where
  "self_zero = \<lparr>si_id = 0, si_first_name = [], si_last_name = [], si_username = [], si_phone = [],
     si_is_premium = False, si_is_bot = False\<rparr>"

definition self_request :: tl_writer where
  "self_request = tl_write_uint32 (tl_write_uint32 (tl_write_uint32 (tl_write_uint32 tl_writer_init
     0x0d91a548) TL_vector) 1) 0xf7c1b13f"

definition copy_str :: "nat \<Rightarrow> byte list option \<Rightarrow> byte list" where
  "copy_str cap src = (case src of None \<Rightarrow> [] | Some s \<Rightarrow> clip cap (cstr s))"

definition parse_user :: "(tl_reader \<times> self_info, unit) cfun" where
  "parse_user s =
     (if \<not> tl_reader_ok (fst s) then (Fail, s)
      else bind (on_fst tl_read_uint32) (\<lambda>crc.
        if crc = TL_userEmpty then read_to tl_read_int64 (\<lambda>v i. i\<lparr>si_id := v\<rparr>)
        else if crc \<noteq> TL_user \<and> crc \<noteq> TL_user2 \<and> crc \<noteq> TL_userFull then fail
        else bind (on_fst tl_read_uint32) (\<lambda>flags. bind (on_fst tl_read_uint32) (\<lambda>flags2. seqs
          [read_to tl_read_int64 (\<lambda>v i. i\<lparr>si_id := v\<rparr>),
           when_bit flags 0 (on_fst int64),
           when_bit flags 1 (read_to tl_read_string (\<lambda>v i. i\<lparr>si_first_name := copy_str 128 v\<rparr>)),
           when_bit flags 2 (read_to tl_read_string (\<lambda>v i. i\<lparr>si_last_name := copy_str 128 v\<rparr>)),
           when_bit flags 3 (read_to tl_read_string (\<lambda>v i. i\<lparr>si_username := copy_str 64 v\<rparr>)),
           when_bit flags 4 (read_to tl_read_string (\<lambda>v i. i\<lparr>si_phone := copy_str 32 v\<rparr>)),
           upd (\<lambda>i. i\<lparr>si_is_bot := bit flags 14, si_is_premium := bit flags2 3\<rparr>)]))) s)"

definition domain_get_self :: "client_env \<Rightarrow> (link \<times> self_info, unit) cfun" where
  "domain_get_self E =
     bind (upd (\<lambda>_. self_zero)) (\<lambda>_.
     bind (query_of self_request 64) (\<lambda>query.
     bind (on_fst (rpc_answer_local E 0 query 65536 8)) (\<lambda>(top, resp).
       if top \<noteq> TL_vector then fail
       else on_snd (run_reader resp (bind (on_fst uint32) (\<lambda>_. bind (on_fst tl_read_uint32) (\<lambda>count.
         if count = 0 then fail else parse_user)))))))"

section \<open>Safety\<close>

definition contact_ok :: "contact_entry \<Rightarrow> bool" where
  "contact_ok e = (length (ce_name e) < 128 \<and> length (ce_username e) < 64)"

definition self_ok :: "self_info \<Rightarrow> bool" where
  "self_ok i = (length (si_first_name i) < 128 \<and> length (si_last_name i) < 128 \<and>
     length (si_username i) < 64 \<and> length (si_phone i) < 32)"

lemma copy_str_length: "0 < cap \<Longrightarrow> length (copy_str cap s) < cap"
  by (auto simp: copy_str_def split: option.splits)

lemma gives_read_contact: "gives (within (mem_inv d) k) read_contact (\<lambda>(e, go). pred_option contact_ok e)"
  unfolding read_contact_def[abs_def]
  by (intro gives_unless gives_bind_keeps gives_if keeps_rules)
    (auto intro!: gives_simple simp: contact_ok_def)

lemma filled_join: "filled n contact_ok es \<Longrightarrow> filled n contact_ok (join_contact us es)"
proof -
  have "length (join_contact us es) = length es \<and> (list_all contact_ok es \<longrightarrow> list_all contact_ok (join_contact us es))"
    by (induction us es rule: join_contact.induct) (auto simp: contact_ok_def)
  then show "filled n contact_ok es \<Longrightarrow> filled n contact_ok (join_contact us es)" by (simp add: filled_def)
qed

lemma keeps_contact_users: "keeps (reading d (filled m contact_ok)) (contact_users n)"
proof (induction n)
  case (Suc n)
  have "keeps (reading d (filled m contact_ok)) (bind (extracted no_user tl_extract_user) (\<lambda>us. case us of
      None \<Rightarrow> skip | Some us \<Rightarrow> bind (upd (join_contact us)) (\<lambda>_. contact_users n)))"
    unfolding tl_extract_user_def
    by (rule gives_keeps(1), rule gives_bind[OF gives_extracted[OF mem.keeps_extract_user no_ok(2)]])
      (auto intro!: gives_keeps(2) keeps_rules Suc filled_join split: option.split)
  then show ?case unfolding contact_users.simps(2)[abs_def] by (intro keeps_unless) simp_all
qed (simp add: keeps_def)

lemma keeps_contact_readers [keeps_rules]:
  "keeps (reading d (filled m contact_ok)) (read_contacts m)" "keeps (reading d self_ok) parse_user"
proof -
  show "keeps (reading d (filled m contact_ok)) (read_contacts m)"
    unfolding read_contacts_def
    by (intro keeps_rules keeps_contact_users keeps_fill_loop[OF gives_read_contact])
  show "keeps (reading d self_ok) parse_user"
    unfolding parse_user_def[abs_def]
    by (intro keeps_unless keeps_rules) (simp_all add: self_ok_def copy_str_length)
qed

lemma contact_requests: "wr_sync contacts_request" "wr_sync self_request"
  by (simp_all add: contacts_request_def self_request_def)

lemma safe_domain_contacts:
  assumes "client_ok E"
  shows "safe (beside anywhere (filled (min (nat max_entries) CONTACTS_MAX) contact_ok)) (domain_get_contacts E max_entries)"
    and "safe (beside anywhere self_ok) (domain_get_self E)"
  unfolding domain_get_contacts_def domain_get_self_def
  by (rule safe_queried contact_requests safe_answered_local[OF assms] safe_rules keeps_rules
      | (simp add: filled_def self_ok_def self_zero_def; fail))+

section \<open>Encoded contacts\<close>

definition enc_contact :: "u64 \<times> bool \<Rightarrow> byte list" where
  "enc_contact c = le_bytes 4 CRC_contact @ le_bytes 8 (fst c) @
     le_bytes 4 (if snd c then TL_BOOL_TRUE else TL_BOOL_FALSE)"

definition enc_contacts :: "(u64 \<times> bool) list \<Rightarrow> u32 \<Rightarrow> wire_user list \<Rightarrow> byte list \<Rightarrow> byte list" where
  "enc_contacts cs saved us rest = le_bytes 4 TL_contacts_contacts @ le_bytes 4 TL_vector @
     le_bytes 4 (word_of_nat (length cs) :: u32) @ concat (map enc_contact cs) @ le_bytes 4 saved @
     le_bytes 4 TL_vector @ le_bytes 4 (word_of_nat (length us) :: u32) @ concat (map enc_user us) @ rest"

definition with_user :: "user_summary \<Rightarrow> contact_entry \<Rightarrow> contact_entry" where
  "with_user u e = e\<lparr>ce_access_hash := us_access_hash u, ce_name := clip 128 (us_name u),
     ce_username := clip 64 (us_username u)\<rparr>"

text \<open>A contact with the names of the last user of that number, if there is one.\<close>

definition contact_view :: "wire_user list \<Rightarrow> u64 \<times> bool \<Rightarrow> contact_entry" where
  "contact_view us c = (let e = \<lparr>ce_user_id = sint (fst c), ce_access_hash = 0, ce_mutual = snd c, ce_name = [],
      ce_username = []\<rparr> in
     case find (\<lambda>u. wu_id u = fst c) (rev us) of None \<Rightarrow> e | Some u \<Rightarrow> with_user (user_view u) e)"

lemma takes_read_contact:
  "takes read_contact (enc_contact c) (Some \<lparr>ce_user_id = sint (fst c), ce_access_hash = 0, ce_mutual = snd c,
     ce_name = [], ce_username = []\<rparr>, True)"
proof -
  let ?e = "\<lambda>uid (b :: int). (Some \<lparr>ce_user_id = uid, ce_access_hash = 0, ce_mutual = (b = 1), ce_name = [], ce_username = []\<rparr>, True)"
  have last: "takes (bind tl_read_bool (\<lambda>b. ret (?e uid b))) (le_bytes 4 (if snd c then TL_BOOL_TRUE else TL_BOOL_FALSE))
      (?e uid (if snd c then 1 else 0))" for uid
    using takes_bind_ret[OF takes_read_bool[of "if snd c then TL_BOOL_TRUE else TL_BOOL_FALSE"], of "?e uid"]
    by (cases "snd c") simp_all
  have "takes (bind tl_read_uint32 (\<lambda>ccrc. if ccrc \<noteq> CRC_contact then ret (None, False)
      else bind tl_read_int64 (\<lambda>uid. bind tl_read_bool (\<lambda>b. ret (?e uid b))))) (enc_contact c)
      (?e (sint (fst c)) (if snd c then 1 else 0))"
    unfolding enc_contact_def
    by (rule takes_bind[OF takes_reads(1)], simp only: refl not_True_eq_False if_False simp_thms,
        rule takes_bind[OF takes_reads(4)], rule last)
  moreover have "enc_contact c \<noteq> []" unfolding length_greater_0_conv[symmetric] by (simp add: enc_contact_def)
  ultimately show ?thesis unfolding read_contact_def[abs_def] by (cases "snd c") (auto dest: takes_when_more)
qed

text \<open>Joining.\<close>

lemma join_contact_map:
  "distinct (map ce_user_id es) \<Longrightarrow>
   join_contact u es = map (\<lambda>e. if ce_user_id e = us_id u then with_user u e else e) es"
proof (induction u es rule: join_contact.induct)
  case (2 u e es)
  show ?case
  proof (cases "ce_user_id e = us_id u")
    case True
    then have "\<forall>x\<in>set es. ce_user_id x \<noteq> us_id u" using "2.prems" by (metis distinct.simps(2) image_eqI list.map(2) set_map)
    then have "map (\<lambda>e. if ce_user_id e = us_id u then with_user u e else e) es = es"
      by (intro map_idI) simp
    with True show ?thesis by (simp add: with_user_def)
  qed (use 2 in simp)
qed simp

lemma with_user_simps: "ce_user_id (with_user u e) = ce_user_id e" "with_user u (with_user v e) = with_user u e"
  by (simp_all add: with_user_def)

lemma join_all:
  assumes "distinct (map ce_user_id es)"
  shows "fold join_contact us es = map (\<lambda>e. case find (\<lambda>u. us_id u = ce_user_id e) (rev us) of
      None \<Rightarrow> e | Some u \<Rightarrow> with_user u e) es"
proof (induction us rule: rev_induct)
  case (snoc u us)
  have ids: "map ce_user_id (fold join_contact us es) = map ce_user_id es"
    unfolding snoc.IH by (simp add: with_user_simps comp_def split: option.splits)
  then have "fold join_contact (us @ [u]) es =
      map (\<lambda>e. if ce_user_id e = us_id u then with_user u e else e) (fold join_contact us es)"
    using join_contact_map[of "fold join_contact us es" u] assms by simp
  then show ?case unfolding snoc.IH by (auto simp: with_user_simps split: option.splits)
qed simp

lemma contact_users_encoded:
  assumes "list_all wire_user_ok us" "length pre + length (concat (map enc_user us)) + length rest < 2 ^ 62"
  shows "contact_users (length us) (rd_at pre (concat (map enc_user us) @ rest), es) =
    (Ok (), (rd_at (pre @ concat (map enc_user us)) rest, fold join_contact (map user_view us) es))"
  using assms
proof (induction us arbitrary: pre es)
  case (Cons u us)
  have "takes_st (extracted no_user tl_extract_user) (enc_user u) es (Some (user_view u)) es"
    using takes_extracted[OF takes_extract_user, of u no_user es] Cons.prems(1) by simp
  then have "extracted no_user tl_extract_user (rd_at pre (enc_user u @ concat (map enc_user us) @ rest), es) =
      (Ok (Some (user_view u)), (rd_at (pre @ enc_user u) (concat (map enc_user us) @ rest), es))"
    using Cons.prems(2) by (simp add: takes_st_def)
  moreover have "contact_users (length us) (rd_at (pre @ enc_user u) (concat (map enc_user us) @ rest), join_contact (user_view u) es) =
      (Ok (), (rd_at ((pre @ enc_user u) @ concat (map enc_user us)) rest,
        fold join_contact (map user_view us) (join_contact (user_view u) es)))"
    by (rule Cons.IH) (use Cons.prems in simp_all)
  moreover have "enc_user u \<noteq> []" unfolding length_greater_0_conv[symmetric] by (simp add: enc_user_def)
  ultimately show ?case by (simp add: bind_def upd_def tl_reader_ok_def)
qed simp

lemma view_joined:
  assumes "distinct (map fst cs)"
  shows "fold join_contact (map user_view us) (map (\<lambda>c. \<lparr>ce_user_id = sint (fst c), ce_access_hash = 0,
      ce_mutual = snd c, ce_name = [], ce_username = []\<rparr>) cs) = map (contact_view us) cs"
proof -
  have "distinct (map (sint \<circ> fst) cs)"
    using assms by (auto simp: distinct_map inj_on_def dest: signed_word_eqI)
  then have d: "distinct (map ce_user_id (map (\<lambda>c. \<lparr>ce_user_id = sint (fst c), ce_access_hash = 0,
      ce_mutual = snd c, ce_name = [], ce_username = []\<rparr>) cs))" by (simp add: comp_def)
  have id: "us_id (user_view u) = sint (wu_id u)" for u by (simp add: user_view_def)
  have find: "find (\<lambda>u. us_id u = sint i) (map user_view vs) = map_option user_view (find (\<lambda>u. wu_id u = i) vs)"
    for i vs
    by (induction vs) (auto simp: id dest: signed_word_eqI)
  show ?thesis unfolding join_all[OF d] by (simp add: rev_map find contact_view_def Let_def comp_def split: option.splits)
qed

lemma read_contacts_encoded:
  assumes "length cs \<le> max_entries" "length cs < 2 ^ 32" "length us < 2 ^ 32" "list_all wire_user_ok us"
    and "length (enc_contacts cs saved us rest) < 2 ^ 62" "distinct (map fst cs)"
  shows "run_reader (enc_contacts cs saved us rest) (read_contacts max_entries) [] = (Ok (), map (contact_view us) cs)"
proof -
  let ?n = "le_bytes 4 (word_of_nat (length cs) :: u32)" and ?m = "le_bytes 4 (word_of_nat (length us) :: u32)"
  let ?cs = "concat (map enc_contact cs)" and ?us = "concat (map enc_user us)"
  have n: "unat (word_of_nat (length cs) :: u32) = length cs" "unat (word_of_nat (length us) :: u32) = length us"
    using assms(2,3) by (simp_all add: unat_of_nat take_bit_eq_mod)
  let ?view = "\<lambda>c. \<lparr>ce_user_id = sint (fst c), ce_access_hash = 0, ce_mutual = snd c, ce_name = [], ce_username = []\<rparr>"
  have fill: "takes_st (fill_loop read_contact max_entries (length cs)) ?cs [] (length cs) (map ?view cs)"
    unfolding takes_st_def using fill_encoded[OF takes_read_contact, where xs = cs and out = "[]"] assms(1) by simp
  have users: "takes_st (contact_users (length us)) ?us es () (fold join_contact (map user_view us) es)" for es
    unfolding takes_st_def using contact_users_encoded[OF assms(4)] by simp
  have "takes_st (read_contacts max_entries)
      (le_bytes 4 TL_contacts_contacts @ le_bytes 4 TL_vector @ ?n @ ?cs @ le_bytes 4 saved @ le_bytes 4 TL_vector @ ?m @ ?us)
      [] () (map (contact_view us) cs)"
    unfolding read_contacts_def view_joined[OF assms(6), symmetric]
    apply (rule takes_st_read[OF takes_discards(2)] takes_st_read[OF takes_expect] takes_st_read[OF takes_reads(1)])+
    apply (simp only: n)
    apply (rule takes_st_bind[OF fill] takes_st_read[OF takes_discards(1)] takes_st_read[OF takes_reads(1)])+
    apply simp
    apply (rule takes_st_read[OF takes_reads(1)])
    apply (simp only: n)
    apply (rule users)
    done
  from run_reader_takes[OF this, of rest] assms(5) show ?thesis by (simp add: enc_contacts_def)
qed

lemma contacts_query: "query_of contacts_request 32 s = (Ok (le_bytes 4 CRC_contacts_getContacts @ le_bytes 8 (0 :: u64)), s)"
  by (simp add: query_of_def contacts_request_def wr_sync_len wire_simps ret_def)

text \<open>
  C37. A contact list that fits the array arrives complete and in order: every contact with
  its number and whether it is mutual, and with the name, user name and access hash of the
  user object of that number behind the list, wherever it stands there; a contact without
  a user object keeps empty names.
\<close>

theorem contacts_joined:
  assumes "int (length cs) \<le> max_entries" "length cs \<le> 512" "distinct (map fst cs)"
    and "list_all wire_user_ok us" "length us < 2 ^ 32" "length (enc_contacts cs saved us rest) < 2 ^ 62"
    and "0 < max_entries"
    and "client_call E 0 (le_bytes 4 CRC_contacts_getContacts @ le_bytes 8 (0 :: u64)) 65536 link =
      (Ok (enc_contacts cs saved us rest), link')"
  shows "domain_get_contacts E max_entries (link, out) = (Ok (), (link', map (contact_view us) cs))"
proof -
  let ?resp = "enc_contacts cs saved us rest"
  have "le_word (take 4 ?resp) = TL_contacts_contacts" "4 \<le> length ?resp" by (simp_all add: enc_contacts_def)
  then have "rpc_answer_local E 0 (le_bytes 4 CRC_contacts_getContacts @ le_bytes 8 (0 :: u64)) 65536 4 link =
      (Ok (TL_contacts_contacts, ?resp), link')"
    using answered_local[OF assms(8), of 4] by simp
  moreover have "run_reader ?resp (read_contacts (min (nat max_entries) 512)) [] = (Ok (), map (contact_view us) cs)"
    by (rule read_contacts_encoded) (use assms in auto)
  ultimately show ?thesis
    using assms(7) by (simp add: domain_get_contacts_def bind_def upd_def contacts_query on_fst_def on_snd_def)
qed

theorem contacts_joined_witness:
  "\<exists>link'. domain_get_contacts demo_client 10 (demo_link [enc_contacts [(7, True), (42, False)] 0 [sample_user] []] 1000, []) =
     (Ok (), (link', [\<lparr>ce_user_id = 7, ce_access_hash = 0, ce_mutual = True, ce_name = [], ce_username = []\<rparr>,
       \<lparr>ce_user_id = 42, ce_access_hash = 99, ce_mutual = False, ce_name = [65, 100, 97, 32, 76], ce_username = []\<rparr>]))"
proof -
  let ?a = "enc_contacts [(7, True), (42, False)] 0 [sample_user] []"
  let ?q = "le_bytes 4 CRC_contacts_getContacts @ le_bytes 8 (0 :: u64) :: byte list"
  have len: "length ?a = 92" by (simp add: enc_contacts_def enc_contact_def sample_user_ok)
  have fits: "length ?q + length ?a + 500 + 0 \<le> 1000" "length ?q \<le> 1000000" "length ?a \<le> 1000000"
    "length ?a \<le> 65536" "length ?a < 4 \<or> le_word (take 4 ?a) \<noteq> CRC_gzip_packed"
    by (simp_all add: len) (simp add: enc_contacts_def)
  obtain link' where call: "client_call demo_client 0 ?q 65536 (demo_link [?a] 1000) = (Ok ?a, link')"
    by (rule demo_call[OF demo_link_answering fits])
  have ids: "wu_id sample_user = 42" by (simp add: sample_user_def)
  from contacts_joined[OF _ _ _ _ _ _ _ call] show ?thesis
    by (simp add: sample_user_ok len contact_view_def ids with_user_def sample_user_view clip_def)
qed

end
