(* ===== verification/Domain_Dialogs.thy ===== *)
theory Domain_Dialogs
  imports Client_Lists
begin

text \<open>
  The list of dialogs (\<open>src/src/domain/read/dialogs.c\<close>): \<open>messages.getDialogs\<close>, the vector of
  dialogs, the join with the chats and users behind it, and the two tables (inbox and
  archive) that answer for a minute. A call to the clock is the next value of \<open>clock\<close>.
\<close>

abbreviation (input) DIALOGS_CACHE_TTL_S :: int where "DIALOGS_CACHE_TTL_S \<equiv> 60"
abbreviation (input) DIALOGS_CACHE_SLOTS :: nat where "DIALOGS_CACHE_SLOTS \<equiv> 2"
abbreviation (input) DIALOGS_CACHE_MAX :: nat where "DIALOGS_CACHE_MAX \<equiv> 512"
abbreviation (input) CRC_messages_getDialogs :: u32 where "CRC_messages_getDialogs \<equiv> 0xa0f4cb4f"
abbreviation (input) CRC_inputPeerEmpty :: u32 where "CRC_inputPeerEmpty \<equiv> 0x7f3b18ea"
abbreviation (input) CRC_dialog :: u32 where "CRC_dialog \<equiv> 0xd58a08c6"
abbreviation (input) CRC_dialogFolder :: u32 where "CRC_dialogFolder \<equiv> 0x71bd134c"

datatype dialog_peer_kind = DIALOG_PEER_UNKNOWN | DIALOG_PEER_USER | DIALOG_PEER_CHAT | DIALOG_PEER_CHANNEL

record dialog_entry =
  de_kind :: dialog_peer_kind
  de_peer_id :: int
  de_access_hash :: int
  de_have_access_hash :: int
  de_unread_count :: int
  de_top_message_id :: int
  de_title :: "byte list"
  de_username :: "byte list"

text \<open>The entries array of a table with its count is a list.\<close>

record dialogs_cache =
  dc_valid :: bool
  dc_archived :: bool
  dc_fetched_at :: int
  dc_total_count :: int
  dc_entries :: "dialog_entry list"

definition dialogs_cache_flush :: "dialogs_cache list" where
  "dialogs_cache_flush = replicate DIALOGS_CACHE_SLOTS
     \<lparr>dc_valid = False, dc_archived = False, dc_fetched_at = 0, dc_total_count = 0, dc_entries = []\<rparr>"

section \<open>The request and one dialog\<close>

definition dialogs_request :: "int \<Rightarrow> bool \<Rightarrow> tl_writer" where
  "dialogs_request limit archived =
     (let w = tl_write_uint32 tl_writer_init CRC_messages_getDialogs;
          w = tl_write_uint32 w (if archived then 2 else 0);
          w = (if archived then tl_write_int32 w 1 else w);
          w = tl_write_int32 w 0;
          w = tl_write_int32 w 0;
          w = tl_write_uint32 w CRC_inputPeerEmpty;
          w = tl_write_int32 w limit
      in tl_write_int64 w 0)"

definition skip_dialog_folder :: walker where
  "skip_dialog_folder = seqs [uint32, tl_skip_peer, times 5 need_int32]"

definition dialog_kind_of :: "u32 \<Rightarrow> dialog_peer_kind option" where
  "dialog_kind_of crc =
     (if crc = TL_peerUser then Some DIALOG_PEER_USER
      else if crc = TL_peerChat then Some DIALOG_PEER_CHAT
      else if crc = TL_peerChannel then Some DIALOG_PEER_CHANNEL else None)"

definition parse_peer :: "(tl_reader, dialog_peer_kind \<times> int) cfun" where
  "parse_peer r =
     (if \<not> tl_reader_ok r then (Fail, r)
      else bind tl_read_uint32 (\<lambda>crc. case dialog_kind_of crc of
        None \<Rightarrow> fail
      | Some k \<Rightarrow> bind tl_read_int64 (\<lambda>i. ret (k, i))) r)"

text \<open>
  What follows the fixed fields: \<open>True\<close> if the cursor is behind the dialog.
\<close>

definition dialog_tail :: "u32 \<Rightarrow> (tl_reader, bool) cfun" where
  "dialog_tail flags =
     bind (attempt tl_skip_peer_notify_settings) (\<lambda>ok. if ok = None then ret False else
     bind (when_bit flags 0 int32) (\<lambda>_.
     bind (attempt (when_bit flags 1 tl_skip_draft_message)) (\<lambda>ok. if ok = None then ret False else
     bind (when_bit flags 4 int32) (\<lambda>_. bind (when_bit flags 5 int32) (\<lambda>_. ret True)))))"

definition dialog_fields :: "(tl_reader, (dialog_entry \<times> u32) option) cfun" where
  "dialog_fields =
     bind tl_read_uint32 (\<lambda>flags.
     bind (attempt parse_peer) (\<lambda>peer. case peer of None \<Rightarrow> ret None | Some (k, i) \<Rightarrow>
     bind tl_read_int32 (\<lambda>top_id. bind int32 (\<lambda>_. bind int32 (\<lambda>_.
     bind tl_read_int32 (\<lambda>unread. bind int32 (\<lambda>_. bind int32 (\<lambda>_.
       ret (Some (\<lparr>de_kind = k, de_peer_id = i, de_access_hash = 0, de_have_access_hash = 0,
         de_unread_count = unread, de_top_message_id = top_id, de_title = [], de_username = []\<rparr>, flags))))))))))"

definition read_dialog_body :: "(tl_reader, dialog_entry option \<times> bool) cfun" where
  "read_dialog_body =
     bind tl_read_uint32 (\<lambda>dcrc.
       if dcrc = CRC_dialogFolder then bind (attempt skip_dialog_folder) (\<lambda>ok. ret (None, ok \<noteq> None))
       else if dcrc \<noteq> CRC_dialog then ret (None, False)
       else bind dialog_fields (\<lambda>d. case d of
         None \<Rightarrow> ret (None, False)
       | Some (e, flags) \<Rightarrow> bind (dialog_tail flags) (\<lambda>go. ret (Some e, go))))"

definition read_dialog :: "(tl_reader, dialog_entry option \<times> bool) cfun" where
  "read_dialog r = (if \<not> tl_reader_ok r then (Ok (None, False), r) else read_dialog_body r)"

section \<open>The join\<close>

definition extract_one :: "'x \<Rightarrow> 'x out_walker \<Rightarrow> (tl_reader, 'x) cfun" where
  "extract_one x m r = (case m (r, Some x) of
     (Ok _, (r', v)) \<Rightarrow> (case v of None \<Rightarrow> (Fail, r') | Some y \<Rightarrow> (Ok y, r'))
   | (Fail, (r', v)) \<Rightarrow> (Fail, r') | (Oob, (r', v)) \<Rightarrow> (Oob, r') | (Fuel, (r', v)) \<Rightarrow> (Fuel, r'))"

primrec extract_list :: "'x \<Rightarrow> 'x out_walker \<Rightarrow> nat \<Rightarrow> (tl_reader, 'x list) cfun" where
  "extract_list x m 0 = ret []"
| "extract_list x m (Suc n) = bind (extract_one x m) (\<lambda>y. bind (extract_list x m n) (\<lambda>ys. ret (y # ys)))"

text \<open>
  The messages are passed over, the chats and the users are collected; a \<open>Fail\<close> here is one of
  the early returns that leave the entries as they are.
\<close>

definition read_join_body :: "(tl_reader, chat_summary list \<times> user_summary list) cfun" where
  "read_join_body =
     bind (expect TL_vector) (\<lambda>_. bind tl_read_uint32 (\<lambda>mcount.
     bind (times (unat mcount) tl_skip_message) (\<lambda>_.
     bind (expect TL_vector) (\<lambda>_. bind tl_read_uint32 (\<lambda>ccount.
     bind (extract_list no_chat tl_extract_chat (unat ccount)) (\<lambda>chats.
     bind (expect TL_vector) (\<lambda>_. bind tl_read_uint32 (\<lambda>ucount.
     bind (extract_list no_user tl_extract_user (unat ucount)) (\<lambda>users.
       ret (chats, users))))))))))"

definition read_join :: "(tl_reader, chat_summary list \<times> user_summary list) cfun" where
  "read_join r = (if \<not> tl_reader_ok r then (Fail, r) else read_join_body r)"

definition join_dialog :: "chat_summary list \<Rightarrow> user_summary list \<Rightarrow> dialog_entry \<Rightarrow> dialog_entry" where
  "join_dialog chats users e =
     (if de_kind e = DIALOG_PEER_USER then
        (case find (\<lambda>u. us_id u = de_peer_id e) users of
           None \<Rightarrow> e
         | Some u \<Rightarrow> e\<lparr>de_title := us_name u, de_username := us_username u, de_access_hash := us_access_hash u,
             de_have_access_hash := us_have_access_hash u\<rparr>)
      else
        (case find (\<lambda>c. cs_id c = de_peer_id e) chats of
           None \<Rightarrow> e
         | Some c \<Rightarrow> e\<lparr>de_title := cs_title c, de_access_hash := cs_access_hash c,
             de_have_access_hash := cs_have_access_hash c\<rparr>))"

section \<open>Reading an answer\<close>

text \<open>
  The caller's outputs: the entries, and the total, which may be \<open>NULL\<close>. The value is what
  the join found, if it came to it.
\<close>

type_synonym dialogs_out = "dialog_entry list \<times> int option"

definition on_entries :: "('r \<times> 'e list, 'a) cfun \<Rightarrow> ('r \<times> 'e list \<times> 't, 'a) cfun" where
  "on_entries m s = (case m (fst s, fst (snd s)) of (res, (r, es)) \<Rightarrow> (res, (r, (es, snd (snd s)))))"

definition set_total :: "int \<Rightarrow> ('r \<times> 'e list \<times> int option, unit) cfun" where
  "set_total v = upd (apsnd (map_option (\<lambda>_. v)))"

definition read_dialogs ::
  "nat \<Rightarrow> u32 \<Rightarrow> (tl_reader \<times> dialogs_out, (chat_summary list \<times> user_summary list) option) cfun" where
  "read_dialogs max_entries tcrc =
     bind (on_fst uint32) (\<lambda>_.
     bind (if tcrc = TL_messages_dialogsSlice then bind (on_fst tl_read_int32) set_total else skip) (\<lambda>_.
     bind (on_fst (expect TL_vector)) (\<lambda>_.
     bind (on_fst tl_read_uint32) (\<lambda>count.
     bind (if tcrc = TL_messages_dialogs then set_total (sint count) else skip) (\<lambda>_.
     bind (on_entries (fill_loop read_dialog max_entries (unat count))) (\<lambda>parsed.
       if int parsed < sint count then ret None else on_fst (attempt read_join)))))))"

text \<open>\<open>False\<close> is the answer that nothing has changed; the entries come back joined.\<close>

definition fetch_dialogs :: "client_env \<Rightarrow> int \<Rightarrow> bool \<Rightarrow> (link \<times> dialogs_out, bool) cfun" where
  "fetch_dialogs E max_entries archived =
     bind (query_of (dialogs_request max_entries archived) 132) (\<lambda>query.
     bind (on_fst (rpc_answer_local E 0 query 262144 8)) (\<lambda>(top, resp).
       if top = TL_messages_dialogsNotModified then
         bind (on_snd (run_reader resp (bind (on_fst uint32) (\<lambda>_. bind (on_fst tl_read_int32) set_total)))) (\<lambda>_. ret False)
       else if top \<noteq> TL_messages_dialogs \<and> top \<noteq> TL_messages_dialogsSlice then fail
       else bind (on_snd (run_reader resp (read_dialogs (nat max_entries) top))) (\<lambda>j. case j of
         None \<Rightarrow> ret True
       | Some (chats, users) \<Rightarrow> bind (upd (apfst (map (join_dialog chats users)))) (\<lambda>_. ret True))))"

section \<open>The tables\<close>

text \<open>
  The code fills the table before the join and copies the entries again after it; what is left
  in it are the entries that the caller gets.
\<close>

definition prime_cache :: "int \<Rightarrow> bool \<Rightarrow> dialogs_out \<Rightarrow> dialogs_cache" where
  "prime_cache now archived out =
     \<lparr>dc_valid = True, dc_archived = archived, dc_fetched_at = now,
      dc_total_count = (case snd out of None \<Rightarrow> int (length (fst out)) | Some t \<Rightarrow> t),
      dc_entries = take DIALOGS_CACHE_MAX (fst out)\<rparr>"

type_synonym dialogs_client = "link \<times> dialogs_cache list"

definition domain_get_dialogs ::
  "client_env \<Rightarrow> (nat \<Rightarrow> int) \<Rightarrow> int \<Rightarrow> bool \<Rightarrow> (dialogs_client \<times> dialogs_out, unit) cfun" where
  "domain_get_dialogs E clock max_entries archived s =
     (let link = fst (fst s); caches = snd (fst s);
          out = ([], map_option (\<lambda>_. 0) (snd (snd s)));
          slot = (if archived then 1 else 0); cache = caches ! slot
      in
      if max_entries \<le> 0 then (Fail, s)
      else if dc_valid cache \<and> clock 0 - dc_fetched_at cache < DIALOGS_CACHE_TTL_S then
        (Ok (), (fst s, (take (nat max_entries) (dc_entries cache), map_option (\<lambda>_. dc_total_count cache) (snd out))))
      else case fetch_dialogs E max_entries archived (link, out) of
        (Ok changed, (link', out')) \<Rightarrow>
          (Ok (), ((link', if changed then caches[slot := prime_cache (clock 1) archived out'] else caches), out'))
      | (Fail, (link', out')) \<Rightarrow> (Fail, ((link', caches), out'))
      | (Oob, (link', out')) \<Rightarrow> (Oob, ((link', caches), out'))
      | (Fuel, (link', out')) \<Rightarrow> (Fuel, ((link', caches), out')))"

definition domain_dialogs_find_by_id :: "int \<Rightarrow> dialogs_cache list \<Rightarrow> dialog_entry option" where
  "domain_dialogs_find_by_id pid caches =
     find (\<lambda>e. de_peer_id e = pid) (concat (map dc_entries (filter dc_valid caches)))"

section \<open>Safety\<close>

definition dialog_ok :: "dialog_entry \<Rightarrow> bool" where
  "dialog_ok e = (length (de_title e) < 128 \<and> length (de_username e) < 64)"

definition caches_ok :: "dialogs_cache list \<Rightarrow> bool" where
  "caches_ok cs = (length cs = DIALOGS_CACHE_SLOTS \<and> (\<forall>c\<in>set cs. filled DIALOGS_CACHE_MAX dialog_ok (dc_entries c)))"

definition dialogs_ok :: "nat \<Rightarrow> dialogs_out \<Rightarrow> bool" where
  "dialogs_ok n out = filled n dialog_ok (fst out)"

lemma keeps_attempt [keeps_rules]: "keeps I m \<Longrightarrow> keeps I (attempt m)"
  unfolding keeps_def attempt_def by (auto split: prod.splits outcome.splits)

lemma gives_attempt: "gives I m Q \<Longrightarrow> gives I (attempt m) (pred_option Q)"
  using keeps_attempt[of I m] by (auto simp: gives_def attempt_def split: prod.splits outcome.splits)

lemma gives_extract_one:
  assumes "keeps (with_out I K) m" "K x"
  shows "gives I (extract_one x m) K"
proof -
  have run: "no_fault (fst (m (r, Some x))) \<and> with_out I K (snd (m (r, Some x)))" if "I r" for r
    using assms that by (simp add: keeps_def with_out_def)
  have "keeps I (extract_one x m)"
    by (rule keepsI) (use run in \<open>force simp: extract_one_def with_out_def split: prod.splits outcome.splits option.splits\<close>)
  moreover have "K y" if "I r" "extract_one x m r = (Ok y, r')" for r y r'
    using run[of r] that by (auto simp: extract_one_def with_out_def split: prod.splits outcome.splits option.splits)
  ultimately show ?thesis by (simp add: gives_def)
qed

lemma gives_extract_list:
  assumes "keeps (with_out I K) m" "K x"
  shows "gives I (extract_list x m n) (list_all K)"
proof (induction n)
  case (Suc n)
  show ?case
    unfolding extract_list.simps
    by (rule gives_bind[OF gives_extract_one[OF assms]], rule gives_bind[OF Suc]) (simp add: gives_simple)
qed (simp add: gives_simple)

lemma keeps_dialog_parts:
  "keeps (within (mem_inv d) k) parse_peer" "keeps (within (mem_inv d) k) (dialog_tail flags)"
  "keeps (within (mem_inv d) k) skip_dialog_folder"
proof -
  show "keeps (within (mem_inv d) k) parse_peer"
    unfolding parse_peer_def[abs_def] by (intro keeps_unless keeps_rules) simp_all
  show "keeps (within (mem_inv d) k) (dialog_tail flags)"
    unfolding dialog_tail_def by (intro keeps_rules)
  show "keeps (within (mem_inv d) k) skip_dialog_folder"
    unfolding skip_dialog_folder_def by (intro keeps_rules)
qed

lemma gives_read_dialog: "gives (within (mem_inv d) k) read_dialog (\<lambda>(e, go). pred_option dialog_ok e)"
proof -
  have f: "gives (within (mem_inv d) k) dialog_fields (pred_option (\<lambda>(e, flags). dialog_ok e))"
    unfolding dialog_fields_def
    by (intro gives_bind_keeps keeps_rules keeps_dialog_parts)
      (auto intro!: gives_bind_keeps keeps_rules gives_simple simp: dialog_ok_def split: option.split)
  show ?thesis
    unfolding read_dialog_def[abs_def] read_dialog_body_def
    by (rule gives_unless gives_if gives_bind[OF f] gives_bind_keeps keeps_rules keeps_dialog_parts
        | (auto intro!: gives_simple gives_bind_keeps keeps_dialog_parts split: option.split; fail))+
qed

definition join_ok :: "(chat_summary list \<times> user_summary list) option \<Rightarrow> bool" where
  "join_ok = pred_option (\<lambda>(chats, users). list_all chat_ok chats \<and> list_all user_ok users)"

lemma gives_read_join:
  "gives (within (mem_inv d) k) read_join (\<lambda>j. join_ok (Some j))"
  unfolding read_join_def[abs_def] read_join_body_def tl_extract_chat_def tl_extract_user_def
  by (rule gives_unless gives_bind[OF gives_extract_list[OF mem.keeps_extract_chat no_ok(1)]]
      gives_bind[OF gives_extract_list[OF mem.keeps_extract_user no_ok(2)]] gives_bind_keeps keeps_rules
      | (simp add: gives_simple join_ok_def; fail))+

lemma keeps_on_entries: "keeps (beside I (filled n P)) m \<Longrightarrow> keeps (beside I (\<lambda>out. filled n P (fst out))) (on_entries m)"
proof (rule keepsI)
  fix s assume m: "keeps (beside I (filled n P)) m" and s: "beside I (\<lambda>out. filled n P (fst out)) s"
  obtain res r es where run: "m (fst s, fst (snd s)) = (res, (r, es))" by (metis prod.exhaust)
  show "no_fault (fst (on_entries m s)) \<and> beside I (\<lambda>out. filled n P (fst out)) (snd (on_entries m s))"
    using keepsD[OF m _ run] s by (simp add: on_entries_def run beside_def)
qed

lemma gives_read_dialogs:
  "gives (reading d (dialogs_ok n)) (read_dialogs n tcrc) join_ok"
proof -
  have "keeps (reading d (dialogs_ok n)) (on_entries (fill_loop read_dialog n m))" for m
    unfolding dialogs_ok_def[abs_def] by (rule keeps_on_entries[OF keeps_fill_loop[OF gives_read_dialog]])
  moreover have "keeps (reading d (dialogs_ok n)) (set_total v)" for v
    unfolding set_total_def by (intro keeps_rules) (simp add: dialogs_ok_def)
  ultimately show ?thesis
    unfolding read_dialogs_def
    using gives_attempt[OF gives_read_join]
    by (intro gives_bind_keeps gives_if gives_beside keeps_rules) (simp_all add: gives_simple join_ok_def)
qed

lemma join_keeps_ok:
  assumes "list_all chat_ok chats" "list_all user_ok users" "dialog_ok e"
  shows "dialog_ok (join_dialog chats users e)"
  using assms
  by (auto simp: join_dialog_def dialog_ok_def chat_ok_def user_ok_def list_all_iff find_Some_iff
      split: option.splits)

lemma safe_run_gives:
  assumes "gives (reading buf J) m Q" "length buf < 2 ^ 62" "\<And>x. Q x \<Longrightarrow> safe (beside I J) (f x)"
  shows "safe (beside I J) (bind (on_snd (run_reader buf m)) f)"
proof (rule safeI)
  fix s assume s: "beside I J s"
  obtain a c where st: "s = (a, c)" by (rule prod.exhaust)
  let ?r = "(tl_reader_init buf (length buf), c)"
  have start: "reading buf J ?r"
    using assms(2) s by (simp add: st beside_def within_def mem_inv_def rd_at_init rd_at_wf remaining_def)
  obtain res r c' where m: "m ?r = (res, (r, c'))" by (metis surj_pair)
  have k: "no_fault res" "J c'" using keepsD[OF gives_keeps(1)[OF assms(1)] start m] by (simp_all add: beside_def)
  have run: "on_snd (run_reader buf m) s = (res, (a, c'))" by (simp add: on_snd_def run_reader_def st m)
  show "fst (bind (on_snd (run_reader buf m)) f s) \<noteq> Oob \<and> beside I J (snd (bind (on_snd (run_reader buf m)) f s))"
  proof (cases res)
    case (Ok x)
    then have "safe (beside I J) (f x)" using givesD[OF assms(1) start] m assms(3) by blast
    then show ?thesis using s k by (simp add: safe_def bind_def run[unfolded st] Ok st beside_def)
  qed (use s k in \<open>simp_all add: bind_def run[unfolded st] st beside_def no_fault_def\<close>)
qed

lemma dialogs_sync: "wr_sync (dialogs_request limit archived)"
  by (simp add: dialogs_request_def Let_def)

lemma safe_fetch_dialogs:
  assumes "client_ok E"
  shows "safe (beside anywhere (dialogs_ok (nat max_entries))) (fetch_dialogs E max_entries archived)"
proof -
  have total: "keeps (reading d (dialogs_ok n)) (set_total v)" for d n v
    unfolding set_total_def by (intro keeps_rules) (simp add: dialogs_ok_def)
  have join: "safe (beside anywhere (dialogs_ok n)) (case j of None \<Rightarrow> ret True
      | Some (chats, users) \<Rightarrow> bind (upd (apfst (map (join_dialog chats users)))) (\<lambda>_. ret True))" if "join_ok j" for j n
    using that
    by (auto simp: join_ok_def dialogs_ok_def filled_def list_all_iff split: option.split
        intro!: safe_rules join_keeps_ok)
  show ?thesis
    unfolding fetch_dialogs_def
    by (rule safe_queried[OF dialogs_sync] safe_answered_local[OF assms] safe_if safe_run_gives[OF gives_read_dialogs]
        join safe_rules keeps_rules total | (simp; fail))+
qed

lemma safe_domain_dialogs:
  assumes "client_ok E"
  shows "safe (beside (beside anywhere caches_ok) (dialogs_ok (nat max_entries))) (domain_get_dialogs E clock max_entries archived)"
proof (rule safeI)
  fix s :: "dialogs_client \<times> dialogs_out" assume s: "beside (beside anywhere caches_ok) (dialogs_ok (nat max_entries)) s"
  obtain link cs out where st: "s = ((link, cs), out)" by (metis prod.exhaust)
  have cs: "caches_ok cs" using s by (simp add: st beside_def)
  obtain res link' out' where f: "fetch_dialogs E max_entries archived (link, ([], map_option (\<lambda>_. 0) (snd out))) = (res, (link', out'))"
    by (metis prod.exhaust)
  have start: "dialogs_ok n ([], t)" for n t by (simp add: dialogs_ok_def filled_def)
  have r: "res \<noteq> Oob" "dialogs_ok (nat max_entries) out'"
    using safeD[OF safe_fetch_dialogs[OF assms] _ f] start by (simp_all add: beside_def)
  have "caches_ok (cs[i := prime_cache now archived out'])" for i now
    using cs r(2) set_update_subset_insert[of cs i]
    by (fastforce simp: caches_ok_def prime_cache_def dialogs_ok_def filled_def list_all_iff dest: in_set_takeD)
  moreover have "i < 2 \<Longrightarrow> dialogs_ok n (take n (dc_entries (cs ! i)), t)" for n i t
    using cs by (fastforce simp: caches_ok_def dialogs_ok_def filled_def list_all_iff dest: in_set_takeD)
  ultimately show "fst (domain_get_dialogs E clock max_entries archived s) \<noteq> Oob \<and>
      beside (beside anywhere caches_ok) (dialogs_ok (nat max_entries)) (snd (domain_get_dialogs E clock max_entries archived s))"
    using s r cs by (auto simp: domain_get_dialogs_def Let_def st f beside_def split: outcome.split)
qed

section \<open>Encoded dialogs\<close>

record wire_dialog =
  wd_flags :: u32
  wd_peer :: u32
  wd_peer_id :: u64
  wd_top_message :: u32
  wd_read_inbox :: u32
  wd_read_outbox :: u32
  wd_unread :: u32
  wd_mentions :: u32
  wd_reactions :: u32
  wd_notify :: "byte list"
  wd_pts :: u32
  wd_draft :: "byte list"
  wd_folder :: u32
  wd_ttl :: u32

definition enc_dialog :: "wire_dialog \<Rightarrow> byte list" where
  "enc_dialog d = le_bytes 4 CRC_dialog @ le_bytes 4 (wd_flags d) @ le_bytes 4 (wd_peer d) @ le_bytes 8 (wd_peer_id d) @
     le_bytes 4 (wd_top_message d) @ le_bytes 4 (wd_read_inbox d) @ le_bytes 4 (wd_read_outbox d) @
     le_bytes 4 (wd_unread d) @ le_bytes 4 (wd_mentions d) @ le_bytes 4 (wd_reactions d) @ wd_notify d @
     opt (wd_flags d) 0 (le_bytes 4 (wd_pts d)) @ opt (wd_flags d) 1 (wd_draft d) @
     opt (wd_flags d) 4 (le_bytes 4 (wd_folder d)) @ opt (wd_flags d) 5 (le_bytes 4 (wd_ttl d))"

definition wire_dialog_ok :: "wire_dialog \<Rightarrow> bool" where
  "wire_dialog_ok d = (wd_peer d \<in> {TL_peerUser, TL_peerChat, TL_peerChannel} \<and>
     takes tl_skip_peer_notify_settings (wd_notify d) () \<and>
     (bit (wd_flags d) 1 \<longrightarrow> takes tl_skip_draft_message (wd_draft d) ()))"

definition dialog_view :: "wire_dialog \<Rightarrow> dialog_entry" where
  "dialog_view d = \<lparr>de_kind = the (dialog_kind_of (wd_peer d)), de_peer_id = sint (wd_peer_id d),
     de_access_hash = 0, de_have_access_hash = 0, de_unread_count = sint (wd_unread d),
     de_top_message_id = sint (wd_top_message d), de_title = [], de_username = []\<rparr>"

lemma takes_attempt: "takes m bs v \<Longrightarrow> takes (attempt m) bs (Some v)"
  by (simp add: takes_def attempt_def)

lemma takes_when_opt: "(bit flags i \<Longrightarrow> takes m bs ()) \<Longrightarrow> takes (when_bit flags i m) (opt flags i bs) ()"
  by (simp add: when_bit_def opt_def takes_ret)

lemma takes_dialog_tail:
  assumes "wire_dialog_ok d"
  shows "takes (dialog_tail (wd_flags d)) (wd_notify d @ opt (wd_flags d) 0 (le_bytes 4 (wd_pts d)) @
    opt (wd_flags d) 1 (wd_draft d) @ opt (wd_flags d) 4 (le_bytes 4 (wd_folder d)) @
    opt (wd_flags d) 5 (le_bytes 4 (wd_ttl d))) True"
proof -
  have ok: "takes tl_skip_peer_notify_settings (wd_notify d) ()"
    "bit (wd_flags d) 1 \<Longrightarrow> takes tl_skip_draft_message (wd_draft d) ()"
    using assms by (simp_all add: wire_dialog_ok_def)
  have end_ttl: "takes (bind (when_bit (wd_flags d) 5 int32) (\<lambda>_. ret True)) (opt (wd_flags d) 5 (le_bytes 4 (wd_ttl d))) True"
    by (rule takes_bind_ret[OF takes_when_opt[OF takes_discards(1)]])
  show ?thesis
    unfolding dialog_tail_def
    apply (rule takes_bind[OF takes_attempt[OF ok(1)]])
    apply (simp only: option.distinct if_False)
    apply (rule takes_bind[OF takes_when_opt[OF takes_discards(1)]])
    apply (rule takes_bind[OF takes_attempt[OF takes_when_opt[OF ok(2)]]], assumption)
    apply (simp only: option.distinct if_False)
    by (rule takes_bind[OF takes_when_opt[OF takes_discards(1)] end_ttl])
qed

lemma takes_read_dialog:
  assumes "wire_dialog_ok d"
  shows "takes read_dialog (enc_dialog d) (Some (dialog_view d), True)"
proof -
  obtain k where k: "dialog_kind_of (wd_peer d) = Some k"
    using assms by (auto simp: wire_dialog_ok_def dialog_kind_of_def)
  have "takes (bind tl_read_uint32 (\<lambda>crc. case dialog_kind_of crc of None \<Rightarrow> fail
      | Some k \<Rightarrow> bind tl_read_int64 (\<lambda>i. ret (k, i)))) (le_bytes 4 (wd_peer d) @ le_bytes 8 (wd_peer_id d))
      (k, sint (wd_peer_id d))"
    by (rule takes_bind[OF takes_reads(1)]) (simp add: k takes_bind_ret[OF takes_reads(4), of "Pair k"])
  then have peer: "takes parse_peer (le_bytes 4 (wd_peer d) @ le_bytes 8 (wd_peer_id d)) (k, sint (wd_peer_id d))"
    unfolding parse_peer_def[abs_def]
    by (rule takes_when_more) (simp flip: length_greater_0_conv)
  have fields: "takes dialog_fields (le_bytes 4 (wd_flags d) @ (le_bytes 4 (wd_peer d) @ le_bytes 8 (wd_peer_id d)) @
      le_bytes 4 (wd_top_message d) @ le_bytes 4 (wd_read_inbox d) @ le_bytes 4 (wd_read_outbox d) @
      le_bytes 4 (wd_unread d) @ le_bytes 4 (wd_mentions d) @ le_bytes 4 (wd_reactions d))
      (Some (dialog_view d, wd_flags d))"
    unfolding dialog_fields_def
    apply (rule takes_bind[OF takes_reads(1)], rule takes_bind[OF takes_attempt[OF peer]])
    apply (simp only: option.case prod.case)
    apply (rule takes_bind[OF takes_reads(2)], (rule takes_bind[OF takes_discards(1)])+,
        rule takes_bind[OF takes_reads(2)], rule takes_bind[OF takes_discards(1)])
    using takes_bind_ret[OF takes_discards(1), of "\<lambda>_. Some (dialog_view d, wd_flags d)" "wd_reactions d"]
    by (simp add: dialog_view_def k)
  have "takes (bind dialog_fields (\<lambda>d. case d of None \<Rightarrow> ret (None, False)
      | Some (e, flags) \<Rightarrow> bind (dialog_tail flags) (\<lambda>go. ret (Some e, go)))) (drop 4 (enc_dialog d)) (Some (dialog_view d), True)"
    using takes_bind[OF fields, of "\<lambda>d. case d of None \<Rightarrow> ret (None, False)
      | Some (e, flags) \<Rightarrow> bind (dialog_tail flags) (\<lambda>go. ret (Some e, go))"]
      takes_bind_ret[OF takes_dialog_tail[OF assms], of "Pair (Some (dialog_view d))"]
    by (simp add: enc_dialog_def)
  then have "takes read_dialog_body (le_bytes 4 CRC_dialog @ drop 4 (enc_dialog d)) (Some (dialog_view d), True)"
    unfolding read_dialog_body_def by (intro takes_bind[OF takes_reads(1)]) simp
  moreover have "le_bytes 4 CRC_dialog @ drop 4 (enc_dialog d) = enc_dialog d" by (simp add: enc_dialog_def)
  ultimately have "takes read_dialog_body (enc_dialog d) (Some (dialog_view d), True)" by (simp only:)
  then show ?thesis
    unfolding read_dialog_def[abs_def] by (rule takes_when_more) (simp add: enc_dialog_def flip: length_greater_0_conv)
qed

lemma takes_extract_list:
  assumes "\<And>x. x \<in> set xs \<Longrightarrow> takes_out m (enc x) (Some z) (Some (view x))"
  shows "takes (extract_list z m (length xs)) (concat (map enc xs)) (map view xs)"
  using assms
proof (induction xs)
  case (Cons x xs)
  have "takes (extract_one z m) (enc x) (view x)"
    using Cons.prems[of x] by (auto simp: takes_def takes_out_def extract_one_def)
  moreover have "takes (bind (extract_list z m (length xs)) (\<lambda>ys. ret (view x # ys))) (concat (map enc xs)) (view x # map view xs)"
    using takes_bind_ret[OF Cons.IH, of "(#) (view x)"] Cons.prems by simp
  ultimately show ?case by (simp add: takes_bind)
qed (simp add: takes_ret)

text \<open>The three vectors behind the dialogs.\<close>

definition enc_join :: "byte list list \<Rightarrow> (byte list \<times> chat_summary) list \<Rightarrow> wire_user list \<Rightarrow> byte list" where
  "enc_join msgs chats us = le_bytes 4 TL_vector @ le_bytes 4 (word_of_nat (length msgs) :: u32) @ concat msgs @
     le_bytes 4 TL_vector @ le_bytes 4 (word_of_nat (length chats) :: u32) @ concat (map fst chats) @
     le_bytes 4 TL_vector @ le_bytes 4 (word_of_nat (length us) :: u32) @ concat (map enc_user us)"

definition join_wire_ok :: "byte list list \<Rightarrow> (byte list \<times> chat_summary) list \<Rightarrow> wire_user list \<Rightarrow> bool" where
  "join_wire_ok msgs chats us = (length msgs < 2 ^ 32 \<and> length chats < 2 ^ 32 \<and> length us < 2 ^ 32 \<and>
     (\<forall>m\<in>set msgs. takes tl_skip_message m ()) \<and>
     (\<forall>c\<in>set chats. takes_out tl_extract_chat (fst c) (Some no_chat) (Some (snd c))) \<and>
     list_all wire_user_ok us)"

lemma takes_read_join:
  assumes "join_wire_ok msgs chats us"
  shows "takes read_join (enc_join msgs chats us) (map snd chats, map user_view us)"
proof -
  have n: "unat (word_of_nat (length xs) :: u32) = length xs" if "length xs < 2 ^ 32" for xs :: "'x list"
    using that by (simp add: unat_of_nat take_bit_eq_mod)
  have msgs: "takes (times (length msgs) tl_skip_message) (concat msgs) ()"
    using takes_times[of msgs tl_skip_message id] assms by (simp add: join_wire_ok_def)
  have chats: "takes (extract_list no_chat tl_extract_chat (length chats)) (concat (map fst chats)) (map snd chats)"
    by (rule takes_extract_list) (use assms in \<open>simp add: join_wire_ok_def\<close>)
  have users: "takes (extract_list no_user tl_extract_user (length us)) (concat (map enc_user us)) (map user_view us)"
    by (rule takes_extract_list) (use assms in \<open>simp add: join_wire_ok_def list_all_iff takes_extract_user\<close>)
  have last: "takes (bind (extract_list no_user tl_extract_user (length us)) (\<lambda>users. ret (cs, users)))
      (concat (map enc_user us)) (cs, map user_view us)" for cs :: "chat_summary list"
    using takes_bind_ret[OF users, of "Pair cs"] .
  have "takes read_join_body (enc_join msgs chats us) (map snd chats, map user_view us)"
    unfolding read_join_body_def enc_join_def
    apply (rule takes_bind[OF takes_expect], rule takes_bind[OF takes_reads(1)])
    using assms apply (simp only: n join_wire_ok_def)
    apply (rule takes_bind[OF msgs], rule takes_bind[OF takes_expect], rule takes_bind[OF takes_reads(1)], simp only: n)
    apply (rule takes_bind[OF chats], rule takes_bind[OF takes_expect], rule takes_bind[OF takes_reads(1)], simp only: n)
    by (rule last)
  then show ?thesis
    unfolding read_join_def[abs_def] by (rule takes_when_more) (simp add: enc_join_def flip: length_greater_0_conv)
qed

definition enc_dialogs ::
  "u32 option \<Rightarrow> wire_dialog list \<Rightarrow> byte list list \<Rightarrow> (byte list \<times> chat_summary) list \<Rightarrow> wire_user list \<Rightarrow>
   byte list \<Rightarrow> byte list" where
  "enc_dialogs tot ds msgs chats us rest =
     (case tot of None \<Rightarrow> le_bytes 4 TL_messages_dialogs
      | Some t \<Rightarrow> le_bytes 4 TL_messages_dialogsSlice @ le_bytes 4 t) @
     le_bytes 4 TL_vector @ le_bytes 4 (word_of_nat (length ds) :: u32) @ concat (map enc_dialog ds) @
     enc_join msgs chats us @ rest"

text \<open>\<open>messages.dialogs\<close> is the complete list, \<open>messages.dialogsSlice\<close> names the total.\<close>

definition dialogs_ctor :: "u32 option \<Rightarrow> u32" where
  "dialogs_ctor tot = (case tot of None \<Rightarrow> TL_messages_dialogs | Some t \<Rightarrow> TL_messages_dialogsSlice)"

definition dialogs_total :: "u32 option \<Rightarrow> wire_dialog list \<Rightarrow> int" where
  "dialogs_total tot ds = (case tot of None \<Rightarrow> int (length ds) | Some t \<Rightarrow> sint t)"

definition enc_dialogs_request :: "int \<Rightarrow> bool \<Rightarrow> byte list" where
  "enc_dialogs_request limit archived = le_bytes 4 CRC_messages_getDialogs @
     (if archived then le_bytes 4 (2 :: u32) @ le_bytes 4 (1 :: u32) else le_bytes 4 (0 :: u32)) @
     le_bytes 4 (0 :: u32) @ le_bytes 4 (0 :: u32) @ le_bytes 4 CRC_inputPeerEmpty @
     le_bytes 4 (word_of_int limit :: u32) @ le_bytes 8 (0 :: u64)"

lemma dialogs_query:
  "query_of (dialogs_request limit archived) 132 s = (Ok (enc_dialogs_request limit archived), s)"
  by (simp add: query_of_def dialogs_request_def enc_dialogs_request_def Let_def wr_sync_len wire_simps ret_def)

lemma takes_on_entries:
  "takes_st m bs (fst out) v es \<Longrightarrow> takes_st (on_entries m) bs out v (es, snd out)"
  by (simp add: takes_st_def on_entries_def)

lemma takes_read_dialogs:
  assumes "list_all wire_dialog_ok ds" "length ds \<le> n" "length ds < 2 ^ 31" "join_wire_ok msgs chats us"
  shows "takes_st (read_dialogs n (dialogs_ctor tot)) (enc_dialogs tot ds msgs chats us []) ([], want)
    (Some (map snd chats, map user_view us)) (map dialog_view ds, map_option (\<lambda>_. dialogs_total tot ds) want)"
proof -
  let ?n = "word_of_nat (length ds) :: u32"
  have len: "unat ?n = length ds" using assms(3) by (simp add: unat_of_nat take_bit_eq_mod)
  have sn: "sint ?n = int (length ds)"
    using assms(3) len unfolding sint_uint uint_nat by (simp add: signed_take_bit_int_eq_self)
  have fill: "takes_st (on_entries (fill_loop read_dialog n (length ds))) (concat (map enc_dialog ds)) ([], w)
      (length ds) (map dialog_view ds, w)" for w :: "int option"
    using fill_encoded[of ds read_dialog enc_dialog dialog_view _ _ "[]" n] assms(1,2) takes_read_dialog
    by (intro takes_on_entries[of _ _ "([], w)", simplified]) (simp add: takes_st_def list_all_iff)
  have join: "takes_st (on_fst (attempt read_join)) (enc_join msgs chats us) c (Some (map snd chats, map user_view us)) c" for c
    by (rule takes_st_on_fst[OF takes_attempt[OF takes_read_join[OF assms(4)]]])
  have tail: "takes_st (bind (on_entries (fill_loop read_dialog n (length ds))) (\<lambda>parsed.
      if int parsed < sint ?n then ret None else on_fst (attempt read_join)))
      (concat (map enc_dialog ds) @ enc_join msgs chats us) ([], w) (Some (map snd chats, map user_view us)) (map dialog_view ds, w)"
    for w :: "int option"
    by (rule takes_st_bind[OF fill]) (simp add: sn join)
  have set: "takes_st (bind (set_total v) f) bs c y c'" if "takes_st (f ()) bs (apsnd (map_option (\<lambda>_. v)) c) y c'"
    for v f bs c y c'
    using takes_st_bind[OF takes_st_fields(1)[of "apsnd (map_option (\<lambda>_. v))" c], of f bs y c'] that
    by (simp add: set_total_def)
  show ?thesis
  proof (cases tot)
    case None
    then show ?thesis
      unfolding read_dialogs_def enc_dialogs_def dialogs_total_def dialogs_ctor_def
      apply (simp only: option.case append_assoc append_Nil2)
      apply (rule takes_st_read[OF takes_discards(2)])
      apply simp
      apply (rule takes_st_read[OF takes_expect], rule takes_st_read[OF takes_reads(1)])
      apply (rule set)
      using tail[of "map_option (\<lambda>_. int (length ds)) want"] by (simp add: len sn)
  next
    case (Some a)
    then show ?thesis
      unfolding read_dialogs_def enc_dialogs_def dialogs_total_def dialogs_ctor_def
      apply (simp only: option.case append_assoc append_Nil2)
      apply (rule takes_st_read[OF takes_discards(2)])
      apply (simp add: bind_assoc)
      apply (rule takes_st_read[OF takes_reads(2)], rule set)
      apply (rule takes_st_read[OF takes_expect], rule takes_st_read[OF takes_reads(1)])
      using tail[of "map_option (\<lambda>_. sint a) want"] by (simp add: len)
  qed
qed

text \<open>
  What the caller is to see of a dialog: the kind, number and counters of the wire object and,
  from the user or chat with that number, the title, the access hash and, for a user, the user
  name. The objects of an answer are maps from their numbers.
\<close>

definition users_by_id :: "wire_user list \<Rightarrow> int \<rightharpoonup> wire_user" where
  "users_by_id us = map_of (map (\<lambda>u. (sint (wu_id u), u)) us)"

definition chats_by_id :: "(byte list \<times> chat_summary) list \<Rightarrow> int \<rightharpoonup> chat_summary" where
  "chats_by_id chats = map_of (map (\<lambda>c. (cs_id (snd c), snd c)) chats)"

definition shown_dialog ::
  "(byte list \<times> chat_summary) list \<Rightarrow> wire_user list \<Rightarrow> wire_dialog \<Rightarrow> dialog_entry" where
  "shown_dialog chats us d =
     (let i = sint (wd_peer_id d);
          to_user = (wd_peer d = 0x59511722);
          peer_user = (if to_user then users_by_id us i else None);
          peer_chat = (if to_user then None else chats_by_id chats i)
      in \<lparr>de_kind = (if to_user then DIALOG_PEER_USER
            else if wd_peer d = 0x36c6019a then DIALOG_PEER_CHAT else DIALOG_PEER_CHANNEL),
          de_peer_id = i,
          de_access_hash = (case (peer_user, peer_chat) of
            (Some u, _) \<Rightarrow> us_access_hash (user_view u) | (_, Some c) \<Rightarrow> cs_access_hash c | _ \<Rightarrow> 0),
          de_have_access_hash = (case (peer_user, peer_chat) of
            (Some u, _) \<Rightarrow> us_have_access_hash (user_view u) | (_, Some c) \<Rightarrow> cs_have_access_hash c | _ \<Rightarrow> 0),
          de_unread_count = sint (wd_unread d),
          de_top_message_id = sint (wd_top_message d),
          de_title = (case (peer_user, peer_chat) of
            (Some u, _) \<Rightarrow> us_name (user_view u) | (_, Some c) \<Rightarrow> cs_title c | _ \<Rightarrow> []),
          de_username = (case peer_user of Some u \<Rightarrow> us_username (user_view u) | None \<Rightarrow> [])\<rparr>)"

definition joined_dialogs :: "wire_dialog list \<Rightarrow> (byte list \<times> chat_summary) list \<Rightarrow> wire_user list \<Rightarrow> dialog_entry list" where
  "joined_dialogs ds chats us = map (shown_dialog chats us) ds"

lemma find_by_id: "find (\<lambda>x. k x = i) (map v xs) = map_option v (map_of (map (\<lambda>x. (k (v x), x)) xs) i)"
  by (induction xs) simp_all

lemma join_dialog_shown:
  assumes "wire_dialog_ok d"
  shows "join_dialog (map snd chats) (map user_view us) (dialog_view d) = shown_dialog chats us d"
proof -
  let ?i = "sint (wd_peer_id d)"
  have id: "us_id (user_view u) = sint (wu_id u)" for u by (simp add: user_view_def)
  have users: "find (\<lambda>u. us_id u = ?i) (map user_view us) = map_option user_view (users_by_id us ?i)"
    by (simp add: find_by_id users_by_id_def id)
  have "find (\<lambda>c. cs_id c = ?i) (map snd cs) =
      map_of (map (\<lambda>c. (cs_id (snd c), snd c)) cs) ?i" for cs :: "(byte list \<times> chat_summary) list"
    by (induction cs) simp_all
  then have chats: "find (\<lambda>c. cs_id c = ?i) (map snd chats) = chats_by_id chats ?i"
    by (simp add: chats_by_id_def)
  have "wd_peer d \<in> {TL_peerUser, TL_peerChat, TL_peerChannel}" using assms by (simp add: wire_dialog_ok_def)
  then show ?thesis
    by (elim insertE emptyE)
      (simp_all add: join_dialog_def dialog_view_def dialog_kind_of_def shown_dialog_def users chats Let_def
        split: option.split)
qed

lemma fetch_encoded:
  assumes "int (length ds) \<le> max_entries" "length ds < 2 ^ 31" "list_all wire_dialog_ok ds" "join_wire_ok msgs chats us"
    and "length (enc_dialogs tot ds msgs chats us rest) < 2 ^ 62"
    and "client_call E 0 (enc_dialogs_request max_entries archived) 262144 link =
      (Ok (enc_dialogs tot ds msgs chats us rest), link')"
  shows "fetch_dialogs E max_entries archived (link, ([], want)) =
    (Ok True, (link', (joined_dialogs ds chats us, map_option (\<lambda>_. dialogs_total tot ds) want)))"
proof -
  let ?resp = "enc_dialogs tot ds msgs chats us rest"
  have top: "le_word (take 4 ?resp) = dialogs_ctor tot" "8 \<le> length ?resp"
    by (simp_all add: enc_dialogs_def dialogs_ctor_def split: option.split)
  then have answer: "rpc_answer_local E 0 (enc_dialogs_request max_entries archived) 262144 8 link =
      (Ok (dialogs_ctor tot, ?resp), link')"
    using answered_local[OF assms(6), of 8] by (auto simp: dialogs_ctor_def split: option.splits)
  have split: "?resp = enc_dialogs tot ds msgs chats us [] @ rest" by (simp add: enc_dialogs_def)
  have "run_reader ?resp (read_dialogs (nat max_entries) (dialogs_ctor tot)) ([], want) =
      (Ok (Some (map snd chats, map user_view us)), (map dialog_view ds, map_option (\<lambda>_. dialogs_total tot ds) want))"
    unfolding split by (rule run_reader_takes[OF takes_read_dialogs]) (use assms split in auto)
  moreover have joined: "map (join_dialog (map snd chats) (map user_view us) \<circ> dialog_view) ds = joined_dialogs ds chats us"
    using assms(3) by (simp add: joined_dialogs_def list_all_iff join_dialog_shown)
  ultimately show ?thesis
    by (simp add: fetch_dialogs_def bind_def dialogs_query on_fst_def on_snd_def answer upd_def ret_def
        joined comp_def dialogs_ctor_def split: option.split)
qed

text \<open>
  C38. A list of dialogs that fits the array is returned complete and in order, each dialog
  with the kind and number of its peer, its unread count and last message, and, from the first
  user (for a user's dialog) or chat (for any other) in the answer that has the peer's number,
  the title and access hash and for a user the user name, all empty if there is none; the total is the number the server names, or the length of
  the complete list. For a minute the first 512 of these entries then answer every
  call for the same folder, whatever its limit, without asking the server.
\<close>

theorem dialogs_returned:
  assumes "0 < max_entries" "int (length ds) \<le> max_entries" "length ds < 2 ^ 31"
    and "list_all wire_dialog_ok ds" "join_wire_ok msgs chats us"
    and "length (enc_dialogs tot ds msgs chats us rest) < 2 ^ 62" "length caches = 2"
    and "slot = (if archived then 1 else 0)"
    and "\<not> (dc_valid (caches ! slot) \<and> clock 0 - dc_fetched_at (caches ! slot) < 60)"
    and "client_call E 0 (enc_dialogs_request max_entries archived) 262144 link =
      (Ok (enc_dialogs tot ds msgs chats us rest), link')"
  shows "\<exists>caches'. domain_get_dialogs E clock max_entries archived ((link, caches), (out, Some t)) =
      (Ok (), ((link', caches'), (joined_dialogs ds chats us, Some (dialogs_total tot ds)))) \<and>
    (\<forall>clock' limit out' t' link2. 0 < limit \<and> clock' 0 - clock 1 < 60 \<longrightarrow>
      domain_get_dialogs E clock' limit archived ((link2, caches'), (out', Some t')) =
        (Ok (), ((link2, caches'), (take (nat limit) (take 512 (joined_dialogs ds chats us)), Some (dialogs_total tot ds)))))"
proof -
  let ?out = "(joined_dialogs ds chats us, Some (dialogs_total tot ds))"
  let ?caches = "caches[slot := prime_cache (clock 1) archived ?out]"
  have "domain_get_dialogs E clock max_entries archived ((link, caches), (out, Some t)) = (Ok (), ((link', ?caches), ?out))"
    using fetch_encoded[OF assms(2-6,10), of "Some 0"] assms(1,8,9) by (auto simp: domain_get_dialogs_def Let_def)
  moreover have "?caches ! slot = prime_cache (clock 1) archived ?out" using assms(7,8) by simp
  then have "0 < limit \<and> clock' 0 - clock 1 < 60 \<longrightarrow>
      domain_get_dialogs E clock' limit archived ((link2, ?caches), (out', Some t')) =
        (Ok (), ((link2, ?caches), (take (nat limit) (take 512 (joined_dialogs ds chats us)), Some (dialogs_total tot ds))))"
    for clock' limit out' t' link2
    using assms(8) by (simp add: domain_get_dialogs_def Let_def prime_cache_def)
  ultimately show ?thesis by blast
qed

definition demo_dialog :: wire_dialog where
  "demo_dialog = \<lparr>wd_flags = 0, wd_peer = TL_peerUser, wd_peer_id = 42, wd_top_message = 8, wd_read_inbox = 0,
     wd_read_outbox = 0, wd_unread = 3, wd_mentions = 0, wd_reactions = 0,
     wd_notify = le_bytes 4 CRC_peerNotifySettings @ le_bytes 4 (0 :: u32), wd_pts = 0, wd_draft = [], wd_folder = 0,
     wd_ttl = 0\<rparr>"

lemma demo_dialog_ok: "wire_dialog_ok demo_dialog"
proof -
  have "takes (with_u32 (\<lambda>flags. f flags)) (le_bytes 4 (0 :: u32) @ []) ()" if "f 0 = skip" for f
    by (rule takes_with_u32) (simp add: that takes_ret)
  then have "takes tl_skip_peer_notify_settings (le_bytes 4 CRC_peerNotifySettings @ le_bytes 4 (0 :: u32)) ()"
    unfolding tl_skip_peer_notify_settings_def by (intro takes_ctor) (simp_all add: when_bit_def)
  then show ?thesis by (simp add: wire_dialog_ok_def demo_dialog_def)
qed

definition demo_dialogs :: "byte list" where
  "demo_dialogs = enc_dialogs None [demo_dialog] [] [] [sample_user] []"

lemma demo_dialogs_size: "length demo_dialogs = 124" "le_word (take 4 demo_dialogs) = TL_messages_dialogs"
  by (simp_all add: demo_dialogs_def enc_dialogs_def enc_dialog_def enc_join_def demo_dialog_def sample_user_ok opt_def)

theorem dialogs_returned_witness:
  "\<exists>link' caches'. domain_get_dialogs demo_client (\<lambda>_. 0) 10 False
      ((demo_link [demo_dialogs] 2000, dialogs_cache_flush), ([], Some 0)) =
     (Ok (), ((link', caches'), ([\<lparr>de_kind = DIALOG_PEER_USER, de_peer_id = 42, de_access_hash = 99,
        de_have_access_hash = 1, de_unread_count = 3, de_top_message_id = 8, de_title = [65, 100, 97, 32, 76],
        de_username = []\<rparr>], Some 1))) \<and>
     fst (domain_get_dialogs demo_client (\<lambda>_. 30) 100 False ((link', caches'), ([], Some 0))) = Ok ()"
proof -
  let ?q = "enc_dialogs_request 10 False"
  have fits: "length ?q + length demo_dialogs + 500 + 0 \<le> 2000" "length ?q \<le> 1000000"
    "length demo_dialogs \<le> 1000000" "length demo_dialogs \<le> 262144"
    "length demo_dialogs < 4 \<or> le_word (take 4 demo_dialogs) \<noteq> CRC_gzip_packed"
    by (simp_all add: demo_dialogs_size enc_dialogs_request_def)
  obtain link' where call: "client_call demo_client 0 ?q 262144 (demo_link [demo_dialogs] 2000) = (Ok demo_dialogs, link')"
    by (rule demo_call[OF demo_link_answering fits])
  have ok: "list_all wire_dialog_ok [demo_dialog]" "join_wire_ok [] [] [sample_user]"
    by (simp_all add: demo_dialog_ok join_wire_ok_def sample_user_ok)
  have view: "joined_dialogs [demo_dialog] [] [sample_user] = [\<lparr>de_kind = DIALOG_PEER_USER, de_peer_id = 42,
      de_access_hash = 99, de_have_access_hash = 1, de_unread_count = 3, de_top_message_id = 8,
      de_title = [65, 100, 97, 32, 76], de_username = []\<rparr>]"
    by (simp add: joined_dialogs_def shown_dialog_def users_by_id_def demo_dialog_def sample_user_view Let_def)
      (simp add: sample_user_def)
  have flush: "length dialogs_cache_flush = 2" "\<not> dc_valid (dialogs_cache_flush ! 0)"
    by (simp_all add: dialogs_cache_flush_def)
  have "\<exists>caches'. domain_get_dialogs demo_client (\<lambda>_. 0) 10 False
      ((demo_link [demo_dialogs] 2000, dialogs_cache_flush), ([], Some 0)) =
      (Ok (), ((link', caches'), (joined_dialogs [demo_dialog] [] [sample_user], Some (dialogs_total None [demo_dialog])))) \<and>
    (\<forall>clock' limit out' t' link2. 0 < limit \<and> clock' 0 - 0 < 60 \<longrightarrow>
      domain_get_dialogs demo_client clock' limit False ((link2, caches'), (out', Some t')) =
        (Ok (), ((link2, caches'), (take (nat limit) (take 512 (joined_dialogs [demo_dialog] [] [sample_user])),
          Some (dialogs_total None [demo_dialog])))))"
    by (rule dialogs_returned[OF _ _ _ ok _ flush(1)])
      (use call demo_dialogs_size flush in \<open>auto simp: demo_dialogs_def\<close>)
  then obtain caches' where c: "domain_get_dialogs demo_client (\<lambda>_. 0) 10 False
      ((demo_link [demo_dialogs] 2000, dialogs_cache_flush), ([], Some 0)) =
      (Ok (), ((link', caches'), (joined_dialogs [demo_dialog] [] [sample_user], Some (dialogs_total None [demo_dialog]))))"
    "\<forall>clock' limit out' t' link2. 0 < limit \<and> clock' 0 - 0 < 60 \<longrightarrow>
      domain_get_dialogs demo_client clock' limit False ((link2, caches'), (out', Some t')) =
        (Ok (), ((link2, caches'), (take (nat limit) (take 512 (joined_dialogs [demo_dialog] [] [sample_user])),
          Some (dialogs_total None [demo_dialog]))))"
    by blast
  from c(2)[rule_format, of 100 "\<lambda>_. 30" link' "[]" 0]
  have "fst (domain_get_dialogs demo_client (\<lambda>_. 30) 100 False ((link', caches'), ([], Some 0))) = Ok ()" by simp
  with c(1) show ?thesis unfolding view dialogs_total_def by auto
qed

end
