(* ===== verification/Client_Frames.thy ===== *)
theory Client_Frames
  imports Auth_Session MTProto_Auth_Safe
begin

text \<open>
  What a call leaves alone. A request, whatever the answer, keeps the key and the number of
  the session and opens or closes no descriptor; a key exchange does not touch the
  descriptors either.
\<close>

definition frames :: "('s \<Rightarrow> 'k) \<Rightarrow> ('s, 'a) cfun \<Rightarrow> bool" where
  "frames f m = (\<forall>s. f (snd (m s)) = f s)"

named_theorems frame_rules

lemma framesD: "frames f m \<Longrightarrow> m s = (res, s') \<Longrightarrow> f s' = f s"
  by (metis frames_def snd_conv)

lemma frames_app: "frames f m \<Longrightarrow> f (snd (m s)) = f s"
  by (simp add: frames_def)

lemma frames_simple [frame_rules]: "frames f (ret x)" "frames f fail" "frames f (lift res)"
  by (simp_all add: frames_def ret_def fail_def lift_def)

lemma frames_bind [frame_rules]: "frames f m \<Longrightarrow> (\<And>x. frames f (g x)) \<Longrightarrow> frames f (bind m g)"
  by (simp add: frames_def bind_def split: prod.splits outcome.splits) (metis snd_conv)

lemma frames_cases [frame_rules]:
  "(c \<Longrightarrow> frames f m) \<Longrightarrow> (\<not> c \<Longrightarrow> frames f m') \<Longrightarrow> frames f (if c then m else m')"
  "(\<And>a b. frames f (g a b)) \<Longrightarrow> frames f (case p of (a, b) \<Rightarrow> g a b)"
  "(\<And>x. frames f (h x)) \<Longrightarrow> frames f (let x = v in h x)"
  "frames f m \<Longrightarrow> (\<And>x. frames f (k x)) \<Longrightarrow> frames f (case v' of None \<Rightarrow> m | Some x \<Rightarrow> k x)"
  "(\<And>x. frames f (r x)) \<Longrightarrow> frames f m1 \<Longrightarrow> frames f m2 \<Longrightarrow> frames f m3 \<Longrightarrow>
    frames f (case res of Ok x \<Rightarrow> r x | Fail \<Rightarrow> m1 | Oob \<Rightarrow> m2 | Fuel \<Rightarrow> m3)"
  by (simp_all split: prod.splits option.splits outcome.splits)

lemma frames_fst [frame_rules]:
  "frames f m \<Longrightarrow> frames (f \<circ> fst) (on_fst m)"
  "frames (f \<circ> fst) (upd g)" "frames (f \<circ> fst) get" "frames (f \<circ> fst) (put_out h)"
  "frames (f \<circ> fst) (on_snd m')"
  by (simp_all add: frames_def on_fst_def upd_def get_def put_out_def on_snd_def split: prod.splits)
    (metis snd_conv)

lemma frames_snd:
  "frames f m \<Longrightarrow> frames (f \<circ> snd) (on_snd m)"
  "frames (f \<circ> snd) (on_fst m')"
  by (simp_all add: frames_def on_fst_def on_snd_def split: prod.splits) (metis snd_conv)

section \<open>The connection\<close>

lemma frames_retry: "frames open_fds (send_retry buf)" "frames open_fds (recv_retry n)"
  by (auto simp: frames_def send_retry_eq recv_retry_eq split: list.splits io_answer.splits)

lemma frames_send_all: "frames open_fds (send_all buf)"
proof -
  have "open_fds (snd (send_all buf w)) = open_fds w" for w
  proof (induction buf w rule: send_all.induct)
    case (1 buf w)
    obtain r w1 where s: "send_retry buf w = (r, w1)" by fastforce
    have "open_fds w1 = open_fds w" using framesD[OF frames_retry(1) s] .
    then show ?case using 1 s
      by (subst send_all.simps) (auto split: outcome.splits option.splits)
  qed
  then show ?thesis by (simp add: frames_def)
qed

lemma frames_recv_all: "frames open_fds (recv_all n got)"
proof -
  have "open_fds (snd (recv_all n got w)) = open_fds w" for w
  proof (induction n got w rule: recv_all.induct)
    case (1 n got w)
    obtain r w1 where s: "recv_retry (n - length got) w = (r, w1)" by fastforce
    have "open_fds w1 = open_fds w" using framesD[OF frames_retry(2) s] .
    then show ?case using 1 s
      by (subst recv_all.simps) (auto split: outcome.splits option.splits)
  qed
  then show ?thesis by (simp add: frames_def)
qed

lemma frames_transport: "frames open_fds (transport_send t data)" "frames open_fds (transport_recv t max_len)"
  unfolding transport_send_def send_exact_def transport_recv_def recv_exact_def
  by (intro frame_rules frames_retry frames_send_all frames_recv_all)+

section \<open>Requests\<close>

definition held :: "link \<Rightarrow> byte list \<times> bool \<times> u64 \<times> int set" where
  "held l = (auth_key (fst l), has_auth_key (fst l), session_id (fst l), open_fds (snd l))"

lemma frames_send_encrypted: "frames held (rpc_send_encrypted lib d t data c)"
  using frames_transport(1)[unfolded frames_def]
  by (auto simp: frames_def held_def rpc_send_encrypted_def mtproto_session_next_msg_id_def
      mtproto_session_next_seq_no_def Let_def split: prod.splits) (metis snd_conv)+

lemma frames_parse: "frames f (parse buf m)"
  by (simp add: frames_def parse_def)

lemma frames_recv_encrypted: "frames open_fds (rpc_recv_encrypted lib s t max_len)"
  unfolding rpc_recv_encrypted_def open_packet_def
  by (intro frame_rules frames_transport frames_parse)

lemma frames_drain: "frames held (drain lib t n)"
proof -
  have "held (snd (drain lib t n (s, w))) = held (s, w)" for s w
  proof (induction n arbitrary: s w)
    case (Suc n)
    obtain r w1 where recv: "rpc_recv_encrypted lib s t (1024 * 1024) w = (r, w1)" by fastforce
    have fds: "open_fds w1 = open_fds w" using framesD[OF frames_recv_encrypted recv] .
    show ?case
    proof (cases r)
      case (Ok raw)
      then have "length raw < 2 ^ 62" using rpc_recv_encrypted_no_oob[OF recv] by simp
      then obtain k x where c: "classify_service_frame raw s = (Ok k, s\<lparr>server_salt := x\<rparr>)"
        using classify_ok(1)[of raw s] by auto
      then show ?thesis
        using Suc[of "s\<lparr>server_salt := x\<rparr>" w1] recv Ok fds
        by (cases k) (simp_all add: drain.simps(2) held_def)
    qed (use recv fds in \<open>simp_all add: drain.simps(2) held_def\<close>)
  qed simp
  then show ?thesis by (simp add: frames_def split_paired_All)
qed

lemma frames_api_call: "frames held (api_call lib gunzip cfg d1 d2 t query max_len)"
proof -
  have done_with: "frames held (\<lambda>sw. case res of Ok resp \<Rightarrow> (Ok (Some resp), sw)
      | Fail \<Rightarrow> (Fail, sw) | Oob \<Rightarrow> (Oob, sw) | Fuel \<Rightarrow> (Fuel, sw))" for res :: "byte list outcome"
    by (simp add: frames_def split: outcome.splits)
  have "frames held (api_call_once lib gunzip cfg d t query max_len)" for d
  proof -
    let ?m = "\<lambda>wrapped. bind (rpc_send_encrypted lib d t wrapped True) (\<lambda>_. bind (drain lib t 64) (\<lambda>r.
      case r of None \<Rightarrow> ret None | Some raw \<Rightarrow> (\<lambda>sw. case unwrap_response gunzip raw max_len of
        Ok resp \<Rightarrow> (Ok (Some resp), sw) | Fail \<Rightarrow> (Fail, sw) | Oob \<Rightarrow> (Oob, sw) | Fuel \<Rightarrow> (Fuel, sw))))"
    have "frames held (?m q)" for q
      by (intro frame_rules frames_send_encrypted frames_drain done_with)
    then show ?thesis
      by (simp add: frames_def api_call_once_def split: outcome.splits)
  qed
  then show ?thesis unfolding api_call_def by (intro frame_rules)
qed

lemma frames_client_call [frame_rules]: "frames held (client_call E k query max_len)"
  unfolding client_call_def by (rule frames_api_call)

text \<open>Without a key there is no request.\<close>

lemma no_key_no_call:
  assumes "\<not> has_auth_key (fst l)"
  shows "client_call E k query max_len l = (Fail, l)"
proof -
  have "api_call_once lib gunzip cfg d t query max_len l = (Fail, l)" for lib gunzip cfg d t
    using assms by (simp add: api_call_once_def api_wrap_query_layout bind_def rpc_send_encrypted_def)
  then show ?thesis by (simp add: client_call_def api_call_def bind_def)
qed

lemma frames_rpc_answer [frame_rules]: "frames (held \<circ> fst) (rpc_answer E k query max_len)"
  unfolding rpc_answer_def report_err_def by (intro frame_rules)

lemma frames_query [frame_rules]: "frames f (query_of w cap)"
  unfolding query_of_def by (intro frame_rules)

lemma frames_clear [frame_rules]: "frames (held \<circ> fst) clear_err"
  unfolding clear_err_def by (intro frame_rules)

lemma frames_auth_requests:
  "frames ((held \<circ> fst) \<circ> fst) (auth_2fa_get_password E)"
  "frames ((held \<circ> fst) \<circ> fst) (auth_send_code E phone)"
  "frames ((held \<circ> fst) \<circ> fst) (auth_resend_code E phone)"
  "frames ((held \<circ> fst) \<circ> fst) (auth_sign_in E phone hash code)"
  "frames ((held \<circ> fst) \<circ> fst) (auth_sign_up E phone hash first_name last_name)"
  "frames ((held \<circ> fst) \<circ> fst) (auth_transfer_export E dc)"
  "frames ((held \<circ> fst) \<circ> fst) (auth_2fa_check_password E bn kdf rand params password)"
  "frames (held \<circ> fst) (auth_transfer_import E tok)"
  "frames held (auth_logout_rpc E)"
  unfolding auth_2fa_get_password_def auth_send_code_def auth_resend_code_def auth_sign_in_def
    auth_sign_up_def auth_transfer_export_def auth_transfer_import_def auth_logout_rpc_def
    auth_2fa_check_password_def build_send_code_def build_sign_in_def build_sign_up_def build_logout_request_def
  by (intro frame_rules)+

section \<open>The key exchange\<close>

lemma frames_send_plain [frame_rules]: "frames (open_fds \<circ> snd) (rpc_send_unencrypted d t data)"
  using frames_transport(1)[unfolded frames_def]
  by (auto simp: frames_def rpc_send_unencrypted_def Let_def split: prod.splits) (metis snd_conv)+

lemma frames_recv_plain [frame_rules]: "frames ((open_fds \<circ> snd) \<circ> snd) (recv_answer t)"
  unfolding recv_answer_def rpc_recv_unencrypted_def
  by (intro frame_rules frames_snd frames_transport frames_parse)

lemma frames_ctx:
  "(\<And>c. frames (f \<circ> snd) (m c)) \<Longrightarrow> frames (f \<circ> snd) (\<lambda>st. m (fst st) (g (fst st), snd st))"
  by (simp add: frames_def)

lemma frames_steps:
  "frames ((open_fds \<circ> snd) \<circ> snd) (auth_step_req_pq env t)"
  "frames ((open_fds \<circ> snd) \<circ> snd) (auth_step_req_dh env t)"
  "frames ((open_fds \<circ> snd) \<circ> snd) (auth_step_parse_dh env t)"
  "frames ((open_fds \<circ> snd) \<circ> snd) (auth_step_set_client_dh env t)"
proof -
  let ?f = "open_fds \<circ> snd :: mtproto_session \<times> net \<Rightarrow> int set"
  have "frames (?f \<circ> snd) (\<lambda>st. (\<lambda>c. bind (on_snd (rpc_send_unencrypted (ae_send env 1) t (req_pq_multi (ae_nonce env)))) (\<lambda>_.
      bind (recv_answer t) (\<lambda>buf. on_fst (run_reader buf (read_resPQ (ae_fingerprint env)))))) (fst st)
      ((fst st)\<lparr>ax_nonce := ae_nonce env\<rparr>, snd st))"
    by (rule frames_ctx) (intro frame_rules frames_snd)
  then show "frames (?f \<circ> snd) (auth_step_req_pq env t)"
    by (simp add: frames_def auth_step_req_pq_def Let_def)
  have dh: "frames (?f \<circ> snd) (bind (lift x) (\<lambda>encrypted. on_snd (rpc_send_unencrypted d t (g encrypted))) :: (auth_state, unit) cfun)" for x :: "byte list outcome" and d g
    by (intro frame_rules frames_snd)
  show "frames (?f \<circ> snd) (auth_step_req_dh env t)"
    using frames_app[OF dh]
    by (simp add: frames_def auth_step_req_dh_def Let_def  split: option.splits)
  show "frames (?f \<circ> snd) (auth_step_parse_dh env t)"
    unfolding auth_step_parse_dh_def by (intro frame_rules frames_snd)
  have key: "frames (?f \<circ> snd) (accept_key env h ak)" for h ak
    by (simp add: frames_def accept_key_def Let_def)
  have "frames (?f \<circ> snd) (bind (lift x) (\<lambda>g_b.
      bind (on_snd (rpc_send_unencrypted d t (q g_b))) (\<lambda>_. bind (recv_answer t) (\<lambda>buf.
      bind (on_fst (run_reader buf read_dh_gen)) (\<lambda>h. bind (lift y) (\<lambda>ak. accept_key env h ak))))))"
    for x y :: "byte list outcome" and d q
    by (intro frame_rules frames_snd key)
  then show "frames (?f \<circ> snd) (auth_step_set_client_dh env t)"
    by (simp add: frames_def auth_step_set_client_dh_def Let_def)
qed

lemma frames_key_gen: "frames (open_fds \<circ> snd) (mtproto_auth_key_gen env t)"
proof -
  have "frames ((open_fds \<circ> snd) \<circ> snd) (bind (auth_step_req_pq env t) (\<lambda>_. bind (auth_step_req_dh env t) (\<lambda>_.
      bind (auth_step_parse_dh env t) (\<lambda>_. auth_step_set_client_dh env t))))"
    by (intro frame_rules frames_steps)
  from frames_app[OF this]
  have "open_fds (snd (snd (snd (bind (auth_step_req_pq env t) (\<lambda>_. bind (auth_step_req_dh env t) (\<lambda>_.
      bind (auth_step_parse_dh env t) (\<lambda>_. auth_step_set_client_dh env t))) (ctx_init t, sw))))) = open_fds (snd sw)" for sw
    by (metis comp_apply snd_conv)
  then show ?thesis by (simp add: frames_def mtproto_auth_key_gen_def split_beta)
qed

lemma key_gen_keys:
  assumes "env_ok env" "mtproto_auth_key_gen env t (s, w) = (res, (s', w'))"
  shows "res \<noteq> Oob" "res = Ok u \<Longrightarrow> has_auth_key s' \<and> length (auth_key s') = 256"
    "res \<noteq> Ok () \<Longrightarrow> has_auth_key s' = has_auth_key s \<and> auth_key s' = auth_key s"
proof -
  let ?m = "bind (auth_step_req_pq env t) (\<lambda>_. bind (auth_step_req_dh env t) (\<lambda>_.
    bind (auth_step_parse_dh env t) (\<lambda>_. auth_step_set_client_dh env t)))"
  obtain r st where m: "?m (ctx_init t, (s, w)) = (r, st)" by (rule prod.exhaust)
  obtain c s1 w1 where st: "st = (c, s1, w1)" by (metis surj_pair)
  have eq: "r = res" "s1 = s'" using assms(2) m st by (simp_all add: mtproto_auth_key_gen_def)
  have "auth_inv s (ctx_init t, (s, w))" by (simp add: beside_def ctx_ok_def ctx_init_def same_keys_def)
  note run = runsD[OF runs_key_gen[OF assms(1)] this m]
  show "res \<noteq> Oob" using run eq by auto
  show "has_auth_key s' = has_auth_key s \<and> auth_key s' = auth_key s" if "res \<noteq> Ok ()"
    using run that by (cases res) (auto simp: eq st beside_def same_keys_def)
  assume "res = Ok u"
  then obtain g_a prime where key: "has_auth_key s'" "length prime \<le> 256" "0 < be_nat prime"
      "auth_key s' = be_pad 256 (be_nat g_a ^ be_nat (ae_b env) mod be_nat prime)"
    using run by (auto simp: eq st key_installed_def ctx_ok_def Let_def)
  have "be_nat prime < 256 ^ 256"
    using be_nat_bound[of prime] key(2) power_increasing[of "length prime" 256 "256 :: nat"] by linarith
  then have "be_nat g_a ^ be_nat (ae_b env) mod be_nat prime < 256 ^ 256"
    using mod_less_divisor[OF key(3)] less_trans by blast
  then show "has_auth_key s' \<and> length (auth_key s') = 256" using key by (simp add: length_be_pad)
qed

end
