(* ===== verification/Dc_Config.thy ===== *)
theory Dc_Config
  imports RPC
begin

text \<open>
  The table of data centres (\<open>src/src/app/dc_config.c\<close>). The two environment variables and
  the overrides of the configuration file are the fields of \<open>dc_tables\<close>.
\<close>

record dc_endpoint =
  ep_id :: int
  ep_host :: "byte list"
  ep_port :: int

abbreviation (input) DEFAULT_DC_ID :: int where "DEFAULT_DC_ID \<equiv> 2"
abbreviation (input) DC_ID_MAX :: int where "DC_ID_MAX \<equiv> 5"

definition ENDPOINTS :: "dc_endpoint list" where
  "ENDPOINTS =
     [\<lparr>ep_id = 1, ep_host = ascii ''149.154.175.50'', ep_port = 443\<rparr>,
      \<lparr>ep_id = 2, ep_host = ascii ''149.154.167.50'', ep_port = 443\<rparr>,
      \<lparr>ep_id = 3, ep_host = ascii ''149.154.175.100'', ep_port = 443\<rparr>,
      \<lparr>ep_id = 4, ep_host = ascii ''149.154.167.91'', ep_port = 443\<rparr>,
      \<lparr>ep_id = 5, ep_host = ascii ''91.108.56.130'', ep_port = 443\<rparr>]"

text \<open>
  \<open>atoi\<close>: white space, a sign, digits; the value saturates at the limits of \<open>long\<close> and is
  converted to \<open>int\<close>.
\<close>

definition is_space :: "byte \<Rightarrow> bool" where
  "is_space c = (c = 32 \<or> (9 \<le> c \<and> c \<le> 13))"

definition atoi :: "byte list \<Rightarrow> int" where
  "atoi str =
     (let s = dropWhile is_space str;
          neg = (s \<noteq> [] \<and> hd s = 45);
          s = (if s \<noteq> [] \<and> (hd s = 43 \<or> hd s = 45) then tl s else s);
          v = foldl (\<lambda>a c. a * 10 + (uint c - 48)) 0 (takeWhile is_digit s);
          v = (if neg then - v else v)
      in sint (word_of_int (max (- (2 ^ 63)) (min v (2 ^ 63 - 1))) :: u32))"

record dc_tables =
  dt_env_host :: "byte list option"
  dt_env_port :: "byte list option"
  dt_host_overrides :: "byte list option list"

definition dc_config_set_host_override :: "int \<Rightarrow> byte list option \<Rightarrow> dc_tables \<Rightarrow> dc_tables" where
  "dc_config_set_host_override dc_id host d =
     (if dc_id < 1 \<or> dc_id > DC_ID_MAX then d
      else d\<lparr>dt_host_overrides := (dt_host_overrides d)[nat (dc_id - 1) :=
        (case host of Some h \<Rightarrow> if h \<noteq> [] then Some h else None | None \<Rightarrow> None)]\<rparr>)"

text \<open>\<open>var && *var\<close>\<close>

definition nonempty :: "byte list option \<Rightarrow> bool" where
  "nonempty v = (v \<noteq> None \<and> v \<noteq> Some [])"

definition dc_lookup :: "dc_tables \<Rightarrow> int \<Rightarrow> dc_endpoint option" where
  "dc_lookup d dc_id =
     (let abs_id = (if dc_id = 0 then DEFAULT_DC_ID else if dc_id < 0 then - dc_id else dc_id);
          builtin = find (\<lambda>e. ep_id e = abs_id) ENDPOINTS
      in
      if nonempty (dt_env_host d) \<and> nonempty (dt_env_port d) then
        Some \<lparr>ep_id = dc_id, ep_host = the (dt_env_host d), ep_port = atoi (the (dt_env_port d))\<rparr>
      else
        case (if 1 \<le> abs_id \<and> abs_id \<le> DC_ID_MAX then dt_host_overrides d ! nat (abs_id - 1) else None, builtin) of
          (Some host, Some e) \<Rightarrow> Some \<lparr>ep_id = dc_id, ep_host = host, ep_port = ep_port e\<rparr>
        | (_, Some e) \<Rightarrow> Some \<lparr>ep_id = dc_id, ep_host = ep_host e, ep_port = ep_port e\<rparr>
        | (_, None) \<Rightarrow> None)"

section \<open>Lookup\<close>

definition abs_dc :: "int \<Rightarrow> int" where
  "abs_dc dc_id = (if dc_id = 0 then 2 else \<bar>dc_id\<bar>)"

definition redirected :: "dc_tables \<Rightarrow> bool" where
  "redirected d = (nonempty (dt_env_host d) \<and> nonempty (dt_env_port d))"

definition builtin_host :: "int \<Rightarrow> byte list option" where
  "builtin_host i = map_option ep_host (find (\<lambda>e. ep_id e = i) ENDPOINTS)"

text \<open>Without the environment variables: every number from -5 to 5 has an endpoint, no other has.\<close>

lemma builtin_iff: "find (\<lambda>e. ep_id e = i) ENDPOINTS = None \<longleftrightarrow> i \<notin> {1..5}"
proof -
  have "i \<in> {1..5} \<longleftrightarrow> i = 1 \<or> i = 2 \<or> i = 3 \<or> i = 4 \<or> i = 5" by auto
  then show ?thesis by (auto simp: ENDPOINTS_def)
qed

lemma builtin_port: "find (\<lambda>e. ep_id e = i) ENDPOINTS = Some e \<Longrightarrow> ep_port e = 443"
  by (auto simp: ENDPOINTS_def split: if_splits)

text \<open>
  The redirection of the environment has the first say, then the override of the
  configuration, then the table; a test data centre has the endpoint of its number without
  the sign.
\<close>

lemma dc_lookup_eq:
  assumes "\<not> redirected d"
  shows "dc_lookup d dc = (if abs_dc dc \<in> {1..5}
    then Some \<lparr>ep_id = dc, ep_host = (case dt_host_overrides d ! nat (abs_dc dc - 1) of
        Some h \<Rightarrow> h | None \<Rightarrow> the (builtin_host (abs_dc dc))), ep_port = 443\<rparr>
    else None)"
proof -
  have i: "(if dc = 0 then 2 else if dc < 0 then - dc else dc) = abs_dc dc" by (simp add: abs_dc_def)
  show ?thesis
    using assms builtin_iff[of "abs_dc dc"] builtin_port[of "abs_dc dc"]
    unfolding dc_lookup_def Let_def i redirected_def builtin_host_def
    by (cases "find (\<lambda>e. ep_id e = abs_dc dc) ENDPOINTS") (auto split: option.split)
qed

lemma dc_lookup_redirected:
  "redirected d \<Longrightarrow> dc_lookup d dc =
    Some \<lparr>ep_id = dc, ep_host = the (dt_env_host d), ep_port = atoi (the (dt_env_port d))\<rparr>"
  by (simp add: dc_lookup_def redirected_def Let_def)

lemma dc_lookup_override:
  assumes "length (dt_host_overrides d) = 5" "dc \<in> {1..5}" "h \<noteq> []" "\<not> redirected d"
  shows "dc_lookup (dc_config_set_host_override dc (Some h) d) i =
    (if abs_dc i = dc then Some \<lparr>ep_id = i, ep_host = h, ep_port = 443\<rparr> else dc_lookup d i)"
proof -
  have "nat (abs_dc i - 1) = nat (dc - 1) \<longleftrightarrow> abs_dc i = dc" "nat (dc - 1) < 5" if "abs_dc i \<in> {1..5}"
    using that assms(2) by auto
  then show ?thesis
    using assms by (auto simp: dc_lookup_eq dc_config_set_host_override_def redirected_def nth_list_update)
qed

end
