(* ===== verification/Session_Store.thy ===== *)
theory Session_Store
  imports Session
begin

text \<open>
  The session file (\<open>src/src/app/session_store.c\<close>): keys, salts and session numbers of up to five
  data centres. The file is read and rewritten as a whole; the outcomes of the system calls
  are the fields of \<open>store_io\<close>. Paths are named by their last component.
\<close>

abbreviation (input) STORE_VERSION :: u32 where "STORE_VERSION \<equiv> 2"
abbreviation (input) STORE_VERSION_V1 :: u32 where "STORE_VERSION_V1 \<equiv> 1"
abbreviation (input) STORE_V1_TOTAL_SIZE :: nat where "STORE_V1_TOTAL_SIZE \<equiv> 284"
abbreviation (input) STORE_HEADER :: nat where "STORE_HEADER \<equiv> 16"
abbreviation (input) STORE_ENTRY_SIZE :: nat where "STORE_ENTRY_SIZE \<equiv> 276"
abbreviation (input) SESSION_STORE_MAX_DCS :: nat where "SESSION_STORE_MAX_DCS \<equiv> 5"
abbreviation (input) STORE_MAX_SIZE :: nat where "STORE_MAX_SIZE \<equiv> 1396"

definition STORE_MAGIC :: "byte list" where
  "STORE_MAGIC = [84, 71, 67, 83]"

record store_entry =
  se_dc_id :: int
  se_server_salt :: u64
  se_session_id :: u64
  se_auth_key :: "byte list"

text \<open>The count of the structure is the length of the list.\<close>

record store_file =
  sf_home_dc_id :: int
  sf_entries :: "store_entry list"

definition empty_store :: store_file where
  "empty_store = \<lparr>sf_home_dc_id = 0, sf_entries = []\<rparr>"

definition store_path :: string where "store_path = ''session.bin''"
definition store_tmp_path :: string where "store_tmp_path = ''session.bin.tmp''"

section \<open>Reading\<close>

definition field32 :: "byte list \<Rightarrow> nat \<Rightarrow> u32" where
  "field32 buf off = le_word (take 4 (drop off buf))"

definition field64 :: "byte list \<Rightarrow> nat \<Rightarrow> u64" where
  "field64 buf off = le_word (take 8 (drop off buf))"

definition read_entry :: "byte list \<Rightarrow> nat \<Rightarrow> store_entry" where
  "read_entry buf off = \<lparr>se_dc_id = sint (field32 buf off), se_server_salt = field64 buf (off + 4),
     se_session_id = field64 buf (off + 12), se_auth_key = take 256 (drop (off + 20) buf)\<rparr>"

text \<open>The three results of \<open>read_file_locked\<close>: \<open>+1\<close>, \<open>-1\<close> and \<open>0\<close>.\<close>

datatype read_result = Absent | Corrupt | Loaded store_file

definition parse_store :: "byte list \<Rightarrow> read_result" where
  "parse_store content =
     (let buf = take STORE_MAX_SIZE content; n = length buf; version = field32 buf 4 in
      if n < STORE_HEADER then Corrupt
      else if take 4 buf \<noteq> STORE_MAGIC then Corrupt
      else if version = STORE_VERSION_V1 then
        (if n < STORE_V1_TOTAL_SIZE then Corrupt
         else Loaded \<lparr>sf_home_dc_id = sint (field32 buf 8), sf_entries = [read_entry buf 8]\<rparr>)
      else if version \<noteq> STORE_VERSION then Corrupt
      else let count = unat (field32 buf 12) in
        if count > SESSION_STORE_MAX_DCS then Corrupt
        else if n < STORE_HEADER + count * STORE_ENTRY_SIZE then Corrupt
        else Loaded \<lparr>sf_home_dc_id = sint (field32 buf 8),
          sf_entries = map (\<lambda>i. read_entry buf (STORE_HEADER + i * STORE_ENTRY_SIZE)) [0..<count]\<rparr>)"

definition read_file_locked :: "files \<Rightarrow> read_result" where
  "read_file_locked fs = (case fs store_path of None \<Rightarrow> Absent | Some content \<Rightarrow> parse_store content)"

section \<open>Writing\<close>

definition enc_entry :: "store_entry \<Rightarrow> byte list" where
  "enc_entry e = le_bytes 4 (word_of_int (se_dc_id e) :: u32) @ le_bytes 8 (se_server_salt e) @
     le_bytes 8 (se_session_id e) @ se_auth_key e"

definition enc_store :: "store_file \<Rightarrow> byte list" where
  "enc_store st = STORE_MAGIC @ le_bytes 4 STORE_VERSION @ le_bytes 4 (word_of_int (sf_home_dc_id st) :: u32) @
     le_bytes 4 (word_of_nat (length (sf_entries st)) :: u32) @ concat (map enc_entry (sf_entries st))"

record store_io =
  io_dir :: bool
  io_open :: bool
  io_flock :: bool
  io_tmp_opens :: bool
  io_written :: int
  io_rename :: bool

definition write_file_atomic :: "store_io \<Rightarrow> store_file \<Rightarrow> files \<Rightarrow> unit outcome \<times> files" where
  "write_file_atomic io st fs =
     (let buf = enc_store st in
      if \<not> io_tmp_opens io then (Fail, fs)
      else if io_written io \<noteq> int (length buf) then (Fail, fs(store_tmp_path := None))
      else if \<not> io_rename io then (Fail, fs(store_tmp_path := None))
      else (Ok (), fs(store_tmp_path := None, store_path \<mapsto> buf)))"

section \<open>Entries\<close>

definition find_entry :: "store_file \<Rightarrow> int \<Rightarrow> nat option" where
  "find_entry st dc_id = find (\<lambda>i. se_dc_id (sf_entries st ! i) = dc_id) [0..<length (sf_entries st)]"

definition populate_entry :: "int \<Rightarrow> mtproto_session \<Rightarrow> store_entry" where
  "populate_entry dc_id s = \<lparr>se_dc_id = dc_id, se_server_salt = server_salt s, se_session_id = session_id s,
     se_auth_key = auth_key s\<rparr>"

definition apply_entry :: "store_entry \<Rightarrow> mtproto_session \<Rightarrow> mtproto_session" where
  "apply_entry e s = s\<lparr>server_salt := se_server_salt e, session_id := se_session_id e,
     auth_key := se_auth_key e, has_auth_key := True, seq_no := 0, last_msg_id := 0\<rparr>"

text \<open>The change an upsert makes to the structure: \<open>None\<close> when all five slots are taken.\<close>

definition upsert_entry :: "int \<Rightarrow> mtproto_session \<Rightarrow> bool \<Rightarrow> store_file \<Rightarrow> store_file option" where
  "upsert_entry dc_id s set_home st =
     (let es = sf_entries st; e = populate_entry dc_id s;
          home = (if set_home \<or> sf_home_dc_id st = 0 then dc_id else sf_home_dc_id st)
      in case find_entry st dc_id of
        None \<Rightarrow> if length es \<ge> SESSION_STORE_MAX_DCS then None
                else Some \<lparr>sf_home_dc_id = home, sf_entries = es @ [e]\<rparr>
      | Some i \<Rightarrow> Some \<lparr>sf_home_dc_id = home, sf_entries = es[i := e]\<rparr>)"

text \<open>\<open>open(path, O_CREAT | O_RDWR)\<close> of \<open>lock_file\<close> leaves an empty file when there was none.\<close>

definition lock_file :: "store_io \<Rightarrow> files \<Rightarrow> unit outcome \<times> files" where
  "lock_file io fs =
     (if \<not> io_open io then (Fail, fs)
      else let fs' = (if fs store_path = None then fs(store_path \<mapsto> []) else fs) in
        if io_flock io then (Ok (), fs') else (Fail, fs'))"

definition upsert :: "store_io \<Rightarrow> int \<Rightarrow> mtproto_session \<Rightarrow> bool \<Rightarrow> files \<Rightarrow> unit outcome \<times> files" where
  "upsert io dc_id s set_home fs =
     (if \<not> has_auth_key s then (Fail, fs)
      else if \<not> io_dir io then (Fail, fs)
      else case lock_file io fs of
        (Ok _, fs) \<Rightarrow>
          (let st = (case read_file_locked fs of Loaded st \<Rightarrow> st | _ \<Rightarrow> empty_store) in
           case upsert_entry dc_id s set_home st of
             None \<Rightarrow> (Fail, fs)
           | Some st' \<Rightarrow> write_file_atomic io st' fs)
      | (_, fs) \<Rightarrow> (Fail, fs))"

definition session_store_save :: "store_io \<Rightarrow> mtproto_session \<Rightarrow> int \<Rightarrow> files \<Rightarrow> unit outcome \<times> files" where
  "session_store_save io s dc_id = upsert io dc_id s True"

definition session_store_save_dc :: "store_io \<Rightarrow> int \<Rightarrow> mtproto_session \<Rightarrow> files \<Rightarrow> unit outcome \<times> files" where
  "session_store_save_dc io dc_id s = upsert io dc_id s False"

definition session_store_load ::
  "store_io \<Rightarrow> files \<Rightarrow> mtproto_session \<Rightarrow> (int \<times> mtproto_session) outcome \<times> files" where
  "session_store_load io fs s =
     (case lock_file io fs of
        (Ok _, fs) \<Rightarrow>
          ((case read_file_locked fs of
              Loaded st \<Rightarrow>
                if sf_entries st = [] \<or> sf_home_dc_id st = 0 then Fail
                else (case find_entry st (sf_home_dc_id st) of
                  None \<Rightarrow> Fail
                | Some i \<Rightarrow> Ok (sf_home_dc_id st, apply_entry (sf_entries st ! i) s))
            | _ \<Rightarrow> Fail), fs)
      | (_, fs) \<Rightarrow> (Fail, fs))"

definition session_store_load_dc ::
  "store_io \<Rightarrow> int \<Rightarrow> files \<Rightarrow> mtproto_session \<Rightarrow> mtproto_session outcome \<times> files" where
  "session_store_load_dc io dc_id fs s =
     (case lock_file io fs of
        (Ok _, fs) \<Rightarrow>
          ((case read_file_locked fs of
              Loaded st \<Rightarrow>
                (case find_entry st dc_id of None \<Rightarrow> Fail | Some i \<Rightarrow> Ok (apply_entry (sf_entries st ! i) s))
            | _ \<Rightarrow> Fail), fs)
      | (_, fs) \<Rightarrow> (Fail, fs))"

text \<open>\<open>removed\<close>: whether \<open>remove\<close> succeeds.\<close>

definition session_store_clear :: "bool \<Rightarrow> files \<Rightarrow> files" where
  "session_store_clear removed fs = (if removed then fs(store_path := None) else fs)"

section \<open>Well-formed stores\<close>

definition int32_ok :: "int \<Rightarrow> bool" where
  "int32_ok i = (- (2 ^ 31) \<le> i \<and> i < 2 ^ 31)"

definition entry_wf :: "store_entry \<Rightarrow> bool" where
  "entry_wf e = (int32_ok (se_dc_id e) \<and> length (se_auth_key e) = 256)"

definition store_wf :: "store_file \<Rightarrow> bool" where
  "store_wf st = (length (sf_entries st) \<le> SESSION_STORE_MAX_DCS \<and> int32_ok (sf_home_dc_id st) \<and>
     list_all entry_wf (sf_entries st))"

lemma int32_ok_sint: "int32_ok (sint (w :: u32))"
  using sint_ge[of w] sint_lt[of w] by (simp add: int32_ok_def)

lemma sint_word_of_int32: "int32_ok i \<Longrightarrow> sint (word_of_int i :: u32) = i"
  by (simp add: int32_ok_def signed_of_int signed_take_bit_int_eq_self)

lemma empty_store_wf: "store_wf empty_store"
  by (simp add: store_wf_def empty_store_def int32_ok_def)

lemma read_entry_wf: "off + 276 \<le> length buf \<Longrightarrow> entry_wf (read_entry buf off)"
  by (simp add: entry_wf_def read_entry_def int32_ok_sint)

lemma parse_store_wf: "parse_store content = Loaded st \<Longrightarrow> store_wf st"
  unfolding parse_store_def Let_def
  by (auto simp: store_wf_def int32_ok_sint list_all_iff intro!: read_entry_wf split: if_splits)

lemma upsert_entry_wf:
  assumes "upsert_entry dc_id s set_home st = Some st'" "store_wf st" "int32_ok dc_id" "length (auth_key s) = 256"
  shows "store_wf st'"
proof -
  have "entry_wf (populate_entry dc_id s)" using assms(3,4) by (simp add: entry_wf_def populate_entry_def)
  then show ?thesis
    using assms set_update_subset_insert[of "sf_entries st"]
    by (fastforce simp: upsert_entry_def Let_def store_wf_def list_all_iff split: option.splits if_splits)
qed

section \<open>Round trip\<close>

lemma length_enc_entry: "entry_wf e \<Longrightarrow> length (enc_entry e) = 276"
  by (simp add: enc_entry_def entry_wf_def)

lemma read_enc_entry:
  assumes "entry_wf e"
  shows "read_entry (pre @ enc_entry e @ rest) (length pre) = e"
proof -
  have "length (se_auth_key e) = 256" "sint (word_of_int (se_dc_id e) :: u32) = se_dc_id e"
    using assms by (simp_all add: entry_wf_def sint_word_of_int32)
  then show ?thesis by (simp add: read_entry_def enc_entry_def field32_def field64_def)
qed

lemma read_enc_entries:
  assumes "list_all entry_wf es" "i < length es"
  shows "read_entry (pre @ concat (map enc_entry es)) (length pre + i * 276) = es ! i"
  using assms
proof (induction es arbitrary: pre i)
  case (Cons e es)
  show ?case
  proof (cases i)
    case 0
    then show ?thesis using read_enc_entry[of e pre "concat (map enc_entry es)"] Cons.prems by simp
  next
    case (Suc j)
    then show ?thesis
      using Cons.IH[of j "pre @ enc_entry e"] Cons.prems length_enc_entry[of e] by (simp add: add.assoc)
  qed
qed simp

lemma length_enc_entries: "list_all entry_wf es \<Longrightarrow> length (concat (map enc_entry es)) = length es * 276"
  by (induction es) (simp_all add: length_enc_entry)

lemma length_enc_store: "store_wf st \<Longrightarrow> length (enc_store st) = 16 + length (sf_entries st) * 276"
  using length_enc_entries[of "sf_entries st"] by (simp add: enc_store_def store_wf_def STORE_MAGIC_def)

lemma parse_enc_store:
  assumes "store_wf st"
  shows "parse_store (enc_store st) = Loaded st"
proof -
  let ?es = "sf_entries st"
  let ?hd = "STORE_MAGIC @ le_bytes 4 STORE_VERSION @ le_bytes 4 (word_of_int (sf_home_dc_id st) :: u32) @
     le_bytes 4 (word_of_nat (length ?es) :: u32)"
  have wf: "length ?es \<le> 5" "int32_ok (sf_home_dc_id st)" "list_all entry_wf ?es"
    using assms by (simp_all add: store_wf_def)
  have hd: "length ?hd = 16" by (simp add: STORE_MAGIC_def)
  have enc: "enc_store st = ?hd @ concat (map enc_entry ?es)" by (simp add: enc_store_def)
  have len: "length (enc_store st) = 16 + length ?es * 276"
    using hd length_enc_entries[OF wf(3)] unfolding enc by (simp only: length_append)
  then have buf: "take 1396 (enc_store st) = enc_store st" using wf(1) by simp
  have fields: "take 4 (enc_store st) = STORE_MAGIC" "field32 (enc_store st) 4 = 2"
    "sint (field32 (enc_store st) 8) = sf_home_dc_id st" "unat (field32 (enc_store st) 12) = length ?es"
    using wf by (simp_all add: enc_store_def STORE_MAGIC_def field32_def sint_word_of_int32 unat_of_nat)
  have "map (\<lambda>i. read_entry (enc_store st) (16 + i * 276)) [0..<length ?es] = ?es"
    by (rule nth_equalityI) (use read_enc_entries[OF wf(3), of _ ?hd, unfolded hd] in \<open>simp_all add: enc\<close>)
  then show ?thesis
    unfolding parse_store_def Let_def buf fields len using wf(1) by simp
qed

section \<open>The store as a map\<close>

text \<open>
  What the program relies on: a home data centre, 0 if there is none, and a map from data
  centres to salt, session number and key. A file that cannot be read is the empty store.
\<close>

type_synonym saved = "u64 \<times> u64 \<times> byte list"

definition saved_of :: "store_entry \<Rightarrow> saved" where
  "saved_of e = (se_server_salt e, se_session_id e, se_auth_key e)"

definition key_of :: "mtproto_session \<Rightarrow> saved" where
  "key_of s = (server_salt s, session_id s, auth_key s)"

definition restore :: "saved \<Rightarrow> mtproto_session \<Rightarrow> mtproto_session" where
  "restore v s = s\<lparr>server_salt := fst v, session_id := fst (snd v), auth_key := snd (snd v), has_auth_key := True,
     seq_no := 0, last_msg_id := 0\<rparr>"

definition entry_map :: "store_file \<Rightarrow> int \<rightharpoonup> saved" where
  "entry_map st = map_of (map (\<lambda>e. (se_dc_id e, saved_of e)) (sf_entries st))"

definition loaded :: "files \<Rightarrow> store_file" where
  "loaded fs = (case read_file_locked fs of Loaded st \<Rightarrow> st | _ \<Rightarrow> empty_store)"

definition store_abs :: "files \<Rightarrow> int \<times> (int \<rightharpoonup> saved)" where
  "store_abs fs = (sf_home_dc_id (loaded fs), entry_map (loaded fs))"

lemma find_entry_Some:
  "find_entry st dc = Some i \<longleftrightarrow> i < length (sf_entries st) \<and> se_dc_id (sf_entries st ! i) = dc \<and>
    (\<forall>j<i. se_dc_id (sf_entries st ! j) \<noteq> dc)"
  unfolding find_entry_def find_Some_iff by (auto simp: nth_append)

lemma find_entry_None: "find_entry st dc = None \<longleftrightarrow> dc \<notin> se_dc_id ` set (sf_entries st)"
proof -
  have "se_dc_id ` set (sf_entries st) = (\<lambda>i. se_dc_id (sf_entries st ! i)) ` {0..<length (sf_entries st)}"
    by (metis image_image set_map map_nth set_upt)
  then show ?thesis unfolding find_entry_def find_None_iff by auto
qed

lemma map_of_first:
  "i < length es \<Longrightarrow> k (es ! i) = x \<Longrightarrow> \<forall>j<i. k (es ! j) \<noteq> x \<Longrightarrow>
   map_of (map (\<lambda>e. (k e, v e)) es) x = Some (v (es ! i)) \<and>
   (k e = x \<longrightarrow> map_of (map (\<lambda>e. (k e, v e)) (es[i := e])) = (map_of (map (\<lambda>e. (k e, v e)) es))(x \<mapsto> v e))"
proof (induction es arbitrary: i)
  case (Cons a es)
  show ?case
  proof (cases i)
    case (Suc j)
    then have "k a \<noteq> x" using Cons.prems(3) by auto
    moreover have "\<forall>l<j. k (es ! l) \<noteq> x" using Cons.prems(3) Suc by auto
    ultimately show ?thesis using Cons.IH[of j] Cons.prems Suc by auto
  qed (use Cons.prems in auto)
qed simp

lemma entry_map_find:
  "entry_map st dc = map_option (\<lambda>i. saved_of (sf_entries st ! i)) (find_entry st dc)"
proof (cases "find_entry st dc")
  case None
  then have "entry_map st dc = None"
    unfolding find_entry_None by (auto simp: entry_map_def map_of_eq_None_iff image_image)
  with None show ?thesis by simp
next
  case (Some i)
  then have "i < length (sf_entries st)" "se_dc_id (sf_entries st ! i) = dc" "\<forall>j<i. se_dc_id (sf_entries st ! j) \<noteq> dc"
    by (simp_all add: find_entry_Some)
  from map_of_first[OF this, of saved_of] Some show ?thesis by (simp add: entry_map_def)
qed

lemma entry_map_upsert:
  assumes "upsert_entry dc s set_home st = Some st'"
  shows "entry_map st' = (entry_map st)(dc \<mapsto> key_of s)"
    and "sf_home_dc_id st' = (if set_home \<or> sf_home_dc_id st = 0 then dc else sf_home_dc_id st)"
proof -
  let ?e = "populate_entry dc s"
  have new: "se_dc_id ?e = dc" "saved_of ?e = key_of s"
    by (simp_all add: populate_entry_def saved_of_def key_of_def)
  show "sf_home_dc_id st' = (if set_home \<or> sf_home_dc_id st = 0 then dc else sf_home_dc_id st)"
    using assms by (auto simp: upsert_entry_def Let_def split: option.splits if_splits)
  show "entry_map st' = (entry_map st)(dc \<mapsto> key_of s)"
  proof (cases "find_entry st dc")
    case None
    then have es: "sf_entries st' = sf_entries st @ [?e]"
      using assms by (auto simp: upsert_entry_def Let_def split: if_splits)
    have "entry_map st dc = None" using None by (simp add: entry_map_find)
    then show ?thesis by (auto simp: entry_map_def es new map_add_def split: option.splits)
  next
    case (Some i)
    then have es: "sf_entries st' = (sf_entries st)[i := ?e]"
      using assms by (auto simp: upsert_entry_def Let_def)
    show ?thesis
      using map_of_first[of i "sf_entries st" se_dc_id dc saved_of ?e] Some new
      by (simp add: entry_map_def es find_entry_Some)
  qed
qed

lemma loaded_wf: "store_wf (loaded fs)"
  using parse_store_wf empty_store_wf
  by (auto simp: loaded_def read_file_locked_def split: option.splits read_result.splits)

definition io_locks :: "store_io \<Rightarrow> bool" where
  "io_locks io = (io_open io \<and> io_flock io)"

lemma parse_store_Nil: "parse_store [] = Corrupt"
  by (simp add: parse_store_def)

lemma lock_file_keeps:
  assumes "lock_file io fs = (res, fs')"
  shows "loaded fs' = loaded fs" "res = (if io_locks io then Ok () else Fail)"
    "fs' store_path = fs store_path \<or> fs store_path = None \<and> fs' store_path = Some []"
proof -
  show path: "fs' store_path = fs store_path \<or> fs store_path = None \<and> fs' store_path = Some []"
    and "res = (if io_locks io then Ok () else Fail)"
    using assms by (auto simp: lock_file_def io_locks_def Let_def split: if_splits)
  from path show "loaded fs' = loaded fs"
    by (auto simp: loaded_def read_file_locked_def parse_store_Nil)
qed

lemma write_file_atomic_keeps:
  assumes "write_file_atomic io st fs = (res, fs')"
  shows "res = Ok () \<Longrightarrow> fs' store_path = Some (enc_store st)"
    and "res \<noteq> Ok () \<Longrightarrow> res = Fail \<and> fs' store_path = fs store_path"
  using assms by (auto simp: write_file_atomic_def Let_def store_path_def store_tmp_path_def split: if_splits)

lemma load_dc_abs:
  "fst (session_store_load_dc io dc fs s) = (if \<not> io_locks io then Fail
     else case snd (store_abs fs) dc of None \<Rightarrow> Fail | Some v \<Rightarrow> Ok (restore v s))"
proof -
  obtain res fs' where l: "lock_file io fs = (res, fs')" by fastforce
  have keep: "loaded fs' = loaded fs" "res = (if io_locks io then Ok () else Fail)" using lock_file_keeps[OF l] by auto
  have "snd (store_abs fs) dc = map_option (\<lambda>i. saved_of (sf_entries (loaded fs') ! i)) (find_entry (loaded fs') dc)"
    by (simp add: store_abs_def keep entry_map_find)
  moreover have "apply_entry e s = restore (saved_of e) s" for e
    by (simp add: apply_entry_def restore_def saved_of_def)
  moreover have "find_entry empty_store dc = None" by (simp add: find_entry_def empty_store_def)
  ultimately show ?thesis
    by (auto simp: session_store_load_dc_def l keep(2) loaded_def split: read_result.splits option.splits)
qed

lemma upsert_abs:
  assumes "upsert io dc s set_home fs = (res, fs')" "length (auth_key s) = 256" "int32_ok dc"
  shows "res = Ok () \<Longrightarrow> store_abs fs' =
      (if set_home \<or> fst (store_abs fs) = 0 then dc else fst (store_abs fs), (snd (store_abs fs))(dc \<mapsto> key_of s))"
    and "res \<noteq> Ok () \<Longrightarrow> res = Fail \<and> store_abs fs' = store_abs fs \<and>
      (fs store_path = None \<or> fs' store_path = fs store_path)"
proof -
  obtain lr fs1 where l: "lock_file io fs = (lr, fs1)" by fastforce
  note lk = lock_file_keeps[OF l]
  have up: "upsert io dc s set_home fs = (if \<not> has_auth_key s \<or> \<not> io_dir io then (Fail, fs)
      else if \<not> io_locks io then (Fail, fs1)
      else case upsert_entry dc s set_home (loaded fs) of None \<Rightarrow> (Fail, fs1) | Some st' \<Rightarrow> write_file_atomic io st' fs1)"
    unfolding upsert_def l lk(1)[symmetric] by (auto simp: lk(2) loaded_def Let_def)
  have same: "store_abs f = store_abs fs" if "f store_path = fs1 store_path" for f
    using that lk(1) by (simp add: store_abs_def loaded_def read_file_locked_def)
  have kept: "fs store_path = None \<or> f store_path = fs store_path" if "f store_path = fs1 store_path" for f
    using that lk(3) by (auto split: option.splits)
  { assume ok: "res = Ok ()"
    then obtain st' where st': "upsert_entry dc s set_home (loaded fs) = Some st'" and
      w: "write_file_atomic io st' fs1 = (Ok (), fs')"
      using assms(1) unfolding up by (auto split: if_splits option.splits)
    have "loaded fs' = st'"
      using write_file_atomic_keeps(1)[OF w] parse_enc_store[OF upsert_entry_wf[OF st' loaded_wf assms(3,2)]]
      by (simp add: loaded_def read_file_locked_def)
    then show "store_abs fs' =
      (if set_home \<or> fst (store_abs fs) = 0 then dc else fst (store_abs fs), (snd (store_abs fs))(dc \<mapsto> key_of s))"
      using entry_map_upsert[OF st'] by (simp add: store_abs_def) }
  { assume bad: "res \<noteq> Ok ()"
    have "res = Fail \<and> (fs' = fs \<or> fs' store_path = fs1 store_path)"
      using assms(1) bad write_file_atomic_keeps(2)[of io _ fs1 res fs'] unfolding up
      by (auto split: if_splits option.splits)
    then show "res = Fail \<and> store_abs fs' = store_abs fs \<and>
      (fs store_path = None \<or> fs' store_path = fs store_path)"
      using same kept by blast }
qed

definition entry_count :: "files \<Rightarrow> nat" where
  "entry_count fs = length (sf_entries (loaded fs))"

text \<open>Every system call of a save of \<open>n\<close> entries succeeds.\<close>

definition io_works :: "store_io \<Rightarrow> nat \<Rightarrow> bool" where
  "io_works io n = (io_dir io \<and> io_locks io \<and> io_tmp_opens io \<and> io_rename io \<and> io_written io = 16 + 276 * int n)"

definition count_after :: "int \<Rightarrow> files \<Rightarrow> nat" where
  "count_after dc fs = (if dc \<in> dom (snd (store_abs fs)) then entry_count fs else entry_count fs + 1)"

lemma upsert_succeeds:
  assumes "has_auth_key s" "io_works io (count_after dc fs)" "count_after dc fs \<le> 5"
    and "length (auth_key s) = 256" "int32_ok dc"
  shows "fst (upsert io dc s set_home fs) = Ok ()"
proof -
  let ?n = "count_after dc fs"
  obtain lr fs1 where l: "lock_file io fs = (lr, fs1)" by fastforce
  note lk = lock_file_keeps[OF l]
  have "\<exists>st'. upsert_entry dc s set_home (loaded fs) = Some st' \<and> length (sf_entries st') = ?n"
    using assms(3)
    by (auto simp: count_after_def upsert_entry_def Let_def store_abs_def entry_map_find entry_count_def dom_def
        split: option.splits if_splits)
  then obtain st' where st': "upsert_entry dc s set_home (loaded fs) = Some st'" "length (sf_entries st') = ?n"
    by blast
  have "io_written io = int (length (enc_store st'))"
    using assms(2) st'(2) length_enc_store[OF upsert_entry_wf[OF st'(1) loaded_wf assms(5,4)]]
    by (simp add: io_works_def)
  then show ?thesis
    using assms(1,2) st'(1) unfolding upsert_def l lk(1)[symmetric] io_works_def
    by (simp add: lk(2) loaded_def Let_def write_file_atomic_def split: read_result.splits)
qed

lemma store_abs_key: "snd (store_abs fs) dc = Some (salt, sid, key) \<Longrightarrow> length key = 256"
proof -
  assume "snd (store_abs fs) dc = Some (salt, sid, key)"
  then obtain e where "e \<in> set (sf_entries (loaded fs))" "saved_of e = (salt, sid, key)"
    by (auto simp: store_abs_def entry_map_def dest!: map_of_SomeD)
  then show "length key = 256"
    using loaded_wf[of fs] by (auto simp: store_wf_def entry_wf_def list_all_iff saved_of_def)
qed

lemma load_abs:
  assumes "session_store_load io fs s = (res, fs')"
  shows "store_abs fs' = store_abs fs"
    and "res = (if io_locks io \<and> fst (store_abs fs) \<noteq> 0
      then case snd (store_abs fs) (fst (store_abs fs)) of
             None \<Rightarrow> Fail | Some v \<Rightarrow> Ok (fst (store_abs fs), restore v s)
      else Fail)"
proof -
  obtain lr fs1 where l: "lock_file io fs = (lr, fs1)" by fastforce
  note lk = lock_file_keeps[OF l]
  have fs': "fs' = fs1" using assms by (auto simp: session_store_load_def l split: outcome.splits)
  show abs: "store_abs fs' = store_abs fs" by (simp add: fs' store_abs_def lk(1))
  have entry: "snd (store_abs fs) dc = map_option (\<lambda>i. saved_of (sf_entries (loaded fs) ! i)) (find_entry (loaded fs) dc)" for dc
    by (simp add: store_abs_def entry_map_find)
  have restores: "apply_entry e s = restore (saved_of e) s" for e
    by (simp add: apply_entry_def restore_def saved_of_def)
  have empty: "find_entry st dc = None" if "sf_entries st = []" for st dc
    using that by (simp add: find_entry_def)
  have res: "res = (if \<not> io_locks io then Fail else case read_file_locked fs1 of
      Loaded st \<Rightarrow> (if sf_entries st = [] \<or> sf_home_dc_id st = 0 then Fail
        else case find_entry st (sf_home_dc_id st) of None \<Rightarrow> Fail
          | Some i \<Rightarrow> Ok (sf_home_dc_id st, apply_entry (sf_entries st ! i) s)) | _ \<Rightarrow> Fail)"
    by (subst arg_cong[OF assms, of fst, simplified, symmetric]) (simp add: session_store_load_def l lk(2))
  have none: "res = Fail \<and> fst (store_abs fs) = 0" if "\<And>st. read_file_locked fs1 \<noteq> Loaded st"
  proof -
    have "loaded fs1 = empty_store" using that by (cases "read_file_locked fs1") (auto simp: loaded_def)
    then have "fst (store_abs fs) = 0" using lk(1) by (simp add: store_abs_def empty_store_def)
    then show ?thesis using that by (cases "read_file_locked fs1") (auto simp: res)
  qed
  show "res = (if io_locks io \<and> fst (store_abs fs) \<noteq> 0
      then case snd (store_abs fs) (fst (store_abs fs)) of
             None \<Rightarrow> Fail | Some v \<Rightarrow> Ok (fst (store_abs fs), restore v s)
      else Fail)"
  proof (cases "read_file_locked fs1")
    case (Loaded st)
    then have ld: "loaded fs = st" using lk(1) by (simp add: loaded_def)
    then have home: "fst (store_abs fs) = sf_home_dc_id st" by (simp add: store_abs_def)
    show ?thesis
      unfolding home entry ld
      using empty[of st "sf_home_dc_id st"] by (simp add: res Loaded restores split: option.split)
  qed (use none in simp_all)
qed

section \<open>The interface\<close>

text \<open>
  What the users of a store of keys rely on: a save that succeeds is an update, one that
  fails is not seen. After any sequence of saves the content is that of the saves that
  succeeded, the last one for a name wins.
\<close>

locale key_store =
  fixes contents :: "'f \<Rightarrow> 'k \<Rightarrow> 'v option"
    and save :: "'i \<Rightarrow> 'k \<Rightarrow> 'x \<Rightarrow> 'f \<Rightarrow> unit outcome \<times> 'f"
    and val :: "'x \<Rightarrow> 'v"
    and good :: "'k \<Rightarrow> 'x \<Rightarrow> bool"
  assumes saved: "good k x \<Longrightarrow> save i k x f = (Ok (), f') \<Longrightarrow> contents f' = (contents f)(k \<mapsto> val x)"
    and not_saved: "good k x \<Longrightarrow> save i k x f = (res, f') \<Longrightarrow> res \<noteq> Ok () \<Longrightarrow> contents f' = contents f"
begin

fun run_saves :: "('i \<times> 'k \<times> 'x) list \<Rightarrow> 'f \<Rightarrow> ('k \<times> 'v) list \<times> 'f" where
  "run_saves [] f = ([], f)"
| "run_saves ((i, k, x) # ops) f = (case save i k x f of (res, f') \<Rightarrow>
     (case run_saves ops f' of (done, f'') \<Rightarrow> ((if res = Ok () then [(k, val x)] else []) @ done, f'')))"

lemma saves_are_updates:
  assumes "run_saves ops f = (done, f')" "\<forall>(i, k, x) \<in> set ops. good k x"
  shows "contents f' k = (case map_of (rev done) k of None \<Rightarrow> contents f k | Some v \<Rightarrow> Some v)"
  using assms
proof (induction ops arbitrary: f "done")
  case (Cons op ops)
  obtain i n x where op: "op = (i, n, x)" by (rule prod_cases3)
  obtain res f1 done1 where steps: "save i n x f = (res, f1)" "run_saves ops f1 = (done1, f')"
      "done = (if res = Ok () then [(n, val x)] else []) @ done1"
    using Cons.prems(1) op by (auto split: prod.splits)
  have "contents f' k = (case map_of (rev done1) k of None \<Rightarrow> contents f1 k | Some v \<Rightarrow> Some v)"
    using Cons.IH[OF steps(2)] Cons.prems(2) by simp
  moreover have "contents f1 = (if res = Ok () then (contents f)(n \<mapsto> val x) else contents f)"
    using saved[of n x i f f1] not_saved[of n x i f res f1] steps(1) Cons.prems(2) op by auto
  ultimately show ?case using steps(3) by (auto simp: map_add_def split: option.splits)
qed simp

lemma other_untouched:
  assumes "save i k x f = (res, f')" "good k x" "k' \<noteq> k"
  shows "contents f' k' = contents f k'"
  using assms saved[of k x i f f'] not_saved[of k x i f res f'] by (cases "res = Ok ()") auto

end

definition storable :: "int \<Rightarrow> mtproto_session \<Rightarrow> bool" where
  "storable dc s = (length (auth_key s) = 256 \<and> int32_ok dc)"

interpretation store: key_store "\<lambda>fs. snd (store_abs fs)" "\<lambda>(io, set_home) dc s. upsert io dc s set_home" key_of storable
  by unfold_locales (auto simp: storable_def upsert_abs)

text \<open>
  A file that a later version of the program has written is corrupt to this one: the next
  save starts from the empty store and replaces it.
\<close>

lemma newer_version_replaced:
  assumes "fs store_path = Some content" "16 \<le> length content" "take 4 content = STORE_MAGIC"
    and newer: "2 < field32 content 4"
    and "upsert io dc s set_home fs = (Ok (), fs')"
  shows "fs' store_path = Some (enc_store \<lparr>sf_home_dc_id = dc, sf_entries = [populate_entry dc s]\<rparr>)"
proof -
  have "field32 (take 1396 content) 4 = field32 content 4"
    using assms(2) by (simp add: field32_def drop_take min_def)
  then have corrupt: "parse_store content = Corrupt"
    using assms(2,3) newer by (auto simp: parse_store_def Let_def min_def)
  have lock: "lock_file io fs = (if io_locks io then Ok () else Fail, fs)"
    using assms(1) by (simp add: lock_file_def io_locks_def Let_def)
  have "upsert_entry dc s set_home empty_store = Some \<lparr>sf_home_dc_id = dc, sf_entries = [populate_entry dc s]\<rparr>"
    by (simp add: upsert_entry_def empty_store_def find_entry_def Let_def)
  then show ?thesis
    using assms(5) write_file_atomic_keeps(1)[of io _ fs "Ok ()" fs'] unfolding upsert_def lock
    by (auto simp: read_file_locked_def assms(1) corrupt Let_def split: if_splits)
qed


definition demo_io :: store_io where
  "demo_io = \<lparr>io_dir = True, io_open = True, io_flock = True, io_tmp_opens = True, io_written = 292, io_rename = True\<rparr>"

definition demo_keyed :: mtproto_session where
  "demo_keyed = (mtproto_session_init 7)\<lparr>auth_key := replicate 256 9, has_auth_key := True, server_salt := 5\<rparr>"

lemma store_abs_empty: "store_abs Map.empty = (0, Map.empty)" "entry_count Map.empty = 0"
  by (simp_all add: store_abs_def entry_count_def loaded_def read_file_locked_def empty_store_def entry_map_def)


end
