(* ===== verification/Auth_Flow.thy ===== *)
theory Auth_Flow
  imports Client_Frames Dc_Config Session_Store MTProto_Auth_Agree
begin

text \<open>
  Logging in (\<open>src/src/app/auth_flow.c\<close>): the persisted session, the connection and the key
  exchange, the code, the redirection to another data centre, the password and the store.
  A run numbers what it does; connection number \<open>k\<close> has its own socket results and bytes
  of the peer, request number \<open>k\<close> its own draws.
\<close>

section \<open>The environment and the state\<close>

record connection =
  cn_created :: int
  cn_rc :: int
  cn_script :: "io_answer list"
  cn_incoming :: "byte list"

record flow_env =
  fe_dcs :: dc_tables
  fe_cfg :: api_config
  fe_client :: "nat \<Rightarrow> client_env"
  fe_keygen :: "nat \<Rightarrow> auth_env"
  fe_rand :: "nat \<Rightarrow> u64"
  fe_connect :: "nat \<Rightarrow> connection"
  fe_io :: "nat \<Rightarrow> store_io"
  fe_bn :: bn_lib
  fe_kdf :: kdf
  fe_srp_rand :: "nat \<Rightarrow> byte list option"

record flow =
  fw_t :: transport
  fw_s :: mtproto_session
  fw_w :: net
  fw_files :: files
  fw_step :: nat
  fw_dialed :: "dc_endpoint list"

definition modify :: "('s \<Rightarrow> 's) \<Rightarrow> ('s, unit) cfun" where
  "modify f s = (Ok (), f s)"

definition next_step :: "(flow, nat) cfun" where
  "next_step st = (Ok (fw_step st), st\<lparr>fw_step := fw_step st + 1\<rparr>)"

text \<open>\<open>transport_connect(t, ep->host, ep->port)\<close>, on a new connection.\<close>

definition dial :: "flow_env \<Rightarrow> dc_endpoint \<Rightarrow> (flow, unit) cfun" where
  "dial E ep = bind next_step (\<lambda>k. (\<lambda>st.
     let c = fe_connect E k;
         (res, (t, w)) = transport_connect (cn_created c) (cn_rc c)
           (fw_t st, (fw_w st)\<lparr>script := cn_script c, incoming := cn_incoming c\<rparr>)
     in (res, st\<lparr>fw_t := t, fw_w := w, fw_dialed := fw_dialed st @ [ep]\<rparr>)))"

definition hang_up :: "(flow, unit) cfun" where
  "hang_up = modify (\<lambda>st. let (t, w) = transport_close (fw_t st, fw_w st) in st\<lparr>fw_t := t, fw_w := w\<rparr>)"

definition set_dc :: "int \<Rightarrow> (flow, unit) cfun" where
  "set_dc dc = modify (\<lambda>st. st\<lparr>fw_t := (fw_t st)\<lparr>transport_dc_id := dc\<rparr>\<rparr>)"

definition init_session :: "flow_env \<Rightarrow> (flow, unit) cfun" where
  "init_session E = bind next_step (\<lambda>k. modify (\<lambda>st. st\<lparr>fw_s := mtproto_session_init (fe_rand E k)\<rparr>))"

definition renew_session :: "flow_env \<Rightarrow> (flow, unit) cfun" where
  "renew_session E = bind next_step (\<lambda>k. modify (\<lambda>st. st\<lparr>fw_s := mtproto_session_renew_id (fe_rand E k) (fw_s st)\<rparr>))"

definition key_gen :: "flow_env \<Rightarrow> (flow, unit) cfun" where
  "key_gen E = bind next_step (\<lambda>k. (\<lambda>st.
     let (res, (s, w)) = mtproto_auth_key_gen (fe_keygen E k) (fw_t st) (fw_s st, fw_w st)
     in (res, st\<lparr>fw_s := s, fw_w := w\<rparr>)))"

text \<open>
  A request with an error structure of its own (\<open>migrate_dc\<close> starts as given) and an output
  \<open>o\<close>: whether it returned 0, the error and the output.
\<close>

definition send_request ::
  "flow_env \<Rightarrow> int \<Rightarrow> 'o \<Rightarrow> (nat \<Rightarrow> client_env \<Rightarrow> ('o, unit) client) \<Rightarrow> (flow, bool \<times> rpc_error \<times> 'o) cfun" where
  "send_request E migrate0 x m = bind next_step (\<lambda>k. (\<lambda>st.
     let e = \<lparr>error_code = 0, error_msg = [], migrate_dc = migrate0, flood_wait_secs = 0\<rparr>;
         (res, (((s, w), err), y)) = m k ((fe_client E k)\<lparr>cl_cfg := fe_cfg E, cl_transport := fw_t st\<rparr>) (((fw_s st, fw_w st), Some e), x);
         st = st\<lparr>fw_s := s, fw_w := w\<rparr>; e' = (case err of None \<Rightarrow> e | Some e' \<Rightarrow> e')
     in case res of
          Ok _ \<Rightarrow> (Ok (True, e', y), st) | Fail \<Rightarrow> (Ok (False, e', y), st)
        | Oob \<Rightarrow> (Oob, st) | Fuel \<Rightarrow> (Fuel, st)))"

section \<open>Connecting\<close>

definition connect_dc_ex :: "flow_env \<Rightarrow> int \<Rightarrow> int \<Rightarrow> (flow, unit) cfun" where
  "connect_dc_ex E phys_dc dh_dc =
     (case dc_lookup (fe_dcs E) phys_dc of
        None \<Rightarrow> fail
      | Some ep \<Rightarrow>
          bind (dial E ep) (\<lambda>_.
          bind (set_dc dh_dc) (\<lambda>_.
          bind (attempt (key_gen E)) (\<lambda>rc.
            case rc of
              None \<Rightarrow> bind hang_up (\<lambda>_. fail)
            | Some _ \<Rightarrow> set_dc phys_dc))))"

definition auth_flow_connect_dc :: "flow_env \<Rightarrow> int \<Rightarrow> (flow, unit) cfun" where
  "auth_flow_connect_dc E dc = connect_dc_ex E dc dc"

definition migrate :: "flow_env \<Rightarrow> int \<Rightarrow> int \<Rightarrow> (flow, unit) cfun" where
  "migrate E new_dc dh_dc = bind hang_up (\<lambda>_. bind (init_session E) (\<lambda>_. connect_dc_ex E new_dc dh_dc))"

definition migrate_soft :: "flow_env \<Rightarrow> int \<Rightarrow> (flow, unit) cfun" where
  "migrate_soft E new_dc = bind hang_up (\<lambda>_.
     case dc_lookup (fe_dcs E) new_dc of
       None \<Rightarrow> fail
     | Some ep \<Rightarrow> bind (dial E ep) (\<lambda>_. set_dc new_dc))"

section \<open>Login\<close>

text \<open>A callback that is \<open>NULL\<close> is \<open>None\<close>, one that fails \<open>Some None\<close>.\<close>

record auth_flow_callbacks =
  cb_get_phone :: "byte list option option"
  cb_get_code :: "byte list option option"
  cb_get_password :: "byte list option option"

record auth_flow_result =
  fr_dc_id :: int
  fr_user_id :: int
  fr_needs_password :: bool

abbreviation (input) CRC_codeTypeSms :: u32 where "CRC_codeTypeSms \<equiv> 0x72a3158c"
abbreviation (input) AUTH_MAX_MIGRATIONS :: nat where "AUTH_MAX_MIGRATIONS \<equiv> 3"

definition load_session :: "flow_env \<Rightarrow> (flow, int) cfun" where
  "load_session E = bind next_step (\<lambda>k. (\<lambda>st.
     case session_store_load (fe_io E k) (fw_files st) (fw_s st) of (res, fs) \<Rightarrow>
       let st = st\<lparr>fw_files := fs\<rparr> in
       case res of
         Ok (dc, s) \<Rightarrow> (Ok dc, st\<lparr>fw_s := s\<rparr>) | Fail \<Rightarrow> (Fail, st) | Oob \<Rightarrow> (Oob, st) | Fuel \<Rightarrow> (Fuel, st)))"

definition save_session :: "flow_env \<Rightarrow> int \<Rightarrow> (flow, unit) cfun" where
  "save_session E dc = bind next_step (\<lambda>k. (\<lambda>st.
     case session_store_save (fe_io E k) (fw_s st) dc (fw_files st) of (res, fs) \<Rightarrow> (res, st\<lparr>fw_files := fs\<rparr>)))"

text \<open>The fast path: whether the persisted session is in use.\<close>

definition reuse_session :: "flow_env \<Rightarrow> int \<Rightarrow> (flow, bool) cfun" where
  "reuse_session E saved_dc =
     bind (renew_session E) (\<lambda>_.
       let ep = dc_lookup (fe_dcs E) saved_dc in
       bind (case ep of None \<Rightarrow> ret None | Some e \<Rightarrow> attempt (dial E e)) (\<lambda>rc.
         case rc of
           Some _ \<Rightarrow> bind (set_dc saved_dc) (\<lambda>_. ret True)
         | None \<Rightarrow>
             bind (if ep \<noteq> None then hang_up else skip) (\<lambda>_.
             bind (init_session E) (\<lambda>_. ret False))))"

definition restore_session :: "flow_env \<Rightarrow> (flow, int option) cfun" where
  "restore_session E =
     bind (init_session E) (\<lambda>_.
     bind (attempt (load_session E)) (\<lambda>rc.
     bind (\<lambda>st. (Ok (has_auth_key (fw_s st)), st)) (\<lambda>keyed.
       case rc of
         None \<Rightarrow> ret None
       | Some saved_dc \<Rightarrow>
           if \<not> keyed then ret None
           else bind (reuse_session E saved_dc) (\<lambda>used. ret (if used then Some saved_dc else None)))))"

text \<open>The result: the data centre, the migrations so far and the code.\<close>

function send_code_loop ::
  "flow_env \<Rightarrow> byte list \<Rightarrow> nat \<Rightarrow> int \<Rightarrow> auth_sent_code \<Rightarrow> (flow, int \<times> nat \<times> auth_sent_code) cfun" where
  "send_code_loop E phone migrations current_dc sc =
     bind (send_request E (-1) sc (\<lambda>_ C. auth_send_code C phone)) (\<lambda>(ok, err, sc).
       if ok then ret (current_dc, migrations, sc)
       else if migrate_dc err > 0 \<and> migrations < AUTH_MAX_MIGRATIONS then
         let target = (if current_dc < 0 then - migrate_dc err else migrate_dc err) in
         bind (attempt (migrate E target target)) (\<lambda>rc.
           case rc of
             Some _ \<Rightarrow> send_code_loop E phone (migrations + 1) target sc
           | None \<Rightarrow> bind (migrate_soft E target) (\<lambda>_. send_code_loop E phone (migrations + 1) target sc))
       else fail)"
  by pat_completeness auto
termination
  by (relation "measure (\<lambda>(_, _, migrations, _, _). AUTH_MAX_MIGRATIONS - migrations)") auto

declare send_code_loop.simps [simp del]

definition sent_code_zero :: auth_sent_code where
  "sent_code_zero = \<lparr>phone_code_hash = [], sc_timeout = 0, sc_code_type = 0, sc_next_type = 0\<rparr>"

definition resend_via_sms :: "flow_env \<Rightarrow> byte list \<Rightarrow> auth_sent_code \<Rightarrow> (flow, auth_sent_code) cfun" where
  "resend_via_sms E phone sc =
     (if sc_code_type sc = CRC_auth_sentCodeTypeApp \<and> sc_next_type sc = CRC_codeTypeSms
      then bind (send_request E (-1) sc (\<lambda>_ C. auth_resend_code C phone)) (\<lambda>(_, _, sc). ret sc)
      else ret sc)"

text \<open>The password: the parameters, the input and the proof.\<close>

definition check_2fa :: "flow_env \<Rightarrow> auth_flow_callbacks \<Rightarrow> (flow, int) cfun" where
  "check_2fa E cb =
     (case cb_get_password cb of
        None \<Rightarrow> fail
      | Some input \<Rightarrow>
          bind (send_request E 0 password_zero (\<lambda>_ C. auth_2fa_get_password C)) (\<lambda>(ok, _, params).
            if \<not> ok then fail
            else if \<not> pw_has params then fail
            else case input of
                None \<Rightarrow> fail
              | Some pwd \<Rightarrow>
                  bind (send_request E 0 (Some 0) (\<lambda>k C.
                      auth_2fa_check_password C (fe_bn E) (fe_kdf E) (fe_srp_rand E k) params pwd)) (\<lambda>(ok, _, cp_uid).
                    if \<not> ok then fail else ret (case cp_uid of None \<Rightarrow> 0 | Some u \<Rightarrow> u))))"

definition sign_in_flow ::
  "flow_env \<Rightarrow> auth_flow_callbacks \<Rightarrow> byte list \<Rightarrow> byte list \<Rightarrow> nat \<Rightarrow> int \<Rightarrow> auth_sent_code \<Rightarrow>
   (flow \<times> auth_flow_result option, int) cfun" where
  "sign_in_flow E cb phone code migrations current_dc sc =
     bind (on_fst (send_request E (-1) (Some 0, Some 0)
         (\<lambda>_ C. auth_sign_in C phone (phone_code_hash sc) code))) (\<lambda>(ok, err, (uid, signup_required)).
       if ok then ret (case uid of None \<Rightarrow> 0 | Some u \<Rightarrow> u)
       else if signup_required \<noteq> Some 0 then
         bind (on_fst (send_request E 0 uid (\<lambda>_ C. auth_sign_up C phone (phone_code_hash sc)
             (ascii ''Test'') (Some (ascii ''Account''))))) (\<lambda>(ok, _, uid).
           if \<not> ok then fail else ret (case uid of None \<Rightarrow> 0 | Some u \<Rightarrow> u))
       else if migrate_dc err > 0 \<and> migrations < AUTH_MAX_MIGRATIONS then
         let target = (if current_dc < 0 then - migrate_dc err else migrate_dc err) in
         bind (on_fst (migrate E target target)) (\<lambda>_. fail)
       else if error_msg err = ascii ''SESSION_PASSWORD_NEEDED'' then
         bind (put_out (\<lambda>out. out\<lparr>fr_needs_password := True\<rparr>)) (\<lambda>_. on_fst (check_2fa E cb))
       else fail)"

definition fresh_login ::
  "flow_env \<Rightarrow> auth_flow_callbacks \<Rightarrow> (flow \<times> auth_flow_result option, unit) cfun" where
  "fresh_login E cb =
     (let current_dc = (if start_dc_set (fe_cfg E) \<noteq> 0 then start_dc (fe_cfg E) else DEFAULT_DC_ID) in
      bind (on_fst (connect_dc_ex E current_dc current_dc)) (\<lambda>_.
      bind (lift (case cb_get_phone cb of Some (Some phone) \<Rightarrow> Ok phone | _ \<Rightarrow> Fail)) (\<lambda>phone.
      bind (on_fst (send_code_loop E phone 0 current_dc sent_code_zero)) (\<lambda>(current_dc, migrations, sc).
      bind (on_fst (resend_via_sms E phone sc)) (\<lambda>sc.
      bind (lift (case cb_get_code cb of Some (Some code) \<Rightarrow> Ok code | _ \<Rightarrow> Fail)) (\<lambda>code.
      bind (sign_in_flow E cb phone code migrations current_dc sc) (\<lambda>uid.
      bind (put_out (\<lambda>out. out\<lparr>fr_dc_id := current_dc, fr_user_id := uid\<rparr>)) (\<lambda>_.
      bind (on_fst (attempt (save_session E current_dc))) (\<lambda>_. skip)))))))))"

definition auth_flow_login ::
  "flow_env \<Rightarrow> auth_flow_callbacks \<Rightarrow> (flow \<times> auth_flow_result option, unit) cfun" where
  "auth_flow_login E cb =
     (if cb_get_phone cb = None \<or> cb_get_code cb = None then fail
      else
        bind (put_out (\<lambda>_. \<lparr>fr_dc_id = 0, fr_user_id = 0, fr_needs_password = False\<rparr>)) (\<lambda>_.
        bind (on_fst (restore_session E)) (\<lambda>saved.
          case saved of
            Some saved_dc \<Rightarrow> put_out (\<lambda>out. out\<lparr>fr_dc_id := saved_dc, fr_user_id := 0\<rparr>)
          | None \<Rightarrow> fresh_login E cb)))"

section \<open>Runs of the flow\<close>

text \<open>
  From a state with \<open>P\<close> the function makes no access outside its buffers, and ends with \<open>Q\<close>
  when it returns 0 and with \<open>R\<close> when it returns -1.
\<close>

definition meets :: "('s \<Rightarrow> bool) \<Rightarrow> ('s, 'a) cfun \<Rightarrow> ('a \<Rightarrow> 's \<Rightarrow> bool) \<Rightarrow> ('s \<Rightarrow> bool) \<Rightarrow> bool" where
  "meets P m Q R = (\<forall>s. P s \<longrightarrow> (case m s of
     (Ok x, s') \<Rightarrow> Q x s' | (Fail, s') \<Rightarrow> R s' | (Oob, s') \<Rightarrow> False | (Fuel, s') \<Rightarrow> True))"

lemma meetsD: "meets P m Q R \<Longrightarrow> P s \<Longrightarrow> m s = (res, s') \<Longrightarrow>
    case res of Ok x \<Rightarrow> Q x s' | Fail \<Rightarrow> R s' | Oob \<Rightarrow> False | Fuel \<Rightarrow> True"
  by (cases res) (auto simp: meets_def)

lemma meetsI: "(\<And>s res s'. P s \<Longrightarrow> m s = (res, s') \<Longrightarrow>
    case res of Ok x \<Rightarrow> Q x s' | Fail \<Rightarrow> R s' | Oob \<Rightarrow> False | Fuel \<Rightarrow> True) \<Longrightarrow> meets P m Q R"
  by (auto simp: meets_def split: prod.splits outcome.splits)

lemma meets_weaken:
  "meets P m Q R \<Longrightarrow> (\<And>s. P' s \<Longrightarrow> P s) \<Longrightarrow> (\<And>x s. Q x s \<Longrightarrow> Q' x s) \<Longrightarrow> (\<And>s. R s \<Longrightarrow> R' s) \<Longrightarrow> meets P' m Q' R'"
  by (rule meetsI) (force dest: meetsD split: outcome.splits)

lemma meets_bind:
  assumes "meets P m M R" "\<And>x. meets (M x) (f x) Q R"
  shows "meets P (bind m f) Q R"
proof (rule meetsI)
  fix s res s' assume s: "P s" and run: "bind m f s = (res, s')"
  obtain r s1 where m: "m s = (r, s1)" by fastforce
  from meetsD[OF assms(1) s m] run show "case res of Ok x \<Rightarrow> Q x s' | Fail \<Rightarrow> R s' | Oob \<Rightarrow> False | Fuel \<Rightarrow> True"
    by (cases r) (auto simp: bind_def m dest: meetsD[OF assms(2)])
qed

lemma meets_simple:
  "(\<And>s. P s \<Longrightarrow> Q x s) \<Longrightarrow> meets P (ret x) Q R" "(\<And>s. P s \<Longrightarrow> R s) \<Longrightarrow> meets P fail Q R"
  "(\<And>s. P s \<Longrightarrow> Q () (g s)) \<Longrightarrow> meets P (modify g) Q R"
  by (simp_all add: meets_def ret_def fail_def modify_def)

lemma meets_bind3:
  assumes "meets P m (\<lambda>(a, b, c) s. M a b c s) R" "\<And>a b c. meets (M a b c) (f a b c) Q R"
  shows "meets P (bind m (\<lambda>(a, b, c). f a b c)) Q R"
  by (rule meets_bind[OF assms(1)]) (use assms(2) in \<open>auto simp: split_beta\<close>)

lemma meets_known: "(c \<Longrightarrow> meets P m Q R) \<Longrightarrow> meets (\<lambda>s. P s \<and> c) m Q R"
  by (cases c) (simp_all add: meets_def)

lemma meets_ret [simp]: "meets P (ret x) Q R \<longleftrightarrow> (\<forall>s. P s \<longrightarrow> Q x s)" "meets P fail Q R \<longleftrightarrow> (\<forall>s. P s \<longrightarrow> R s)"
  by (auto simp: meets_def ret_def fail_def)

lemma meets_cases:
  "(c \<Longrightarrow> meets P m Q R) \<Longrightarrow> (\<not> c \<Longrightarrow> meets P m' Q R) \<Longrightarrow> meets P (if c then m else m') Q R"
  "meets P m Q R \<Longrightarrow> (\<And>x. meets P (f x) Q R) \<Longrightarrow> meets P (case v of None \<Rightarrow> m | Some x \<Rightarrow> f x) Q R"
  "(\<And>a b. p = (a, b) \<Longrightarrow> meets P (g a b) Q R) \<Longrightarrow> meets P (case p of (a, b) \<Rightarrow> g a b) Q R"
  by (simp_all split: option.splits prod.splits)

lemma meets_any: "(\<And>b. meets (\<lambda>s. P s \<and> f s = b) m Q R) \<Longrightarrow> meets P m Q R"
  by (simp add: meets_def)

lemma meets_attempt:
  "meets P m Q R \<Longrightarrow> meets P (attempt m) (\<lambda>x s. case x of Some y \<Rightarrow> Q y s | None \<Rightarrow> R s) R'"
  by (auto simp: meets_def attempt_def split: prod.splits outcome.splits)

lemma meets_next: "(\<And>s k. P (s\<lparr>fw_step := k\<rparr>) = P s) \<Longrightarrow> meets P next_step (\<lambda>_. P) R"
  by (simp add: meets_def next_step_def)

lemma meets_on_fst:
  "meets P m Q R \<Longrightarrow> meets (\<lambda>(s, out). P s) (on_fst m) (\<lambda>x (s, out). Q x s) (\<lambda>(s, out). R s)"
  by (auto simp: meets_def on_fst_def split: prod.splits outcome.splits)

section \<open>Descriptors and keys\<close>

definition owns :: "flow \<Rightarrow> bool" where
  "owns st = (open_fds (fw_w st) = (if transport_fd (fw_t st) \<ge> 0 then {transport_fd (fw_t st)} else {}))"

definition good :: "flow \<Rightarrow> bool" where
  "good st = (owns st \<and> (has_auth_key (fw_s st) \<longrightarrow> length (auth_key (fw_s st)) = 256))"

definition idle :: "flow \<Rightarrow> bool" where
  "idle st = (good st \<and> transport_fd (fw_t st) < 0)"

definition online :: "flow \<Rightarrow> bool" where
  "online st = (good st \<and> transport_fd (fw_t st) \<ge> 0)"

definition flow_ok :: "flow_env \<Rightarrow> bool" where
  "flow_ok E = ((\<forall>k. client_ok ((fe_client E k)\<lparr>cl_cfg := fe_cfg E\<rparr>) \<and> env_ok (fe_keygen E k)) \<and> bn_ok (fe_bn E))"

text \<open>What a request leaves alone.\<close>

definition core :: "flow \<Rightarrow> transport \<times> byte list \<times> bool \<times> int set \<times> files \<times> dc_endpoint list" where
  "core st = (fw_t st, auth_key (fw_s st), has_auth_key (fw_s st), open_fds (fw_w st), fw_files st, fw_dialed st)"

lemma core_good:
  "core st' = core st \<Longrightarrow> good st' = good st" "core st' = core st \<Longrightarrow> idle st' = idle st"
  "core st' = core st \<Longrightarrow> online st' = online st" "core st' = core st \<Longrightarrow> fw_t st' = fw_t st"
  "core st' = core st \<Longrightarrow> has_auth_key (fw_s st') = has_auth_key (fw_s st)"
  "core st' = core st \<Longrightarrow> fw_files st' = fw_files st"
  by (simp_all add: core_def good_def idle_def online_def owns_def)

lemma connect_fds:
  assumes "transport_connect c rc (t, w) = (res, (t', w'))" "open_fds w = {}"
  shows "res \<noteq> Oob" "res = Ok u \<Longrightarrow> transport_fd t' = c \<and> 0 \<le> c \<and> open_fds w' = {c}"
    "res = Fail \<Longrightarrow> transport_fd t' < 0 \<and> open_fds w' = {}"
  using assms
  by (auto simp: transport_connect_def send_retry_eq sys_socket_close_def Let_def
      split: if_splits list.splits io_answer.splits)

lemma meets_dial:
  "meets (\<lambda>st. idle st \<and> has_auth_key (fw_s st) = b \<and> fw_files st = F) (dial E ep)
    (\<lambda>_ st. online st \<and> has_auth_key (fw_s st) = b \<and> fw_files st = F)
    (\<lambda>st. idle st \<and> has_auth_key (fw_s st) = b \<and> fw_files st = F)"
proof (rule meetsI)
  fix st res st'
  assume st: "idle st \<and> has_auth_key (fw_s st) = b \<and> fw_files st = F" and run: "dial E ep st = (res, st')"
  let ?c = "fe_connect E (fw_step st)"
  obtain r t w where c: "transport_connect (cn_created ?c) (cn_rc ?c)
      (fw_t st, (fw_w st)\<lparr>script := cn_script ?c, incoming := cn_incoming ?c\<rparr>) = (r, (t, w))"
    by (metis prod.exhaust)
  have "open_fds ((fw_w st)\<lparr>script := cn_script ?c, incoming := cn_incoming ?c\<rparr>) = {}"
    using st by (simp add: idle_def good_def owns_def)
  note fds = connect_fds[OF c this]
  show "case res of Ok x \<Rightarrow> online st' \<and> has_auth_key (fw_s st') = b \<and> fw_files st' = F
    | Fail \<Rightarrow> idle st' \<and> has_auth_key (fw_s st') = b \<and> fw_files st' = F | Oob \<Rightarrow> False | Fuel \<Rightarrow> True"
    using run st fds c
    by (cases r) (auto simp: dial_def bind_def next_step_def idle_def online_def good_def owns_def Let_def)
qed

lemma meets_hang_up:
  "meets (\<lambda>st. good st \<and> has_auth_key (fw_s st) = b \<and> fw_files st = F) hang_up
    (\<lambda>_ st. idle st \<and> has_auth_key (fw_s st) = b \<and> fw_files st = F) R"
  unfolding hang_up_def
  by (rule meets_simple(3))
    (auto simp: transport_close_def sys_socket_close_def idle_def good_def owns_def Let_def)

lemma meets_set_dc:
  assumes "\<And>st dc. P (st\<lparr>fw_t := (fw_t st)\<lparr>transport_dc_id := dc\<rparr>\<rparr>) = P st"
  shows "meets P (set_dc dc) (\<lambda>_ st. P st \<and> transport_dc_id (fw_t st) = dc) R"
  unfolding set_dc_def using assms by (intro meets_simple(3)) simp

lemma meets_init:
  "meets (\<lambda>st. idle st \<and> fw_files st = F) (init_session E)
    (\<lambda>_ st. idle st \<and> \<not> has_auth_key (fw_s st) \<and> fw_files st = F) R"
  unfolding init_session_def
  by (rule meets_bind[OF meets_next]) (auto intro!: meets_simple simp: idle_def good_def owns_def mtproto_session_init_def)

lemma meets_key_gen:
  assumes "flow_ok E"
  shows "meets (\<lambda>st. online st \<and> has_auth_key (fw_s st) = b \<and> fw_files st = F) (key_gen E)
    (\<lambda>_ st. online st \<and> has_auth_key (fw_s st) \<and> fw_files st = F)
    (\<lambda>st. online st \<and> has_auth_key (fw_s st) = b \<and> fw_files st = F)"
proof (rule meetsI)
  fix st res st'
  assume st: "online st \<and> has_auth_key (fw_s st) = b \<and> fw_files st = F" and run: "key_gen E st = (res, st')"
  obtain r s w where g: "mtproto_auth_key_gen (fe_keygen E (fw_step st)) (fw_t st) (fw_s st, fw_w st) = (r, (s, w))"
    by (metis prod.exhaust)
  have "env_ok (fe_keygen E (fw_step st))" using assms by (simp add: flow_ok_def)
  note keys = key_gen_keys[OF this g]
  have "open_fds w = open_fds (fw_w st)" using framesD[OF frames_key_gen g] by simp
  then show "case res of Ok x \<Rightarrow> online st' \<and> has_auth_key (fw_s st') \<and> fw_files st' = F
    | Fail \<Rightarrow> online st' \<and> has_auth_key (fw_s st') = b \<and> fw_files st' = F | Oob \<Rightarrow> False | Fuel \<Rightarrow> True"
    using run st keys g
    by (cases r) (auto simp: key_gen_def bind_def next_step_def online_def good_def owns_def Let_def)
qed

lemma meets_connect:
  assumes "flow_ok E"
  shows "meets (\<lambda>st. idle st \<and> has_auth_key (fw_s st) = b \<and> fw_files st = F) (connect_dc_ex E p d)
    (\<lambda>_ st. online st \<and> has_auth_key (fw_s st) \<and> fw_files st = F \<and> transport_dc_id (fw_t st) = p)
    (\<lambda>st. idle st \<and> has_auth_key (fw_s st) = b \<and> fw_files st = F)"
  unfolding connect_dc_ex_def
proof (rule meets_cases(2), goal_cases)
  case 1
  show ?case by (rule meets_simple(2))
next
  case (2 ep)
  let ?I = "\<lambda>st. online st \<and> has_auth_key (fw_s st) = b \<and> fw_files st = F"
  let ?J = "\<lambda>st. online st \<and> has_auth_key (fw_s st) \<and> fw_files st = F"
  have keep: "\<And>st dc. ?I (st\<lparr>fw_t := (fw_t st)\<lparr>transport_dc_id := dc\<rparr>\<rparr>) = ?I st"
    "\<And>st dc. ?J (st\<lparr>fw_t := (fw_t st)\<lparr>transport_dc_id := dc\<rparr>\<rparr>) = ?J st"
    by (simp_all add: online_def good_def owns_def)
  let ?R = "\<lambda>st. idle st \<and> has_auth_key (fw_s st) = b \<and> fw_files st = F"
  have up: "meets ?I hang_up (\<lambda>_. ?R) ?R"
    by (rule meets_weaken[OF meets_hang_up[of b F]]) (auto simp: online_def)
  have down: "meets (\<lambda>st. case rc of None \<Rightarrow> ?I st | Some _ \<Rightarrow> ?J st)
      (case rc of None \<Rightarrow> bind hang_up (\<lambda>_. fail) | Some _ \<Rightarrow> set_dc p)
      (\<lambda>_ st. ?J st \<and> transport_dc_id (fw_t st) = p) ?R" for rc :: "unit option"
  proof (cases rc)
    case None
    then show ?thesis by (simp, intro meets_bind[OF up] meets_simple)
  next
    case (Some u)
    then show ?thesis using meets_set_dc[where P = ?J, OF keep(2)] by simp
  qed
  have gen: "meets (\<lambda>st. ?I st \<and> transport_dc_id (fw_t st) = d) (attempt (key_gen E))
      (\<lambda>rc st. case rc of None \<Rightarrow> ?I st | Some _ \<Rightarrow> ?J st) ?R"
    by (rule meets_weaken[OF meets_attempt[OF meets_key_gen[OF assms]]]) (auto split: option.splits)
  have "meets (\<lambda>st. idle st \<and> has_auth_key (fw_s st) = b \<and> fw_files st = F)
      (bind (dial E ep) (\<lambda>_. bind (set_dc d) (\<lambda>_. bind (attempt (key_gen E)) (\<lambda>rc.
        case rc of None \<Rightarrow> bind hang_up (\<lambda>_. fail) | Some _ \<Rightarrow> set_dc p))))
      (\<lambda>_ st. ?J st \<and> transport_dc_id (fw_t st) = p) ?R"
    by (rule meets_bind[OF meets_dial], rule meets_bind[OF meets_set_dc[where P = ?I, OF keep(1)]],
        rule meets_bind[OF gen down])
  then show ?case by simp
qed

lemma meets_migrate:
  assumes "flow_ok E"
  shows "meets (\<lambda>st. good st \<and> fw_files st = F) (migrate E p d)
    (\<lambda>_ st. online st \<and> has_auth_key (fw_s st) \<and> fw_files st = F \<and> transport_dc_id (fw_t st) = p)
    (\<lambda>st. idle st \<and> \<not> has_auth_key (fw_s st) \<and> fw_files st = F)"
proof -
  have "meets (\<lambda>st. good st \<and> fw_files st = F) hang_up (\<lambda>_ st. idle st \<and> fw_files st = F) R" for R
    by (rule meets_any[where f = "\<lambda>st. has_auth_key (fw_s st)"], rule meets_weaken[OF meets_hang_up]) auto
  moreover have "meets (\<lambda>st. idle st \<and> \<not> has_auth_key (fw_s st) \<and> fw_files st = F) (connect_dc_ex E p d)
    (\<lambda>_ st. online st \<and> has_auth_key (fw_s st) \<and> fw_files st = F \<and> transport_dc_id (fw_t st) = p)
    (\<lambda>st. idle st \<and> \<not> has_auth_key (fw_s st) \<and> fw_files st = F)"
    using meets_connect[OF assms, of False F p d] by simp
  ultimately show ?thesis
    unfolding migrate_def by (blast intro: meets_bind meets_init)
qed

lemma meets_soft:
  "meets (\<lambda>st. good st \<and> has_auth_key (fw_s st) = b \<and> fw_files st = F) (migrate_soft E p)
    (\<lambda>_ st. online st \<and> has_auth_key (fw_s st) = b \<and> fw_files st = F \<and> transport_dc_id (fw_t st) = p)
    (\<lambda>st. idle st \<and> has_auth_key (fw_s st) = b \<and> fw_files st = F)"
  unfolding migrate_soft_def
proof (rule meets_bind[OF meets_hang_up], rule meets_cases(2), goal_cases)
  case 1
  show ?case by (rule meets_simple(2))
next
  case (2 _ ep)
  let ?I = "\<lambda>st. online st \<and> has_auth_key (fw_s st) = b \<and> fw_files st = F"
  have "meets ?I (set_dc p) (\<lambda>_ st. ?I st \<and> transport_dc_id (fw_t st) = p) R" for R
    by (rule meets_set_dc) (simp add: online_def good_def owns_def)
  from meets_bind[OF meets_dial this] show ?case by simp
qed

section \<open>Requests\<close>

definition client_fn :: "flow_env \<Rightarrow> ('o \<Rightarrow> bool) \<Rightarrow> (nat \<Rightarrow> client_env \<Rightarrow> ('o, unit) client) \<Rightarrow> bool" where
  "client_fn E J m = (\<forall>k C. client_ok C \<longrightarrow>
     safe (beside anywhere J) (m k C) \<and> frames ((held \<circ> fst) \<circ> fst) (m k C))"

lemma meets_request:
  assumes "flow_ok E" "client_fn E J m" "J x" and inv: "\<And>st st'. I st \<Longrightarrow> core st' = core st \<Longrightarrow> I st'"
  shows "meets I (send_request E mg x m) (\<lambda>(ok, e, y) st. I st \<and> J y) R"
proof (rule meetsI)
  fix st res st' assume st: "I st" and run: "send_request E mg x m st = (res, st')"
  let ?C = "(fe_client E (fw_step st))\<lparr>cl_cfg := fe_cfg E, cl_transport := fw_t st\<rparr>"
  let ?e = "\<lparr>error_code = 0, error_msg = [], migrate_dc = mg, flood_wait_secs = 0\<rparr>"
  obtain r s w err y where m: "m (fw_step st) ?C (((fw_s st, fw_w st), Some ?e), x) = (r, (((s, w), err), y))"
    by (metis prod.exhaust)
  have "client_ok ?C" using assms(1) by (simp add: flow_ok_def client_ok_def)
  then have fn: "safe (beside anywhere J) (m (fw_step st) ?C)" "frames ((held \<circ> fst) \<circ> fst) (m (fw_step st) ?C)"
    using assms(2) by (simp_all add: client_fn_def)
  have ok: "r \<noteq> Oob" "J y" using safeD[OF fn(1) _ m] assms(3) by (simp_all add: beside_def)
  have "core (st\<lparr>fw_step := k, fw_s := s, fw_w := w\<rparr>) = core st" for k
    using framesD[OF fn(2) m] by (simp add: core_def held_def)
  then have "I (st\<lparr>fw_step := k, fw_s := s, fw_w := w\<rparr>)" for k using inv[OF st] by blast
  then show "case res of Ok x \<Rightarrow> (\<lambda>(ok, e, y) st. I st \<and> J y) x st' | Fail \<Rightarrow> R st' | Oob \<Rightarrow> False | Fuel \<Rightarrow> True"
    using run ok m by (cases r) (auto simp: send_request_def bind_def next_step_def Let_def)
qed

lemma login_requests:
  "client_fn E sent_code_ok (\<lambda>_ C. auth_send_code C phone)"
  "client_fn E sent_code_ok (\<lambda>_ C. auth_resend_code C phone)"
  "client_fn E (\<lambda>_. True) (\<lambda>_ C. auth_sign_in C phone hash code)"
  "client_fn E (\<lambda>_. True) (\<lambda>_ C. auth_sign_up C phone hash first_name last_name)"
  "client_fn E password_ok (\<lambda>_ C. auth_2fa_get_password C)"
  "bn_ok bn \<Longrightarrow> password_ok P \<Longrightarrow>
    client_fn E (\<lambda>_. True) (\<lambda>k C. auth_2fa_check_password C bn kdf (rand k) P pwd)"
  using safe_auth_requests safe_auth_rest frames_auth_requests
  by (simp_all add: client_fn_def beside_def[abs_def])

section \<open>Sending the code\<close>

lemma no_key_answer:
  "\<not> has_auth_key (fst (fst le)) \<Longrightarrow> rpc_answer E k query max_len le = (Fail, le)"
  by (cases le) (simp add: rpc_answer_def bind_def on_fst_def no_key_no_call)

lemma no_key_request:
  assumes "\<not> has_auth_key (fw_s st)"
  shows "send_request E (-1) sc (\<lambda>_ C. auth_send_code C phone) st =
    (Ok (False, \<lparr>error_code = 0, error_msg = [], migrate_dc = -1, flood_wait_secs = 0\<rparr>, sc),
     st\<lparr>fw_step := fw_step st + 1\<rparr>)"
proof -
  have "auth_send_code C phone (((fw_s st, fw_w st), Some e), sc) =
      (Fail, (((fw_s st, fw_w st), Some \<lparr>error_code = 0, error_msg = [], migrate_dc = -1, flood_wait_secs = 0\<rparr>), sc))"
    for C e
    using assms no_key_answer[of "((fw_s st, fw_w st), _)"]
    by (auto simp: auth_send_code_def build_send_code_def query_of_def Let_def bind_def on_fst_def
        clear_err_def put_out_def fail_def ret_def)
  then show ?thesis by (simp add: send_request_def bind_def next_step_def Let_def)
qed

lemma meets_send_code:
  assumes "flow_ok E" "sent_code_ok sc" and inv: "\<And>st st'. I st \<Longrightarrow> core st' = core st \<Longrightarrow> I st'"
  shows "meets I (send_request E (-1) sc (\<lambda>_ C. auth_send_code C phone))
    (\<lambda>(ok, e, y) st. I st \<and> sent_code_ok y \<and> (ok \<longrightarrow> has_auth_key (fw_s st))) R"
proof (rule meetsI)
  fix st res st' assume st: "I st" and run: "send_request E (-1) sc (\<lambda>_ C. auth_send_code C phone) st = (res, st')"
  have "meets (\<lambda>s. I s \<and> has_auth_key (fw_s s) = has_auth_key (fw_s st)) (send_request E (-1) sc (\<lambda>_ C. auth_send_code C phone))
    (\<lambda>(ok, e, y) s. (I s \<and> has_auth_key (fw_s s) = has_auth_key (fw_s st)) \<and> sent_code_ok y) R"
    by (rule meets_request[OF assms(1) login_requests(1) assms(2)]) (use inv core_good(5) in blast)
  from meetsD[OF this _ run] st
  show "case res of Ok x \<Rightarrow> (\<lambda>(ok, e, y) st. I st \<and> sent_code_ok y \<and> (ok \<longrightarrow> has_auth_key (fw_s st))) x st'
    | Fail \<Rightarrow> R st' | Oob \<Rightarrow> False | Fuel \<Rightarrow> True"
    using run no_key_request[of st E sc phone] by (cases res) auto
qed

lemma meets_send_loop:
  assumes "flow_ok E" "sent_code_ok sc"
  shows "meets (\<lambda>st. online st \<and> transport_dc_id (fw_t st) = dc \<and> fw_files st = F)
    (send_code_loop E phone n dc sc)
    (\<lambda>(dc', n', sc') st. online st \<and> has_auth_key (fw_s st) \<and> transport_dc_id (fw_t st) = dc' \<and>
       fw_files st = F \<and> sent_code_ok sc')
    (\<lambda>st. good st \<and> fw_files st = F)"
  using assms
proof (induction E phone n dc sc rule: send_code_loop.induct)
  case (1 E phone n dc sc)
  let ?I = "\<lambda>st. online st \<and> transport_dc_id (fw_t st) = dc \<and> fw_files st = F"
  let ?Q = "\<lambda>(dc', n' :: nat, sc') st. online st \<and> has_auth_key (fw_s st) \<and> transport_dc_id (fw_t st) = dc' \<and>
    fw_files st = F \<and> sent_code_ok sc'"
  let ?R = "\<lambda>st. good st \<and> fw_files st = F"
  have send: "meets ?I (send_request E (-1) sc (\<lambda>_ C. auth_send_code C phone))
      (\<lambda>(ok, e, y) st. ?I st \<and> sent_code_ok y \<and> (ok \<longrightarrow> has_auth_key (fw_s st))) ?R"
    by (rule meets_send_code[OF 1(3,4)]) (metis core_good(3,4,6))
  have move: "meets (\<lambda>st. ?I st \<and> sent_code_ok y) (bind (attempt (migrate E t t)) (\<lambda>rc. case rc of
      Some _ \<Rightarrow> send_code_loop E phone (n + 1) t y
    | None \<Rightarrow> bind (migrate_soft E t) (\<lambda>_. send_code_loop E phone (n + 1) t y))) ?Q ?R"
    if y: "sent_code_ok y" and IH: "meets (\<lambda>st. online st \<and> transport_dc_id (fw_t st) = t \<and> fw_files st = F)
      (send_code_loop E phone (n + 1) t y) ?Q ?R" for t y
  proof -
    have "meets (\<lambda>st. idle st \<and> \<not> has_auth_key (fw_s st) \<and> fw_files st = F) (migrate_soft E t)
        (\<lambda>_ st. online st \<and> transport_dc_id (fw_t st) = t \<and> fw_files st = F) ?R"
      by (rule meets_weaken[OF meets_soft[of False F E t]]) (auto simp: idle_def)
    note soft = meets_bind[OF this IH]
    have hard: "meets (\<lambda>st. online st \<and> has_auth_key (fw_s st) \<and> fw_files st = F \<and> transport_dc_id (fw_t st) = t)
      (send_code_loop E phone (n + 1) t y) ?Q ?R"
      by (rule meets_weaken[OF IH]) auto
    have "meets (\<lambda>st. ?I st \<and> sent_code_ok y) (attempt (migrate E t t))
      (\<lambda>rc st. case rc of Some _ \<Rightarrow> online st \<and> has_auth_key (fw_s st) \<and> fw_files st = F \<and> transport_dc_id (fw_t st) = t
         | None \<Rightarrow> idle st \<and> \<not> has_auth_key (fw_s st) \<and> fw_files st = F) ?R"
      by (rule meets_weaken[OF meets_attempt[OF meets_migrate[OF 1(3)]]]) (auto simp: online_def)
    then show ?thesis
      by (rule meets_bind) (use soft hard in \<open>auto split: option.split\<close>)
  qed
  show ?case unfolding send_code_loop.simps[of E phone n dc sc]
  proof (rule meets_bind3[OF send])
    fix ok and err :: rpc_error and y
    let ?t = "if dc < 0 then - migrate_dc err else migrate_dc err"
    have go: "meets (\<lambda>st. ?I st \<and> sent_code_ok y) (bind (attempt (migrate E ?t ?t)) (\<lambda>rc. case rc of
        Some _ \<Rightarrow> send_code_loop E phone (n + 1) ?t y
      | None \<Rightarrow> bind (migrate_soft E ?t) (\<lambda>_. send_code_loop E phone (n + 1) ?t y))) ?Q ?R"
      if "\<not> ok" "migrate_dc err > 0 \<and> n < 3"
      by (rule meets_known, rule meets_weaken[OF move[OF _ 1(1)[OF that refl 1(3)]]]) auto
    show "meets (\<lambda>st. ?I st \<and> sent_code_ok y \<and> (ok \<longrightarrow> has_auth_key (fw_s st)))
      (if ok then ret (dc, n, y)
       else if migrate_dc err > 0 \<and> n < 3 then
         let target = (if dc < 0 then - migrate_dc err else migrate_dc err) in
         bind (attempt (migrate E target target)) (\<lambda>rc. case rc of
           Some _ \<Rightarrow> send_code_loop E phone (n + 1) target y
         | None \<Rightarrow> bind (migrate_soft E target) (\<lambda>_. send_code_loop E phone (n + 1) target y))
       else fail) ?Q ?R"
      using go by (cases ok) (auto simp: Let_def online_def)
  qed
qed

section \<open>Signing in\<close>

definition logged_on :: "int \<Rightarrow> files \<Rightarrow> flow \<Rightarrow> bool" where
  "logged_on dc F st = (online st \<and> has_auth_key (fw_s st) \<and> transport_dc_id (fw_t st) = dc \<and> fw_files st = F)"

definition left_off :: "files \<Rightarrow> flow \<Rightarrow> bool" where
  "left_off F st = (good st \<and> fw_files st = F)"

lemma logged_on_core: "logged_on dc F st \<Longrightarrow> core st' = core st \<Longrightarrow> logged_on dc F st'"
  unfolding logged_on_def by (metis core_good(3-6))

lemma logged_left: "logged_on dc F st \<Longrightarrow> left_off F st"
  by (simp add: logged_on_def left_off_def online_def)

lemma meets_asked:
  assumes "flow_ok E" "client_fn E J m" "J x"
    and "\<And>ok e y. J y \<Longrightarrow> meets (logged_on dc F) (f ok e y) Q (left_off F)"
  shows "meets (logged_on dc F) (bind (send_request E mg x m) (\<lambda>(ok, e, y). f ok e y)) Q (left_off F)"
proof (rule meets_bind3)
  show "meets (logged_on dc F) (send_request E mg x m) (\<lambda>(ok, e, y) st. logged_on dc F st \<and> J y) (left_off F)"
    by (rule meets_request[OF assms(1-3) logged_on_core])
qed (use assms(4) in \<open>rule meets_known\<close>)

lemma meets_resend:
  assumes "flow_ok E" "sent_code_ok sc"
  shows "meets (logged_on dc F) (resend_via_sms E phone sc) (\<lambda>sc' st. logged_on dc F st \<and> sent_code_ok sc') (left_off F)"
  unfolding resend_via_sms_def
  by (intro meets_cases meets_asked[OF assms(1) login_requests(2)]) (use assms(2) in auto)

lemma meets_2fa:
  assumes "flow_ok E"
  shows "meets (logged_on dc F) (check_2fa E cb) (\<lambda>_. logged_on dc F) (left_off F)"
proof -
  have bn: "bn_ok (fe_bn E)" using assms by (simp add: flow_ok_def)
  have fail: "meets (logged_on dc F) fail (\<lambda>_ :: int. logged_on dc F) (left_off F)"
    by (auto intro: logged_left)
  have "meets (logged_on dc F) (bind (send_request E 0 (Some 0) (\<lambda>k C.
      auth_2fa_check_password C (fe_bn E) (fe_kdf E) (fe_srp_rand E k) params pwd)) (\<lambda>(ok, _, cp_uid).
        if \<not> ok then fail else ret (case cp_uid of None \<Rightarrow> 0 | Some u \<Rightarrow> u))) (\<lambda>_ :: int. logged_on dc F) (left_off F)"
    if "password_ok params" for params pwd
    by (rule meets_asked[OF assms login_requests(6)[OF bn that]], simp)
      (auto intro: logged_left)
  note check = this
  have "password_ok password_zero" by (simp add: password_ok_def password_zero_def)
  note get = meets_asked[OF assms login_requests(5) this]
  show ?thesis
    unfolding check_2fa_def
    by (rule meets_cases(2)[OF fail], rule get) (auto intro!: fail check split: option.split simp del: meets_ret)
qed

lemma meets_sign_in:
  assumes "flow_ok E"
  shows "meets (\<lambda>(st, out). logged_on dc F st) (sign_in_flow E cb phone code n dc' sc)
    (\<lambda>_ (st, out). logged_on dc F st) (\<lambda>(st, out). left_off F st)"
proof -
  let ?K = "\<lambda>(st, out). logged_on dc F st" and ?R = "\<lambda>(st, out :: auth_flow_result option). left_off F st"
  have fail: "meets ?K fail (\<lambda>_ :: int. ?K) ?R" by (auto intro: logged_left)
  have asked: "meets ?K (bind (on_fst (send_request E mg x m)) (\<lambda>(ok, e, y). f ok e y)) (\<lambda>_. ?K) ?R"
    if "client_fn E J m" "J x" "\<And>ok e y. J y \<Longrightarrow> meets ?K (f ok e y) (\<lambda>_. ?K) ?R"
    for mg x J and m :: "nat \<Rightarrow> client_env \<Rightarrow> ('b, unit) client" and f :: "bool \<Rightarrow> rpc_error \<Rightarrow> 'b \<Rightarrow> (flow \<times> auth_flow_result option, int) cfun"
  proof -
    have "meets ?K (on_fst (send_request E mg x m)) (\<lambda>(ok, e, y) (st, out). logged_on dc F st \<and> J y) ?R"
      by (rule meets_weaken[OF meets_on_fst[OF meets_request[OF assms that(1,2) logged_on_core, where R = "left_off F"]]]) auto
    then show ?thesis
      by (rule meets_bind3[where M = "\<lambda>ok e y (st, out). logged_on dc F st \<and> J y"])
        (use that(3) in \<open>auto simp: meets_def\<close>)
  qed
  have migrate: "meets ?K (bind (on_fst (migrate E t t)) (\<lambda>_. fail)) (\<lambda>_ :: int. ?K) ?R" for t
    by (rule meets_bind[OF meets_weaken[OF meets_on_fst[OF meets_migrate[OF assms, of F t t]],
          where Q' = "\<lambda>_ (st, out). left_off F st"]])
      (auto simp: logged_on_def left_off_def online_def idle_def)
  have password: "meets ?K (bind (put_out g) (\<lambda>_. on_fst (check_2fa E cb))) (\<lambda>_. ?K) ?R"
    for g :: "auth_flow_result \<Rightarrow> auth_flow_result"
    by (rule meets_bind[OF _ meets_on_fst[OF meets_2fa[OF assms]]]) (simp add: meets_def put_out_def split_beta)
  have sign_up: "meets ?K (bind (on_fst (send_request E 0 uid (\<lambda>_ C. auth_sign_up C phone hash first last)))
      (\<lambda>(ok, _, uid). if \<not> ok then fail else ret (case uid of None \<Rightarrow> 0 | Some u \<Rightarrow> u))) (\<lambda>_ :: int. ?K) ?R"
    for uid hash first last
    by (rule asked[OF login_requests(4)]) (auto intro: logged_left)
  show ?thesis
    unfolding sign_in_flow_def
    by (rule asked[OF login_requests(3) TrueI])
      (auto intro!: migrate password sign_up intro: logged_left simp: Let_def split: prod.split)
qed

section \<open>The persisted session\<close>

definition stored :: "files \<Rightarrow> int \<Rightarrow> byte list \<Rightarrow> bool" where
  "stored F dc key = (dc \<noteq> 0 \<and> fst (store_abs F) = dc \<and> (\<exists>salt sid. snd (store_abs F) dc = Some (salt, sid, key)))"

lemma stored_abs: "store_abs F' = store_abs F \<Longrightarrow> stored F' = stored F"
  by (simp add: stored_def[abs_def])

text \<open>A key was loaded and no connection is open.\<close>

definition primed :: "files \<Rightarrow> int \<Rightarrow> flow \<Rightarrow> bool" where
  "primed F dc st = (idle st \<and> has_auth_key (fw_s st) \<and> store_abs (fw_files st) = store_abs F \<and>
     stored F dc (auth_key (fw_s st)))"

lemma meets_load:
  "meets (\<lambda>st. idle st \<and> store_abs (fw_files st) = store_abs F) (load_session E)
    (\<lambda>dc. primed F dc) (\<lambda>st. idle st \<and> store_abs (fw_files st) = store_abs F)"
proof (rule meetsI)
  fix st res st' assume st: "idle st \<and> store_abs (fw_files st) = store_abs F" and run: "load_session E st = (res, st')"
  obtain r fs where l: "session_store_load (fe_io E (fw_step st)) (fw_files st) (fw_s st) = (r, fs)" by fastforce
  note abs = load_abs[OF l]
  show "case res of Ok dc \<Rightarrow> primed F dc st' | Fail \<Rightarrow> idle st' \<and> store_abs (fw_files st') = store_abs F
    | Oob \<Rightarrow> False | Fuel \<Rightarrow> True"
  proof (cases r)
    case (Ok v)
    then obtain salt sid key where k: "fst (store_abs F) \<noteq> 0" "snd (store_abs F) (fst (store_abs F)) = Some (salt, sid, key)"
        "v = (fst (store_abs F), restore (salt, sid, key) (fw_s st))"
      using abs(2) st by (auto split: if_splits option.splits)
    have "length key = 256" using store_abs_key[OF k(2)] .
    then show ?thesis
      using run l Ok k st abs(1)
      by (auto simp: load_session_def bind_def next_step_def primed_def stored_def idle_def good_def owns_def restore_def)
  next
    case Fail
    then show ?thesis
      using run l st abs(1) by (auto simp: load_session_def bind_def next_step_def idle_def good_def owns_def)
  qed (use abs(2) in \<open>auto split: if_splits option.splits\<close>)
qed

lemma frames_dial: "frames (\<lambda>st. (fw_s st, fw_files st)) (dial E ep)"
  by (auto simp: frames_def dial_def bind_def next_step_def Let_def split: prod.splits)

lemma dial_primed:
  "meets (primed F dc) (dial E ep) (\<lambda>_ st. online st \<and> has_auth_key (fw_s st) \<and>
      store_abs (fw_files st) = store_abs F \<and> stored F dc (auth_key (fw_s st))) (primed F dc)"
proof (rule meetsI)
  fix st res st' assume st: "primed F dc st" and run: "dial E ep st = (res, st')"
  have same: "fw_s st' = fw_s st" "fw_files st' = fw_files st" using framesD[OF frames_dial run] by auto
  have "idle st \<and> has_auth_key (fw_s st) = True \<and> fw_files st = fw_files st" using st by (simp add: primed_def)
  from meetsD[OF meets_dial this run] st same
  show "case res of Ok x \<Rightarrow> online st' \<and> has_auth_key (fw_s st') \<and> store_abs (fw_files st') = store_abs F \<and>
      stored F dc (auth_key (fw_s st')) | Fail \<Rightarrow> primed F dc st' | Oob \<Rightarrow> False | Fuel \<Rightarrow> True"
    by (cases res) (auto simp: primed_def)
qed

text \<open>A session in use whose key is the one the store has for the home data centre.\<close>

definition resumed :: "files \<Rightarrow> int \<Rightarrow> flow \<Rightarrow> bool" where
  "resumed F dc st = (online st \<and> has_auth_key (fw_s st) \<and> transport_dc_id (fw_t st) = dc \<and>
     store_abs (fw_files st) = store_abs F \<and> stored F dc (auth_key (fw_s st)))"

definition unopened :: "files \<Rightarrow> flow \<Rightarrow> bool" where
  "unopened F st = (idle st \<and> store_abs (fw_files st) = store_abs F)"

lemma meets_reuse:
  "meets (primed F dc) (reuse_session E dc)
    (\<lambda>used st. if used then resumed F dc st else unopened F st) (unopened F)"
proof -
  have renew: "meets (primed F dc) (renew_session E) (\<lambda>_. primed F dc) R" for R
    by (auto simp: meets_def renew_session_def bind_def next_step_def modify_def primed_def idle_def good_def owns_def
        mtproto_session_renew_id_def)
  have closing: "meets (primed F dc) (bind (if c then hang_up else skip) (\<lambda>_. bind (init_session E) (\<lambda>_. ret False)))
      (\<lambda>used st. if used then resumed F dc st else unopened F st) (unopened F)" for c
    by (auto simp: meets_def bind_def hang_up_def init_session_def next_step_def modify_def ret_def primed_def unopened_def
        idle_def good_def owns_def transport_close_def mtproto_session_init_def Let_def split: if_splits)
  let ?U = "\<lambda>st. online st \<and> has_auth_key (fw_s st) \<and> store_abs (fw_files st) = store_abs F \<and> stored F dc (auth_key (fw_s st))"
  have go: "meets ?U (bind (set_dc dc) (\<lambda>_. ret True)) (\<lambda>used st. if used then resumed F dc st else unopened F st) (unopened F)"
    by (auto simp: meets_def bind_def set_dc_def modify_def ret_def resumed_def online_def good_def owns_def)
  have tried: "meets (primed F dc) (case ep of None \<Rightarrow> ret None | Some e \<Rightarrow> attempt (dial E e))
      (\<lambda>rc st. case rc of Some _ \<Rightarrow> ?U st | None \<Rightarrow> primed F dc st) (unopened F)" for ep
    by (rule meets_cases(2)) (auto intro!: meets_weaken[OF meets_attempt[OF dial_primed]] split: option.splits)
  have "meets (\<lambda>st. case rc of Some _ \<Rightarrow> ?U st | None \<Rightarrow> primed F dc st)
      (case rc of Some _ \<Rightarrow> bind (set_dc dc) (\<lambda>_. ret True)
        | None \<Rightarrow> bind (if ep \<noteq> None then hang_up else skip) (\<lambda>_. bind (init_session E) (\<lambda>_. ret False)))
      (\<lambda>used st. if used then resumed F dc st else unopened F st) (unopened F)" for rc :: "unit option" and ep :: "dc_endpoint option"
    by (cases rc) (simp_all only: option.case go closing)
  then show ?thesis
    unfolding reuse_session_def Let_def by - (rule meets_bind[OF renew], rule meets_bind[OF tried])
qed

lemma meets_restore:
  "meets (unopened F) (restore_session E)
    (\<lambda>saved st. case saved of Some dc \<Rightarrow> resumed F dc st | None \<Rightarrow> unopened F st) (unopened F)"
proof -
  have init: "meets (unopened F) (init_session E) (\<lambda>_. unopened F) (unopened F)"
    by (auto simp: meets_def bind_def init_session_def next_step_def modify_def unopened_def idle_def good_def owns_def
        mtproto_session_init_def)
  have load: "meets (unopened F) (attempt (load_session E)) (\<lambda>rc st. case rc of Some dc \<Rightarrow> primed F dc st | None \<Rightarrow> unopened F st)
      (unopened F)"
    by (rule meets_weaken[OF meets_attempt[OF meets_load[of F E]]]) (auto simp: unopened_def split: option.splits)
  have used: "meets (\<lambda>st. primed F dc st \<and> keyed) (if \<not> keyed then ret None
      else bind (reuse_session E dc) (\<lambda>used. ret (if used then Some dc else None)))
      (\<lambda>saved st. case saved of Some dc \<Rightarrow> resumed F dc st | None \<Rightarrow> unopened F st) (unopened F)" for dc keyed
    by (rule meets_known, simp, rule meets_bind[OF meets_reuse]) auto
  have step: "meets (\<lambda>st. case rc of Some dc \<Rightarrow> primed F dc st | None \<Rightarrow> unopened F st)
      (bind (\<lambda>st. (Ok (has_auth_key (fw_s st)), st)) (\<lambda>keyed. case rc of None \<Rightarrow> ret None
        | Some dc \<Rightarrow> if \<not> keyed then ret None else bind (reuse_session E dc) (\<lambda>used. ret (if used then Some dc else None))))
      (\<lambda>saved st. case saved of Some dc \<Rightarrow> resumed F dc st | None \<Rightarrow> unopened F st) (unopened F)" for rc
  proof (rule meets_bind[where M = "\<lambda>keyed st. case rc of Some dc \<Rightarrow> primed F dc st \<and> keyed | None \<Rightarrow> unopened F st"])
    show "meets (\<lambda>st. case rc of Some dc \<Rightarrow> primed F dc st | None \<Rightarrow> unopened F st) (\<lambda>st. (Ok (has_auth_key (fw_s st)), st))
        (\<lambda>keyed st. case rc of Some dc \<Rightarrow> primed F dc st \<and> keyed | None \<Rightarrow> unopened F st) (unopened F)"
      by (cases rc) (auto simp: meets_def primed_def)
  qed (use used in \<open>auto split: option.split\<close>)
  show ?thesis
    unfolding restore_session_def by (rule meets_bind[OF init], rule meets_bind[OF load step])
qed

section \<open>The whole login\<close>

text \<open>Connected and with a key, on the data centre the result names.\<close>

definition login_done :: "flow \<times> auth_flow_result option \<Rightarrow> bool" where
  "login_done so = (online (fst so) \<and> has_auth_key (fw_s (fst so)) \<and>
     (\<forall>r. snd so = Some r \<longrightarrow> fr_dc_id r = transport_dc_id (fw_t (fst so))))"

text \<open>The store after a login: what the save at its end made of it, or what was there.\<close>

definition kept_session :: "flow_env \<Rightarrow> files \<Rightarrow> flow \<Rightarrow> bool" where
  "kept_session E F st = (let dc = transport_dc_id (fw_t st) in
     stored F dc (auth_key (fw_s st)) \<and> store_abs (fw_files st) = store_abs F \<or>
     (\<exists>k F0 res. store_abs F0 = store_abs F \<and>
       session_store_save (fe_io E k) (fw_s st) dc F0 = (res, fw_files st)))"

lemma meets_put_out: "(\<And>st out. P (st, out) \<Longrightarrow> Q () (st, map_option g out)) \<Longrightarrow> meets P (put_out g) Q R"
  by (auto simp: meets_def put_out_def)

lemma meets_lift: "res \<noteq> Oob \<Longrightarrow> (\<And>s x. res = Ok x \<Longrightarrow> P s \<Longrightarrow> Q x s) \<Longrightarrow> (\<And>s. P s \<Longrightarrow> R s) \<Longrightarrow> meets P (lift res) Q R"
  by (cases res) (auto simp: meets_def ret_def fail_def lift_def)

lemma meets_save:
  "meets (\<lambda>(st, out :: auth_flow_result option). logged_on dc F st \<and> (\<forall>r. out = Some r \<longrightarrow> fr_dc_id r = dc))
    (on_fst (attempt (save_session E dc))) (\<lambda>_ (st, out). login_done (st, out) \<and> kept_session E F st) R"
proof (rule meetsI)
  fix so res so'
  assume so: "case so of (st, out :: auth_flow_result option) \<Rightarrow> logged_on dc F st \<and> (\<forall>r. out = Some r \<longrightarrow> fr_dc_id r = dc)"
    and run: "on_fst (attempt (save_session E dc)) so = (res, so')"
  obtain st and out :: "auth_flow_result option" where st: "so = (st, out)" "logged_on dc F st" "\<forall>r. out = Some r \<longrightarrow> fr_dc_id r = dc"
    using so by (cases so) auto
  obtain r fs where save: "session_store_save (fe_io E (fw_step st)) (fw_s st) dc (fw_files st) = (r, fs)" by fastforce
  have "r \<noteq> Oob" "r \<noteq> Fuel" using save
    by (auto simp: session_store_save_def upsert_def write_file_atomic_def lock_file_def Let_def
        split: if_splits outcome.splits option.splits)
  then obtain rc where res: "res = Ok rc" "so' = (st\<lparr>fw_step := fw_step st + 1, fw_files := fs\<rparr>, out)"
    using run save st(1)
    by (cases r) (auto simp: on_fst_def attempt_def save_session_def bind_def next_step_def)
  moreover have "kept_session E F (st\<lparr>fw_step := fw_step st + 1, fw_files := fs\<rparr>)"
    using st(2) save by (auto simp: kept_session_def logged_on_def Let_def)
  moreover have "login_done so'" using st res by (auto simp: login_done_def logged_on_def online_def good_def owns_def)
  ultimately show "case res of Ok x \<Rightarrow> (case so' of (st, out) \<Rightarrow> login_done (st, out) \<and> kept_session E F st)
    | Fail \<Rightarrow> R so' | Oob \<Rightarrow> False | Fuel \<Rightarrow> True" by simp
qed

lemma meets_fresh:
  assumes "flow_ok E"
  shows "meets (\<lambda>(st, out). idle st \<and> fw_files st = F) (fresh_login E cb)
    (\<lambda>_ (st, out). login_done (st, out) \<and> kept_session E F st) (\<lambda>(st, out). left_off F st)"
proof -
  let ?R = "\<lambda>(st, out :: auth_flow_result option). left_off F st"
  have connect: "meets (\<lambda>(st, out). idle st \<and> fw_files st = F) (on_fst (connect_dc_ex E dc dc)) (\<lambda>_ (st, out). logged_on dc F st) ?R" for dc
    by (rule meets_any[where f = "\<lambda>(st, out). has_auth_key (fw_s st)"],
        rule meets_weaken[OF meets_on_fst[OF meets_connect[OF assms]]])
      (auto simp: logged_on_def left_off_def idle_def)
  have input: "meets (\<lambda>(st, out). logged_on dc F st \<and> P) (lift (case cb' of Some (Some x) \<Rightarrow> Ok x | _ \<Rightarrow> Fail))
      (\<lambda>_ (st, out). logged_on dc F st \<and> P) ?R" for dc P and cb' :: "byte list option option"
    by (rule meets_lift) (auto split: option.splits intro: logged_left)
  have "sent_code_ok sent_code_zero" by (simp add: sent_code_ok_def sent_code_zero_def)
  note loop = meets_send_loop[OF assms this]
  have send: "meets (\<lambda>(st, out). logged_on dc F st) (on_fst (send_code_loop E phone 0 dc sent_code_zero))
      (\<lambda>(dc', n, sc) (st, out). logged_on dc' F st \<and> sent_code_ok sc) ?R" for dc phone
    by (rule meets_weaken[OF meets_on_fst[OF loop[where dc = dc and F = F and n = 0 and phone = phone]]])
      (auto simp: logged_on_def left_off_def)
  have again: "meets (\<lambda>(st, out). logged_on dc F st \<and> sent_code_ok sc) (on_fst (resend_via_sms E phone sc))
      (\<lambda>sc' (st, out). logged_on dc F st) ?R" for dc phone sc
  proof (cases "sent_code_ok sc")
    case True
    show ?thesis by (rule meets_weaken[OF meets_on_fst[OF meets_resend[OF assms True, of dc F phone]]]) auto
  qed (simp add: meets_def)
  have report: "meets (\<lambda>(st, out). logged_on dc F st) (put_out (\<lambda>out. out\<lparr>fr_dc_id := dc, fr_user_id := uid\<rparr>))
      (\<lambda>_ (st, out). logged_on dc F st \<and> (\<forall>r. out = Some r \<longrightarrow> fr_dc_id r = dc)) ?R" for dc uid
    by (rule meets_put_out) auto
  have code: "meets (\<lambda>(st, out). logged_on dc F st) (lift (case cb' of Some (Some x) \<Rightarrow> Ok x | _ \<Rightarrow> Fail))
      (\<lambda>_ (st, out). logged_on dc F st) ?R" for dc and cb' :: "byte list option option"
    using input[of dc True cb'] by simp
  have rest: "meets (\<lambda>(st, out). logged_on dc F st \<and> sent_code_ok sc)
      (bind (on_fst (resend_via_sms E phone sc)) (\<lambda>sc.
       bind (lift (case cb_get_code cb of Some (Some code) \<Rightarrow> Ok code | _ \<Rightarrow> Fail)) (\<lambda>code.
       bind (sign_in_flow E cb phone code n dc sc) (\<lambda>uid.
       bind (put_out (\<lambda>out. out\<lparr>fr_dc_id := dc, fr_user_id := uid\<rparr>)) (\<lambda>_.
       bind (on_fst (attempt (save_session E dc))) (\<lambda>_. skip))))))
      (\<lambda>_ (st, out). login_done (st, out) \<and> kept_session E F st) ?R" for dc sc phone n
    by (rule meets_bind[OF again], rule meets_bind[OF code], rule meets_bind[OF meets_sign_in[OF assms]],
        rule meets_bind[OF report], rule meets_bind[OF meets_save]) simp
  show ?thesis
    unfolding fresh_login_def Let_def
    by (rule meets_bind[OF connect], rule meets_bind[OF code], rule meets_bind3[OF _ rest], rule meets_weaken[OF send]) auto
qed

text \<open>The store a login leaves: the key it had for the home data centre, or the key saved at the end.\<close>

lemma kept_abs:
  assumes "kept_session E F st" "online st" "has_auth_key (fw_s st)" "int32_ok (transport_dc_id (fw_t st))"
  shows "store_abs (fw_files st) = store_abs F \<or>
    store_abs (fw_files st) = (transport_dc_id (fw_t st), (snd (store_abs F))(transport_dc_id (fw_t st) \<mapsto> key_of (fw_s st)))"
proof -
  have key: "length (auth_key (fw_s st)) = 256" using assms(2,3) by (simp add: online_def good_def)
  have "store_abs fs' = store_abs F \<or>
      store_abs fs' = (transport_dc_id (fw_t st), (snd (store_abs F))(transport_dc_id (fw_t st) \<mapsto> key_of (fw_s st)))"
    if "session_store_save io (fw_s st) (transport_dc_id (fw_t st)) F0 = (res, fs')" "store_abs F0 = store_abs F"
    for io F0 res fs'
    using upsert_abs[OF that(1)[unfolded session_store_save_def] key assms(4)] that(2)
    by (cases "res = Ok ()") auto
  then show ?thesis using assms(1) by (auto simp: kept_session_def Let_def)
qed

lemma meets_login:
  assumes "flow_ok E"
  shows "meets (\<lambda>(st, out). unopened F st) (auth_flow_login E cb)
    (\<lambda>_ (st, out). login_done (st, out) \<and> (\<exists>F'. store_abs F' = store_abs F \<and> kept_session E F' st))
    (\<lambda>(st, out). good st \<and> store_abs (fw_files st) = store_abs F)"
proof -
  let ?K = "\<lambda>(st, out :: auth_flow_result option). unopened F st"
  let ?Q = "\<lambda>_ :: unit. \<lambda>(st, out). login_done (st, out) \<and> (\<exists>F'. store_abs F' = store_abs F \<and> kept_session E F' st)"
  let ?R = "\<lambda>(st, out :: auth_flow_result option). good st \<and> store_abs (fw_files st) = store_abs F"
  have off: "unopened F st \<Longrightarrow> good st \<and> store_abs (fw_files st) = store_abs F" for st
    by (simp add: unopened_def idle_def)
  have clear: "meets ?K (put_out g) (\<lambda>_. ?K) ?R" for g by (rule meets_put_out) simp
  have back_up: "meets ?K (on_fst (restore_session E))
      (\<lambda>saved (st, out). case saved of Some dc \<Rightarrow> resumed F dc st | None \<Rightarrow> unopened F st) ?R"
    by (rule meets_weaken[OF meets_on_fst[OF meets_restore]]) (auto dest: off)
  have old: "meets (\<lambda>(st, out). resumed F dc st) (put_out (\<lambda>out. out\<lparr>fr_dc_id := dc, fr_user_id := 0\<rparr>)) ?Q ?R" for dc
    by (rule meets_put_out) (auto simp: resumed_def login_done_def kept_session_def Let_def intro!: exI[of _ F])
  have new: "meets ?K (fresh_login E cb) ?Q ?R"
  proof (rule meets_any[where f = "\<lambda>(st, out). fw_files st"])
    fix F' show "meets (\<lambda>so. ?K so \<and> (case so of (st, out) \<Rightarrow> fw_files st) = F') (fresh_login E cb) ?Q ?R"
    proof (cases "store_abs F' = store_abs F")
      case True
      then show ?thesis
        by (intro meets_weaken[OF meets_fresh[OF assms, of F' cb]]) (auto simp: unopened_def left_off_def)
    qed (auto simp: meets_def unopened_def)
  qed
  have "meets (\<lambda>(st, out). case saved of Some dc \<Rightarrow> resumed F dc st | None \<Rightarrow> unopened F st)
      (case saved of Some saved_dc \<Rightarrow> put_out (\<lambda>out. out\<lparr>fr_dc_id := saved_dc, fr_user_id := 0\<rparr>)
        | None \<Rightarrow> fresh_login E cb) ?Q ?R" for saved
    using old new by (cases saved) simp_all
  from meets_bind[OF clear meets_bind[OF back_up this]] show ?thesis
    unfolding auth_flow_login_def by (rule meets_cases(1)[rotated]) (auto dest: off)
qed

section \<open>Properties\<close>


text \<open>
  C40. The fallback of a redirection cannot work. \<open>migrate\<close> wipes the session before it
  connects, so when it fails and \<open>migrate_soft\<close>, which is to reuse the existing key, gets its
  connection, there is no key: every request for a code fails before anything is sent, and
  the login ends. Nothing is written to the new connection.
\<close>

theorem soft_migration_useless:
  assumes "flow_ok E" "good st" "migrate E new_dc dh_dc st = (Fail, st1)" "migrate_soft E new_dc st1 = (Ok (), st2)"
  shows "\<not> has_auth_key (fw_s st2) \<and>
    send_code_loop E phone n new_dc sc st2 = (Fail, st2\<lparr>fw_step := fw_step st2 + 1\<rparr>)"
proof -
  have off: "idle st1" "\<not> has_auth_key (fw_s st1)"
    using meetsD[OF meets_migrate[OF assms(1), of "fw_files st"] _ assms(3)] assms(2) by simp_all
  then have st1: "good st1 \<and> has_auth_key (fw_s st1) = False \<and> fw_files st1 = fw_files st1" by (simp add: idle_def)
  have key: "\<not> has_auth_key (fw_s st2)" using meetsD[OF meets_soft st1 assms(4)] by simp
  then show ?thesis
    unfolding send_code_loop.simps[of E phone n new_dc sc]
    by (simp add: bind_def no_key_request fail_def)
qed

section \<open>A concrete run\<close>

definition demo_flow_env :: flow_env where
  "demo_flow_env = \<lparr>fe_dcs = \<lparr>dt_env_host = None, dt_env_port = None, dt_host_overrides = replicate 5 None\<rparr>,
     fe_cfg = api_config_init, fe_client = (\<lambda>_. demo_client), fe_keygen = (\<lambda>_. demo_env), fe_rand = (\<lambda>_. 7),
     fe_connect = (\<lambda>k. \<lparr>cn_created = 3 + int k, cn_rc = 0, cn_script = [Moves 1, Broken], cn_incoming = []\<rparr>),
     fe_io = (\<lambda>_. demo_io), fe_bn = plain_bn, fe_kdf = (\<lambda>_ _ _ _. None), fe_srp_rand = (\<lambda>_. None)\<rparr>"

definition demo_flow :: "files \<Rightarrow> flow" where
  "demo_flow fs = \<lparr>fw_t = transport_init, fw_s = mtproto_session_init 7, fw_w = \<lparr>script = [], sent = [], incoming = [], open_fds = {}\<rparr>,
     fw_files = fs, fw_step = 0, fw_dialed = []\<rparr>"

definition demo_callbacks :: auth_flow_callbacks where
  "demo_callbacks = \<lparr>cb_get_phone = Some (Some [49]), cb_get_code = Some None, cb_get_password = None\<rparr>"

text \<open>A directory with the session of data centre 2.\<close>

definition demo_files :: files where
  "demo_files = snd (session_store_save demo_io demo_keyed 2 Map.empty)"

lemma demo_flow_ok: "flow_ok demo_flow_env"
  using demo_client_ok demo_env_ok plain_bn_ok
  by (simp add: flow_ok_def demo_flow_env_def client_ok_def demo_client_def)

lemma demo_files_abs: "store_abs demo_files = (2, [2 \<mapsto> (5, 7, replicate 256 9)])"
proof -
  obtain res fs' where up: "upsert demo_io 2 demo_keyed True Map.empty = (res, fs')" by fastforce
  have key: "length (auth_key demo_keyed) = 256" "int32_ok 2" "has_auth_key demo_keyed"
      "key_of demo_keyed = (5, 7, replicate 256 9)"
    by (simp_all add: demo_keyed_def int32_ok_def key_of_def mtproto_session_init_def)
  have io: "io_works demo_io (count_after 2 Map.empty)" "count_after 2 Map.empty \<le> 5"
    by (simp_all add: io_works_def demo_io_def io_locks_def count_after_def store_abs_empty)
  then have "res = Ok ()" using upsert_succeeds[OF key(3) io key(1,2), of True] up by simp
  then show ?thesis
    using upsert_abs(1)[OF up key(1,2)] up key(4) by (simp add: demo_files_def session_store_save_def store_abs_empty)
qed

lemma demo_load:
  obtains fs where "session_store_load (fe_io demo_flow_env k) demo_files s = (Ok (2, restore (5, 7, replicate 256 9) s), fs)"
proof -
  obtain r fs where l: "session_store_load demo_io demo_files s = (r, fs)" by fastforce
  have "r = Ok (2, restore (5, 7, replicate 256 9) s)"
    using load_abs(2)[OF l] by (simp add: demo_files_abs demo_io_def io_locks_def)
  with l that show ?thesis by (simp add: demo_flow_env_def)
qed

lemma demo_lookup: "dc_lookup (fe_dcs demo_flow_env) 2 = Some \<lparr>ep_id = 2, ep_host = ascii ''149.154.167.50'', ep_port = 443\<rparr>"
  by (simp add: dc_lookup_eq redirected_def nonempty_def demo_flow_env_def abs_dc_def builtin_host_def ENDPOINTS_def)

lemma demo_dial: "transport_fd (fw_t st) < 0 \<Longrightarrow> dial demo_flow_env ep st =
    (Ok (), st\<lparr>fw_step := fw_step st + 1,
       fw_t := (fw_t st)\<lparr>transport_fd := 3 + int (fw_step st), transport_connected := 1\<rparr>,
       fw_w := (fw_w st)\<lparr>script := [Broken], incoming := [], sent := sent (fw_w st) @ [0xEF], open_fds := insert (3 + int (fw_step st)) (open_fds (fw_w st))\<rparr>,
       fw_dialed := fw_dialed st @ [ep]\<rparr>)"
  by (simp add: dial_def demo_flow_env_def bind_def next_step_def transport_connect_def send_retry_eq Let_def)

lemma demo_steps:
  "init_session demo_flow_env st = (Ok (), st\<lparr>fw_step := fw_step st + 1, fw_s := mtproto_session_init 7\<rparr>)"
  "renew_session demo_flow_env st = (Ok (), st\<lparr>fw_step := fw_step st + 1, fw_s := mtproto_session_renew_id 7 (fw_s st)\<rparr>)"
  "set_dc dc st = (Ok (), st\<lparr>fw_t := (fw_t st)\<lparr>transport_dc_id := dc\<rparr>\<rparr>)"
  "transport_fd (fw_t st) < 0 \<Longrightarrow> hang_up st = (Ok (), st)"
  by (simp_all add: init_session_def renew_session_def set_dc_def hang_up_def transport_close_def bind_def next_step_def
      modify_def demo_flow_env_def)

lemma demo_loaded:
  assumes "fw_files st = demo_files"
  obtains fs where "load_session demo_flow_env st =
    (Ok 2, st\<lparr>fw_step := fw_step st + 1, fw_files := fs, fw_s := restore (5, 7, replicate 256 9) (fw_s st)\<rparr>)"
proof -
  obtain fs where "session_store_load (fe_io demo_flow_env (fw_step st)) demo_files (fw_s st) =
      (Ok (2, restore (5, 7, replicate 256 9) (fw_s st)), fs)" by (rule demo_load)
  with assms that show ?thesis by (simp add: load_session_def bind_def next_step_def)
qed

lemma demo_reused: "transport_fd (fw_t st) < 0 \<Longrightarrow> \<exists>st'. reuse_session demo_flow_env 2 st = (Ok True, st')"
  by (simp add: reuse_session_def bind_def demo_steps demo_lookup demo_dial attempt_def ret_def Let_def)

lemma demo_restored: "\<exists>st'. restore_session demo_flow_env (demo_flow demo_files) = (Ok (Some 2), st')"
proof -
  let ?st = "(demo_flow demo_files)\<lparr>fw_step := 1, fw_s := mtproto_session_init 7\<rparr>"
  have init: "init_session demo_flow_env (demo_flow demo_files) = (Ok (), ?st)" by (simp add: demo_steps demo_flow_def)
  have "fw_files ?st = demo_files" by (simp add: demo_flow_def)
  then obtain fs where load: "load_session demo_flow_env ?st =
      (Ok 2, ?st\<lparr>fw_step := fw_step ?st + 1, fw_files := fs, fw_s := restore (5, 7, replicate 256 9) (fw_s ?st)\<rparr>)" (is "_ = (_, ?st1)")
    by (rule demo_loaded)
  have "transport_fd (fw_t ?st1) < 0" by (simp add: demo_flow_def transport_init_def)
  then obtain st' where reuse: "reuse_session demo_flow_env 2 ?st1 = (Ok True, st')" using demo_reused by blast
  have "has_auth_key (fw_s ?st1)" by (simp add: restore_def)
  with init load reuse show ?thesis
    unfolding restore_session_def bind_def attempt_def by (simp del: flow.simps add: ret_def)
qed


lemma demo_no_key:
  "script (fw_w st) = [Broken] \<Longrightarrow> 0 \<le> transport_fd (fw_t st) \<Longrightarrow> \<exists>st'. key_gen demo_flow_env st = (Fail, st')"
  by (simp add: key_gen_def next_step_def mtproto_auth_key_gen_def auth_step_req_pq_def rpc_send_unencrypted_def on_snd_def bind_def
      client_messages wire_simps transport_send_def send_exact_def send_retry.simps sys_socket_send_def
      demo_flow_env_def demo_env_def mtproto_session_next_msg_id_def Let_def tl_writer_init_def
      fail_def split_beta)

lemma demo_migrate: "\<exists>st1. migrate demo_flow_env 2 2 (demo_flow Map.empty) = (Fail, st1)"
proof -
  have "transport_fd (fw_t (demo_flow Map.empty)) < 0" by (simp add: demo_flow_def transport_init_def)
  then have "\<exists>st. script (fw_w st) = [Broken] \<and> 0 \<le> transport_fd (fw_t st) \<and>
      migrate demo_flow_env 2 2 (demo_flow Map.empty) =
        bind (attempt (key_gen demo_flow_env)) (\<lambda>rc. case rc of None \<Rightarrow> bind hang_up (\<lambda>_. fail) | Some _ \<Rightarrow> set_dc 2) st"
    by (simp add: migrate_def connect_dc_ex_def bind_def[of hang_up] bind_def[of "init_session _"] bind_def[of "dial _ _"]
        bind_def[of "set_dc _"] demo_steps demo_lookup demo_dial) (intro exI conjI, rule_tac[3] refl, simp_all)
  then show ?thesis using demo_no_key by (force simp: bind_def attempt_def hang_up_def modify_def fail_def)
qed

theorem soft_migration_useless_witness:
  "\<exists>st1 st2. migrate demo_flow_env 2 2 (demo_flow Map.empty) = (Fail, st1) \<and> migrate_soft demo_flow_env 2 st1 = (Ok (), st2) \<and>
     fst (send_code_loop demo_flow_env [49] 1 2 sent_code_zero st2) = Fail"
proof -
  let ?st = "demo_flow Map.empty"
  have good: "good ?st" by (simp add: demo_flow_def good_def owns_def transport_init_def mtproto_session_init_def)
  obtain st1 where m: "migrate demo_flow_env 2 2 ?st = (Fail, st1)" using demo_migrate by blast
  then have "idle st1" using meetsD[OF meets_migrate[OF demo_flow_ok, of "fw_files ?st"] _ m] good by simp
  then have "\<exists>st2. migrate_soft demo_flow_env 2 st1 = (Ok (), st2)"
    by (simp add: idle_def migrate_soft_def bind_def demo_steps demo_lookup demo_dial)
  then obtain st2 where m': "migrate_soft demo_flow_env 2 st1 = (Ok (), st2)" by blast
  show ?thesis using soft_migration_useless[OF demo_flow_ok good m m'] m m' by simp
qed

end
