(* ===== verification/Dc_Session.thy ===== *)
theory Dc_Session
  imports Auth_Flow
begin

text \<open>
  Sessions with further data centres (\<open>src/src/app/dc_session.c\<close>) and the end of a session
  (\<open>auth_logout\<close> of \<open>src/src/infrastructure/auth_logout.c\<close>). The \<open>flow\<close> of a \<open>dc_session\<close> holds
  its transport and its MTProto session; the home session is a \<open>flow\<close> of its own.
\<close>

record dc_session =
  ds_dc_id :: int
  ds_flow :: flow
  ds_authorized :: bool

definition load_dc :: "flow_env \<Rightarrow> int \<Rightarrow> (flow, unit) cfun" where
  "load_dc E dc = bind next_step (\<lambda>k. (\<lambda>st.
     case session_store_load_dc (fe_io E k) dc (fw_files st) (fw_s st) of (res, fs) \<Rightarrow>
       let st = st\<lparr>fw_files := fs\<rparr> in
       case res of
         Ok s \<Rightarrow> (Ok (), st\<lparr>fw_s := s\<rparr>) | Fail \<Rightarrow> (Fail, st) | Oob \<Rightarrow> (Oob, st) | Fuel \<Rightarrow> (Fuel, st)))"

definition save_dc :: "flow_env \<Rightarrow> int \<Rightarrow> (flow, unit) cfun" where
  "save_dc E dc = bind next_step (\<lambda>k. (\<lambda>st.
     case session_store_save_dc (fe_io E k) dc (fw_s st) (fw_files st) of (res, fs) \<Rightarrow> (res, st\<lparr>fw_files := fs\<rparr>)))"

text \<open>The key exchange of the slow path, and the fast path in front of it; the result is \<open>authorized\<close>.\<close>

definition open_fresh :: "flow_env \<Rightarrow> int \<Rightarrow> (flow, bool) cfun" where
  "open_fresh E dc =
     bind (auth_flow_connect_dc E dc) (\<lambda>_.
     bind (attempt (save_dc E dc)) (\<lambda>_. ret False))"

definition open_cached :: "flow_env \<Rightarrow> int \<Rightarrow> (flow, bool) cfun" where
  "open_cached E dc =
     bind (case dc_lookup (fe_dcs E) dc of None \<Rightarrow> ret None | Some ep \<Rightarrow> attempt (dial E ep)) (\<lambda>rc.
       case rc of
         Some _ \<Rightarrow> bind (set_dc dc) (\<lambda>_. ret True)
       | None \<Rightarrow> bind hang_up (\<lambda>_. bind (init_session E) (\<lambda>_. open_fresh E dc)))"

definition dc_session_open :: "flow_env \<Rightarrow> int \<Rightarrow> (flow, bool) cfun" where
  "dc_session_open E dc =
     bind (modify (\<lambda>st. st\<lparr>fw_t := transport_init\<rparr>)) (\<lambda>_.
     bind (init_session E) (\<lambda>_.
     bind (attempt (load_dc E dc)) (\<lambda>rc.
       case rc of Some _ \<Rightarrow> open_cached E dc | None \<Rightarrow> open_fresh E dc)))"

text \<open>\<open>E\<close> is the environment of the session, \<open>H\<close> that of the home session.\<close>

definition dc_session_ensure_authorized :: "flow_env \<Rightarrow> flow_env \<Rightarrow> (dc_session \<times> flow, unit) cfun" where
  "dc_session_ensure_authorized E H = (\<lambda>(sess, home).
     if ds_authorized sess then (Ok (), (sess, home))
     else case send_request H 0 \<lparr>ex_id = 0, ex_bytes = []\<rparr> (\<lambda>_ C. auth_transfer_export C (ds_dc_id sess)) home of
       (Ok (ok, _, tok), home) \<Rightarrow>
         if \<not> ok then (Fail, (sess, home))
         else (case send_request E 0 () (\<lambda>_ C. on_fst (auth_transfer_import C tok)) (ds_flow sess) of
           (Ok (ok, _, _), f) \<Rightarrow>
             if \<not> ok then (Fail, (sess\<lparr>ds_flow := f\<rparr>, home))
             else (Ok (), (sess\<lparr>ds_authorized := True, ds_flow := snd (save_dc E (ds_dc_id sess) f)\<rparr>, home))
         | (Fail, f) \<Rightarrow> (Fail, (sess\<lparr>ds_flow := f\<rparr>, home)) | (Oob, f) \<Rightarrow> (Oob, (sess\<lparr>ds_flow := f\<rparr>, home))
         | (Fuel, f) \<Rightarrow> (Fuel, (sess\<lparr>ds_flow := f\<rparr>, home)))
     | (Fail, home) \<Rightarrow> (Fail, (sess, home)) | (Oob, home) \<Rightarrow> (Oob, (sess, home)) | (Fuel, home) \<Rightarrow> (Fuel, (sess, home)))"

definition dc_session_close :: "dc_session \<Rightarrow> dc_session" where
  "dc_session_close sess = sess\<lparr>ds_flow := snd (hang_up (ds_flow sess))\<rparr>"

text \<open>The session file goes whatever the server says; \<open>on_logout\<close> is the registered callback.\<close>

definition auth_logout :: "client_env \<Rightarrow> bool \<Rightarrow> ('s \<Rightarrow> 's) option \<Rightarrow> (link \<times> files \<times> 's, unit) cfun" where
  "auth_logout E removed on_logout = (\<lambda>(link, fs, s).
     case attempt (auth_logout_rpc E) link of
       (Ok _, link) \<Rightarrow> (Ok (), (link, session_store_clear removed fs, (case on_logout of None \<Rightarrow> s | Some f \<Rightarrow> f s)))
     | (Fail, link) \<Rightarrow> (Fail, (link, fs, s)) | (Oob, link) \<Rightarrow> (Oob, (link, fs, s)) | (Fuel, link) \<Rightarrow> (Fuel, (link, fs, s)))"

section \<open>Opening\<close>

definition opened :: "int \<Rightarrow> flow \<Rightarrow> bool" where
  "opened dc st = (online st \<and> has_auth_key (fw_s st) \<and> transport_dc_id (fw_t st) = dc)"

lemma load_dc_keeps: "session_store_load_dc io dc fs s = (res, fs') \<Longrightarrow> store_abs fs' = store_abs fs"
  by (auto simp: session_store_load_dc_def store_abs_def split: prod.splits outcome.splits dest: lock_file_keeps)

lemma meets_load_dc:
  "meets (\<lambda>st. idle st \<and> snd (store_abs (fw_files st)) = K) (load_dc E dc)
    (\<lambda>_ st. idle st \<and> has_auth_key (fw_s st) \<and> snd (store_abs (fw_files st)) = K \<and>
      (\<exists>salt sid. K dc = Some (salt, sid, auth_key (fw_s st)))) idle"
proof (rule meetsI)
  fix st res st' assume st: "idle st \<and> snd (store_abs (fw_files st)) = K" and run: "load_dc E dc st = (res, st')"
  obtain r fs where l: "session_store_load_dc (fe_io E (fw_step st)) dc (fw_files st) (fw_s st) = (r, fs)" by fastforce
  have abs: "store_abs fs = store_abs (fw_files st)"
      "r = (if \<not> io_locks (fe_io E (fw_step st)) then Fail
        else case snd (store_abs (fw_files st)) dc of None \<Rightarrow> Fail | Some v \<Rightarrow> Ok (restore v (fw_s st)))"
    using load_dc_keeps[OF l] load_dc_abs[of "fe_io E (fw_step st)" dc "fw_files st" "fw_s st"] l by auto
  show "case res of Ok x \<Rightarrow> idle st' \<and> has_auth_key (fw_s st') \<and> snd (store_abs (fw_files st')) = K \<and>
      (\<exists>salt sid. K dc = Some (salt, sid, auth_key (fw_s st'))) | Fail \<Rightarrow> idle st' | Oob \<Rightarrow> False | Fuel \<Rightarrow> True"
  proof (cases "snd (store_abs (fw_files st)) dc")
    case (Some v)
    then have "length (snd (snd v)) = 256" using store_abs_key[of "fw_files st" dc] by (cases v) auto
    with Some run l st abs show ?thesis
      by (cases v) (auto simp: load_dc_def bind_def next_step_def idle_def good_def owns_def restore_def split: if_splits)
  qed (use run l st abs in \<open>auto simp: load_dc_def bind_def next_step_def idle_def good_def owns_def split: if_splits\<close>)
qed

lemma meets_save_dc: "meets (opened dc) (attempt (save_dc E dc')) (\<lambda>_. opened dc) R"
proof (rule meetsI)
  fix st res st' assume st: "opened dc st" and run: "attempt (save_dc E dc') st = (res, st')"
  obtain r fs where save: "session_store_save_dc (fe_io E (fw_step st)) dc' (fw_s st) (fw_files st) = (r, fs)" by fastforce
  have "r \<noteq> Oob" "r \<noteq> Fuel" using save
    by (auto simp: session_store_save_dc_def upsert_def write_file_atomic_def lock_file_def Let_def
        split: if_splits outcome.splits option.splits)
  then show "case res of Ok x \<Rightarrow> opened dc st' | Fail \<Rightarrow> R st' | Oob \<Rightarrow> False | Fuel \<Rightarrow> True"
    using run save st
    by (cases r) (auto simp: attempt_def save_dc_def bind_def next_step_def opened_def online_def good_def owns_def)
qed

lemma meets_open_fresh:
  assumes "flow_ok E"
  shows "meets idle (open_fresh E dc) (\<lambda>_. opened dc) idle"
proof -
  have "meets idle (auth_flow_connect_dc E dc) (\<lambda>_. opened dc) idle"
    unfolding auth_flow_connect_dc_def
    by (rule meets_any[where f = "\<lambda>st. (has_auth_key (fw_s st), fw_files st)"],
        rule meets_any[where f = "\<lambda>st. has_auth_key (fw_s st)"], rule meets_any[where f = fw_files],
        rule meets_weaken[OF meets_connect[OF assms]]) (auto simp: opened_def)
  then show ?thesis
    unfolding open_fresh_def by (rule meets_bind) (rule meets_bind[OF meets_save_dc], simp)
qed

lemma meets_open_cached:
  assumes "flow_ok E"
  shows "meets (\<lambda>st. idle st \<and> has_auth_key (fw_s st)) (open_cached E dc) (\<lambda>_. opened dc) idle"
proof -
  let ?I = "\<lambda>st. idle st \<and> has_auth_key (fw_s st)" and ?U = "\<lambda>st. online st \<and> has_auth_key (fw_s st)"
  have dial: "meets ?I (dial E ep) (\<lambda>_. ?U) ?I" for ep
    by (rule meets_any[where f = fw_files], rule meets_weaken[OF meets_dial[of True]]) auto
  have tried: "meets ?I (case ep of None \<Rightarrow> ret None | Some e \<Rightarrow> attempt (dial E e))
      (\<lambda>rc st. case rc of Some _ \<Rightarrow> ?U st | None \<Rightarrow> ?I st) idle" for ep
    by (rule meets_cases(2)) (auto intro!: meets_weaken[OF meets_attempt[OF dial]] split: option.splits)
  have go: "meets ?U (bind (set_dc dc) (\<lambda>_. ret True)) (\<lambda>_. opened dc) idle"
    by (auto simp: meets_def bind_def set_dc_def modify_def ret_def opened_def online_def good_def owns_def)
  have down: "meets ?I (bind hang_up (\<lambda>_. init_session E)) (\<lambda>_. idle) idle"
    by (auto simp: meets_def bind_def hang_up_def init_session_def next_step_def modify_def
        idle_def good_def owns_def transport_close_def mtproto_session_init_def Let_def)
  have assoc: "bind hang_up (\<lambda>_. bind (init_session E) (\<lambda>_. open_fresh E dc)) =
      bind (bind hang_up (\<lambda>_. init_session E)) (\<lambda>_. open_fresh E dc)"
    by (auto simp: bind_def fun_eq_iff split: prod.splits outcome.splits)
  have again: "meets ?I (bind hang_up (\<lambda>_. bind (init_session E) (\<lambda>_. open_fresh E dc))) (\<lambda>_. opened dc) idle"
    unfolding assoc by (rule meets_bind[OF down meets_open_fresh[OF assms]])
  have "meets (\<lambda>st. case rc of Some _ \<Rightarrow> ?U st | None \<Rightarrow> ?I st) (case rc of Some _ \<Rightarrow> bind (set_dc dc) (\<lambda>_. ret True)
      | None \<Rightarrow> bind hang_up (\<lambda>_. bind (init_session E) (\<lambda>_. open_fresh E dc))) (\<lambda>_. opened dc) idle" for rc :: "unit option"
    by (cases rc) (simp_all only: option.case go again)
  then show ?thesis unfolding open_cached_def by - (rule meets_bind[OF tried])
qed

text \<open>Opened sessions are connected and have a key; a failure leaves no descriptor open.\<close>

lemma dc_session_open_outcome:
  assumes "flow_ok E"
  shows "meets (\<lambda>st. open_fds (fw_w st) = {}) (dc_session_open E dc) (\<lambda>_. opened dc) idle"
proof -
  have start: "meets (\<lambda>st. open_fds (fw_w st) = {}) (bind (modify (\<lambda>st. st\<lparr>fw_t := transport_init\<rparr>)) (\<lambda>_. init_session E))
      (\<lambda>_. idle) idle"
    by (auto simp: meets_def bind_def init_session_def next_step_def modify_def idle_def good_def owns_def
        transport_init_def mtproto_session_init_def)
  have load: "meets idle (attempt (load_dc E dc))
      (\<lambda>rc st. case rc of Some _ \<Rightarrow> idle st \<and> has_auth_key (fw_s st) | None \<Rightarrow> idle st) idle"
    by (rule meets_any[where f = "\<lambda>st. snd (store_abs (fw_files st))"],
        rule meets_weaken[OF meets_attempt[OF meets_load_dc]]) (auto split: option.splits)
  have "meets (\<lambda>st. case rc of Some _ \<Rightarrow> idle st \<and> has_auth_key (fw_s st) | None \<Rightarrow> idle st)
      (case rc of Some _ \<Rightarrow> open_cached E dc | None \<Rightarrow> open_fresh E dc) (\<lambda>_. opened dc) idle" for rc :: "unit option"
    by (cases rc) (simp_all only: option.case meets_open_cached[OF assms] meets_open_fresh[OF assms])
  note rest = meets_bind[OF load this]
  have "dc_session_open E dc = bind (bind (modify (\<lambda>st. st\<lparr>fw_t := transport_init\<rparr>)) (\<lambda>_. init_session E)) (\<lambda>_.
      bind (attempt (load_dc E dc)) (\<lambda>rc. case rc of Some _ \<Rightarrow> open_cached E dc | None \<Rightarrow> open_fresh E dc))"
    by (auto simp: dc_session_open_def bind_def fun_eq_iff split: prod.splits outcome.splits)
  then show ?thesis using meets_bind[OF start rest] by simp
qed

section \<open>Authorization\<close>

text \<open>
  A new key is saved at once, before anything authorized it, and the next session opened with
  a saved key counts as authorized.
\<close>

lemma new_key_saved:
  assumes "open_fresh E dc st = (Ok a, st')" "int32_ok dc" "flow_ok E" "idle st"
    and "\<And>k fs. io_works (fe_io E k) (count_after dc fs) \<and> count_after dc fs \<le> 5"
  shows "\<not> a \<and> snd (store_abs (fw_files st')) dc = Some (key_of (fw_s st'))"
proof -
  obtain u st1 where c: "connect_dc_ex E dc dc st = (Ok u, st1)" "bind (attempt (save_dc E dc)) (\<lambda>_. ret False) st1 = (Ok a, st')"
    using assms(1) by (auto simp: open_fresh_def auth_flow_connect_dc_def bind_def split: prod.splits outcome.splits)
  have key: "has_auth_key (fw_s st1)" "length (auth_key (fw_s st1)) = 256"
    using meetsD[OF meets_connect[OF assms(3), of "has_auth_key (fw_s st)" "fw_files st"] _ c(1)] assms(4)
    by (auto simp: online_def good_def)
  obtain r fs where save: "upsert (fe_io E (fw_step st1)) dc (fw_s st1) False (fw_files st1) = (r, fs)" by fastforce
  have "r = Ok ()"
    using upsert_succeeds[OF key(1) _ _ key(2) assms(2), of "fe_io E (fw_step st1)" "fw_files st1" False] assms(5) save
    by (metis fst_conv)
  with upsert_abs(1)[OF save key(2) assms(2)] save c(2) show ?thesis
    by (auto simp: bind_def attempt_def save_dc_def next_step_def ret_def session_store_save_dc_def)
qed

lemma saved_key_authorized:
  assumes "snd (store_abs (fw_files st)) dc = Some (salt, sid, key)" "io_locks (fe_io E (fw_step st + 1))"
    and "dc_lookup (fe_dcs E) dc = Some ep" "\<And>st. transport_fd (fw_t st) < 0 \<Longrightarrow> fst (dial E ep st) = Ok ()"
  shows "\<exists>st'. dc_session_open E dc st = (Ok True, st') \<and> auth_key (fw_s st') = key"
proof -
  let ?st = "st\<lparr>fw_t := transport_init, fw_step := fw_step st + 1, fw_s := mtproto_session_init (fe_rand E (fw_step st))\<rparr>"
  obtain r fs where l: "session_store_load_dc (fe_io E (fw_step st + 1)) dc (fw_files st) (fw_s ?st) = (r, fs)" by fastforce
  have "r = Ok (restore (salt, sid, key) (fw_s ?st))"
    using load_dc_abs[of "fe_io E (fw_step st + 1)" dc "fw_files st" "fw_s ?st"] l assms(1,2) by simp
  then have load: "load_dc E dc ?st = (Ok (), ?st\<lparr>fw_step := fw_step st + 2, fw_files := fs,
      fw_s := restore (salt, sid, key) (fw_s ?st)\<rparr>)" (is "_ = (_, ?st1)")
    using l by (simp add: load_dc_def bind_def next_step_def)
  have "fst (dial E ep ?st1) = Ok ()" using assms(4) by (simp add: transport_init_def)
  then obtain st2 where d: "dial E ep ?st1 = (Ok (), st2)" by (metis prod.collapse)
  have "fw_s st2 = fw_s ?st1" using framesD[OF frames_dial d] by auto
  with load d show ?thesis
    by (simp add: dc_session_open_def open_cached_def assms(3) bind_def modify_def init_session_def next_step_def attempt_def
        set_dc_def ret_def restore_def)
qed

text \<open>Getting an authorization makes no access outside its buffers and leaves both connections as they are.\<close>

lemma transfer_requests:
  "client_fn E exported_ok (\<lambda>_ C. auth_transfer_export C dc)"
  "client_fn E (\<lambda>_. True) (\<lambda>_ C. on_fst (auth_transfer_import C tok))"
proof -
  have "safe (beside anywhere anywhere) (on_fst (auth_transfer_import C tok))" if "client_ok C" for C
    using safe_auth_rest(2)[OF that, of tok] by (auto simp: safe_def on_fst_def beside_def split: prod.splits outcome.splits) (metis fst_conv)
  then show "client_fn E (\<lambda>_. True) (\<lambda>_ C. on_fst (auth_transfer_import C tok))"
    using frames_auth_requests(8)
    by (auto simp: client_fn_def beside_def[abs_def] frames_def on_fst_def split: prod.splits) (metis fst_conv snd_conv)
qed (use safe_auth_requests frames_auth_requests in \<open>simp add: client_fn_def\<close>)

lemma request_core:
  assumes "flow_ok E" "client_fn E J m" "J x" "send_request E mg x m st = (res, st')"
  shows "(\<exists>ok e y. res = Ok (ok, e, y) \<and> core st' = core st \<and> J y) \<or> res = Fuel"
proof -
  have "meets (\<lambda>s. core s = core st) (send_request E mg x m) (\<lambda>(ok, e, y) s. core s = core st \<and> J y) (\<lambda>_. False)"
    by (rule meets_request[OF assms(1-3)]) simp
  from meetsD[OF this refl assms(4)] show ?thesis by (cases res) auto
qed

lemma ensure_authorized_outcome:
  assumes "flow_ok E" "flow_ok H" "dc_session_ensure_authorized E H (sess, home) = (res, (sess', home'))"
  shows "res = Fuel \<or> (res = (if ds_authorized sess' then Ok () else Fail) \<and> core home' = core home \<and>
    (opened dc (ds_flow sess) \<longrightarrow> opened dc (ds_flow sess')))"
proof (cases "ds_authorized sess")
  case False
  have open_core: "opened dc st' \<Longrightarrow> opened dc st" if "core st = core st'" for st st'
    unfolding opened_def by (metis core_good(3-5)[OF that])
  have saved: "opened dc st \<Longrightarrow> opened dc (snd (save_dc E d st))" for d st
    by (simp add: save_dc_def bind_def next_step_def opened_def online_def good_def owns_def split: prod.splits)
  have tok: "exported_ok \<lparr>ex_id = 0, ex_bytes = []\<rparr>" by (simp add: exported_ok_def)
  obtain r h where e: "send_request H 0 \<lparr>ex_id = 0, ex_bytes = []\<rparr> (\<lambda>_ C. auth_transfer_export C (ds_dc_id sess)) home = (r, h)"
    by (rule prod.exhaust)
  from request_core[OF assms(2) transfer_requests(1) tok e] consider
    (fuel) "r = Fuel" | (ok) ok err tk where "r = Ok (ok, err, tk)" "core h = core home" by auto
  then show ?thesis
  proof cases
    case ok
    obtain q f where i: "send_request E 0 () (\<lambda>_ C. on_fst (auth_transfer_import C tk)) (ds_flow sess) = (q, f)"
      by (rule prod.exhaust)
    from request_core[OF assms(1) transfer_requests(2) TrueI i] show ?thesis
      using assms(3) False ok open_core[of f "ds_flow sess"] saved[of f]
      by (auto simp: dc_session_ensure_authorized_def e i split: if_splits)
  qed (use assms(3) False e in \<open>auto simp: dc_session_ensure_authorized_def\<close>)
qed (use assms(3) in \<open>auto simp: dc_session_ensure_authorized_def\<close>)

section \<open>Logging out\<close>

lemma auth_logout_outcome:
  assumes "client_ok E" "auth_logout E True on_logout (l, fs, s) = (res, (l', fs', s'))"
  shows "res = Ok () \<or> res = Fuel" and "res = Ok () \<Longrightarrow> store_abs fs' = (0, Map.empty)" and "held l' = held l"
proof -
  obtain r l1 where rpc: "auth_logout_rpc E l = (r, l1)" by (rule prod.exhaust)
  have r: "r \<noteq> Oob" "held l1 = held l"
    using safeD[OF safe_auth_rest(3)[OF assms(1)] _ rpc] framesD[OF frames_auth_requests(9) rpc] by simp_all
  have "store_abs (session_store_clear True fs) = (0, Map.empty)"
    by (simp add: session_store_clear_def store_abs_def loaded_def read_file_locked_def empty_store_def entry_map_def)
  then show "res = Ok () \<or> res = Fuel" "res = Ok () \<Longrightarrow> store_abs fs' = (0, Map.empty)" "held l' = held l"
    using assms(2) r by (cases r; auto simp: auth_logout_def attempt_def rpc)+
qed

end
