(* ===== verification/Spec2Isabelle.thy ===== *)
theory Spec2Isabelle
  imports TL_Laws TL_Extract MTProto_Auth_Agree Auth_Session Domain_Search Domain_Updates Domain_Users Domain_Contacts Domain_Dialogs
    Dc_Session
begin

text \<open>
  A verification development for tg-cli, a Telegram client in C.

  \<^bold>\<open>The program.\<close> A command of the client becomes a TL query, a byte string in Telegram's
  type language (\<open>src/src/core/tl_serial.c\<close>). \<open>api_call\<close>
  (\<open>src/src/infrastructure/api_call.c\<close>) wraps it, hands it to the RPC layer
  (\<open>mtproto_rpc.c\<close>), which numbers it with the session (\<open>src/src/core/mtproto_session.c\<close>),
  encrypts it (\<open>mtproto_crypto.c\<close> on top of \<open>ige_aes.c\<close>) and sends it through the abridged
  transport (\<open>transport.c\<close>) over a socket. Answers take the way back; the objects in
  them are walked by \<open>src/src/core/tl_skip.c\<close>. Before the first call the authorization key is
  agreed on by \<open>mtproto_auth.c\<close>. The commands themselves (\<open>src/src/domain/\<close>) build a query,
  make the call and parse the answer into records. \<open>src/src/app/auth_flow.c\<close> logs in: it
  restores a session from the file of \<open>session_store.c\<close> or connects to a data centre of
  \<open>dc_config.c\<close>, exchanges a key, follows redirections and signs in; \<open>dc_session.c\<close> opens
  sessions with further data centres.

  \<^bold>\<open>How C is modelled.\<close> \<open>Prelude\<close> has the machine integers as words, \<open>size_t\<close> sums with their
  wrap-around, little-endian bytes and C strings. \<open>C_Monad\<close> has C functions as
  state-passing functions whose outcome is \<open>Ok\<close>, \<open>Fail\<close> (\<open>return -1\<close>), \<open>Oob\<close> (an access
  outside a buffer) or \<open>Fuel\<close> (a bound of the model is used up, or a blocking call has no
  answer yet); memory safety is the statement that \<open>Oob\<close> is never an outcome. A \<open>NULL\<close>
  output parameter is \<open>None\<close>. Allocation never fails in the model, and log calls are left out.

  \<^bold>\<open>Theories and sources.\<close>
  \<^item> \<open>TL_Serial\<close>: \<open>tl_serial.c\<close>, one definition per function. \<open>TL_Contract\<close> states what a
    reader promises as the locale \<open>reader_contract\<close> and interprets it twice on the model's
    reader, for memory safety and for 4-byte alignment. \<open>TL_Walk\<close> has the loops and
    vectors the walkers share, \<open>TL_Takes\<close> the calculus of encoded bytes, \<open>TL_Laws\<close> the
    round trip of the serializer and the bounds of the writer.
  \<^item> \<open>TL_Ids\<close>: the constructor numbers of \<open>tl_registry.h\<close> and \<open>tl_skip.c\<close>.
    \<open>TL_Skip_Base\<close>, \<open>TL_Skip_Reply\<close>, \<open>TL_Skip_Photo\<close>, \<open>TL_Skip_Chat\<close>, \<open>TL_Skip_Page\<close>,
    \<open>TL_Skip_Media\<close>, \<open>TL_Skip_Message\<close>: the walkers of \<open>tl_skip.c\<close> in source order.
    \<open>TL_Skip_Laws\<close>: safety, alignment, buffer bounds and the agreement of the extracting
    with the skipping calls. \<open>TL_Extract\<close>: what the extractor returns for an encoded user.
  \<^item> \<open>IGE\<close>, \<open>MTProto_Crypto\<close>, \<open>Session\<close>: \<open>ige_aes.c\<close>, \<open>mtproto_crypto.c\<close>, \<open>mtproto_session.c\<close>
    with their round trips, padding bounds and the order of message numbers.
  \<^item> \<open>Transport\<close>: \<open>transport.c\<close> and the socket wrapper \<open>platform/posix/socket.c\<close> over a
    network whose answers (partial, interrupted, broken) are a script.
  \<^item> \<open>RPC\<close>, \<open>RPC_Laws\<close>: \<open>mtproto_rpc.c\<close>; \<open>Api_Call\<close>, \<open>Api_Wire\<close>: \<open>api_call.c\<close>, up to the
    theorem that a call over a moving connection returns the server's result.
  \<^item> \<open>TL_State\<close>: parsers that fill a record while they read, with the rules for their safety
    and for encoded input. \<open>Crypto_BN\<close>: the big-number wrappers of \<open>src/src/core/crypto.c\<close>.
  \<^item> \<open>PQ\<close>, \<open>MTProto_Auth\<close>: \<open>mtproto_auth.c\<close>. \<open>MTProto_Auth_Safe\<close>: the key exchange against
    any peer. \<open>MTProto_Auth_Agree\<close>: with a server that follows the protocol both sides have
    the same key.
  \<^item> \<open>Client\<close>: what all commands share (a query of bounded size, the call, an error answer,
    the parse of the rest), with the rules that make a command safe and the ones that run it
    on an encoded answer. \<open>Client_Lists\<close>: vectors of objects in answers. \<open>Client_Frames\<close>:
    the parts of the state a command leaves alone.
  \<^item> \<open>Auth_2FA\<close>: \<open>auth_2fa.c\<close> with the agreement of the SRP proofs. \<open>Auth_Session\<close>:
    \<open>auth_session.c\<close>, \<open>auth_transfer.c\<close> and the request of \<open>auth_logout.c\<close>.
  \<^item> \<open>Domain_Write\<close>: \<open>domain/write/\<close> except uploads. \<open>Domain_History\<close>, \<open>Domain_Search\<close>,
    \<open>Domain_Updates\<close>, \<open>Domain_Users\<close>, \<open>Domain_Contacts\<close> (with \<open>self.c\<close>), \<open>Domain_Dialogs\<close>:
    the files of \<open>domain/read/\<close> except \<open>media.c\<close>. Each has the parsers in source order, their
    safety, and what the command returns for an answer encoded by the schema; the tables of
    \<open>user_info.c\<close> and \<open>dialogs.c\<close> are part of the state.
  \<^item> \<open>Session_Store\<close>: \<open>session_store.c\<close>, which refines a map from data centres to keys (the
    locale \<open>key_store\<close>, interpreted on the file). \<open>Dc_Config\<close>: \<open>dc_config.c\<close>.
    \<open>Auth_Flow\<close>: \<open>auth_flow.c\<close>, with the outcome of a login in terms of descriptors, key and
    file. \<open>Dc_Session\<close>: \<open>dc_session.c\<close> and \<open>auth_logout\<close>.

  \<^bold>\<open>Parameters.\<close> OpenSSL (hashes, AES), the inflater, the clock, the random generator,
  the file system and the network are arguments of the definitions. The theorems assume of
  them only what their documentation says: a hash has its length, AES decryption inverts
  encryption, the inflater stays within its capacity.

  \<^bold>\<open>Bounds and fuel.\<close> The recursive walkers (rich text, page blocks, input peers, messages)
  take the length of the buffer as fuel; since each level reads a constructor number,
  \<open>recursive_walkers_unfold\<close> shows that they satisfy the recursion equations of the C
  functions, and \<open>tl_skip_memory_safe\<close> that the fuel is never used up. The loops of the
  transport end because every positive answer moves a byte. The factorization has the
  bounds of the source (19 attempts of a million steps). The redirections of a login are
  bounded by the source (3). The depth of the C stack is not modelled: \<open>classify_service_frame\<close>
  recurses in the model as in the code.

  \<^bold>\<open>Not modelled.\<close> The manifest lists the parts with their reasons; in short, the programs
  and the terminal interface, the platform layer, the transfer of media files, the caches on
  disk other than the session file, and start-up (prompts and configuration). Two processes
  that use the session file at once are not modelled.
\<close>

end
